(* ===== verification/Prelude.thy ===== *)
theory Prelude
  imports Complex_Main "HOL-Library.AList" "HOL-Library.Multiset"
begin

text \<open>
  What every component shares: the collections of rewrite and introduction rules the component
  proofs draw on, the result type of fallible code, joining and splitting of key strings, the
  stable descending sort of the source (sorted with reverse=True), first-occurrence
  deduplication, and the insertion-ordered dictionary.

  Reading guide: a Python str is a HOL string, an unbounded int is int, a float score is
  a rat (exact arithmetic: rounding is not modelled), an aware datetime is an int (microseconds
  since the epoch, UTC), a dict whose order matters is an association list updated in place by
  AList.update, which is what a Python dict does (an existing key keeps its position, a
  new one goes to the end).
\<close>

named_theorems prefix_simps "shape of keys and namespace prefixes"
named_theorems store_simps "effect of the store operations on what a read returns"
named_theorems inv_intros "every operation preserves its component's invariant"

section \<open>Fallible results\<close>

definition rbind :: "'e + 'a \<Rightarrow> ('a \<Rightarrow> 'e + 'b) \<Rightarrow> 'e + 'b" where
  "rbind r f = (case r of Inl e \<Rightarrow> Inl e | Inr a \<Rightarrow> f a)"

lemma rbind_simps [simp]:
  "rbind (Inl e) f = Inl e"
  "rbind (Inr a) f = f a"
  by (simp_all add: rbind_def)

lemma rbind_Inr_iff: "rbind r f = Inr b \<longleftrightarrow> (\<exists>a. r = Inr a \<and> f a = Inr b)"
  by (cases r) auto

lemma rbind_Inl_iff: "rbind r f = Inl e \<longleftrightarrow> r = Inl e \<or> (\<exists>a. r = Inr a \<and> f a = Inl e)"
  by (cases r) auto

lemma rbind_split:
  "P (rbind r f) = ((\<forall>e. r = Inl e \<longrightarrow> P (Inl e)) \<and> (\<forall>a. r = Inr a \<longrightarrow> P (f a)))"
  by (cases r) auto

text \<open>A comprehension or loop whose body may raise: the first error ends it.\<close>
fun rmap :: "('a \<Rightarrow> 'e + 'b) \<Rightarrow> 'a list \<Rightarrow> 'e + 'b list" where
  "rmap f [] = Inr []"
| "rmap f (x # xs) = rbind (f x) (\<lambda>y. rbind (rmap f xs) (\<lambda>ys. Inr (y # ys)))"

lemma rmap_Inr_length: "rmap f xs = Inr ys \<Longrightarrow> length ys = length xs"
  by (induction xs arbitrary: ys) (auto simp: rbind_Inr_iff)

lemma rmap_Inr_iff: "rmap f xs = Inr ys \<longleftrightarrow> list_all2 (\<lambda>x y. f x = Inr y) xs ys"
  by (induction xs arbitrary: ys) (auto simp: rbind_Inr_iff list_all2_Cons1)

fun rfold :: "('s \<Rightarrow> 'a \<Rightarrow> 'e + 's) \<Rightarrow> 's \<Rightarrow> 'a list \<Rightarrow> 'e + 's" where
  "rfold f s [] = Inr s"
| "rfold f s (x # xs) = rbind (f s x) (\<lambda>s'. rfold f s' xs)"

section \<open>Joining and splitting strings\<close>

fun join_with :: "'a \<Rightarrow> 'a list list \<Rightarrow> 'a list" where
  "join_with c [] = []"
| "join_with c [w] = w"
| "join_with c (w # v # ws) = w @ c # join_with c (v # ws)"

fun split_on :: "'a \<Rightarrow> 'a list \<Rightarrow> 'a list list" where
  "split_on c [] = [[]]"
| "split_on c (x # xs) = (if x = c then [] # split_on c xs
     else (case split_on c xs of [] \<Rightarrow> [[x]] | w # ws \<Rightarrow> (x # w) # ws))"

lemma split_on_not_Nil [simp]: "split_on c xs \<noteq> []"
  by (induction xs) (auto split: list.splits)

lemma split_on_plain [simp]: "c \<notin> set w \<Longrightarrow> split_on c w = [w]"
  by (induction w) auto

lemma split_on_append [simp]:
  "c \<notin> set w \<Longrightarrow> split_on c (w @ c # xs) = w # split_on c xs"
  by (induction w) auto

lemma split_join:
  "\<lbrakk> ws \<noteq> []; \<forall>w\<in>set ws. c \<notin> set w \<rbrakk> \<Longrightarrow> split_on c (join_with c ws) = ws"
  by (induction c ws rule: join_with.induct) auto

lemma join_with_inj:
  assumes "join_with c ws = join_with c vs" "ws \<noteq> []" "vs \<noteq> []"
    "\<forall>w\<in>set ws. c \<notin> set w" "\<forall>w\<in>set vs. c \<notin> set w"
  shows "ws = vs"
  using assms split_join by metis

lemma join_with_Cons: "ws \<noteq> [] \<Longrightarrow> join_with c (w # ws) = w @ c # join_with c ws"
  by (cases ws) auto

text \<open>str.lower on ASCII text.\<close>
definition lower_char :: "char \<Rightarrow> char" where
  "lower_char c = (let n = (of_char c :: nat) in if 65 \<le> n \<and> n \<le> 90 then char_of (n + 32) else c)"

definition py_lower :: "string \<Rightarrow> string" where
  "py_lower = map lower_char"

text \<open>xs[:k]\<close>
definition py_take :: "int \<Rightarrow> 'a list \<Rightarrow> 'a list" where
  "py_take k xs = (if k \<ge> 0 then take (nat k) xs else take (nat (int (length xs) + k)) xs)"

section \<open>Order and duplicates\<close>

text \<open>sorted(xs, key=f, reverse=True): descending, and stable (elements with equal keys keep
  their order).\<close>
definition sort_desc :: "('a \<Rightarrow> 'k::linordered_ab_group_add) \<Rightarrow> 'a list \<Rightarrow> 'a list" where
  "sort_desc f xs = sort_key (\<lambda>x. - f x) xs"

lemma set_sort_desc [simp]: "set (sort_desc f xs) = set xs"
  by (simp add: sort_desc_def)

lemma mset_sort_desc [simp]: "mset (sort_desc f xs) = mset xs"
  by (simp add: sort_desc_def)

lemma length_sort_desc [simp]: "length (sort_desc f xs) = length xs"
  by (simp add: sort_desc_def)

lemma distinct_sort_desc [simp]: "distinct (sort_desc f xs) = distinct xs"
  by (simp add: sort_desc_def)

lemma sorted_sort_desc: "sorted_wrt (\<lambda>x y. f y \<le> f x) (sort_desc f xs)"
proof -
  have "sorted (map (\<lambda>x. - f x) (sort_desc f xs))"
    by (simp add: sort_desc_def)
  then show ?thesis
    by (simp add: sorted_wrt_map)
qed

lemma sort_desc_stable: "filter (\<lambda>y. f y = k) (sort_desc f xs) = filter (\<lambda>y. f y = k) xs"
proof -
  have "filter (\<lambda>y. - f y = - k) (sort_key (\<lambda>x. - f x) xs) = filter (\<lambda>y. - f y = - k) xs"
    by (rule sort_key_stable)
  then show ?thesis
    by (simp add: sort_desc_def)
qed

lemma sort_desc_id: "sorted_wrt (\<lambda>x y. f y \<le> f x) xs \<Longrightarrow> sort_desc f xs = xs"
  by (simp add: sort_desc_def sort_key_id_if_sorted sorted_wrt_map)

text \<open>The first element with each key, in order (a loop with a seen set).\<close>
fun dedup_on :: "('a \<Rightarrow> 'k) \<Rightarrow> 'k set \<Rightarrow> 'a list \<Rightarrow> 'a list" where
  "dedup_on f seen [] = []"
| "dedup_on f seen (x # xs) =
     (if f x \<in> seen then dedup_on f seen xs else x # dedup_on f (insert (f x) seen) xs)"

lemma dedup_on_set: "set (dedup_on f seen xs) \<subseteq> set xs"
  by (induction f seen xs rule: dedup_on.induct) auto

lemma dedup_on_keys: "f ` set (dedup_on f seen xs) = f ` set xs - seen"
  by (induction f seen xs rule: dedup_on.induct) auto

lemma dedup_on_distinct: "distinct (map f (dedup_on f seen xs))"
proof (induction f seen xs rule: dedup_on.induct)
  case (2 f seen x xs)
  then show ?case
    using dedup_on_keys [of f "insert (f x) seen" xs] by (auto simp: image_iff)
qed simp

lemma dedup_on_id: "\<lbrakk> distinct (map f xs); f ` set xs \<inter> seen = {} \<rbrakk> \<Longrightarrow> dedup_on f seen xs = xs"
  by (induction f seen xs rule: dedup_on.induct) auto

lemma take_subset: "x \<in> set (take n xs) \<Longrightarrow> x \<in> set xs"
  by (rule in_set_takeD)

section \<open>Insertion-ordered dictionaries\<close>

type_synonym ('k, 'v) dict = "('k \<times> 'v) list"

abbreviation dict_get :: "('k, 'v) dict \<Rightarrow> 'k \<Rightarrow> 'v option" where
  "dict_get \<equiv> map_of"

abbreviation dict_put :: "'k \<Rightarrow> 'v \<Rightarrow> ('k, 'v) dict \<Rightarrow> ('k, 'v) dict" where
  "dict_put \<equiv> AList.update"

abbreviation dict_pop :: "'k \<Rightarrow> ('k, 'v) dict \<Rightarrow> ('k, 'v) dict" where
  "dict_pop \<equiv> AList.delete"

definition dict_setdefault :: "'k \<Rightarrow> 'v \<Rightarrow> ('k, 'v) dict \<Rightarrow> ('k, 'v) dict" where
  "dict_setdefault k v d = (case dict_get d k of None \<Rightarrow> dict_put k v d | Some _ \<Rightarrow> d)"

definition dict_default :: "'v \<Rightarrow> ('k, 'v) dict \<Rightarrow> 'k \<Rightarrow> 'v" where
  "dict_default v d k = (case dict_get d k of None \<Rightarrow> v | Some w \<Rightarrow> w)"

lemma dict_put_get [simp]: "map_of (AList.update k v d) = (map_of d)(k \<mapsto> v)"
  by (rule update_conv')

lemma dict_pop_get [simp]: "map_of (AList.delete k d) = (map_of d)(k := None)"
  by (rule delete_conv')

lemma dict_setdefault_get:
  "map_of (dict_setdefault k v d) = (map_of d)(k \<mapsto> dict_default v d k)"
  by (auto simp: dict_setdefault_def dict_default_def split: option.split)

lemma dict_put_keys: "fst ` set (AList.update k v d) = insert k (fst ` set d)"
  by (simp add: dom_update)

lemma dict_put_set: "p \<in> set (AList.update k v d) \<Longrightarrow> p = (k, v) \<or> p \<in> set d"
  by (induction d) (auto split: if_splits)

lemmas dict_simps = dict_put_get dict_pop_get dict_setdefault_get dict_put_keys

end
