(* ===== verification/Errors.thy ===== *)
theory Errors
  imports Prelude
begin

text \<open>
  Exceptions. The class tree is the union of the three hierarchies the source declares
  (mu_contracts/domain/errors.py, mu_engine/storage/errors.py whose classes carry the prefix
  Storage_ here because five of them reuse a name of the first, pipelines/errors.py and
  providers/_contracts.py) and the builtin classes they are tested against. isinstance is
  the reflexive transitive closure of the parent relation, computed along the base chain. On top:
  the error table and classifier of platform/exceptions.py and the guard decorator of
  platform/decorators.py. The retry decorator only hands its predicate to the tenacity package and
  is represented by that predicate.
\<close>

section \<open>The class tree\<close>

datatype (plugins only: code size) exc_class =
    PyBaseException | PyException | CancelledError | OSError | ConnectionError | TimeoutError
  | RuntimeError | ValueError | KeyError | IndexError | TypeError | AssertionError
  | MemoryUniverseError
  | UnknownComponentError | DuplicateComponentError | SettingsValidationError
  | BackendUnavailableError | AuthorizationError | RevocationConflictError
  | StoreUnavailableError | BusUnavailableError | WorkflowUnavailableError | ProviderError
  | SchemaDriftError | ConflictUnresolvedError | BudgetExceededError | IllegalTransitionError
  | IllegalConflictTransitionError | MemoryLayerError | GovernanceError | LlmNotConfiguredError
  | NamespaceIsolationError | SubModelProviderDisabledError | PrivacyTierNotAvailableError
  | PrivacyTierConflictError | HybridMirrorRequiredError
  | TierRepositoryUnavailableError | UnknownBackendError
  | MandatoryBackendMissingError | InvalidBackendError | VectorNotFilterableError
  | SharedRecallUnavailableError
  | GrantNotFoundError | GrantRevokedError | GrantExpiredError | PermissionNarrowingError
  | ReshareDepthExceededError
  | StorageError
  | Storage_MandatoryBackendMissing | Storage_InvalidBackend | Storage_VectorNotFilterable
  | Storage_UnknownBackend | Storage_TierRepositoryUnavailable
  | PipelineError | StageExecutionError | NonRetryableStageError
  | ModelLayerError | ModelGroupUnavailableError | RegistryError | EmbedderConfigError

text \<open>The direct base of each class (single inheritance throughout).\<close>
fun base_of :: "exc_class \<Rightarrow> exc_class option" where
  "base_of PyBaseException = None"
| "base_of PyException = Some PyBaseException"
| "base_of CancelledError = Some PyBaseException"
| "base_of OSError = Some PyException"
| "base_of RuntimeError = Some PyException"
| "base_of ValueError = Some PyException"
| "base_of KeyError = Some PyException"
| "base_of IndexError = Some PyException"
| "base_of TypeError = Some PyException"
| "base_of AssertionError = Some PyException"
| "base_of MemoryUniverseError = Some PyException"
| "base_of StorageError = Some PyException"
| "base_of PipelineError = Some PyException"
| "base_of ModelLayerError = Some PyException"
| "base_of ConnectionError = Some OSError"
| "base_of TimeoutError = Some OSError"
| "base_of UnknownComponentError = Some MemoryUniverseError"
| "base_of DuplicateComponentError = Some MemoryUniverseError"
| "base_of SettingsValidationError = Some MemoryUniverseError"
| "base_of BackendUnavailableError = Some MemoryUniverseError"
| "base_of AuthorizationError = Some MemoryUniverseError"
| "base_of RevocationConflictError = Some MemoryUniverseError"
| "base_of StoreUnavailableError = Some MemoryUniverseError"
| "base_of BusUnavailableError = Some MemoryUniverseError"
| "base_of WorkflowUnavailableError = Some MemoryUniverseError"
| "base_of ProviderError = Some MemoryUniverseError"
| "base_of SchemaDriftError = Some MemoryUniverseError"
| "base_of ConflictUnresolvedError = Some MemoryUniverseError"
| "base_of BudgetExceededError = Some MemoryUniverseError"
| "base_of IllegalTransitionError = Some MemoryUniverseError"
| "base_of IllegalConflictTransitionError = Some MemoryUniverseError"
| "base_of MemoryLayerError = Some MemoryUniverseError"
| "base_of GovernanceError = Some MemoryUniverseError"
| "base_of LlmNotConfiguredError = Some MemoryUniverseError"
| "base_of NamespaceIsolationError = Some AuthorizationError"
| "base_of SubModelProviderDisabledError = Some AuthorizationError"
| "base_of PrivacyTierNotAvailableError = Some AuthorizationError"
| "base_of PrivacyTierConflictError = Some AuthorizationError"
| "base_of HybridMirrorRequiredError = Some AuthorizationError"
| "base_of TierRepositoryUnavailableError = Some StoreUnavailableError"
| "base_of UnknownBackendError = Some UnknownComponentError"
| "base_of MandatoryBackendMissingError = Some BackendUnavailableError"
| "base_of InvalidBackendError = Some BackendUnavailableError"
| "base_of VectorNotFilterableError = Some BackendUnavailableError"
| "base_of SharedRecallUnavailableError = Some BackendUnavailableError"
| "base_of GrantNotFoundError = Some GovernanceError"
| "base_of GrantRevokedError = Some GovernanceError"
| "base_of GrantExpiredError = Some GovernanceError"
| "base_of PermissionNarrowingError = Some GovernanceError"
| "base_of ReshareDepthExceededError = Some GovernanceError"
| "base_of Storage_MandatoryBackendMissing = Some StorageError"
| "base_of Storage_InvalidBackend = Some StorageError"
| "base_of Storage_VectorNotFilterable = Some StorageError"
| "base_of Storage_UnknownBackend = Some StorageError"
| "base_of Storage_TierRepositoryUnavailable = Some StorageError"
| "base_of StageExecutionError = Some PipelineError"
| "base_of NonRetryableStageError = Some PipelineError"
| "base_of ModelGroupUnavailableError = Some ModelLayerError"
| "base_of RegistryError = Some ModelLayerError"
| "base_of EmbedderConfigError = Some ModelLayerError"

text \<open>The longest base chain has five classes, so five steps reach the root from anywhere.\<close>
fun chain_upto :: "nat \<Rightarrow> exc_class \<Rightarrow> exc_class list" where
  "chain_upto 0 c = [c]"
| "chain_upto (Suc n) c = c # (case base_of c of None \<Rightarrow> [] | Some b \<Rightarrow> chain_upto n b)"

definition mro :: "exc_class \<Rightarrow> exc_class list" where
  "mro c = chain_upto 5 c"

definition isinstance_of :: "exc_class \<Rightarrow> exc_class \<Rightarrow> bool" where
  "isinstance_of c d = (d \<in> set (mro c))"

lemma mro_unfold: "mro c = c # (case base_of c of None \<Rightarrow> [] | Some b \<Rightarrow> mro b)"
  by (cases c) (simp_all add: mro_def numeral_eq_Suc)

lemma isinstance_of_refl [simp]: "isinstance_of c c"
  by (subst isinstance_of_def, subst mro_unfold) simp

lemma mro_Some: "base_of c = Some b \<Longrightarrow> mro c = c # mro b"
  by (subst mro_unfold) simp

lemma isinstance_of_iff:
  "isinstance_of c d \<longleftrightarrow> c = d \<or> (\<exists>b. base_of c = Some b \<and> isinstance_of b d)"
  unfolding isinstance_of_def by (subst mro_unfold) (auto split: option.split)

lemma isinstance_of_trans: "isinstance_of c d \<Longrightarrow> isinstance_of d e \<Longrightarrow> isinstance_of c e"
proof (induction "length (mro c)" arbitrary: c rule: less_induct)
  case less
  show ?case
  proof (cases "c = d")
    case False
    then obtain b where b: "base_of c = Some b" "isinstance_of b d"
      using less.prems isinstance_of_iff by metis
    then have "isinstance_of b e"
      using less.hyps less.prems(2) by (simp add: mro_Some)
    then show ?thesis
      using b(1) isinstance_of_iff by metis
  qed (use less.prems in simp)
qed

text \<open>Alias spellings of the source: the same class object under a second name.\<close>
abbreviation DomainError :: exc_class where "DomainError \<equiv> MemoryUniverseError"
abbreviation TenancyViolationError :: exc_class where
  "TenancyViolationError \<equiv> NamespaceIsolationError"

text \<open>Code whose raise is only ever told apart by class.\<close>
type_synonym 'a or_raise = "exc_class + 'a"

section \<open>Error envelopes\<close>

datatype error_code = NOT_FOUND | UNAVAILABLE | INVALID_CONFIG | UNKNOWN_COMPONENT | CONFLICT
  | BUDGET_EXCEEDED | SCHEMA_DRIFT | PROVIDER_ERROR | INTERNAL

datatype retry_class = RETRYABLE | TERMINAL

record error_envelope =
  env_status :: int
  env_code :: error_code
  env_message :: string

text \<open>An exception object: its class, its retryable attribute when that is a bool (None when the
  attribute is absent or of another type), and its text, which may hold content.\<close>
record exn =
  exn_class :: exc_class
  exn_retryable :: "bool option"
  exn_text :: string

definition error_table :: "(exc_class \<times> int \<times> error_code \<times> string) list" where
  "error_table =
    [(AuthorizationError, 404, NOT_FOUND, ''not found''),
     (SettingsValidationError, 500, INVALID_CONFIG, ''invalid configuration''),
     (UnknownComponentError, 500, UNKNOWN_COMPONENT, ''unknown component''),
     (DuplicateComponentError, 500, UNKNOWN_COMPONENT, ''duplicate component''),
     (BackendUnavailableError, 503, UNAVAILABLE, ''backend unavailable''),
     (StoreUnavailableError, 503, UNAVAILABLE, ''store unavailable''),
     (BusUnavailableError, 503, UNAVAILABLE, ''bus unavailable''),
     (WorkflowUnavailableError, 503, UNAVAILABLE, ''workflow unavailable''),
     (ProviderError, 502, PROVIDER_ERROR, ''provider error''),
     (SchemaDriftError, 422, SCHEMA_DRIFT, ''schema drift''),
     (ConflictUnresolvedError, 409, CONFLICT, ''conflict unresolved''),
     (BudgetExceededError, 429, BUDGET_EXCEEDED, ''budget exceeded'')]"

definition retryable_types :: "exc_class list" where
  "retryable_types = [StoreUnavailableError, BusUnavailableError, WorkflowUnavailableError,
     ProviderError, ConnectionError, TimeoutError, OSError]"

fun first_row ::
  "exc_class \<Rightarrow> (exc_class \<times> int \<times> error_code \<times> string) list \<Rightarrow> error_envelope option" where
  "first_row c [] = None"
| "first_row c ((t, status, code, message) # rows) =
     (if isinstance_of c t
      then Some \<lparr>env_status = status, env_code = code, env_message = message\<rparr>
      else first_row c rows)"

definition internal_envelope :: error_envelope where
  "internal_envelope =
     \<lparr>env_status = 500, env_code = INTERNAL, env_message = ''internal error''\<rparr>"

definition to_envelope :: "exn \<Rightarrow> error_envelope" where
  "to_envelope e =
     (if isinstance_of (exn_class e) MemoryUniverseError
      then (case first_row (exn_class e) error_table of Some v \<Rightarrow> v | None \<Rightarrow> internal_envelope)
      else internal_envelope)"

definition safe_error_response :: error_envelope where
  "safe_error_response = \<lparr>env_status = 404, env_code = NOT_FOUND, env_message = ''not found''\<rparr>"

definition classify_error :: "exn \<Rightarrow> retry_class" where
  "classify_error e =
     (if isinstance_of (exn_class e) CancelledError then TERMINAL
      else case exn_retryable e of
        Some hint \<Rightarrow> (if hint then RETRYABLE else TERMINAL)
      | None \<Rightarrow> (if \<exists>t\<in>set retryable_types. isinstance_of (exn_class e) t
                 then RETRYABLE else TERMINAL))"

text \<open>The predicate the retry decorator hands to tenacity.\<close>
definition is_retryable :: "exn \<Rightarrow> bool" where
  "is_retryable e =
     (if isinstance_of (exn_class e) CancelledError then False else classify_error e = RETRYABLE)"

section \<open>The guard and timed decorators\<close>

text \<open>A decorated call runs on a state 's (which holds the metric sink) and returns or raises.\<close>
definition guard :: "('s \<Rightarrow> 's) \<Rightarrow> ('s \<Rightarrow> (exn + 'a) \<times> 's) \<Rightarrow> 's \<Rightarrow> (exn + 'a) \<times> 's" where
  "guard inc_error func s = (case func s of
       (Inr a, s') \<Rightarrow> (Inr a, s')
     | (Inl e, s') \<Rightarrow> if isinstance_of (exn_class e) CancelledError then (Inl e, s')
                     else (Inl e, inc_error s'))"

text \<open>try/finally: the observation is made on both paths and the outcome is passed on.\<close>
definition timed :: "('s \<Rightarrow> 's) \<Rightarrow> ('s \<Rightarrow> (exn + 'a) \<times> 's) \<Rightarrow> 's \<Rightarrow> (exn + 'a) \<times> 's" where
  "timed observe func s = (case func s of (r, s') \<Rightarrow> (r, observe s'))"

section \<open>Lemmas\<close>

lemma isinstance_AuthorizationError_first:
  "isinstance_of c AuthorizationError \<Longrightarrow>
   first_row c error_table = Some safe_error_response"
  by (simp add: error_table_def safe_error_response_def)

lemma isinstance_MU_of:
  "isinstance_of c d \<Longrightarrow> isinstance_of d MemoryUniverseError \<Longrightarrow> isinstance_of c MemoryUniverseError"
  by (rule isinstance_of_trans)

lemma AuthorizationError_is_MU: "isinstance_of AuthorizationError MemoryUniverseError"
  by (simp add: isinstance_of_def mro_def numeral_eq_Suc)

lemma first_row_in_table:
  "first_row c rows = Some v \<Longrightarrow>
   (\<exists>t. isinstance_of c t \<and> (t, env_status v, env_code v, env_message v) \<in> set rows)"
  by (induction c rows rule: first_row.induct) (auto split: if_splits)

text \<open>The storage layer's classes and the shared hierarchy meet only at Exception.\<close>
lemma storage_not_MU:
  "isinstance_of c StorageError \<Longrightarrow> \<not> isinstance_of c MemoryUniverseError"
  by (cases c) (simp_all add: isinstance_of_def mro_def numeral_eq_Suc)

lemma guard_outcome: "fst (guard inc_error func s) = fst (func s)"
  by (auto simp: guard_def split: prod.splits sum.splits)

text \<open>
  Non-enumerating denial: whatever subclass of AuthorizationError was raised, and whatever text
  it carries, the caller-facing envelope is exactly the fixed "not found" response of a genuine miss.
\<close>
theorem denial_indistinguishable_from_miss:
  assumes "isinstance_of (exn_class e) AuthorizationError"
  shows "to_envelope e = safe_error_response"
  using assms isinstance_AuthorizationError_first isinstance_MU_of AuthorizationError_is_MU
  by (simp add: to_envelope_def)

theorem denial_indistinguishable_from_miss_witness:
  "to_envelope \<lparr>exn_class = NamespaceIsolationError, exn_retryable = None, exn_text = ''secret''\<rparr>
     = safe_error_response"
  by (rule denial_indistinguishable_from_miss) (simp add: isinstance_of_def mro_def numeral_eq_Suc)

text \<open>
  The two tables agree: a typed error the retry decorator would retry (no explicit hint) is
  answered to the caller as a gateway or availability failure, 502 or 503, and never as a client
  error or a generic 500.
\<close>
theorem retryable_errors_are_gateway_failures:
  assumes "isinstance_of (exn_class e) MemoryUniverseError"
    and "exn_retryable e = None" and "is_retryable e"
  shows "env_status (to_envelope e) \<in> {502, 503} \<and> to_envelope e \<noteq> internal_envelope"
proof -
  have "\<exists>t\<in>set retryable_types. isinstance_of (exn_class e) t"
    using assms by (auto simp: is_retryable_def classify_error_def split: if_splits)
  then show ?thesis
    using assms(1)
    by (cases "exn_class e")
      (simp_all add: retryable_types_def to_envelope_def error_table_def internal_envelope_def
        isinstance_of_def mro_def numeral_eq_Suc)
qed

theorem retryable_errors_are_gateway_failures_witness:
  "env_status (to_envelope \<lparr>exn_class = TierRepositoryUnavailableError, exn_retryable = None,
     exn_text = ''''\<rparr>) \<in> {502, 503}"
  by (rule conjunct1, rule retryable_errors_are_gateway_failures)
    (simp_all add: isinstance_of_def mro_def is_retryable_def classify_error_def retryable_types_def
      numeral_eq_Suc)

text \<open>
  The storage layer's own hierarchy is outside the typed root: the unavailability error its
  adapters raise is answered as an internal error and classified terminal, unlike the class of the
  same name in the shared hierarchy, so neither the retry decorator nor a StoreUnavailableError
  handler ever sees an adapter outage.
\<close>
theorem storage_outage_is_internal_and_terminal:
  assumes "isinstance_of (exn_class e) StorageError" and "exn_retryable e = None"
  shows "to_envelope e = internal_envelope \<and> \<not> is_retryable e
    \<and> \<not> isinstance_of (exn_class e) StoreUnavailableError"
  using assms
  by (cases "exn_class e")
    (simp_all add: to_envelope_def is_retryable_def classify_error_def retryable_types_def
      isinstance_of_def mro_def numeral_eq_Suc)

theorem storage_outage_is_internal_and_terminal_witness:
  "to_envelope \<lparr>exn_class = Storage_TierRepositoryUnavailable, exn_retryable = None,
     exn_text = ''''\<rparr> = internal_envelope"
  by (rule conjunct1, rule storage_outage_is_internal_and_terminal)
    (simp_all add: isinstance_of_def mro_def numeral_eq_Suc)

text \<open>
  The guard decorator never changes an outcome (it re-raises what it caught and returns what was
  returned), and its failure metric is bumped exactly for the errors that are not cancellations.
\<close>
theorem guard_reraises_and_counts:
  "guard inc_error func s =
     (fst (func s),
      if (\<exists>e. fst (func s) = Inl e \<and> \<not> isinstance_of (exn_class e) CancelledError)
      then inc_error (snd (func s)) else snd (func s))"
  by (auto simp: guard_def split: prod.splits sum.splits)

end
