(* ===== verification/Namespace_Model.thy ===== *)
theory Namespace_Model
  imports Errors
begin

text \<open>
  Tenancy: the five-field namespace, its validation and its storage prefix
  (mu_contracts/domain/model/memory.py), the acting scope that derives it
  (mu_contracts/domain/model/scope.py), the repository-boundary guard
  (mu_engine/platform/tenancy.py) and the key builders the adapters prefix with it. The lemmas show
  that validated namespaces and prefixes correspond one to one, which is what makes the prefix a
  partition, and that the guard accepts exactly the namespaces the scope itself derives.
\<close>

section \<open>The namespace\<close>

datatype visibility = PRIVATE | SHARED

fun visibility_value :: "visibility \<Rightarrow> string" where
  "visibility_value PRIVATE = ''private''"
| "visibility_value SHARED = ''shared''"

definition visibility_of :: "string \<Rightarrow> visibility or_raise" where
  "visibility_of s = (if s = ''private'' then Inr PRIVATE
     else if s = ''shared'' then Inr SHARED else Inl ValueError)"

record namespace =
  ns_org :: string
  ns_workspace :: string
  ns_user :: string
  ns_session :: string
  ns_visibility :: visibility

definition forbidden_ns_chars :: "char set" where
  "forbidden_ns_chars = {CHR ''/'', CHR '':'', CHR ''|'', CHR 0x5C, CHR '' '', CHR 0x09, CHR 0x0A,
     CHR 0x00}"

definition legal_component :: "string \<Rightarrow> bool" where
  "legal_component v = (\<not> (v = [] \<or> set v \<inter> forbidden_ns_chars \<noteq> {}))"

definition shared_sentinel_ok :: "namespace \<Rightarrow> bool" where
  "shared_sentinel_ok ns = (\<not> (ns_visibility ns = SHARED \<and> ns_user ns \<noteq> ''*''))"

text \<open>The constructor with its field validators, in field order, and its model validator.\<close>
definition mk_namespace ::
  "string \<Rightarrow> string \<Rightarrow> string \<Rightarrow> string \<Rightarrow> visibility \<Rightarrow> namespace or_raise" where
  "mk_namespace org workspace user session vis =
     (let ns = \<lparr>ns_org = org, ns_workspace = workspace, ns_user = user, ns_session = session,
                ns_visibility = vis\<rparr>
      in if \<not> legal_component org \<or> \<not> legal_component workspace \<or> \<not> legal_component user
            \<or> \<not> legal_component session then Inl ValueError
         else if \<not> shared_sentinel_ok ns then Inl ValueError
         else Inr ns)"

definition ns_parts :: "namespace \<Rightarrow> string list" where
  "ns_parts ns = [ns_org ns, ns_workspace ns, ns_user ns, ns_session ns,
     visibility_value (ns_visibility ns)]"

fun ns_from_parts :: "string list \<Rightarrow> namespace or_raise" where
  "ns_from_parts [org, workspace, user, session, vis] =
     rbind (visibility_of vis) (\<lambda>v. mk_namespace org workspace user session v)"
| "ns_from_parts _ = Inl ValueError"

definition user_slot :: "namespace \<Rightarrow> string" where
  "user_slot ns = (if ns_visibility ns = SHARED then ''*'' else ns_user ns)"

definition to_prefix :: "namespace \<Rightarrow> string" where
  "to_prefix ns = join_with (CHR ''/'')
     [''mu'', ns_org ns, ns_workspace ns, visibility_value (ns_visibility ns), user_slot ns,
      ns_session ns]"

definition shared_namespace :: "string \<Rightarrow> string \<Rightarrow> string \<Rightarrow> namespace or_raise" where
  "shared_namespace org workspace session = mk_namespace org workspace ''*'' session SHARED"

text \<open>A namespace value exists only through its validated constructor.\<close>
definition valid_ns :: "namespace \<Rightarrow> bool" where
  "valid_ns ns = (legal_component (ns_org ns) \<and> legal_component (ns_workspace ns)
     \<and> legal_component (ns_user ns) \<and> legal_component (ns_session ns) \<and> shared_sentinel_ok ns)"

lemma mk_namespace_Inr:
  "mk_namespace o' w u s v = Inr ns \<longleftrightarrow>
   ns = \<lparr>ns_org = o', ns_workspace = w, ns_user = u, ns_session = s, ns_visibility = v\<rparr> \<and> valid_ns ns"
  by (auto simp: mk_namespace_def valid_ns_def Let_def)

lemma mk_namespace_valid:
  "mk_namespace (ns_org ns) (ns_workspace ns) (ns_user ns) (ns_session ns) (ns_visibility ns)
   = (if valid_ns ns then Inr ns else Inl ValueError)"
  by (cases ns) (auto simp: mk_namespace_def valid_ns_def Let_def)

lemma legal_component_simps:
  "legal_component v \<Longrightarrow> v \<noteq> []"
  "legal_component v \<Longrightarrow> CHR ''/'' \<notin> set v"
  "legal_component v \<Longrightarrow> CHR '':'' \<notin> set v"
  "legal_component v \<Longrightarrow> CHR ''|'' \<notin> set v"
  by (auto simp: legal_component_def forbidden_ns_chars_def)

lemma legal_star [simp]: "legal_component ''*''"
  by (simp add: legal_component_def forbidden_ns_chars_def)

lemma visibility_of_value [simp]: "visibility_of (visibility_value v) = Inr v"
  by (cases v) (simp_all add: visibility_of_def)

lemma visibility_value_inj [simp]: "visibility_value v = visibility_value w \<longleftrightarrow> v = w"
  by (cases v; cases w) simp_all

lemma visibility_value_chars [simp]:
  "CHR ''/'' \<notin> set (visibility_value v)" "CHR '':'' \<notin> set (visibility_value v)"
  by (cases v, simp_all)+

lemma valid_shared_user: "valid_ns ns \<Longrightarrow> ns_visibility ns = SHARED \<Longrightarrow> ns_user ns = ''*''"
  by (simp add: valid_ns_def shared_sentinel_ok_def)

lemma user_slot_valid [prefix_simps]: "valid_ns ns \<Longrightarrow> user_slot ns = ns_user ns"
  by (auto simp: user_slot_def valid_shared_user)

lemma valid_ns_parts:
  assumes "valid_ns ns"
  shows "\<forall>w\<in>set [''mu'', ns_org ns, ns_workspace ns, visibility_value (ns_visibility ns),
           user_slot ns, ns_session ns]. CHR ''/'' \<notin> set w \<and> CHR '':'' \<notin> set w"
  using assms legal_component_simps
  by (auto simp: user_slot_valid valid_ns_def)

lemma split_to_prefix [prefix_simps]:
  "valid_ns ns \<Longrightarrow> split_on (CHR ''/'') (to_prefix ns) =
     [''mu'', ns_org ns, ns_workspace ns, visibility_value (ns_visibility ns), ns_user ns,
      ns_session ns]"
  unfolding to_prefix_def
  by (subst split_join) (use valid_ns_parts in \<open>auto simp: user_slot_valid\<close>)

lemma to_prefix_no_colon [prefix_simps]:
  assumes "valid_ns ns" shows "CHR '':'' \<notin> set (to_prefix ns)"
  using valid_ns_parts [OF assms] by (simp add: to_prefix_def)

lemma to_prefix_inj:
  assumes "valid_ns a" "valid_ns b" "to_prefix a = to_prefix b"
  shows "a = b"
proof -
  have "[''mu'', ns_org a, ns_workspace a, visibility_value (ns_visibility a), ns_user a, ns_session a]
      = [''mu'', ns_org b, ns_workspace b, visibility_value (ns_visibility b), ns_user b, ns_session b]"
    using split_to_prefix [OF assms(1)] split_to_prefix [OF assms(2)] assms(3) by metis
  then show ?thesis
    by (intro namespace.equality) simp_all
qed

section \<open>Keys built on the prefix\<close>

text \<open>redis_mapper.py: the item key and the recency-set key of the short-term tier.\<close>
definition memory_key :: "namespace \<Rightarrow> string \<Rightarrow> string" where
  "memory_key ns mid = ''mu/'' @ to_prefix ns @ '':stm:mem:'' @ mid"

definition recency_key :: "namespace \<Rightarrow> string" where
  "recency_key ns = ''mu/'' @ to_prefix ns @ '':stm:recency''"

text \<open>falkor_ltm.py: one graph per (org, workspace, shared or user).\<close>
definition graph_name_for :: "namespace \<Rightarrow> string" where
  "graph_name_for ns = ''mu_g__'' @ ns_org ns @ ''__'' @ ns_workspace ns @ ''__''
     @ (if ns_visibility ns = SHARED then ''shared'' else ns_user ns)"

lemma takeWhile_prefix_key:
  assumes "valid_ns ns"
  shows "takeWhile (\<lambda>c. c \<noteq> CHR '':'') (to_prefix ns @ CHR '':'' # rest) = to_prefix ns"
  using to_prefix_no_colon [OF assms] by (subst takeWhile_append2) auto

lemma memory_key_inj:
  assumes "valid_ns a" "valid_ns b" "memory_key a i = memory_key b j"
  shows "a = b \<and> i = j"
proof -
  have eq: "to_prefix a @ CHR '':'' # (''stm:mem:'' @ i) = to_prefix b @ CHR '':'' # (''stm:mem:'' @ j)"
    using assms(3) by (simp add: memory_key_def)
  then have "to_prefix a = to_prefix b"
    using takeWhile_prefix_key [OF assms(1)] takeWhile_prefix_key [OF assms(2)] by metis
  then show ?thesis
    using eq to_prefix_inj [OF assms(1,2)] by simp
qed

lemma recency_key_inj:
  assumes "valid_ns a" "valid_ns b" "recency_key a = recency_key b"
  shows "a = b"
proof -
  have "to_prefix a @ CHR '':'' # ''stm:recency'' = to_prefix b @ CHR '':'' # ''stm:recency''"
    using assms(3) by (simp add: recency_key_def)
  then have "to_prefix a = to_prefix b"
    using takeWhile_prefix_key [OF assms(1)] takeWhile_prefix_key [OF assms(2)] by metis
  then show ?thesis
    using to_prefix_inj [OF assms(1,2)] by simp
qed

lemma memory_key_not_recency_key:
  assumes "valid_ns a" "valid_ns b" shows "memory_key a i \<noteq> recency_key b"
proof
  assume "memory_key a i = recency_key b"
  then have eq: "to_prefix a @ CHR '':'' # (''stm:mem:'' @ i) = to_prefix b @ CHR '':'' # ''stm:recency''"
    by (simp add: memory_key_def recency_key_def)
  then have "to_prefix a = to_prefix b"
    using takeWhile_prefix_key [OF assms(1)] takeWhile_prefix_key [OF assms(2)] by metis
  then show False
    using eq by simp
qed

section \<open>Scope\<close>

datatype principal_kind = HUMAN | AGENT | SERVICE
datatype agent_kind = HUMAN_PROXY | SHARED_AGENT | BOUND_AGENT | SUBAGENT
datatype membership_status = Mb_ACTIVE | Mb_SUSPENDED | Mb_REMOVED

record org_membership =
  om_principal_id :: string
  om_org_id :: string
  om_role :: string
  om_status :: membership_status
  om_expires_at :: "int option"

text \<open>Both memberships and the session decide activity with the same three lines: the given
  instant or the clock, and an absent or strictly later expiry.\<close>
definition at_or_now :: "int option \<Rightarrow> int \<Rightarrow> int" where
  "at_or_now at_t now = (case at_t of Some t \<Rightarrow> t | None \<Rightarrow> now)"

definition unexpired :: "int option \<Rightarrow> int \<Rightarrow> bool" where
  "unexpired expiry now = (case expiry of None \<Rightarrow> True | Some e \<Rightarrow> e > now)"

definition org_membership_is_active :: "int \<Rightarrow> int option \<Rightarrow> org_membership \<Rightarrow> bool" where
  "org_membership_is_active clock at_t m =
     (om_status m = Mb_ACTIVE \<and> unexpired (om_expires_at m) (at_or_now at_t clock))"

record workspace_membership =
  wm_principal_id :: string
  wm_org_id :: string
  wm_workspace_id :: string
  wm_role :: string
  wm_status :: membership_status
  wm_expires_at :: "int option"

definition workspace_membership_is_active :: "int \<Rightarrow> int option \<Rightarrow> workspace_membership \<Rightarrow> bool"
where
  "workspace_membership_is_active clock at_t m =
     (wm_status m = Mb_ACTIVE \<and> unexpired (wm_expires_at m) (at_or_now at_t clock))"

record agent_binding =
  ab_binding_id :: string
  ab_agent_principal_id :: string
  ab_owner_principal_id :: string
  ab_allowed_tools :: "string list"

definition assert_allows :: "agent_binding \<Rightarrow> string \<Rightarrow> namespace \<Rightarrow> unit or_raise" where
  "assert_allows b tool target =
     (if ab_allowed_tools b \<noteq> [] \<and> tool \<notin> set (ab_allowed_tools b)
      then Inl AuthorizationError else Inr ())"

record client_scope =
  cs_principal_id :: string
  cs_org_id :: string
  cs_workspace_id :: string
  cs_session_id :: string
  cs_agent_principal_id :: string
  cs_agent_kind :: agent_kind
  cs_agent_path :: string

definition scope_namespace :: "client_scope \<Rightarrow> visibility \<Rightarrow> namespace or_raise" where
  "scope_namespace s vis =
     (if vis = SHARED then shared_namespace (cs_org_id s) (cs_workspace_id s) (cs_session_id s)
      else mk_namespace (cs_org_id s) (cs_workspace_id s) (cs_agent_principal_id s)
             (cs_session_id s) vis)"

definition assert_authorized :: "client_scope \<Rightarrow> namespace \<Rightarrow> string \<Rightarrow> unit or_raise" where
  "assert_authorized s target operation =
     (if ns_org target \<noteq> cs_org_id s \<or> ns_workspace target \<noteq> cs_workspace_id s
         \<or> ns_session target \<noteq> cs_session_id s
      then Inl NamespaceIsolationError else Inr ())"

text \<open>The guard every repository call passes through.\<close>
definition assert_scope :: "client_scope \<Rightarrow> namespace \<Rightarrow> string \<Rightarrow> unit or_raise" where
  "assert_scope s ns operation =
     rbind (assert_authorized s ns operation) (\<lambda>_.
       if ns_visibility ns = SHARED
       then (if ns_user ns \<noteq> ''*'' then Inl NamespaceIsolationError else Inr ())
       else if ns_user ns \<noteq> cs_agent_principal_id s then Inl NamespaceIsolationError
       else Inr ())"

lemma legal_scope_namespace:
  "scope_namespace s v = Inr ns \<longleftrightarrow>
   valid_ns ns \<and> ns_visibility ns = v \<and> ns_org ns = cs_org_id s \<and> ns_workspace ns = cs_workspace_id s
   \<and> ns_session ns = cs_session_id s
   \<and> ns_user ns = (if v = SHARED then ''*'' else cs_agent_principal_id s)"
  by (cases ns) (auto simp: scope_namespace_def shared_namespace_def mk_namespace_Inr)

lemma assert_scope_Inr:
  "assert_scope s ns op = Inr () \<longleftrightarrow>
   ns_org ns = cs_org_id s \<and> ns_workspace ns = cs_workspace_id s \<and> ns_session ns = cs_session_id s
   \<and> ns_user ns = (if ns_visibility ns = SHARED then ''*'' else cs_agent_principal_id s)"
  by (auto simp: assert_scope_def assert_authorized_def)

lemma assert_scope_denies: "assert_scope s ns op \<noteq> Inr () \<Longrightarrow> assert_scope s ns op = Inl NamespaceIsolationError"
  by (auto simp: assert_scope_def assert_authorized_def split: if_splits)

lemma membership_expiry_monotone:
  "\<lbrakk> org_membership_is_active c (Some t) m; t' \<le> t \<rbrakk> \<Longrightarrow> org_membership_is_active c (Some t') m"
  by (auto simp: org_membership_is_active_def unexpired_def at_or_now_def split: option.splits)

text \<open>
  C35. The storage prefix is a partition: two validated namespaces have the same prefix only when
  they are the same namespace, so no choice of org, workspace, user or session ids of one tenant can
  be spelled so as to land in the partition of another.
\<close>
theorem prefix_is_a_partition:
  assumes "mk_namespace o1 w1 u1 s1 v1 = Inr a" and "mk_namespace o2 w2 u2 s2 v2 = Inr b"
    and "to_prefix a = to_prefix b"
  shows "a = b"
  using assms mk_namespace_Inr to_prefix_inj by metis

theorem prefix_is_a_partition_witness:
  "\<lparr>ns_org = ''o'', ns_workspace = ''w'', ns_user = ''*'', ns_session = ''s'', ns_visibility = SHARED\<rparr>
   = \<lparr>ns_org = ''o'', ns_workspace = ''w'', ns_user = ''*'', ns_session = ''s'', ns_visibility = SHARED\<rparr>"
  by (rule prefix_is_a_partition [of "''o''" "''w''" "''*''" "''s''" SHARED _ "''o''" "''w''" "''*''" "''s''" SHARED])
    (simp_all add: mk_namespace_def legal_component_def forbidden_ns_chars_def shared_sentinel_ok_def)

text \<open>
  The guard accepts exactly the namespaces the acting scope derives: for a validated namespace,
  assert_scope returns normally if and only if the namespace is the scope's private or its shared
  one; everything else is the non-enumerating isolation error.
\<close>
theorem guard_accepts_exactly_own_namespaces:
  "(valid_ns ns \<and> assert_scope s ns op = Inr ()) \<longleftrightarrow> (\<exists>v. scope_namespace s v = Inr ns)"
  by (auto simp: assert_scope_Inr legal_scope_namespace)

text \<open>
  The namespace codec: the five-tuple that crosses process boundaries rebuilds exactly the
  validated namespace it came from, and re-validates: an invalid tuple is refused.
\<close>
theorem namespace_parts_roundtrip:
  "ns_from_parts (ns_parts ns) = (if valid_ns ns then Inr ns else Inl ValueError)"
  by (simp add: ns_parts_def mk_namespace_valid)

text \<open>
  Key-value keys isolate: an item key determines both its namespace and its memory id (the id
  may be any string), and no item key is ever a recency-index key.
\<close>
theorem stm_keys_isolate:
  assumes "valid_ns a" and "valid_ns b"
  shows "(memory_key a i = memory_key b j \<longleftrightarrow> a = b \<and> i = j)
    \<and> (recency_key a = recency_key b \<longleftrightarrow> a = b) \<and> memory_key a i \<noteq> recency_key b"
  using assms memory_key_inj recency_key_inj memory_key_not_recency_key by metis

theorem stm_keys_isolate_witness:
  "memory_key \<lparr>ns_org = ''o'', ns_workspace = ''w'', ns_user = ''u'', ns_session = ''s'',
       ns_visibility = PRIVATE\<rparr> ''x:stm:recency''
   \<noteq> recency_key \<lparr>ns_org = ''o'', ns_workspace = ''w'', ns_user = ''*'', ns_session = ''s'',
       ns_visibility = SHARED\<rparr>"
  by (rule stm_keys_isolate [THEN conjunct2, THEN conjunct2])
    (simp_all add: valid_ns_def legal_component_def forbidden_ns_chars_def shared_sentinel_ok_def)

text \<open>
  Graph names, unlike prefixes, are not a partition: a workspace may contain the separator, and
  a private user may be called "shared". Two different tenants' namespaces can name one graph, and
  a user's private graph can be the workspace's shared one.
\<close>
theorem graph_names_collide:
  "\<exists>a b c d. valid_ns a \<and> valid_ns b \<and> ns_org a \<noteq> ns_org b \<and> graph_name_for a = graph_name_for b
     \<and> valid_ns c \<and> valid_ns d \<and> ns_org c = ns_org d \<and> ns_workspace c = ns_workspace d
     \<and> ns_visibility c = PRIVATE \<and> ns_visibility d = SHARED \<and> graph_name_for c = graph_name_for d"
proof -
  define n where "n o' w u v = \<lparr>ns_org = o', ns_workspace = w, ns_user = u, ns_session = ''s'',
    ns_visibility = v\<rparr>" for o' w u v
  have "valid_ns (n ''a__b'' ''c'' ''u'' PRIVATE) \<and> valid_ns (n ''a'' ''b__c'' ''u'' PRIVATE)
      \<and> ns_org (n ''a__b'' ''c'' ''u'' PRIVATE) \<noteq> ns_org (n ''a'' ''b__c'' ''u'' PRIVATE)
      \<and> graph_name_for (n ''a__b'' ''c'' ''u'' PRIVATE) = graph_name_for (n ''a'' ''b__c'' ''u'' PRIVATE)"
    by (simp add: n_def valid_ns_def legal_component_def forbidden_ns_chars_def
        shared_sentinel_ok_def graph_name_for_def)
  moreover have "valid_ns (n ''a'' ''b'' ''shared'' PRIVATE) \<and> valid_ns (n ''a'' ''b'' ''*'' SHARED)
      \<and> graph_name_for (n ''a'' ''b'' ''shared'' PRIVATE) = graph_name_for (n ''a'' ''b'' ''*'' SHARED)"
    by (simp add: n_def valid_ns_def legal_component_def forbidden_ns_chars_def
        shared_sentinel_ok_def graph_name_for_def)
  ultimately show ?thesis
    by (metis n_def namespace.select_convs)
qed

end
