(* ===== verification/Memory_Model.thy ===== *)
theory Memory_Model
  imports Namespace_Model
begin

text \<open>
  The memory record. First the engine's storage record (mu_engine/storage/domain/memory.py) with its
  content hash (the digest function of hashlib is the parameter sha256) and post-construction fill;
  then the ranked wrapper Scored (storage/domain/recall.py); then the contracts aggregate with its
  tier and state helpers (mu_contracts/domain/model/memory.py). The lemmas show what the hash
  depends on, that identity is stable under every helper, and which tier and state moves exist.
\<close>

section \<open>Enumerations\<close>

datatype memory_tier = STM | MTM | LTM
datatype memory_state = ACTIVE | ARCHIVED | SUPERSEDED | QUARANTINED | DELETED
datatype memory_kind = PROPOSITION | REFERENCE
datatype memory_source = Src_USER | Src_TOOL | Src_AGENT | Src_EXTERNAL | Src_INFERRED
datatype fact_object_kind = LITERAL | ENTITY
datatype polarity = POSITIVE | NEGATIVE

fun tier_value :: "memory_tier \<Rightarrow> string" where
  "tier_value STM = ''stm''" | "tier_value MTM = ''mtm''" | "tier_value LTM = ''ltm''"

fun state_value :: "memory_state \<Rightarrow> string" where
  "state_value ACTIVE = ''active''"
| "state_value ARCHIVED = ''archived''"
| "state_value SUPERSEDED = ''superseded''"
| "state_value QUARANTINED = ''quarantined''"
| "state_value DELETED = ''deleted''"

fun kind_value :: "memory_kind \<Rightarrow> string" where
  "kind_value PROPOSITION = ''proposition''" | "kind_value REFERENCE = ''reference''"

fun source_value :: "memory_source \<Rightarrow> string" where
  "source_value Src_USER = ''user''"
| "source_value Src_TOOL = ''tool''"
| "source_value Src_AGENT = ''agent''"
| "source_value Src_EXTERNAL = ''external''"
| "source_value Src_INFERRED = ''inferred''"

fun object_kind_value :: "fact_object_kind \<Rightarrow> string" where
  "object_kind_value LITERAL = ''literal''" | "object_kind_value ENTITY = ''entity''"

fun polarity_value :: "polarity \<Rightarrow> string" where
  "polarity_value POSITIVE = ''positive''" | "polarity_value NEGATIVE = ''negative''"

text \<open>The enum constructors by value, as the mappers use them when reading a row.\<close>
definition tier_of :: "string \<Rightarrow> memory_tier or_raise" where
  "tier_of s = (if s = ''stm'' then Inr STM else if s = ''mtm'' then Inr MTM
     else if s = ''ltm'' then Inr LTM else Inl ValueError)"

definition state_of :: "string \<Rightarrow> memory_state or_raise" where
  "state_of s = (if s = ''active'' then Inr ACTIVE else if s = ''archived'' then Inr ARCHIVED
     else if s = ''superseded'' then Inr SUPERSEDED else if s = ''quarantined'' then Inr QUARANTINED
     else if s = ''deleted'' then Inr DELETED else Inl ValueError)"

definition kind_of :: "string \<Rightarrow> memory_kind or_raise" where
  "kind_of s = (if s = ''proposition'' then Inr PROPOSITION
     else if s = ''reference'' then Inr REFERENCE else Inl ValueError)"

definition unit_separator :: char where
  "unit_separator = CHR 0x1F"

lemma tier_roundtrip [simp]: "tier_of (tier_value t) = Inr t"
  by (cases t) (simp_all add: tier_of_def)

lemma state_roundtrip [simp]: "state_of (state_value st) = Inr st"
  by (cases st) (simp_all add: state_of_def)

lemma kind_roundtrip [simp]: "kind_of (kind_value k) = Inr k"
  by (cases k) (simp_all add: kind_of_def)

lemma value_inj [simp]:
  "kind_value k = kind_value k' \<longleftrightarrow> k = k'" "polarity_value p = polarity_value p' \<longleftrightarrow> p = p'"
  by (cases k; cases k'; simp) (cases p; cases p'; simp)

lemma value_plain [simp]: "unit_separator \<notin> set (kind_value k)" "unit_separator \<notin> set (polarity_value p)"
  by (cases k; simp add: unit_separator_def) (cases p; simp add: unit_separator_def)

section \<open>The storage record\<close>

text \<open>The values of the free-form metadata dictionary that the source reads or writes.\<close>
datatype meta_value = MStr string | MStrs "string list" | MNum rat | MBool bool | MSpan int int | MNone

record memory_item =
  mi_id :: string
  mi_content :: string
  mi_kind :: memory_kind
  mi_tier :: memory_tier
  mi_state :: memory_state
  mi_namespace :: namespace
  mi_owner_id :: string
  mi_workspace_id :: string
  mi_session_id :: string
  mi_created_at :: int
  mi_updated_at :: int
  mi_valid_at :: "int option"
  mi_invalid_at :: "int option"
  mi_importance_score :: rat
  mi_relevance_score :: rat
  mi_access_count :: int
  mi_source :: memory_source
  mi_subject :: "string option"
  mi_predicate :: "string option"
  mi_object :: "string option"
  mi_object_kind :: "fact_object_kind option"
  mi_polarity :: polarity
  mi_content_hash :: string
  mi_artifact_ref :: "string option"
  mi_embedding_ref :: "string option"
  mi_provenance_id :: string
  mi_embedding :: "rat list option"
  mi_embedding_model :: "string option"
  mi_metadata :: "(string, meta_value) dict"

definition str_or_empty :: "string option \<Rightarrow> string" where
  "str_or_empty s = (case s of None \<Rightarrow> '''' | Some v \<Rightarrow> v)"

definition hash_basis :: "memory_item \<Rightarrow> string" where
  "hash_basis m = join_with unit_separator
     [mi_content m, kind_value (mi_kind m), str_or_empty (mi_subject m),
      str_or_empty (mi_predicate m), str_or_empty (mi_object m), polarity_value (mi_polarity m)]"

definition compute_content_hash :: "(string \<Rightarrow> string) \<Rightarrow> memory_item \<Rightarrow> string" where
  "compute_content_hash sha256 m = sha256 (hash_basis m)"

text \<open>model_post_init: an empty hash or provenance id is filled in, a given one is kept.\<close>
definition post_init :: "(string \<Rightarrow> string) \<Rightarrow> memory_item \<Rightarrow> memory_item" where
  "post_init sha256 m =
     (let m1 = (if mi_content_hash m = [] then m\<lparr>mi_content_hash := compute_content_hash sha256 m\<rparr>
                else m)
      in if mi_provenance_id m1 = [] then m1\<lparr>mi_provenance_id := ''prov_'' @ mi_id m1\<rparr> else m1)"

text \<open>The construction MemoryItem(id=.., content=.., namespace=.., owner_id=.., workspace_id=..,
  session_id=..) with every other field at its default; now is the clock's reading.\<close>
definition default_item ::
  "int \<Rightarrow> string \<Rightarrow> string \<Rightarrow> namespace \<Rightarrow> string \<Rightarrow> string \<Rightarrow> string \<Rightarrow> memory_item" where
  "default_item now mid content ns owner workspace session =
     \<lparr>mi_id = mid, mi_content = content, mi_kind = PROPOSITION, mi_tier = STM, mi_state = ACTIVE,
      mi_namespace = ns, mi_owner_id = owner, mi_workspace_id = workspace,
      mi_session_id = session, mi_created_at = now, mi_updated_at = now, mi_valid_at = None,
      mi_invalid_at = None, mi_importance_score = 1 / 2, mi_relevance_score = 0,
      mi_access_count = 0, mi_source = Src_USER, mi_subject = None, mi_predicate = None,
      mi_object = None, mi_object_kind = None, mi_polarity = POSITIVE, mi_content_hash = '''',
      mi_artifact_ref = None, mi_embedding_ref = None, mi_provenance_id = '''',
      mi_embedding = None, mi_embedding_model = None, mi_metadata = []\<rparr>"

lemma post_init_identity [simp]:
  "mi_id (post_init sha256 m) = mi_id m"
  "mi_namespace (post_init sha256 m) = mi_namespace m"
  "mi_state (post_init sha256 m) = mi_state m"
  "mi_content (post_init sha256 m) = mi_content m"
  "mi_created_at (post_init sha256 m) = mi_created_at m"
  "mi_tier (post_init sha256 m) = mi_tier m"
  by (simp_all add: post_init_def Let_def)

lemma post_init_idem: "post_init sha256 (post_init sha256 m) = post_init sha256 m"
  if "\<And>s. sha256 s \<noteq> []"
  using that by (simp add: post_init_def Let_def compute_content_hash_def)

lemma post_init_provenance: "mi_provenance_id (post_init sha256 m) \<noteq> []"
  by (simp add: post_init_def Let_def)

section \<open>Ranked items\<close>

datatype recall_channel = STM_FLOOR | MTM_DENSE | MTM_SPARSE | LTM_GRAPH | LTM_FULLTEXT

record scored =
  sc_item :: memory_item
  sc_score :: rat
  sc_channel :: recall_channel
  sc_rank :: "nat option"
  sc_is_floor :: bool

abbreviation sc_id :: "scored \<Rightarrow> string" where
  "sc_id s \<equiv> mi_id (sc_item s)"

record sparse_query =
  sq_indices :: "int list"
  sq_values :: "rat list"
  sq_encoder :: string

definition mk_sparse_query :: "int list \<Rightarrow> rat list \<Rightarrow> string \<Rightarrow> sparse_query or_raise" where
  "mk_sparse_query is vs enc = (if length is \<noteq> length vs then Inl ValueError
     else Inr \<lparr>sq_indices = is, sq_values = vs, sq_encoder = enc\<rparr>)"

section \<open>The contracts aggregate\<close>

record triple =
  tr_subject :: string
  tr_predicate :: string
  tr_object :: string
  tr_polarity :: polarity
  tr_subject_entity_uid :: "string option"
  tr_object_entity_uid :: "string option"

record validity =
  va_valid_at :: int
  va_invalid_at :: "int option"
  va_recorded_at :: int
  va_valid_at_inferred :: bool

record salience_components =
  sal_relevance :: rat
  sal_recency :: rat
  sal_usage :: rat
  sal_importance :: rat
  sal_score :: rat
  sal_strength :: rat
  sal_scored_at :: int

record contract_item =
  ci_id :: string
  ci_namespace :: namespace
  ci_kind :: memory_kind
  ci_content :: string
  ci_triple :: "triple option"
  ci_tier :: memory_tier
  ci_state :: memory_state
  ci_validity :: validity
  ci_salience :: "salience_components option"
  ci_access_count :: int
  ci_mention_count :: int
  ci_importance :: rat
  ci_last_seen :: int
  ci_artifact_ref :: "string option"
  ci_provenance_id :: string
  ci_embedding_ref :: "string option"

text \<open>The field constraints of the model: non-empty ids, non-negative counts, importance in [0, 1].\<close>
definition contract_item_ok :: "contract_item \<Rightarrow> bool" where
  "contract_item_ok m = (ci_id m \<noteq> [] \<and> 0 \<le> ci_access_count m \<and> 0 \<le> ci_mention_count m
     \<and> 0 \<le> ci_importance m \<and> ci_importance m \<le> 1 \<and> ci_provenance_id m \<noteq> []
     \<and> valid_ns (ci_namespace m))"

definition tier_order :: "memory_tier list" where
  "tier_order = [STM, MTM, LTM]"

fun index_of :: "'a \<Rightarrow> 'a list \<Rightarrow> nat" where
  "index_of x [] = 0"
| "index_of x (y # ys) = (if x = y then 0 else Suc (index_of x ys))"

definition can_promote_to :: "contract_item \<Rightarrow> memory_tier \<Rightarrow> bool" where
  "can_promote_to m t = (index_of t tier_order = index_of (ci_tier m) tier_order + 1)"

definition with_tier :: "memory_tier \<Rightarrow> int \<Rightarrow> contract_item \<Rightarrow> contract_item" where
  "with_tier t now m = m\<lparr>ci_tier := t, ci_last_seen := now\<rparr>"

definition reinforced :: "int \<Rightarrow> rat option \<Rightarrow> contract_item \<Rightarrow> contract_item" where
  "reinforced now imp m =
     (let m1 = m\<lparr>ci_access_count := ci_access_count m + 1, ci_mention_count := ci_mention_count m + 1,
                 ci_last_seen := now\<rparr>
      in case imp of None \<Rightarrow> m1 | Some i \<Rightarrow> m1\<lparr>ci_importance := i\<rparr>)"

definition superseded_by :: "string \<Rightarrow> int \<Rightarrow> contract_item \<Rightarrow> contract_item" where
  "superseded_by winner now m =
     (let closed = (ci_validity m)\<lparr>va_invalid_at := Some now\<rparr>
      in m\<lparr>ci_state := SUPERSEDED, ci_validity := closed, ci_last_seen := now\<rparr>)"

definition quarantined :: "int \<Rightarrow> string \<Rightarrow> contract_item \<Rightarrow> contract_item" where
  "quarantined now reason m = m\<lparr>ci_state := QUARANTINED, ci_last_seen := now\<rparr>"

definition archived :: "int \<Rightarrow> contract_item \<Rightarrow> contract_item" where
  "archived now m = m\<lparr>ci_state := ARCHIVED, ci_last_seen := now\<rparr>"

text \<open>One call of a lifecycle helper, with whatever arguments.\<close>
inductive lifecycle_step :: "contract_item \<Rightarrow> contract_item \<Rightarrow> bool" where
  "lifecycle_step m (with_tier t now m)"
| "lifecycle_step m (reinforced now imp m)"
| "lifecycle_step m (superseded_by w now m)"
| "lifecycle_step m (quarantined now reason m)"
| "lifecycle_step m (archived now m)"

inductive_cases lifecycle_stepE: "lifecycle_step m m'"
inductive_simps lifecycle_step_simps: "lifecycle_step m m'"

lemmas lifecycle_defs = with_tier_def reinforced_def superseded_by_def quarantined_def archived_def
  Let_def

text \<open>What no helper changes: identity, tenancy, content, lineage and the valid-time start.\<close>
definition identity_part :: "contract_item \<Rightarrow> string \<times> namespace \<times> string \<times> triple option \<times> string \<times> int"
where
  "identity_part m = (ci_id m, ci_namespace m, ci_content m, ci_triple m, ci_provenance_id m,
     va_valid_at (ci_validity m))"

lemma lifecycle_step_identity: "lifecycle_step m m' \<Longrightarrow> identity_part m' = identity_part m"
  by (erule lifecycle_stepE) (auto simp: identity_part_def lifecycle_defs split: option.splits)

lemma lifecycle_step_counts:
  "lifecycle_step m m' \<Longrightarrow> ci_access_count m \<le> ci_access_count m' \<and> ci_mention_count m \<le> ci_mention_count m'"
  by (erule lifecycle_stepE) (auto simp: lifecycle_defs split: option.splits)

lemma lifecycle_step_state:
  "lifecycle_step m m' \<Longrightarrow> ci_state m' = ci_state m \<or> ci_state m' \<in> {SUPERSEDED, QUARANTINED, ARCHIVED}"
  by (erule lifecycle_stepE) (auto simp: lifecycle_defs split: option.splits)

lemma lifecycle_step_close:
  "lifecycle_step m m' \<Longrightarrow> va_invalid_at (ci_validity m) \<noteq> None \<Longrightarrow> va_invalid_at (ci_validity m') \<noteq> None"
  by (erule lifecycle_stepE) (auto simp: lifecycle_defs split: option.splits)

lemma can_promote_to_iff:
  "can_promote_to m t \<longleftrightarrow> (ci_tier m = STM \<and> t = MTM) \<or> (ci_tier m = MTM \<and> t = LTM)"
  by (cases "ci_tier m"; cases t) (simp_all add: can_promote_to_def tier_order_def)

text \<open>
  Lifecycle over any sequence of helper calls: the id, namespace, content, triple, provenance
  and valid-time start never change, the counters never decrease, the item is never deleted and
  never becomes active again by a helper, and a bi-temporal close is never undone.
\<close>
theorem lifecycle_helpers_invariant:
  assumes "lifecycle_step\<^sup>*\<^sup>* m m'" and "ci_state m \<noteq> DELETED"
  shows "identity_part m' = identity_part m \<and> ci_access_count m \<le> ci_access_count m'
    \<and> ci_state m' \<noteq> DELETED \<and> (ci_state m \<noteq> ACTIVE \<longrightarrow> ci_state m' \<noteq> ACTIVE)
    \<and> (va_invalid_at (ci_validity m) \<noteq> None \<longrightarrow> va_invalid_at (ci_validity m') \<noteq> None)"
  using assms
proof (induction rule: rtranclp_induct)
  case (step y z)
  then show ?case
    using lifecycle_step_identity [OF step.hyps(2)] lifecycle_step_counts [OF step.hyps(2)]
      lifecycle_step_state [OF step.hyps(2)] lifecycle_step_close [OF step.hyps(2)]
    by auto
qed auto

definition sample_contract_item :: contract_item where
  "sample_contract_item = \<lparr>ci_id = ''m1'', ci_namespace = \<lparr>ns_org = ''o'', ns_workspace = ''w'',
     ns_user = ''u'', ns_session = ''s'', ns_visibility = PRIVATE\<rparr>, ci_kind = PROPOSITION,
     ci_content = ''text'', ci_triple = None, ci_tier = STM, ci_state = ACTIVE,
     ci_validity = \<lparr>va_valid_at = 5, va_invalid_at = None, va_recorded_at = 6,
       va_valid_at_inferred = False\<rparr>,
     ci_salience = None, ci_access_count = 0, ci_mention_count = 1, ci_importance = 1 / 2,
     ci_last_seen = 6, ci_artifact_ref = None, ci_provenance_id = ''p'', ci_embedding_ref = None\<rparr>"

theorem lifecycle_helpers_invariant_witness:
  "ci_state (archived 9 (superseded_by ''m2'' 8 sample_contract_item)) \<noteq> DELETED"
proof -
  have "lifecycle_step\<^sup>*\<^sup>* sample_contract_item (archived 9 (superseded_by ''m2'' 8 sample_contract_item))"
    by (rule rtranclp.rtrancl_into_rtrancl [OF r_into_rtranclp]) (rule lifecycle_step.intros)+
  then show ?thesis
    using lifecycle_helpers_invariant by (auto simp: sample_contract_item_def)
qed

text \<open>
  The adjacency check and the tier helper disagree: can_promote_to admits exactly the two
  forward edges, while with_tier moves an item to any tier, the non-adjacent one and the backward
  one included.
\<close>
theorem with_tier_does_not_check_adjacency:
  "(can_promote_to m t \<longleftrightarrow> (ci_tier m, t) \<in> {(STM, MTM), (MTM, LTM)}) \<and> ci_tier (with_tier t now m) = t"
  by (auto simp: can_promote_to_iff with_tier_def)

end
