(* ===== verification/Stm_Store.thy ===== *)
theory Stm_Store
  imports Memory_Model "HOL-Library.Product_Lexorder" "HOL-Library.List_Lexorder"
    "HOL-Library.Char_ord"
begin

text \<open>
  The short-term tier, in-process adapter (storage/adapters/memory_stm.py): one partition per
  namespace prefix, each a dictionary of rows with their expiry and a sorted recency index, with
  lazy expiry on reads and capacity eviction on writes. SortedList is the sortedcontainers package:
  its add and remove are the fields of a parameter sl, and sorted_list_pkg states what that
  package documents (the contents stay sorted, and change by the one element).

  The eviction loop of put is a partial function, so that returning is something to prove. The
  lemmas establish the index invariant, that the loop ends, and that a write is the abstract
  operation on the recency list: drop the expired and the rewritten, insert, keep the cap newest.
\<close>

type_synonym rkey = "int \<times> string"

record sorted_list_ops =
  sl_add :: "rkey \<Rightarrow> rkey list \<Rightarrow> rkey list"
  sl_remove :: "rkey \<Rightarrow> rkey list \<Rightarrow> rkey list"

definition sorted_list_pkg :: "sorted_list_ops \<Rightarrow> bool" where
  "sorted_list_pkg sl = (\<forall>x xs. sorted xs \<longrightarrow>
     (sorted (sl_add sl x xs) \<and> mset (sl_add sl x xs) = add_mset x (mset xs)) \<and>
     (x \<in> set xs \<longrightarrow> sorted (sl_remove sl x xs) \<and> mset (sl_remove sl x xs) = mset xs - {#x#}))"

definition plain_sorted_list :: sorted_list_ops where
  "plain_sorted_list = \<lparr>sl_add = insort, sl_remove = remove1\<rparr>"

type_synonym entry = "memory_item \<times> int option"

record partition =
  p_items :: "(string, entry) dict"
  p_recency :: "rkey list"

definition empty_partition :: partition where
  "empty_partition = \<lparr>p_items = [], p_recency = []\<rparr>"

type_synonym stm_store = "(string, partition) dict"

record stm_config =
  stm_max_items :: int
  stm_default_ttl :: "int option"

text \<open>The partition of a namespace, created empty on first use.\<close>
definition partition_of :: "namespace \<Rightarrow> stm_store \<Rightarrow> partition" where
  "partition_of ns s = dict_default empty_partition s (to_prefix ns)"

definition is_expired :: "int option \<Rightarrow> int \<Rightarrow> bool" where
  "is_expired expires_at now = (case expires_at of None \<Rightarrow> False | Some e \<Rightarrow> e \<le> now)"

definition recency_entry :: "memory_item \<Rightarrow> string \<Rightarrow> rkey" where
  "recency_entry m mid = (- mi_created_at m, mid)"

definition evict_locked :: "sorted_list_ops \<Rightarrow> string \<Rightarrow> partition \<Rightarrow> partition" where
  "evict_locked sl mid p = (case dict_get (p_items p) mid of
       None \<Rightarrow> p
     | Some (m, _) \<Rightarrow>
         let key = recency_entry m mid
         in \<lparr>p_items = dict_pop mid (p_items p),
             p_recency = (if key \<in> set (p_recency p) then sl_remove sl key (p_recency p)
                          else p_recency p)\<rparr>)"

definition expired_ids :: "int \<Rightarrow> partition \<Rightarrow> string list" where
  "expired_ids now p = map fst (filter (\<lambda>(mid, m, exp). is_expired exp now) (p_items p))"

definition prune_expired :: "sorted_list_ops \<Rightarrow> int \<Rightarrow> partition \<Rightarrow> partition" where
  "prune_expired sl now p = fold (evict_locked sl) (expired_ids now p) p"

text \<open>while len(items) > max: evict recency[-1] (an IndexError on an empty index).\<close>
partial_function (option) shrink ::
  "sorted_list_ops \<Rightarrow> int \<Rightarrow> partition \<Rightarrow> partition or_raise option" where
  "shrink sl cap p =
     (if int (length (p_items p)) > cap
      then (if p_recency p = [] then Some (Inl IndexError)
            else shrink sl cap (evict_locked sl (snd (last (p_recency p))) p))
      else Some (Inr p))"

declare shrink.simps [code]

definition stm_put ::
  "sorted_list_ops \<Rightarrow> stm_config \<Rightarrow> int \<Rightarrow> memory_item \<Rightarrow> stm_store \<Rightarrow> stm_store or_raise option" where
  "stm_put sl cfg now item s =
     (let p0 = partition_of (mi_namespace item) s;
          p1 = evict_locked sl (mi_id item) (prune_expired sl now p0);
          expires_at = (case stm_default_ttl cfg of None \<Rightarrow> None | Some ttl \<Rightarrow> Some (now + ttl));
          p2 = \<lparr>p_items = dict_put (mi_id item) (item, expires_at) (p_items p1),
                p_recency = sl_add sl (recency_entry item (mi_id item)) (p_recency p1)\<rparr>
      in case shrink sl (stm_max_items cfg) p2 of
           None \<Rightarrow> None
         | Some r \<Rightarrow> Some (rbind r (\<lambda>p3. Inr (dict_put (to_prefix (mi_namespace item)) p3 s))))"

definition stm_get ::
  "sorted_list_ops \<Rightarrow> int \<Rightarrow> namespace \<Rightarrow> string \<Rightarrow> stm_store \<Rightarrow> memory_item option \<times> stm_store" where
  "stm_get sl now ns mid s =
     (let p = partition_of ns s
      in case dict_get (p_items p) mid of
           None \<Rightarrow> (None, dict_put (to_prefix ns) p s)
         | Some (item, expires_at) \<Rightarrow>
             if is_expired expires_at now
             then (None, dict_put (to_prefix ns) (evict_locked sl mid p) s)
             else (Some item, dict_put (to_prefix ns) p s))"

text \<open>enumerate(recency[: max(0, limit)]), each id looked up (a KeyError when absent).\<close>
fun floor_of :: "(string, entry) dict \<Rightarrow> nat \<Rightarrow> rkey list \<Rightarrow> scored list or_raise" where
  "floor_of items rank [] = Inr []"
| "floor_of items rank ((_, mid) # ks) = (case dict_get items mid of
       None \<Rightarrow> Inl KeyError
     | Some (item, _) \<Rightarrow> rbind (floor_of items (Suc rank) ks) (\<lambda>out. Inr
         (\<lparr>sc_item = item, sc_score = 1, sc_channel = STM_FLOOR, sc_rank = Some rank,
           sc_is_floor = True\<rparr> # out)))"

definition stm_recent ::
  "sorted_list_ops \<Rightarrow> int \<Rightarrow> namespace \<Rightarrow> int \<Rightarrow> stm_store \<Rightarrow> scored list or_raise \<times> stm_store" where
  "stm_recent sl now ns limit s =
     (let p = prune_expired sl now (partition_of ns s)
      in (floor_of (p_items p) 0 (take (nat (max 0 limit)) (p_recency p)),
          dict_put (to_prefix ns) p s))"

definition stm_evict :: "sorted_list_ops \<Rightarrow> namespace \<Rightarrow> string \<Rightarrow> stm_store \<Rightarrow> stm_store" where
  "stm_evict sl ns mid s = dict_put (to_prefix ns) (evict_locked sl mid (partition_of ns s)) s"

section \<open>The index invariant\<close>

definition entry_key :: "string \<times> entry \<Rightarrow> rkey" where
  "entry_key e = recency_entry (fst (snd e)) (fst e)"

definition part_inv :: "partition \<Rightarrow> bool" where
  "part_inv p = (distinct (map fst (p_items p)) \<and> (\<forall>(k, m, _)\<in>set (p_items p). mi_id m = k)
     \<and> sorted (p_recency p) \<and> mset (p_recency p) = mset (map entry_key (p_items p)))"

definition stm_inv :: "stm_store \<Rightarrow> bool" where
  "stm_inv s = (\<forall>pre p. dict_get s pre = Some p \<longrightarrow>
     part_inv p \<and> (\<forall>(k, m, _)\<in>set (p_items p). to_prefix (mi_namespace m) = pre))"

lemma plain_sorted_list_pkg: "sorted_list_pkg plain_sorted_list"
  by (simp add: sorted_list_pkg_def plain_sorted_list_def sorted_insort sorted_remove1)

lemma sorted_mset_eq: "sorted xs \<Longrightarrow> sorted ys \<Longrightarrow> mset xs = mset ys \<Longrightarrow> xs = ys"
  by (metis properties_for_sort sorted_sort_id)

lemma sl_add_insort:
  assumes "sorted_list_pkg sl" "sorted xs"
  shows "sl_add sl x xs = insort x xs"
proof (rule sorted_mset_eq)
  show "sorted (sl_add sl x xs)" "mset (sl_add sl x xs) = mset (insort x xs)"
    using assms unfolding sorted_list_pkg_def by (metis, metis mset_insort)
qed (use assms(2) in \<open>simp add: sorted_insort\<close>)

lemma sl_remove_remove1:
  assumes "sorted_list_pkg sl" "sorted xs" "x \<in> set xs"
  shows "sl_remove sl x xs = remove1 x xs"
proof (rule sorted_mset_eq)
  show "sorted (sl_remove sl x xs)" "mset (sl_remove sl x xs) = mset (remove1 x xs)"
    using assms unfolding sorted_list_pkg_def by (metis, metis mset_remove1)
qed (use assms(2) in \<open>simp add: sorted_remove1\<close>)

text \<open>Every operation amounts to keeping the rows whose id passes a test.\<close>
definition keep :: "(string \<Rightarrow> bool) \<Rightarrow> partition \<Rightarrow> partition" where
  "keep Q p = \<lparr>p_items = filter (\<lambda>e. Q (fst e)) (p_items p),
     p_recency = filter (\<lambda>k. Q (snd k)) (p_recency p)\<rparr>"

lemma keep_keep: "keep Q (keep R p) = keep (\<lambda>i. R i \<and> Q i) p"
  by (simp add: keep_def conj_commute)

lemma snd_entry_key [simp]: "snd (entry_key e) = fst e"
  by (simp add: entry_key_def recency_entry_def)

lemma keep_inv:
  assumes "part_inv p" shows "part_inv (keep Q p)"
proof -
  have "mset (filter (\<lambda>k. Q (snd k)) (p_recency p)) = mset (map entry_key (filter (\<lambda>e. Q (fst e)) (p_items p)))"
    using assms by (simp add: part_inv_def mset_filter filter_mset_image_mset o_def)
  then show ?thesis
    using assms by (auto simp: part_inv_def keep_def distinct_map_filter intro: sorted_wrt_filter)
qed

lemma part_inv_ids: "part_inv p \<Longrightarrow> mset (map snd (p_recency p)) = mset (map fst (p_items p))"
  by (simp add: part_inv_def flip: multiset.map_comp) (simp add: multiset.map_comp o_def)

lemma part_inv_distinct: "part_inv p \<Longrightarrow> distinct (map snd (p_recency p))"
  using part_inv_ids [of p] mset_eq_imp_distinct_iff by (metis part_inv_def)

lemma part_inv_id_sets: "part_inv p \<Longrightarrow> snd ` set (p_recency p) = fst ` set (p_items p)"
  using part_inv_ids [of p] by (metis mset_eq_setD set_map)

lemma part_inv_length: "part_inv p \<Longrightarrow> length (p_recency p) = length (p_items p)"
  by (metis part_inv_ids length_map size_mset)

lemma remove1_snd_filter:
  "distinct (map snd xs) \<Longrightarrow> x \<in> set xs \<Longrightarrow> remove1 x xs = filter (\<lambda>k. snd k \<noteq> snd x) xs"
  by (induction xs) (auto intro!: filter_True [symmetric] simp: image_iff)

lemma evict_keep:
  assumes "sorted_list_pkg sl" "part_inv p"
  shows "evict_locked sl mid p = keep (\<lambda>i. i \<noteq> mid) p"
proof (cases "dict_get (p_items p) mid")
  case None
  then have "mid \<notin> fst ` set (p_items p)" "mid \<notin> snd ` set (p_recency p)"
    using part_inv_id_sets [OF assms(2)] by (auto simp: map_of_eq_None_iff)
  then have "filter (\<lambda>e. fst e \<noteq> mid) (p_items p) = p_items p"
    "filter (\<lambda>k. snd k \<noteq> mid) (p_recency p) = p_recency p"
    by (auto intro!: filter_True)
  then show ?thesis
    using None by (simp add: evict_locked_def keep_def)
next
  case (Some e)
  then have "(mid, e) \<in> set (p_items p)"
    by (rule map_of_SomeD)
  then have "entry_key (mid, e) \<in> set (p_recency p)"
    using assms(2) by (metis (no_types) part_inv_def image_eqI list.set_map mset_eq_setD)
  then have "sl_remove sl (entry_key (mid, e)) (p_recency p) = filter (\<lambda>k. snd k \<noteq> mid) (p_recency p)"
    and "entry_key (mid, e) \<in> set (p_recency p)"
    using sl_remove_remove1 [OF assms(1)] remove1_snd_filter [OF part_inv_distinct [OF assms(2)]]
      assms(2) by (auto simp: part_inv_def)
  then show ?thesis
    using Some
    by (cases e) (simp add: evict_locked_def keep_def Let_def entry_key_def AList.delete_eq
        case_prod_unfold eq_commute [of mid])
qed

lemma fold_evict_keep:
  "sorted_list_pkg sl \<Longrightarrow> part_inv p \<Longrightarrow> fold (evict_locked sl) ids p = keep (\<lambda>i. i \<notin> set ids) p"
proof (induction ids arbitrary: p)
  case Nil
  then show ?case by (simp add: keep_def)
next
  case (Cons a ids)
  then show ?case
    by (simp add: evict_keep keep_inv keep_keep)
qed

lemma prune_keep:
  "sorted_list_pkg sl \<Longrightarrow> part_inv p \<Longrightarrow>
   prune_expired sl now p = keep (\<lambda>i. i \<notin> set (expired_ids now p)) p"
  by (simp add: prune_expired_def fold_evict_keep)

lemma keep_True: "(\<And>e. e \<in> set (p_items p) \<Longrightarrow> Q (fst e)) \<Longrightarrow> part_inv p \<Longrightarrow> keep Q p = p"
proof -
  assume Q: "\<And>e. e \<in> set (p_items p) \<Longrightarrow> Q (fst e)" and inv: "part_inv p"
  have "\<And>k. k \<in> set (p_recency p) \<Longrightarrow> Q (snd k)"
    using part_inv_id_sets [OF inv] Q by (metis (no_types, lifting) imageE imageI)
  then show ?thesis
    using Q by (simp add: keep_def)
qed

lemma filter_not_last:
  assumes "distinct (map snd xs)" "xs \<noteq> []"
  shows "filter (\<lambda>k. snd k \<noteq> snd (last xs)) xs = butlast xs"
proof -
  have "xs = butlast xs @ [last xs]" using assms(2) by simp
  then have "distinct (map snd (butlast xs @ [last xs]))" using assms(1) by simp
  then have "filter (\<lambda>k. snd k \<noteq> snd (last xs)) (butlast xs @ [last xs]) = butlast xs"
    by (auto intro!: filter_True simp: image_iff)
  then show ?thesis using assms(2) by simp
qed

text \<open>The eviction loop ends and keeps exactly the cap newest rows.\<close>
lemma shrink_keep:
  assumes "sorted_list_pkg sl" "part_inv p" "0 \<le> cap"
  shows "shrink sl cap p =
    Some (Inr (keep (\<lambda>i. i \<in> snd ` set (take (nat cap) (p_recency p))) p))"
  using assms(2)
proof (induction "length (p_items p)" arbitrary: p rule: less_induct)
  case less
  let ?r = "p_recency p"
  note len = part_inv_length [OF less.prems]
  show ?case
  proof (cases "int (length (p_items p)) > cap")
    case False
    then have "take (nat cap) ?r = ?r" using len by simp
    moreover have "keep (\<lambda>i. i \<in> snd ` set ?r) p = p"
      by (rule keep_True) (use part_inv_id_sets [OF less.prems] less.prems in auto)
    ultimately show ?thesis using False by (subst shrink.simps) simp
  next
    case True
    then have ne: "?r \<noteq> []" using len assms(3) by auto
    let ?p = "keep (\<lambda>i. i \<noteq> snd (last ?r)) p"
    have ev: "evict_locked sl (snd (last ?r)) p = ?p"
      by (rule evict_keep [OF assms(1) less.prems])
    have r': "p_recency ?p = butlast ?r"
      by (simp add: keep_def filter_not_last [OF part_inv_distinct [OF less.prems] ne])
    have "length (p_items ?p) < length (p_items p)"
      using part_inv_length [OF keep_inv [OF less.prems]] r' ne len
      by (metis diff_less length_butlast length_greater_0_conv zero_less_one)
    then have "shrink sl cap ?p = Some (Inr (keep (\<lambda>i. i \<in> snd ` set (take (nat cap) (butlast ?r))) ?p))"
      using less.hyps keep_inv less.prems r' by metis
    moreover have "take (nat cap) (butlast ?r) = take (nat cap) ?r"
      using True len by (simp add: butlast_conv_take min_def)
    moreover have "i \<noteq> snd (last ?r) \<and> i \<in> snd ` set (take (nat cap) ?r)
        \<longleftrightarrow> i \<in> snd ` set (take (nat cap) ?r)" for i
    proof -
      have "snd (last ?r) \<notin> snd ` set (butlast ?r)"
        using part_inv_distinct [OF less.prems] ne
        by (metis append_butlast_last_id distinct_append disjoint_iff imageI image_set list.set_intros(1) map_append list.simps(9))
      then show ?thesis
        using \<open>take (nat cap) (butlast ?r) = take (nat cap) ?r\<close> set_take_subset
        by (metis image_mono in_mono)
    qed
    ultimately show ?thesis
      using True ne ev by (subst shrink.simps) (simp add: keep_keep)
  qed
qed

lemma filter_snd_prefix:
  assumes "distinct (map snd (xs @ ys))"
  shows "filter (\<lambda>k. snd k \<in> snd ` set xs) (xs @ ys) = xs"
proof -
  have "filter (\<lambda>k. snd k \<in> snd ` set xs) ys = []"
    using assms by (simp add: filter_empty_conv disjoint_iff image_iff) metis
  moreover have "filter (\<lambda>k. snd k \<in> snd ` set xs) xs = xs"
    by (intro filter_True) simp
  ultimately show ?thesis by simp
qed

lemma keep_take_recency:
  assumes "part_inv p"
  shows "p_recency (keep (\<lambda>i. i \<in> snd ` set (take n (p_recency p))) p) = take n (p_recency p)"
  using filter_snd_prefix [of "take n (p_recency p)" "drop n (p_recency p)"] part_inv_distinct [OF assms]
  by (simp add: keep_def)

lemma empty_partition_inv [simp]: "part_inv empty_partition"
  by (simp add: part_inv_def empty_partition_def)

lemma partition_of_inv: "stm_inv s \<Longrightarrow> part_inv (partition_of ns s)"
  by (auto simp: stm_inv_def partition_of_def dict_default_def split: option.split)

lemma partition_of_ns:
  "stm_inv s \<Longrightarrow> (k, m, e) \<in> set (p_items (partition_of ns s)) \<Longrightarrow>
   to_prefix (mi_namespace m) = to_prefix ns \<and> mi_id m = k"
  using partition_of_inv [of s ns]
  by (fastforce simp: stm_inv_def partition_of_def dict_default_def empty_partition_def part_inv_def
      split: option.splits)

lemma dict_put_partition:
  "partition_of ns' (dict_put (to_prefix ns) p s)
   = (if to_prefix ns' = to_prefix ns then p else partition_of ns' s)"
  by (simp add: partition_of_def dict_default_def)

lemma stm_inv_put:
  "\<lbrakk> stm_inv s; part_inv p; \<And>k m e. (k, m, e) \<in> set (p_items p) \<Longrightarrow> to_prefix (mi_namespace m) = pre \<rbrakk>
   \<Longrightarrow> stm_inv (dict_put pre p s)"
  by (fastforce simp: stm_inv_def split: if_splits)

lemma keep_items_subset: "set (p_items (keep Q p)) \<subseteq> set (p_items p)"
  by (auto simp: keep_def)

text \<open>The partition just before eviction: dropped the expired and the old row, added the new.\<close>
definition inserted :: "int \<Rightarrow> int option \<Rightarrow> memory_item \<Rightarrow> partition \<Rightarrow> partition" where
  "inserted now ex item p =
     (let q = keep (\<lambda>i. i \<notin> set (expired_ids now p) \<and> i \<noteq> mi_id item) p
      in \<lparr>p_items = p_items q @ [(mi_id item, item, ex)],
          p_recency = insort (recency_entry item (mi_id item)) (p_recency q)\<rparr>)"

lemma update_fresh: "k \<notin> fst ` set d \<Longrightarrow> dict_put k v d = d @ [(k, v)]"
  by (induction d) auto

lemma inserted_inv: "part_inv p \<Longrightarrow> part_inv (inserted now ex item p)"
  using keep_inv [of p "\<lambda>i. i \<notin> set (expired_ids now p) \<and> i \<noteq> mi_id item"]
  by (auto simp: inserted_def Let_def part_inv_def keep_def sorted_insort entry_key_def)

definition ttl_expiry :: "stm_config \<Rightarrow> int \<Rightarrow> int option" where
  "ttl_expiry cfg now = (case stm_default_ttl cfg of None \<Rightarrow> None | Some ttl \<Rightarrow> Some (now + ttl))"

lemma stm_put_shrink:
  assumes "sorted_list_pkg sl" "stm_inv s"
  shows "stm_put sl cfg now item s =
    (case shrink sl (stm_max_items cfg)
            (inserted now (ttl_expiry cfg now) item (partition_of (mi_namespace item) s)) of
       None \<Rightarrow> None
     | Some r \<Rightarrow> Some (rbind r (\<lambda>p. Inr (dict_put (to_prefix (mi_namespace item)) p s))))"
proof -
  let ?p = "partition_of (mi_namespace item) s"
  let ?q = "keep (\<lambda>i. i \<notin> set (expired_ids now ?p) \<and> i \<noteq> mi_id item) ?p"
  have inv: "part_inv ?p" by (rule partition_of_inv [OF assms(2)])
  have q: "evict_locked sl (mi_id item) (prune_expired sl now ?p) = ?q"
    using assms(1) inv by (simp add: prune_keep evict_keep keep_inv keep_keep)
  have "mi_id item \<notin> fst ` set (p_items ?q)" by (auto simp: keep_def)
  then have ins: "\<lparr>p_items = dict_put (mi_id item) (item, ttl_expiry cfg now) (p_items ?q),
      p_recency = sl_add sl (recency_entry item (mi_id item)) (p_recency ?q)\<rparr>
      = inserted now (ttl_expiry cfg now) item ?p"
    using keep_inv [OF inv] sl_add_insort [OF assms(1)]
    by (simp add: inserted_def Let_def update_fresh part_inv_def)
  show ?thesis
    unfolding stm_put_def Let_def q ttl_expiry_def [symmetric] ins by (rule refl)
qed

lemma stm_put_eq:
  assumes "sorted_list_pkg sl" "stm_inv s" "0 \<le> stm_max_items cfg"
  shows "stm_put sl cfg now item s =
    (let p = inserted now (ttl_expiry cfg now) item (partition_of (mi_namespace item) s)
     in Some (Inr (dict_put (to_prefix (mi_namespace item))
          (keep (\<lambda>i. i \<in> snd ` set (take (nat (stm_max_items cfg)) (p_recency p))) p) s)))"
  using shrink_keep [OF assms(1) inserted_inv [OF partition_of_inv [OF assms(2)]] assms(3)]
  by (simp add: stm_put_shrink [OF assms(1,2)] Let_def)

lemma shrink_negative:
  assumes "sorted_list_pkg sl" "part_inv p" "cap < 0"
  shows "shrink sl cap p = Some (Inl IndexError)"
  using assms(2)
proof (induction "length (p_items p)" arbitrary: p rule: less_induct)
  case less
  let ?r = "p_recency p"
  show ?case
  proof (cases "?r = []")
    case False
    let ?p = "keep (\<lambda>i. i \<noteq> snd (last ?r)) p"
    have "p_recency ?p = butlast ?r"
      by (simp add: keep_def filter_not_last [OF part_inv_distinct [OF less.prems] False])
    then have "length (p_items ?p) < length (p_items p)"
      using part_inv_length [OF keep_inv [OF less.prems]] False part_inv_length [OF less.prems]
      by (metis diff_less length_butlast length_greater_0_conv zero_less_one)
    then show ?thesis
      using less.hyps keep_inv less.prems assms(3) False evict_keep [OF assms(1) less.prems]
      by (subst shrink.simps) simp
  qed (use assms(3) in \<open>simp add: shrink.simps\<close>)
qed

lemma put_key_ns: "(k, m, e) \<in> set (p_items (inserted now ex item (partition_of (mi_namespace item) s)))
   \<Longrightarrow> stm_inv s \<Longrightarrow> to_prefix (mi_namespace m) = to_prefix (mi_namespace item)"
  by (auto simp: inserted_def Let_def dest!: subsetD [OF keep_items_subset] dest: partition_of_ns)

lemma stm_put_inv [inv_intros]:
  assumes "sorted_list_pkg sl" "stm_inv s" "stm_put sl cfg now item s = Some (Inr s')"
  shows "stm_inv s'"
proof (cases "0 \<le> stm_max_items cfg")
  case True
  let ?p = "inserted now (ttl_expiry cfg now) item (partition_of (mi_namespace item) s)"
  let ?k = "keep (\<lambda>i. i \<in> snd ` set (take (nat (stm_max_items cfg)) (p_recency ?p))) ?p"
  have "s' = dict_put (to_prefix (mi_namespace item)) ?k s"
    using stm_put_eq [OF assms(1,2) True] assms(3) by (simp add: Let_def)
  moreover have "stm_inv (dict_put (to_prefix (mi_namespace item)) ?k s)"
  proof (rule stm_inv_put [OF assms(2)])
    show "part_inv ?k"
      by (intro keep_inv inserted_inv partition_of_inv assms(2))
    show "to_prefix (mi_namespace m) = to_prefix (mi_namespace item)" if "(k, m, e) \<in> set (p_items ?k)" for k m e
      using that keep_items_subset put_key_ns assms(2) by blast
  qed
  ultimately show ?thesis by simp
next
  case False
  then have "stm_put sl cfg now item s = Some (Inl IndexError)"
    using shrink_negative [OF assms(1) inserted_inv [OF partition_of_inv [OF assms(2)]]]
    by (simp add: stm_put_shrink [OF assms(1,2)])
  then show ?thesis using assms(3) by simp
qed

lemma stm_get_result: "fst (stm_get sl now ns mid s) =
    (case dict_get (p_items (partition_of ns s)) mid of None \<Rightarrow> None
     | Some (m, ex) \<Rightarrow> if is_expired ex now then None else Some m)"
  by (auto simp: stm_get_def Let_def split: option.splits)

lemma stm_inv_keep:
  assumes "stm_inv s" shows "stm_inv (dict_put (to_prefix ns) (keep Q (partition_of ns s)) s)"
  by (rule stm_inv_put [OF assms keep_inv [OF partition_of_inv [OF assms]]])
    (use keep_items_subset partition_of_ns [OF assms] in blast)

lemma stm_inv_same: "stm_inv s \<Longrightarrow> stm_inv (dict_put (to_prefix ns) (partition_of ns s) s)"
  by (rule stm_inv_put) (auto intro: partition_of_inv dest: partition_of_ns)

lemma stm_get_inv [inv_intros]:
  "sorted_list_pkg sl \<Longrightarrow> stm_inv s \<Longrightarrow> stm_inv (snd (stm_get sl now ns mid s))"
  by (auto simp: stm_get_def Let_def evict_keep partition_of_inv stm_inv_keep stm_inv_same
      split: option.split)

lemma stm_evict_inv [inv_intros]:
  "sorted_list_pkg sl \<Longrightarrow> stm_inv s \<Longrightarrow> stm_inv (stm_evict sl ns mid s)"
  by (simp add: stm_evict_def evict_keep partition_of_inv stm_inv_keep)

lemma stm_recent_inv [inv_intros]:
  "sorted_list_pkg sl \<Longrightarrow> stm_inv s \<Longrightarrow> stm_inv (snd (stm_recent sl now ns limit s))"
  by (simp add: stm_recent_def Let_def prune_keep partition_of_inv stm_inv_keep)

lemma floor_of_Inr:
  "snd ` set ks \<subseteq> fst ` set items \<Longrightarrow> \<exists>fl. floor_of items r ks = Inr fl"
proof (induction items r ks rule: floor_of.induct)
  case (2 items rank t mid ks)
  then obtain m e where "dict_get items mid = Some (m, e)"
    by (cases "dict_get items mid") (auto simp: map_of_eq_None_iff)
  moreover obtain fl where "floor_of items (Suc rank) ks = Inr fl"
    using 2 calculation by fastforce
  ultimately show ?case by simp
qed simp

lemma floor_of_ids: "floor_of items r ks = Inr fl \<Longrightarrow>
    (\<forall>k m e. (k, m, e) \<in> set items \<longrightarrow> mi_id m = k) \<Longrightarrow>
    map sc_id fl = map snd ks \<and> map sc_rank fl = map Some [r..<r + length ks]
    \<and> (\<forall>x\<in>set fl. sc_is_floor x \<and> sc_channel x = STM_FLOOR \<and> (\<exists>k e. (k, sc_item x, e) \<in> set items))"
proof (induction items r ks arbitrary: fl rule: floor_of.induct)
  case (2 items rank t mid ks)
  then obtain m e fl' where *: "dict_get items mid = Some (m, e)" "floor_of items (Suc rank) ks = Inr fl'"
    "fl = \<lparr>sc_item = m, sc_score = 1, sc_channel = STM_FLOOR, sc_rank = Some rank, sc_is_floor = True\<rparr> # fl'"
    by (auto simp: rbind_Inr_iff split: option.splits)
  then have mem: "(mid, m, e) \<in> set items" by (auto intro: map_of_SomeD)
  then have mid: "mi_id m = mid" using 2(3) by blast
  have upt: "[rank..<Suc (rank + length ks)] = rank # [Suc rank..<Suc (rank + length ks)]"
    by (rule upt_conv_Cons) simp
  have "map sc_id fl' = map snd ks \<and> map sc_rank fl' = map Some [Suc rank..<Suc rank + length ks]
    \<and> (\<forall>x\<in>set fl'. sc_is_floor x \<and> sc_channel x = STM_FLOOR \<and> (\<exists>k e. (k, sc_item x, e) \<in> set items))"
    using 2(1) [of "(m, e)" m e fl'] 2(3) * by blast
  then show ?case using mem by (auto simp: *(3) mid upt simp del: upt_Suc)
qed simp

text \<open>The rows of a namespace that have not expired at an instant.\<close>
definition live_part :: "int \<Rightarrow> namespace \<Rightarrow> stm_store \<Rightarrow> partition" where
  "live_part now ns s =
     keep (\<lambda>i. i \<notin> set (expired_ids now (partition_of ns s))) (partition_of ns s)"

lemma live_part_inv: "stm_inv s \<Longrightarrow> part_inv (live_part now ns s)"
  unfolding live_part_def by (intro keep_inv partition_of_inv)

lemma stm_recent_spec:
  assumes "sorted_list_pkg sl" "stm_inv s"
  shows "\<exists>fl. fst (stm_recent sl now ns limit s) = Inr fl
    \<and> map sc_id fl = map snd (take (nat (max 0 limit)) (p_recency (live_part now ns s)))
    \<and> map sc_rank fl = map Some [0..<length fl]
    \<and> (\<forall>x\<in>set fl. sc_is_floor x \<and> sc_channel x = STM_FLOOR \<and> (\<exists>k e. (k, sc_item x, e) \<in> set (p_items (live_part now ns s))))"
proof -
  let ?ks = "take (nat (max 0 limit)) (p_recency (live_part now ns s))"
  have inv: "part_inv (live_part now ns s)" by (rule live_part_inv [OF assms(2)])
  have "snd ` set ?ks \<subseteq> fst ` set (p_items (live_part now ns s))"
    using part_inv_id_sets [OF inv] set_take_subset by fast
  then obtain fl where fl: "floor_of (p_items (live_part now ns s)) 0 ?ks = Inr fl"
    using floor_of_Inr by blast
  have "\<forall>k m e. (k, m, e) \<in> set (p_items (live_part now ns s)) \<longrightarrow> mi_id m = k"
    using inv by (auto simp: part_inv_def)
  note ids = floor_of_ids [OF fl this]
  then have "length fl = length ?ks" by (metis length_map)
  moreover have "fst (stm_recent sl now ns limit s) = Inr fl"
    using fl assms(1) partition_of_inv [OF assms(2)]
    by (simp add: stm_recent_def Let_def prune_keep live_part_def)
  ultimately show ?thesis using ids by auto
qed

section \<open>The repository interface\<close>

text \<open>
  What a caller of the short-term tier relies on (the port StmTierRepository): the operations keep
  the provider's invariant, a read returns only the asked-for id of the asked-for partition, a floor
  lists each id once, flagged as floor, and an evicted id reads as absent.
\<close>
locale stm_repository =
  fixes put :: "int \<Rightarrow> memory_item \<Rightarrow> 's \<Rightarrow> 's or_raise option"
    and get :: "int \<Rightarrow> namespace \<Rightarrow> string \<Rightarrow> 's \<Rightarrow> memory_item option \<times> 's"
    and recent :: "int \<Rightarrow> namespace \<Rightarrow> int \<Rightarrow> 's \<Rightarrow> scored list or_raise \<times> 's"
    and evict :: "namespace \<Rightarrow> string \<Rightarrow> 's \<Rightarrow> 's"
    and inv :: "'s \<Rightarrow> bool"
  assumes put_inv: "\<lbrakk> inv s; put now m s = Some (Inr s') \<rbrakk> \<Longrightarrow> inv s'"
    and get_inv: "inv s \<Longrightarrow> inv (snd (get now ns i s))"
    and recent_inv: "inv s \<Longrightarrow> inv (snd (recent now ns l s))"
    and evict_inv: "inv s \<Longrightarrow> inv (evict ns i s)"
    and get_own: "\<lbrakk> inv s; fst (get now ns i s) = Some m \<rbrakk>
      \<Longrightarrow> mi_id m = i \<and> to_prefix (mi_namespace m) = to_prefix ns"
    and recent_own: "\<lbrakk> inv s; fst (recent now ns l s) = Inr fl \<rbrakk>
      \<Longrightarrow> distinct (map sc_id fl) \<and> (\<forall>x\<in>set fl. sc_is_floor x
            \<and> to_prefix (mi_namespace (sc_item x)) = to_prefix ns)"
    and evict_gone: "inv s \<Longrightarrow> fst (get now ns i (evict ns i s)) = None"
begin

text \<open>A store after any history of calls.\<close>
inductive reachable :: "'s \<Rightarrow> 's \<Rightarrow> bool" where
  start: "reachable s s"
| did_put: "reachable s t \<Longrightarrow> put now m t = Some (Inr u) \<Longrightarrow> reachable s u"
| did_get: "reachable s t \<Longrightarrow> reachable s (snd (get now ns i t))"
| did_recent: "reachable s t \<Longrightarrow> reachable s (snd (recent now ns l t))"
| did_evict: "reachable s t \<Longrightarrow> reachable s (evict ns i t)"

lemma reachable_inv: "reachable s t \<Longrightarrow> inv s \<Longrightarrow> inv t"
  by (induction rule: reachable.induct) (auto intro: put_inv get_inv recent_inv evict_inv)

lemma get_isolated:
  assumes "reachable s t" "inv s" "valid_ns ns" "valid_ns (mi_namespace m)"
    "fst (get now ns i t) = Some m"
  shows "mi_id m = i \<and> mi_namespace m = ns"
  using get_own [OF reachable_inv [OF assms(1,2)] assms(5)] to_prefix_inj assms(3,4) by blast

lemma recent_isolated:
  assumes "reachable s t" "inv s" "valid_ns ns" "fst (recent now ns l t) = Inr fl" "x \<in> set fl"
    "valid_ns (mi_namespace (sc_item x))"
  shows "mi_namespace (sc_item x) = ns \<and> sc_is_floor x"
  using recent_own [OF reachable_inv [OF assms(1,2)] assms(4)] to_prefix_inj assms(3,5,6) by blast

end

lemma empty_store_inv: "stm_inv []"
  by (simp add: stm_inv_def)

lemma stm_get_own:
  assumes "stm_inv s" "fst (stm_get sl now ns i s) = Some m"
  shows "mi_id m = i \<and> to_prefix (mi_namespace m) = to_prefix ns"
proof -
  obtain e where "dict_get (p_items (partition_of ns s)) i = Some (m, e)"
    using assms(2) by (auto simp: stm_get_result split: option.splits if_splits)
  then have "(i, m, e) \<in> set (p_items (partition_of ns s))"
    by (rule map_of_SomeD)
  then show ?thesis using partition_of_ns [OF assms(1)] by auto
qed

lemma stm_recent_own:
  assumes "sorted_list_pkg sl" "stm_inv s" "fst (stm_recent sl now ns l s) = Inr fl"
  shows "distinct (map sc_id fl) \<and>
    (\<forall>x\<in>set fl. sc_is_floor x \<and> to_prefix (mi_namespace (sc_item x)) = to_prefix ns)"
proof -
  have spec: "map sc_id fl = map snd (take (nat (max 0 l)) (p_recency (live_part now ns s)))"
    "\<forall>x\<in>set fl. sc_is_floor x \<and> (\<exists>k e. (k, sc_item x, e) \<in> set (p_items (live_part now ns s)))"
    using stm_recent_spec [OF assms(1,2), of now ns l] assms(3) by auto
  have "distinct (map snd (p_recency (live_part now ns s)))"
    by (intro part_inv_distinct live_part_inv assms(2))
  then have "distinct (map sc_id fl)"
    unfolding spec(1) by (simp only: take_map [symmetric] distinct_take)
  then show ?thesis
    using spec(2) partition_of_ns [OF assms(2)] keep_items_subset unfolding live_part_def by blast
qed

lemma stm_evict_gone:
  assumes "sorted_list_pkg sl" "stm_inv s"
  shows "fst (stm_get sl now ns i (stm_evict sl ns i s)) = None"
  using assms
  by (auto simp: stm_get_result stm_evict_def dict_put_partition evict_keep partition_of_inv keep_def
      map_of_eq_None_iff split: option.split dest!: map_of_SomeD)

interpretation mem: stm_repository "stm_put sl cfg" "stm_get sl" "stm_recent sl" "stm_evict sl"
  "\<lambda>s. sorted_list_pkg sl \<and> stm_inv s" for sl cfg
  by unfold_locales
    (auto intro: stm_put_inv stm_get_inv stm_recent_inv stm_evict_inv stm_evict_gone
      dest: stm_get_own stm_recent_own)

section \<open>Properties\<close>

definition demo_ns :: namespace where
  "demo_ns = \<lparr>ns_org = ''o'', ns_workspace = ''w'', ns_user = ''u'', ns_session = ''s'',
     ns_visibility = PRIVATE\<rparr>"

definition demo_item :: "string \<Rightarrow> int \<Rightarrow> memory_item" where
  "demo_item mid t = default_item t mid ''text'' demo_ns ''u'' ''w'' ''s''"

definition demo_cfg :: stm_config where
  "demo_cfg = \<lparr>stm_max_items = 2, stm_default_ttl = Some 3600\<rparr>"

lemma demo_ns_valid [simp]: "valid_ns demo_ns"
  by (simp add: demo_ns_def valid_ns_def legal_component_def forbidden_ns_chars_def
      shared_sentinel_ok_def)

lemma map_of_keep: "map_of (p_items (keep Q p)) k = (if Q k then map_of (p_items p) k else None)"
proof -
  have "map_of (filter (\<lambda>e. Q (fst e)) xs) k = (if Q k then map_of xs k else None)" for xs :: "(string, entry) dict"
    by (induction xs) auto
  then show ?thesis by (simp add: keep_def)
qed

text \<open>
  C2. A write to the in-process short-term tier refines the abstract operation on the recency list,
  and always ends: on any well-formed store and any capacity that is not negative, put returns a
  well-formed store whose index for that namespace is the cap newest of (the unexpired rows other
  than the rewritten id, plus the new row), leaves every other partition untouched, and the new row
  reads back at that instant exactly when it is among the cap newest and its time to live is not
  already over.
\<close>
theorem stm_put_refines_recency_list:
  assumes "sorted_list_pkg sl" and "stm_inv s" and "0 \<le> stm_max_items cfg"
  shows "\<exists>s'. stm_put sl cfg now item s = Some (Inr s') \<and> stm_inv s'
    \<and> (let ns = mi_namespace item; key = recency_entry item (mi_id item);
           kept = filter (\<lambda>k. snd k \<notin> set (expired_ids now (partition_of ns s)) \<and> snd k \<noteq> mi_id item)
                    (p_recency (partition_of ns s));
           newest = take (nat (stm_max_items cfg)) (insort key kept)
       in p_recency (partition_of ns s') = newest
          \<and> (\<forall>other. to_prefix other \<noteq> to_prefix ns \<longrightarrow> partition_of other s' = partition_of other s)
          \<and> fst (stm_get sl now ns (mi_id item) s') =
              (if key \<in> set newest \<and> \<not> is_expired (ttl_expiry cfg now) now then Some item else None))"
proof -
  let ?ns = "mi_namespace item" and ?key = "recency_entry item (mi_id item)"
  let ?i = "inserted now (ttl_expiry cfg now) item (partition_of ?ns s)"
  let ?new = "take (nat (stm_max_items cfg)) (p_recency ?i)"
  let ?s' = "dict_put (to_prefix ?ns) (keep (\<lambda>i. i \<in> snd ` set ?new) ?i) s"
  have put: "stm_put sl cfg now item s = Some (Inr ?s')"
    using stm_put_eq [OF assms] by (simp add: Let_def)
  have inv: "stm_inv ?s'"
    by (rule stm_put_inv [OF assms(1,2) put])
  have i_inv: "part_inv ?i"
    by (intro inserted_inv partition_of_inv assms(2))
  have part: "partition_of ?ns ?s' = keep (\<lambda>i. i \<in> snd ` set ?new) ?i"
    by (simp add: dict_put_partition)
  have rec: "p_recency (partition_of ?ns ?s') = ?new"
    unfolding part by (rule keep_take_recency [OF i_inv])
  have look: "map_of (p_items ?i) (mi_id item) = Some (item, ttl_expiry cfg now)"
    by (simp add: inserted_def Let_def map_of_keep map_add_def)
  have "mi_id item \<in> snd ` set ?new \<longleftrightarrow> ?key \<in> set ?new"
  proof
    assume "mi_id item \<in> snd ` set ?new"
    then obtain k where k: "k \<in> set ?new" "snd k = mi_id item" by auto
    moreover have "?key \<in> set (p_recency ?i)" "snd ?key = mi_id item"
      by (auto simp: inserted_def Let_def set_insort_key recency_entry_def)
    ultimately have "k = ?key"
      using part_inv_distinct [OF i_inv] set_take_subset
      by (metis (no_types, lifting) distinct_map inj_on_eq_iff subset_eq)
    then show "?key \<in> set ?new" using k by simp
  qed (force simp: recency_entry_def)
  then have get: "fst (stm_get sl now ?ns (mi_id item) ?s') =
      (if ?key \<in> set ?new \<and> \<not> is_expired (ttl_expiry cfg now) now then Some item else None)"
    by (simp add: stm_get_result part map_of_keep look)
  show ?thesis
    using put inv rec get
    by (intro exI [of _ ?s']) (simp add: Let_def dict_put_partition inserted_def keep_def)
qed

theorem stm_put_refines_recency_list_witness:
  "\<exists>s'. stm_put plain_sorted_list demo_cfg 10 (demo_item ''a'' 10) [] = Some (Inr s') \<and> stm_inv s'"
  using stm_put_refines_recency_list
    [of plain_sorted_list "[]" demo_cfg 10 "demo_item ''a'' 10"] plain_sorted_list_pkg empty_store_inv
  by (auto simp: demo_cfg_def)

text \<open>
  The recency floor: on any well-formed store recent never fails, returns at most limit rows
  (none for a limit of zero or below), exactly the newest unexpired rows of the namespace in index
  order, ranked from 0, each flagged as a floor member of the short-term channel.
\<close>
theorem stm_recent_is_newest_prefix:
  assumes "sorted_list_pkg sl" and "stm_inv s"
  shows "\<exists>fl. fst (stm_recent sl now ns limit s) = Inr fl
    \<and> map sc_id fl = map snd (take (nat (max 0 limit)) (p_recency (live_part now ns s)))
    \<and> int (length fl) \<le> max 0 limit
    \<and> map sc_rank fl = map Some [0..<length fl]
    \<and> (\<forall>x\<in>set fl. sc_is_floor x \<and> sc_channel x = STM_FLOOR)
    \<and> sorted_wrt (\<lambda>x y. mi_created_at (sc_item y) \<le> mi_created_at (sc_item x)) fl"
proof -
  let ?p = "live_part now ns s"
  let ?ks = "take (nat (max 0 limit)) (p_recency ?p)"
  obtain fl where fl: "fst (stm_recent sl now ns limit s) = Inr fl" "map sc_id fl = map snd ?ks"
    "map sc_rank fl = map Some [0..<length fl]"
    "\<forall>x\<in>set fl. sc_is_floor x \<and> sc_channel x = STM_FLOOR \<and> (\<exists>k e. (k, sc_item x, e) \<in> set (p_items ?p))"
    using stm_recent_spec [OF assms] by blast
  have inv: "part_inv ?p" by (rule live_part_inv [OF assms(2)])
  have len: "length fl = length ?ks" using fl(2) by (metis length_map)
  have key: "recency_entry (sc_item x) (sc_id x) \<in> set (p_recency ?p)" if x: "x \<in> set fl" for x
  proof -
    obtain k e where m: "(k, sc_item x, e) \<in> set (p_items ?p)" using fl(4) x by blast
    moreover have "k = sc_id x" using m inv by (auto simp: part_inv_def)
    ultimately have "recency_entry (sc_item x) (sc_id x) \<in> entry_key ` set (p_items ?p)"
      by (force simp: entry_key_def)
    then show ?thesis using inv by (metis part_inv_def list.set_map mset_eq_setD)
  qed
  have "fl ! j \<in> set fl \<and> recency_entry (sc_item (fl ! j)) (sc_id (fl ! j)) = ?ks ! j" if "j < length fl" for j
  proof -
    have "sc_id (fl ! j) = snd (?ks ! j)" using fl(2) that len by (metis nth_map)
    moreover have "?ks ! j \<in> set (p_recency ?p)" using that len by (metis in_set_takeD nth_mem)
    moreover have "recency_entry (sc_item (fl ! j)) (sc_id (fl ! j)) \<in> set (p_recency ?p)"
      using key that by simp
    moreover have "inj_on snd (set (p_recency ?p))"
      using part_inv_distinct [OF inv] by (simp add: distinct_map)
    ultimately show ?thesis
      using that by (metis inj_on_eq_iff nth_mem recency_entry_def snd_conv)
  qed
  then have keys: "map (\<lambda>x. recency_entry (sc_item x) (sc_id x)) fl = ?ks"
    using len by (intro nth_equalityI) auto
  have "sorted ?ks" using inv by (simp add: part_inv_def sorted_wrt_take)
  then have "sorted_wrt (\<lambda>x y. recency_entry (sc_item x) (sc_id x) \<le> recency_entry (sc_item y) (sc_id y)) fl"
    unfolding keys [symmetric] by (simp add: sorted_wrt_map)
  then have "sorted_wrt (\<lambda>x y. mi_created_at (sc_item y) \<le> mi_created_at (sc_item x)) fl"
    by (rule sorted_wrt_mono_rel [rotated]) (auto simp: recency_entry_def less_eq_prod_def)
  then show ?thesis
    using fl len by (intro exI [of _ fl]) auto
qed

theorem stm_recent_is_newest_prefix_witness:
  "\<exists>fl. fst (stm_recent plain_sorted_list 0 demo_ns 0 []) = Inr fl \<and> int (length fl) \<le> 0"
  using stm_recent_is_newest_prefix [of plain_sorted_list "[]" 0 demo_ns 0] plain_sorted_list_pkg
    empty_store_inv by auto

text \<open>
  C37. Tenant isolation of the short-term tier over any history of puts, gets, floors and evictions
  from the empty store: reads for a validated namespace only ever return rows of exactly that
  namespace, by get with exactly the requested id, and in the floor flagged as floor.
\<close>
theorem stm_reads_never_cross_namespaces:
  assumes "sorted_list_pkg sl" and "mem.reachable sl cfg [] t" and "valid_ns ns"
    and "fst (stm_get sl now ns i t) = Some m" and "valid_ns (mi_namespace m)"
    and "fst (stm_recent sl now ns limit t) = Inr fl" and "x \<in> set fl"
    and "valid_ns (mi_namespace (sc_item x))"
  shows "mi_namespace m = ns \<and> mi_id m = i \<and> mi_namespace (sc_item x) = ns \<and> sc_is_floor x"
  using mem.get_isolated [OF assms(2) _ assms(3,5,4)] mem.recent_isolated [OF assms(2) _ assms(3,6,7,8)]
    assms(1) empty_store_inv by blast

definition demo_store :: stm_store where
  "demo_store = [(''mu/o/w/private/u/s'',
     \<lparr>p_items = [(''a'', demo_item ''a'' 10, Some 3610)], p_recency = [(-10, ''a'')]\<rparr>)]"

lemma demo_put: "stm_put plain_sorted_list demo_cfg 10 (demo_item ''a'' 10) [] = Some (Inr demo_store)"
  by code_simp

theorem stm_reads_never_cross_namespaces_witness:
  "mi_namespace (demo_item ''a'' 10) = demo_ns"
proof -
  have r: "mem.reachable plain_sorted_list demo_cfg [] demo_store"
    by (rule mem.did_put [OF mem.start demo_put])
  have g: "fst (stm_get plain_sorted_list 11 demo_ns ''a'' demo_store) = Some (demo_item ''a'' 10)"
    by code_simp
  have f: "fst (stm_recent plain_sorted_list 11 demo_ns 5 demo_store) =
      Inr [\<lparr>sc_item = demo_item ''a'' 10, sc_score = 1, sc_channel = STM_FLOOR, sc_rank = Some 0,
            sc_is_floor = True\<rparr>]"
    by code_simp
  have v: "valid_ns (mi_namespace (demo_item ''a'' 10))"
    by (simp add: demo_item_def default_item_def)
  show ?thesis
    using stm_reads_never_cross_namespaces [OF plain_sorted_list_pkg r demo_ns_valid g v f] v by simp
qed

end
