(* ===== verification/Fusion.thy ===== *)
theory Fusion
  imports Memory_Model
begin

text \<open>
  Weighted reciprocal rank fusion (services/recall/fusion.py). Scores and weights are exact
  rationals. The lemmas give the closed form of the accumulated score, the order in which the
  dictionaries list their keys (first occurrence over the channels in order), and from these the
  functional specification of the fused ranking; then that only weight ratios matter, and a bound on
  every score.
\<close>

type_synonym 'a rrf_state = "(string, rat) dict \<times> (string, 'a) dict"

definition contribution :: "rat \<Rightarrow> nat \<Rightarrow> nat \<Rightarrow> rat" where
  "contribution w k rank = w * (1 / of_nat (k + rank + 1))"

definition rrf_step :: "('a \<Rightarrow> string) \<Rightarrow> rat \<Rightarrow> nat \<Rightarrow> nat \<Rightarrow> 'a rrf_state \<Rightarrow> 'a \<Rightarrow> 'a rrf_state" where
  "rrf_step key w k rank st e = (case st of (scores, elements) \<Rightarrow>
     (dict_put (key e) (dict_default 0 scores (key e) + contribution w k rank) scores,
      dict_setdefault (key e) e elements))"

text \<open>for rank, element in enumerate(results)\<close>
fun rrf_channel :: "('a \<Rightarrow> string) \<Rightarrow> rat \<Rightarrow> nat \<Rightarrow> nat \<Rightarrow> 'a rrf_state \<Rightarrow> 'a list \<Rightarrow> 'a rrf_state" where
  "rrf_channel key w k rank st [] = st"
| "rrf_channel key w k rank st (e # es) =
     rrf_channel key w k (Suc rank) (rrf_step key w k rank st e) es"

text \<open>for weight, results in zip(normalized, channel_results)\<close>
fun rrf_channels :: "('a \<Rightarrow> string) \<Rightarrow> nat \<Rightarrow> 'a rrf_state \<Rightarrow> (rat \<times> 'a list) list \<Rightarrow> 'a rrf_state" where
  "rrf_channels key k st [] = st"
| "rrf_channels key k st ((w, es) # cs) = rrf_channels key k (rrf_channel key w k 0 st es) cs"

definition normalize_weights :: "rat list \<Rightarrow> rat list" where
  "normalize_weights ws = (let total = sum_list ws
     in if total > 0 then map (\<lambda>w. w / total) ws else map (\<lambda>_. 0) ws)"

definition reciprocal_rank_fusion ::
  "('a \<Rightarrow> string) \<Rightarrow> rat list \<Rightarrow> nat \<Rightarrow> 'a list list \<Rightarrow> ('a \<times> rat) list or_raise" where
  "reciprocal_rank_fusion key ws k channels =
     (if length channels \<noteq> length ws then Inl ValueError
      else if channels = [] then Inr []
      else let (scores, elements) = rrf_channels key k ([], []) (zip (normalize_weights ws) channels);
               ordered = sort_desc (\<lambda>eid. dict_default 0 scores eid) (map fst scores)
           in Inr (map (\<lambda>eid. (the (dict_get elements eid), dict_default 0 scores eid)) ordered))"

section \<open>Closed forms\<close>

fun channel_score :: "('a \<Rightarrow> string) \<Rightarrow> nat \<Rightarrow> nat \<Rightarrow> 'a list \<Rightarrow> string \<Rightarrow> rat" where
  "channel_score key k rank [] eid = 0"
| "channel_score key k rank (e # es) eid =
     (if key e = eid then 1 / of_nat (k + rank + 1) else 0) + channel_score key k (Suc rank) es eid"

text \<open>The specification of the fused score: the weighted sum of the reciprocal ranks.\<close>
definition fused_score :: "('a \<Rightarrow> string) \<Rightarrow> nat \<Rightarrow> (rat \<times> 'a list) list \<Rightarrow> string \<Rightarrow> rat" where
  "fused_score key k wcs eid = (\<Sum>(w, es)\<leftarrow>wcs. w * channel_score key k 0 es eid)"

lemma dict_default_put: "dict_default v (dict_put k w d) j = (if j = k then w else dict_default v d j)"
  by (simp add: dict_default_def)

lemma rrf_channel_score:
  "dict_default 0 (fst (rrf_channel key w k r st es)) eid =
   dict_default 0 (fst st) eid + w * channel_score key k r es eid"
  by (induction key w k r st es rule: rrf_channel.induct)
    (auto simp: rrf_step_def dict_default_put contribution_def algebra_simps split: prod.splits)

lemma rrf_channels_score:
  "dict_default 0 (fst (rrf_channels key k st wcs)) eid =
   dict_default 0 (fst st) eid + fused_score key k wcs eid"
  by (induction key k st wcs rule: rrf_channels.induct)
    (simp_all add: rrf_channel_score fused_score_def)

lemma dict_put_fst: "map fst (dict_put k v d) =
    (if k \<in> fst ` set d then map fst d else map fst d @ [k])"
  by (induction d) auto

lemma dict_setdefault_append:
  "dict_setdefault k v d = (if k \<in> fst ` set d then d else d @ [(k, v)])"
proof -
  have "k \<notin> fst ` set d \<Longrightarrow> dict_put k v d = d @ [(k, v)]" by (induction d) auto
  then show ?thesis
    by (auto simp: dict_setdefault_def map_of_eq_None_iff split: option.split dest!: map_of_SomeD)
      (metis image_eqI fst_conv)
qed

lemma dedup_on_append:
  "dedup_on f S (xs @ ys) = dedup_on f S xs @ dedup_on f (S \<union> f ` set xs) ys"
  by (induction f S xs rule: dedup_on.induct) (auto simp: insert_absorb)

lemma rrf_channel_keys:
  "map fst (fst st) = map fst (snd st) \<Longrightarrow>
   snd (rrf_channel key w k r st es) =
     snd st @ map (\<lambda>e. (key e, e)) (dedup_on key (fst ` set (snd st)) es)
   \<and> map fst (fst (rrf_channel key w k r st es)) = map fst (snd (rrf_channel key w k r st es))"
proof (induction key w k r st es rule: rrf_channel.induct)
  case (2 key w k r st e es)
  have keys: "fst ` set (fst st) = fst ` set (snd st)"
    using 2(2) by (metis list.set_map)
  have "map fst (fst (rrf_step key w k r st e)) = map fst (snd (rrf_step key w k r st e))"
    using 2(2) keys by (cases st) (simp add: rrf_step_def dict_put_fst dict_setdefault_append)
  note IH = 2(1) [OF this]
  have "snd (rrf_step key w k r st e) =
      (if key e \<in> fst ` set (snd st) then snd st else snd st @ [(key e, e)])"
    by (simp add: rrf_step_def dict_setdefault_append split: prod.split)
  then show ?case using IH by (auto simp: insert_absorb)
qed simp

lemma rrf_channels_keys:
  "map fst (fst st) = map fst (snd st) \<Longrightarrow>
   snd (rrf_channels key k st wcs) =
     snd st @ map (\<lambda>e. (key e, e)) (dedup_on key (fst ` set (snd st)) (concat (map snd wcs)))
   \<and> map fst (fst (rrf_channels key k st wcs)) = map fst (snd (rrf_channels key k st wcs))"
proof (induction key k st wcs rule: rrf_channels.induct)
  case (2 key k st w es cs)
  note step = rrf_channel_keys [OF 2(2), of key w k 0 es]
  have "fst ` set (snd (rrf_channel key w k 0 st es)) = fst ` set (snd st) \<union> key ` set es"
    using step dedup_on_keys [of key "fst ` set (snd st)" es] by (auto simp: image_image image_Un)
  then show ?case
    using 2(1) [OF conjunct2 [OF step]] step by (simp add: dedup_on_append)
qed simp

lemma insort_key_map: "insort_key f (g x) (map g xs) = map g (insort_key (f \<circ> g) x xs)"
  by (induction xs) auto

lemma sort_desc_map: "sort_desc f (map g xs) = map g (sort_desc (\<lambda>x. f (g x)) xs)"
  unfolding sort_desc_def by (induction xs) (simp_all add: insort_key_map o_def)

lemma sort_desc_cong:
  fixes f g :: "'a \<Rightarrow> 'b::linordered_ab_group_add"
  assumes "\<And>x. x \<in> set xs \<Longrightarrow> f x = g x"
  shows "sort_desc f xs = sort_desc g xs"
proof -
  have ins: "insort_key h x ys = insort_key h' x ys"
    if "\<And>y. y \<in> insert x (set ys) \<Longrightarrow> h y = h' y" for h h' :: "'a \<Rightarrow> 'b" and x ys
    using that by (induction ys) auto
  show ?thesis
    using assms unfolding sort_desc_def by (induction xs) (auto intro!: ins)
qed

lemma length_normalize [simp]: "length (normalize_weights ws) = length ws"
  by (simp add: normalize_weights_def Let_def)

lemma map_of_keyed:
  "distinct (map key xs) \<Longrightarrow> x \<in> set xs \<Longrightarrow> map_of (map (\<lambda>e. (key e, e)) xs) (key x) = Some x"
  by (rule map_of_is_SomeI) (auto simp: o_def)

lemma rrf_closed_form:
  fixes key :: "'a \<Rightarrow> string" and k :: nat
  assumes "length channels = length ws"
  defines "score \<equiv> fused_score key k (zip (normalize_weights ws) channels)"
  shows "reciprocal_rank_fusion key ws k channels =
    Inr (map (\<lambda>e. (e, score (key e)))
           (sort_desc (\<lambda>e. score (key e)) (dedup_on key {} (concat channels))))"
proof (cases "channels = []")
  case True
  then show ?thesis using assms by (simp add: reciprocal_rank_fusion_def sort_desc_def)
next
  case False
  let ?wcs = "zip (normalize_weights ws) channels"
  obtain scores elements where st: "rrf_channels key k ([], []) ?wcs = (scores, elements)"
    by (metis surj_pair)
  let ?d = "dedup_on key {} (concat channels)"
  have els: "elements = map (\<lambda>e. (key e, e)) ?d" and keys: "map fst scores = map key ?d"
    using rrf_channels_keys [of "([], [])" key k ?wcs] assms(1) by (simp_all add: st o_def)
  have sc: "dict_default 0 scores = score"
    using rrf_channels_score [of key k "([], [])" ?wcs]
    by (intro ext) (simp add: st score_def dict_default_def)
  have "map (\<lambda>eid. (the (dict_get elements eid), score eid)) (sort_desc score (map key ?d))
      = map (\<lambda>e. (the (dict_get elements (key e)), score (key e))) (sort_desc (\<lambda>e. score (key e)) ?d)"
    by (simp add: sort_desc_map)
  also have "\<dots> = map (\<lambda>e. (e, score (key e))) (sort_desc (\<lambda>e. score (key e)) ?d)"
    by (intro map_cong refl) (simp add: els map_of_keyed [OF dedup_on_distinct])
  finally show ?thesis
    using False assms(1) by (simp add: reciprocal_rank_fusion_def st keys sc)
qed

lemma rrf_ids: "reciprocal_rank_fusion key ws k channels = Inr r \<Longrightarrow>
    distinct (map (key \<circ> fst) r) \<and> (key \<circ> fst) ` set r = key ` set (concat channels)
    \<and> fst ` set r \<subseteq> set (concat channels)"
proof -
  assume r: "reciprocal_rank_fusion key ws k channels = Inr r"
  then have len: "length channels = length ws"
    by (simp add: reciprocal_rank_fusion_def split: if_splits)
  let ?f = "\<lambda>e. fused_score key k (zip (normalize_weights ws) channels) (key e)"
  let ?s = "sort_desc ?f (dedup_on key {} (concat channels))"
  have eq: "map fst r = ?s"
    using rrf_closed_form [OF len, of key k] r by (auto simp: o_def)
  have "distinct (map key ?s)"
  proof -
    have "mset (map key ?s) = mset (map key (dedup_on key {} (concat channels)))"
      by simp
    then show ?thesis using dedup_on_distinct mset_eq_imp_distinct_iff by blast
  qed
  moreover have "set (map fst r) = set (dedup_on key {} (concat channels))"
    unfolding eq by simp
  moreover have "map (key \<circ> fst) r = map key (map fst r)" "(key \<circ> fst) ` set r = key ` set (map fst r)"
    by (simp_all add: image_comp)
  ultimately show ?thesis
    using dedup_on_keys [of key "{}" "concat channels"] dedup_on_set [of key "{}" "concat channels"] eq
    by (metis Diff_empty list.set_map)
qed

text \<open>dedup_by_content_hash: the loop with its seen set.\<close>
definition dedup_by :: "('a \<Rightarrow> string) \<Rightarrow> 'a list \<Rightarrow> 'a list" where
  "dedup_by content_hash items = dedup_on content_hash {} items"

text \<open>The registered strategy ReciprocalRankFusion.fuse.\<close>
definition fuse :: "('a \<Rightarrow> string) \<Rightarrow> rat list \<Rightarrow> nat \<Rightarrow> 'a list list \<Rightarrow> ('a \<times> rat) list or_raise" where
  "fuse id_of ws k channels = reciprocal_rank_fusion id_of ws k channels"

text \<open>The interface a ranker or the service uses: any fusion strategy that ranks exactly the union.\<close>
locale fusion_strategy =
  fixes fuse_op :: "('a \<Rightarrow> string) \<Rightarrow> rat list \<Rightarrow> nat \<Rightarrow> 'a list list \<Rightarrow> ('a \<times> rat) list or_raise"
  assumes total: "length channels = length ws \<Longrightarrow> \<exists>r. fuse_op key ws k channels = Inr r"
    and distinct_ids: "fuse_op key ws k channels = Inr r \<Longrightarrow> distinct (map (key \<circ> fst) r)"
    and same_ids: "fuse_op key ws k channels = Inr r \<Longrightarrow>
      (key \<circ> fst) ` set r = key ` set (concat channels)"
    and narrows: "fuse_op key ws k channels = Inr r \<Longrightarrow> fst ` set r \<subseteq> set (concat channels)"
begin

lemma invents_nothing:
  "fuse_op key ws k channels = Inr r \<Longrightarrow> x \<in> fst ` set r \<Longrightarrow> \<exists>ch\<in>set channels. x \<in> set ch"
  using narrows by fastforce

lemma loses_nothing:
  "fuse_op key ws k channels = Inr r \<Longrightarrow> ch \<in> set channels \<Longrightarrow> x \<in> set ch \<Longrightarrow>
   \<exists>y\<in>fst ` set r. key y = key x"
proof -
  assume r: "fuse_op key ws k channels = Inr r" and "ch \<in> set channels" "x \<in> set ch"
  then have "key x \<in> (key \<circ> fst) ` set r" using same_ids [OF r] by auto
  then obtain p where "p \<in> set r" "key (fst p) = key x" by auto
  then show ?thesis by (intro bexI [of _ "fst p"]) auto
qed

end

interpretation rrf: fusion_strategy fuse
proof unfold_locales
  show "\<exists>r. fuse key ws k channels = Inr r" if "length channels = length ws"
    for channels :: "'a list list" and ws key k
    using rrf_closed_form [OF that] by (auto simp: fuse_def)
qed (use rrf_ids in \<open>unfold fuse_def, blast+\<close>)

section \<open>Properties\<close>

text \<open>
  C19. Reciprocal rank fusion meets its specification: with one weight per channel it returns the
  first occurrence of every id over the channels in order, each with the weighted sum of its
  reciprocal ranks, sorted by that score descending with ties in first-occurrence order; with a
  different number of weights it raises, and it never fails otherwise.
\<close>
theorem rrf_meets_specification:
  "reciprocal_rank_fusion key ws k channels =
     (if length channels \<noteq> length ws then Inl ValueError
      else let score = (\<lambda>e. fused_score key k (zip (normalize_weights ws) channels) (key e))
           in Inr (map (\<lambda>e. (e, score e)) (sort_desc score (dedup_on key {} (concat channels)))))"
  using rrf_closed_form [of channels ws key k]
  by (simp add: Let_def) (simp add: reciprocal_rank_fusion_def)

lemma normalize_scale:
  assumes "c > 0" shows "normalize_weights (map ((*) c) ws) = normalize_weights ws"
proof -
  have "sum_list (map ((*) c) ws) = c * sum_list ws"
    by (induction ws) (simp_all add: algebra_simps)
  then show ?thesis
    using assms by (simp add: normalize_weights_def Let_def zero_less_mult_iff o_def)
qed

text \<open>
  Only the ratios of the weights matter: scaling every weight by the same positive factor gives
  the identical ranking with identical scores.
\<close>
theorem rrf_weight_scale_invariant:
  assumes "c > 0"
  shows "reciprocal_rank_fusion key (map ((*) c) ws) k channels = reciprocal_rank_fusion key ws k channels"
  by (simp add: reciprocal_rank_fusion_def normalize_scale [OF assms])

theorem rrf_weight_scale_invariant_witness:
  "reciprocal_rank_fusion id (map ((*) 3) [1, 2]) 60 [[''a''], [''b'']]
   = reciprocal_rank_fusion id [1, 2] 60 [[''a''], [''b'']]"
  by (rule rrf_weight_scale_invariant) simp

lemma channel_score_bound:
  assumes "distinct (map key es)"
  shows "0 \<le> channel_score key k r es eid \<and> channel_score key k r es eid \<le> 1 / of_nat (k + r + 1)"
proof -
  have zero: "channel_score key k r es eid = 0" if "eid \<notin> key ` set es" for r es
    using that by (induction es arbitrary: r) auto
  have anti: "(1::rat) / of_nat (k + Suc r + 1) \<le> 1 / of_nat (k + r + 1)" for r
    by (rule divide_left_mono) simp_all
  show ?thesis using assms
  proof (induction es arbitrary: r)
    case (Cons e es)
    show ?case
    proof (cases "key e = eid")
      case True
      then show ?thesis using Cons.prems zero [of es "Suc r"] by auto
    next
      case False
      then have "channel_score key k r (e # es) eid = channel_score key k (Suc r) es eid" by simp
      moreover have "distinct (map key es)" using Cons.prems by simp
      ultimately show ?thesis using Cons.IH [of "Suc r"] anti [of r] by (metis order_trans)
    qed
  qed simp
qed

lemma normalize_nonneg: "\<forall>w\<in>set ws. 0 \<le> w \<Longrightarrow> \<forall>w\<in>set (normalize_weights ws). 0 \<le> w"
  by (auto simp: normalize_weights_def Let_def)

lemma normalize_sum: "\<forall>w\<in>set ws. 0 \<le> w \<Longrightarrow> sum_list (normalize_weights ws) \<le> 1"
proof -
  have "sum_list (map (\<lambda>w. w / t) ws) = sum_list ws / t" for t
    by (induction ws) (simp_all add: add_divide_distrib)
  then show ?thesis by (simp add: normalize_weights_def Let_def)
qed

text \<open>
  Every fused score lies between 0 and 1 / (k + 1): with non-negative weights and channels that
  list each id once, no combination of channels can exceed one first place.
\<close>
theorem rrf_score_bounds:
  assumes "reciprocal_rank_fusion key ws k channels = Inr r" and "(e, s) \<in> set r"
    and "\<forall>w\<in>set ws. 0 \<le> w" and "\<forall>ch\<in>set channels. distinct (map key ch)"
  shows "0 \<le> s \<and> s \<le> 1 / of_nat (k + 1)"
proof -
  have len: "length channels = length ws"
    using assms(1) by (simp add: reciprocal_rank_fusion_def split: if_splits)
  have s: "s = fused_score key k (zip (normalize_weights ws) channels) (key e)"
    using assms(1,2) rrf_closed_form [OF len, of key k] by auto
  have gen: "0 \<le> fused_score key k (zip vs cs) i \<and> fused_score key k (zip vs cs) i \<le> sum_list vs * (1 / of_nat (k + 1))"
    if "\<forall>w\<in>set vs. 0 \<le> w" "\<forall>ch\<in>set cs. distinct (map key ch)" for vs cs i
    using that
  proof (induction vs cs rule: list_induct2')
    case (4 v vs c cs)
    have b: "0 \<le> channel_score key k 0 c i" "channel_score key k 0 c i \<le> 1 / of_nat (k + 1)"
      using channel_score_bound [of key c k 0 i] 4(3) by auto
    have "0 \<le> v" using 4(2) by simp
    have "v * channel_score key k 0 c i \<le> v * (1 / of_nat (k + 1))"
      by (rule mult_left_mono [OF b(2) \<open>0 \<le> v\<close>])
    moreover have "0 \<le> v * channel_score key k 0 c i" using b(1) \<open>0 \<le> v\<close> by simp
    moreover have "sum_list (v # vs) * (1 / of_nat (k + 1)) = v * (1 / of_nat (k + 1)) + sum_list vs * (1 / of_nat (k + 1))"
      by (simp add: distrib_right add_divide_distrib)
    moreover have "fused_score key k (zip (v # vs) (c # cs)) i
        = v * channel_score key k 0 c i + fused_score key k (zip vs cs) i"
      by (simp add: fused_score_def)
    ultimately show ?case using 4 by auto
  qed (auto simp: fused_score_def sum_list_nonneg)
  have "s \<le> sum_list (normalize_weights ws) * (1 / of_nat (k + 1))" "0 \<le> s"
    using gen [OF normalize_nonneg [OF assms(3)] assms(4)] unfolding s by blast+
  moreover have "sum_list (normalize_weights ws) * (1 / of_nat (k + 1)) \<le> 1 * (1 / of_nat (k + 1) :: rat)"
    by (rule mult_right_mono [OF normalize_sum [OF assms(3)]]) simp
  ultimately show ?thesis by simp
qed

theorem rrf_score_bounds_witness:
  "(1 / 61 :: rat) \<le> 1 / of_nat (60 + 1)"
proof -
  have "reciprocal_rank_fusion id [1, 1] 60 [[''a''], [''a'']] = Inr [(''a'', 1 / 61)]"
    by code_simp
  then show ?thesis
    by (rule rrf_score_bounds [THEN conjunct2, of id _ 60 _ _ "''a''"]) simp_all
qed

end
