(* ===== verification/Degradation.thy ===== *)
theory Degradation
  imports Errors
begin

text \<open>
  Observability guards, the event catalogue and named degradation. From platform/observability.py:
  the label and hash patterns with which Python's re.match accepts a value (a final $ also matches
  before one trailing newline), and the validated field bundle. From mu_contracts/domain/events.py:
  the base class check run when an event class is defined, the whole catalogue of event classes with
  their fields, the degrade reasons and the three reason sets. From platform/degradation.py: the rule
  table, decide, and the two-consumer fan out. Effects are explicit: the metric sink and the
  sync-status sink are the logs of a state record.
\<close>

section \<open>Content-free label guards\<close>

definition char_range :: "char \<Rightarrow> char \<Rightarrow> char \<Rightarrow> bool" where
  "char_range lo hi c = (of_char lo \<le> (of_char c :: nat) \<and> (of_char c :: nat) \<le> of_char hi)"

definition is_lower :: "char \<Rightarrow> bool" where
  "is_lower c = char_range (CHR ''a'') (CHR ''z'') c"

definition is_upper :: "char \<Rightarrow> bool" where
  "is_upper c = char_range (CHR ''A'') (CHR ''Z'') c"

definition is_digit :: "char \<Rightarrow> bool" where
  "is_digit c = char_range (CHR ''0'') (CHR ''9'') c"

text \<open>re.match of an anchored pattern: the text itself, or the text before one final newline.\<close>
definition dollar_match :: "(string \<Rightarrow> bool) \<Rightarrow> string \<Rightarrow> bool" where
  "dollar_match body s = (body s \<or> (s \<noteq> [] \<and> last s = CHR 0x0A \<and> body (butlast s)))"

definition label_key_body :: "string \<Rightarrow> bool" where
  "label_key_body s = (case s of [] \<Rightarrow> False
     | c # cs \<Rightarrow> is_lower c \<and> length cs \<le> 39
         \<and> (\<forall>d\<in>set cs. is_lower d \<or> is_digit d \<or> d = CHR ''_''))"

definition safe_value_body :: "string \<Rightarrow> bool" where
  "safe_value_body s = (1 \<le> length s \<and> length s \<le> 256
     \<and> (\<forall>c\<in>set s. is_upper c \<or> is_lower c \<or> is_digit c
          \<or> c \<in> {CHR ''_'', CHR ''.'', CHR '':'', CHR ''*'', CHR ''/'', CHR ''-''}))"

definition hex_hash_body :: "string \<Rightarrow> bool" where
  "hex_hash_body s = (8 \<le> length s \<and> length s \<le> 64
     \<and> (\<forall>c\<in>set s. is_digit c \<or> char_range (CHR ''a'') (CHR ''f'') c))"

definition sanitize_label_value :: "string \<Rightarrow> string or_raise" where
  "sanitize_label_value v = (if \<not> dollar_match safe_value_body v then Inl ValueError else Inr v)"

fun sanitize_labels :: "(string, string) dict \<Rightarrow> (string, string) dict or_raise" where
  "sanitize_labels [] = Inr []"
| "sanitize_labels ((key, v) # rest) =
     (if \<not> dollar_match label_key_body key then Inl ValueError
      else rbind (sanitize_label_value v) (\<lambda>w.
           rbind (sanitize_labels rest) (\<lambda>out. Inr ((key, w) # out))))"

fun validate_hashes :: "(string, string) dict \<Rightarrow> (string, string) dict or_raise" where
  "validate_hashes [] = Inr []"
| "validate_hashes ((key, v) # rest) =
     (if \<not> dollar_match label_key_body key then Inl ValueError
      else if \<not> dollar_match hex_hash_body v then Inl ValueError
      else rbind (validate_hashes rest) (\<lambda>out. Inr ((key, v) # out)))"

fun validate_counts :: "(string, int) dict \<Rightarrow> (string, int) dict or_raise" where
  "validate_counts [] = Inr []"
| "validate_counts ((key, v) # rest) =
     (if \<not> dollar_match label_key_body key then Inl ValueError
      else if v < 0 then Inl ValueError
      else rbind (validate_counts rest) (\<lambda>out. Inr ((key, v) # out)))"

record safe_trace_fields =
  stf_ids :: "(string, string) dict"
  stf_hashes :: "(string, string) dict"
  stf_counts :: "(string, int) dict"

definition mk_safe_trace_fields ::
  "(string, string) dict \<Rightarrow> (string, string) dict \<Rightarrow> (string, int) dict \<Rightarrow> safe_trace_fields or_raise"
where
  "mk_safe_trace_fields ids hashes counts =
     rbind (sanitize_labels ids) (\<lambda>i. rbind (validate_hashes hashes) (\<lambda>h.
     rbind (validate_counts counts) (\<lambda>c.
       Inr \<lparr>stf_ids = i, stf_hashes = h, stf_counts = c\<rparr>)))"

datatype attr_value = AStr string | AInt int

definition as_attributes :: "safe_trace_fields \<Rightarrow> (string, attr_value) dict" where
  "as_attributes f =
     fold (\<lambda>(k, v). dict_put k (AInt v)) (stf_counts f)
       (fold (\<lambda>(k, v). dict_put k (AStr v)) (stf_hashes f)
         (fold (\<lambda>(k, v). dict_put k (AStr v)) (stf_ids f) []))"

section \<open>The event catalogue\<close>

definition forbidden_event_fields :: "string list" where
  "forbidden_event_fields = [''body'', ''text'', ''content'', ''message'', ''prompt'', ''raw'',
     ''blob'', ''secret'']"

text \<open>An event class: its name and its fields with their declared types.\<close>
type_synonym event_class = "string \<times> (string \<times> string) list"

text \<open>Defining a subclass of DomainEvent: a content-bearing field name is a TypeError.\<close>
definition define_event_class :: "event_class \<Rightarrow> event_class or_raise" where
  "define_event_class c =
     (if set forbidden_event_fields \<inter> fst ` set (snd c) \<noteq> {} then Inl TypeError else Inr c)"

definition degraded_event :: "(string \<times> (string \<times> string) list) list" where
  "degraded_event =
    [(''DegradedModeEntered'', [(''component'', ''str''), (''mode'', ''str''),
       (''reason'', ''DegradeReason''), (''detail'', ''str | None'')])]"

definition lifecycle_events :: "(string \<times> (string \<times> string) list) list" where
  "lifecycle_events =
    [(''ActivityCaptured'', [(''activity_id'', ''str''), (''host'', ''str''),
       (''kind'', ''str''), (''session_id'', ''str'')]),
     (''MemoryCaptured'', [(''namespace'', ''Namespace''), (''ids'', ''list[str]''),
       (''tier'', ''Tier'')]),
     (''IngestCompleted'', [(''namespace'', ''Namespace''), (''memory_ids'', ''list[str]'')]),
     (''SalienceRecomputed'', [(''namespace'', ''Namespace''), (''id'', ''str''),
       (''score'', ''float''), (''strength'', ''float'')]),
     (''MemoryPromoted'', [(''namespace'', ''Namespace''), (''id'', ''str''),
       (''frm'', ''Tier''), (''to'', ''Tier''), (''reason'', ''str'')]),
     (''MemoryDemoted'', [(''namespace'', ''Namespace''), (''id'', ''str''),
       (''tier'', ''Tier''), (''to_state'', ''State''), (''retention'', ''float'')]),
     (''MemoryGarbageCollected'', [(''namespace'', ''Namespace''), (''id'', ''str''),
       (''prior_state'', ''State'')]),
     (''ConflictDetected'', [(''namespace'', ''Namespace''), (''incoming_id'', ''str''),
       (''candidate_ids'', ''list[str]''), (''method'', ''str'')]),
     (''MemorySuperseded'', [(''namespace'', ''Namespace''), (''loser_id'', ''str''),
       (''winner_id'', ''str''), (''valid_at'', ''datetime'')]),
     (''MemoryQuarantined'', [(''namespace'', ''Namespace''), (''id'', ''str''),
       (''reason'', ''str''), (''confidence'', ''float'')]),
     (''FactsExtracted'', [(''namespace'', ''Namespace''), (''count'', ''int'')]),
     (''ConsolidationCompleted'', [(''namespace'', ''Namespace''), (''facts_n'', ''int''),
       (''superseded_n'', ''int'')]),
     (''ConsolidationDeferred'', [(''namespace'', ''Namespace'')]),
     (''SleeptimeTick'', [(''namespace'', ''Namespace'')])]"

definition host_events :: "(string \<times> (string \<times> string) list) list" where
  "host_events =
    [(''HostPreCompact'', [(''session_id'', ''str''), (''transcript_path'', ''str''),
       (''cwd'', ''str'')]),
     (''PreCompactIntercepted'', [(''session_id'', ''str''), (''pending_flushed'', ''int'')]),
     (''CaptureSourceStarted'', [(''host'', ''str''), (''schema_version'', ''str'')]),
     (''CaptureSourceHalted'', [(''host'', ''str''), (''schema_version'', ''str''),
       (''raw_sample_sha256'', ''str'')]),
     (''OutboxRecordDeadLettered'', [(''seq'', ''int''), (''reason'', ''str'')]),
     (''RecallCacheRefreshed'', [(''session_id'', ''str''), (''etag'', ''str'')]),
     (''HostInjectionRendered'', [(''session_id'', ''str''), (''staleness'', ''float'')]),
     (''HostInjectionSkipped'', [(''session_id'', ''str''), (''reason'', ''str'')]),
     (''BoundAgentDispatchStarted'', [(''session'', ''str''), (''principal'', ''str''),
       (''correlation_id'', ''str'')]),
     (''BoundAgentDispatchCompleted'', [(''session'', ''str''), (''principal'', ''str''),
       (''correlation_id'', ''str'')]),
     (''BoundAgentDispatchFailed'', [(''session'', ''str''), (''principal'', ''str''),
       (''correlation_id'', ''str''), (''reason'', ''str'')])]"

definition room_events :: "(string \<times> (string \<times> string) list) list" where
  "room_events =
    [(''RoomOpened'', [(''room_id'', ''str''), (''workspace_id'', ''str''),
       (''namespace_id'', ''str''), (''floor_policy'', ''str'')]),
     (''RoomClosed'', [(''room_id'', ''str'')]),
     (''ParticipantJoined'', [(''room_id'', ''str''), (''principal_id'', ''str''),
       (''kind'', ''ParticipantKind'')]),
     (''ParticipantLeft'', [(''room_id'', ''str''), (''principal_id'', ''str'')]),
     (''PresenceChanged'', [(''room_id'', ''str''), (''principal_id'', ''str''),
       (''state'', ''str'')]),
     (''RoomMessagePosted'', [(''room_id'', ''str''), (''seq'', ''int''),
       (''author_principal_id'', ''str''), (''author_kind'', ''ParticipantKind''),
       (''kind'', ''MessageKind''), (''correlation_id'', ''str''),
       (''content_hash'', ''str'')]),
     (''AgentChunkProduced'', [(''session'', ''str''), (''correlation_id'', ''str''),
       (''chunk_seq'', ''int''), (''content_hash'', ''str'')]),
     (''BoundAgentDispatched'', [(''room_id'', ''str''), (''agent_principal_id'', ''str''),
       (''correlation_id'', ''str'')]),
     (''BoundAgentResulted'', [(''room_id'', ''str''), (''agent_principal_id'', ''str''),
       (''correlation_id'', ''str'')]),
     (''BoundAgentSuppressed'', [(''room_id'', ''str''), (''agent_principal_id'', ''str''),
       (''reason'', ''str'')]),
     (''RoomContextInjected'', [(''room_id'', ''str''), (''seq'', ''int''),
       (''source_memory_ids'', ''list[str]''), (''mode'', ''str'')]),
     (''RoomMessageCaptured'', [(''room_id'', ''str''), (''seq'', ''int''),
       (''captured_memory_ids'', ''list[str]'')]),
     (''RoomTransportDegraded'', [(''room_id'', ''str''), (''principal_id'', ''str''),
       (''transport_kind'', ''str'')]),
     (''RoomSubscriberLagged'', [(''room_id'', ''str''), (''principal_id'', ''str''),
       (''dropped_count'', ''int'')]),
     (''RoomLogUnavailable'', [(''room_id'', ''str'')]),
     (''BoundAgentUnavailable'', [(''room_id'', ''str''), (''agent_principal_id'', ''str'')])]"

definition governance_events :: "(string \<times> (string \<times> string) list) list" where
  "governance_events =
    [(''ComposeRequested'', [(''namespace'', ''Namespace''),
       (''memory_ids'', ''list[str]''), (''artifact_ids'', ''list[str]''),
       (''intent'', ''str'')]),
     (''ContextComposed'', [(''composed_id'', ''str''),
       (''source_refs'', ''list[ShareableRef]'')]),
     (''ContextIndexed'', [(''index_id'', ''str''), (''namespace'', ''Namespace'')]),
     (''ContextShared'', [(''grant_id'', ''str''), (''to_session'', ''str''),
       (''object_ref'', ''ShareableRef'')]),
     (''ContextPulled'', [(''grant_id'', ''str''), (''object_ref'', ''ShareableRef''),
       (''to_local_session'', ''str'')]),
     (''GrantIssued'', [(''grant_id'', ''str''), (''object_ref'', ''ShareableRef''),
       (''grantor'', ''str''), (''grantee'', ''str''), (''direction'', ''Direction'')]),
     (''GrantDerived'', [(''grant_id'', ''str''), (''parent_grant_id'', ''str''),
       (''depth'', ''int'')]),
     (''GrantRevoked'', [(''grant_id'', ''str''), (''cascade_root_grant_id'', ''str''),
       (''by'', ''str'')]),
     (''GrantExpired'', [(''grant_id'', ''str'')]),
     (''ProvenanceRecorded'', [(''stream_id'', ''str''), (''version'', ''int''),
       (''action'', ''str'')]),
     (''AccessDenied'', [(''subject'', ''str''), (''permission'', ''str''),
       (''object_ref'', ''ShareableRef''), (''reason'', ''str'')]),
     (''BoundaryViolationBlocked'', [(''object_ref'', ''ShareableRef''),
       (''visibility'', ''str''), (''where'', ''str'')]),
     (''PacketProposed'', [(''packet_id'', ''str''), (''source_session'', ''str''),
       (''target_sessions'', ''list[str]''), (''policy_id'', ''str'')]),
     (''PacketTransitioned'', [(''packet_id'', ''str''), (''to'', ''TransferState'')]),
     (''SubscriptionCreated'', [(''grant_id'', ''str''), (''source_session'', ''str'')]),
     (''SubscriptionMatched'', [(''grant_id'', ''str''), (''index_id'', ''str'')]),
     (''RevokeCascadeStarted'', [(''root_grant_id'', ''str''),
       (''descendant_count'', ''int'')]),
     (''RevokeCascadeCompleted'', [(''root_grant_id'', ''str''), (''revoked_count'', ''int'')]),
     (''RevokeCascadeStepFailed'', [(''root_grant_id'', ''str''), (''grant_id'', ''str''),
       (''error'', ''str'')])]"

definition platform_events :: "(string \<times> (string \<times> string) list) list" where
  "platform_events =
    [(''SharedMemoryUpserted'', [(''memory_id'', ''str''),
       (''superseded_id'', ''str | None'')]),
     (''AskAnswered'', [(''session_id'', ''str''), (''memory_ids'', ''list[str]''),
       (''model'', ''str'')]),
     (''ContextInjected'', [(''session_id'', ''str''), (''memory_ids'', ''list[str]''),
       (''tokens'', ''int'')]),
     (''CaptureBatchReceived'', [(''count'', ''int'')]),
     (''SurfaceDegraded'', [(''component'', ''str''), (''reason'', ''str'')]),
     (''PipelineStarted'', [(''pipeline'', ''str''), (''namespace'', ''Namespace'')]),
     (''PipelineCompleted'', [(''pipeline'', ''str''), (''namespace'', ''Namespace'')]),
     (''PipelineHalted'', [(''pipeline'', ''str''), (''namespace'', ''Namespace'')]),
     (''PipelineShed'', [(''pipeline'', ''str''), (''namespace'', ''Namespace'')]),
     (''StageDegraded'', [(''pipeline'', ''str''), (''stage'', ''str''),
       (''reason'', ''str'')]),
     (''NoteLinkSkipped'', [(''pipeline'', ''str''), (''stage'', ''str''),
       (''reason'', ''str'')]),
     (''FactDropped'', [(''pipeline'', ''str''), (''stage'', ''str''), (''reason'', ''str'')]),
     (''DurableSubstrateUnavailable'', [(''pipeline'', ''str''),
       (''namespace'', ''Namespace'')]),
     (''BackpressureRejected'', [(''pipeline'', ''str''), (''namespace'', ''Namespace'')])]"

definition device_events :: "(string \<times> (string \<times> string) list) list" where
  "device_events =
    [(''DeviceEnrolled'', [(''device_id'', ''str''), (''workspace_id'', ''str''),
       (''principal_id'', ''str''), (''platform'', ''DevicePlatform''),
       (''client_mode'', ''ClientMode''), (''privacy_tier'', ''PrivacyTier''),
       (''state'', ''DeviceState'')]),
     (''DeviceActivated'', [(''device_id'', ''str''), (''workspace_id'', ''str''),
       (''principal_id'', ''str''), (''at_seq'', ''int'')]),
     (''DeviceRevoked'', [(''device_id'', ''str''), (''workspace_id'', ''str''),
       (''principal_id'', ''str''), (''by'', ''str''), (''reason'', ''str'')]),
     (''DeviceKeyEpochRotated'', [(''workspace_id'', ''str''), (''principal_id'', ''str''),
       (''epoch'', ''int''), (''member_device_ids'', ''list[str]'')]),
     (''PrivateDeltaAppended'', [(''workspace_id'', ''str''), (''principal_id'', ''str''),
       (''seq'', ''int''), (''op'', ''SyncOp''), (''memory_id'', ''str''),
       (''content_hash'', ''str''), (''origin'', ''str'')]),
     (''PrivateDeltaApplied'', [(''workspace_id'', ''str''), (''principal_id'', ''str''),
       (''device_id'', ''str''), (''seq'', ''int'')])]"

definition subsystem_events :: "(string \<times> (string \<times> string) list) list" where
  "subsystem_events =
    [(''ConflictResolutionPending'', [(''namespace'', ''Namespace''),
       (''conflict_id'', ''str''), (''incoming_id'', ''str''),
       (''candidate_ids'', ''list[str]''), (''policy'', ''str'')]),
     (''ConflictResolved'', [(''namespace'', ''Namespace''), (''conflict_id'', ''str''),
       (''winner_id'', ''str''), (''loser_ids'', ''list[str]''),
       (''resolution_origin'', ''ResolutionOrigin'')]),
     (''ConflictDismissed'', [(''namespace'', ''Namespace''), (''conflict_id'', ''str''),
       (''by'', ''str'')]),
     (''ConflictPolicyChanged'', [(''namespace'', ''Namespace''), (''policy'', ''str'')]),
     (''PersonaUpdated'', [(''namespace'', ''Namespace''), (''version'', ''int''),
       (''slots_changed'', ''int''), (''brief_etag'', ''str'')]),
     (''SharedAgentSessionOpened'', [(''session_id'', ''str''), (''org_id'', ''str''),
       (''owner_principal_ids'', ''list[str]'')]),
     (''SharedAgentSessionPromoted'', [(''session_id'', ''str''),
       (''from_owner_set'', ''list[str]''), (''to_owner_set'', ''list[str]'')]),
     (''AgentEnrolled'', [(''agent_principal_id'', ''str''), (''org_id'', ''str''),
       (''kind'', ''AgentKind'')]),
     (''SubagentSpawned'', [(''agent_principal_id'', ''str''),
       (''parent_agent_principal_id'', ''str''), (''agent_path'', ''str'')]),
     (''AgentVisibilityGranted'', [(''agent_principal_id'', ''str''),
       (''object_ref'', ''ShareableRef'')]),
     (''AgentVisibilityRevoked'', [(''agent_principal_id'', ''str''),
       (''object_ref'', ''ShareableRef'')]),
     (''AgentRetired'', [(''agent_principal_id'', ''str''), (''reason'', ''str'')]),
     (''MemoryPinned'', [(''namespace'', ''Namespace''), (''id'', ''str''), (''by'', ''str'')]),
     (''MemoryUnpinned'', [(''namespace'', ''Namespace''), (''id'', ''str''),
       (''by'', ''str'')]),
     (''NotificationCreated'', [(''notification_id'', ''str''), (''principal_id'', ''str''),
       (''category'', ''str''), (''kind'', ''str''), (''seq'', ''int'')]),
     (''MemoryHealthAlert'', [(''namespace'', ''Namespace''), (''signal'', ''str''),
       (''count'', ''int'')]),
     (''TrustLedgerAppended'', [(''org_id'', ''str''), (''seq'', ''int''),
       (''action'', ''str'')]),
     (''ApiKeyIssued'', [(''org_id'', ''str''), (''workspace_id'', ''str''),
       (''key_id'', ''str''), (''by'', ''str'')]),
     (''ApiKeyRotated'', [(''org_id'', ''str''), (''workspace_id'', ''str''),
       (''key_id'', ''str''), (''rotated_from_key_id'', ''str'')]),
     (''ApiKeyRevoked'', [(''org_id'', ''str''), (''workspace_id'', ''str''),
       (''key_id'', ''str''), (''by'', ''str''), (''reason'', ''str'')]),
     (''OrgProvisioned'', [(''org_id'', ''str''), (''residency_region'', ''str'')]),
     (''WorkspaceCreated'', [(''org_id'', ''str''), (''workspace_id'', ''str''),
       (''by'', ''str'')]),
     (''PrivateHostedRead'', [(''org_id'', ''str''), (''principal_id'', ''str''),
       (''object_ref'', ''ShareableRef''), (''purpose'', ''str'')])]"

definition event_catalog :: "event_class list" where
  "event_catalog = degraded_event @ lifecycle_events @ host_events @ room_events
     @ governance_events @ platform_events @ device_events @ subsystem_events"

section \<open>Degrade reasons\<close>

datatype (plugins only: code size) degrade_reason =
    LTM_UNAVAILABLE | DATE_EXTRACTION_FALLBACK | LTM_GRAPH_LATENCY_CAP
  | DAEMON_UNREACHABLE_SPOOLED | SERVER_UNREACHABLE | RECALL_CORE_DOWN | STALE_INJECTION
  | LTM_EXTRACTION_DEFERRED | UNSUPPORTED_HOST_FORMAT | CAPTURE_SCHEMA_DRIFT
  | TEMPORAL_UNAVAILABLE | NOTE_LINK_SKIPPED | FACT_DROPPED | BACKPRESSURE_SHED
  | DURABLE_SUBSTRATE_DOWN | REVOKE_CASCADE_DISABLED | REVOKE_ACK_PENDING | ROOM_LOG_UNAVAILABLE
  | ROOM_SUBSCRIBER_LAGGED | ROOM_TRANSPORT_DEGRADED | BOUND_AGENT_UNAVAILABLE
  | PRESENCE_STORE_DOWN | SURFACE_COMPONENT_DOWN | SHARED_RECALL_UNAVAILABLE
  | ARTIFACT_HYDRATION_BUDGET | E2E_CLIENT_SIDE_RECALL | E2E_NO_SERVER_EMBED
  | E2E_NO_SERVER_CONSOLIDATION | HOSTED_E2E_STORAGE_ONLY | SYNC_BACKFILL_WINDOW_EXCEEDED
  | DEVICE_WIPE_ACK_PENDING | KEY_ROTATION_PENDING | SYNC_STALLED | SYNC_DELTA_DEAD_LETTERED
  | PRIMARY_SYNC_LAG | GATEWAY_UPSTREAM_UNAVAILABLE | GATEWAY_REGION_UNAVAILABLE
  | HOST_WIRING_ABSENT | KV_NONDURABLE | RECENCY_ZSET_UNAVAILABLE | LLM_UNAVAILABLE_HEURISTIC
  | VECTOR_SINGLE_NODE | RELATIONAL_INDEX_REDUCED | MODEL_GROUP_UNAVAILABLE
  | MODEL_LOCAL_UNAVAILABLE_FELL_BACK | CONFLICT_ADJUDICATION_DEGRADED
  | CONFLICT_PENDING_SUPPRESSED | CONFLICT_MANUAL_BACKLOG | TRUST_LEDGER_UNAVAILABLE

definition sync_class_always :: "degrade_reason list" where
  "sync_class_always = [SYNC_STALLED, SYNC_DELTA_DEAD_LETTERED, SYNC_BACKFILL_WINDOW_EXCEEDED,
     PRIMARY_SYNC_LAG, DEVICE_WIPE_ACK_PENDING, DAEMON_UNREACHABLE_SPOOLED]"

definition sync_class_when_device_sync :: "degrade_reason list" where
  "sync_class_when_device_sync = [SERVER_UNREACHABLE]"

definition reserved_reasons :: "degrade_reason list" where
  "reserved_reasons = [E2E_CLIENT_SIDE_RECALL, E2E_NO_SERVER_EMBED, E2E_NO_SERVER_CONSOLIDATION,
     HOSTED_E2E_STORAGE_ONLY, KEY_ROTATION_PENDING]"

record degraded_mode_entered =
  dme_component :: string
  dme_mode :: string
  dme_reason :: degrade_reason
  dme_detail :: "string option"

definition event_user_visible :: "degraded_mode_entered \<Rightarrow> bool" where
  "event_user_visible e = (dme_reason e \<in> set sync_class_always
     \<or> (dme_reason e \<in> set sync_class_when_device_sync \<and> dme_component e = ''device_sync''))"

record degraded_decision =
  dd_mode :: string
  dd_reason :: degrade_reason

definition decision_user_visible :: "degraded_decision \<Rightarrow> string \<Rightarrow> bool" where
  "decision_user_visible d component = (dd_reason d \<in> set sync_class_always
     \<or> (dd_reason d \<in> set sync_class_when_device_sync \<and> component = ''device_sync''))"

definition to_event :: "degraded_decision \<Rightarrow> string \<Rightarrow> string option \<Rightarrow> degraded_mode_entered" where
  "to_event d component detail = \<lparr>dme_component = component, dme_mode = dd_mode d,
     dme_reason = dd_reason d, dme_detail = detail\<rparr>"

section \<open>The degradation policy\<close>

definition degrade_rules ::
  "((string \<times> string \<times> exc_class) \<times> (string \<times> degrade_reason)) list" where
  "degrade_rules =
    [((''recall'', ''ltm'', StoreUnavailableError), (''recall_mtm_only'', LTM_UNAVAILABLE)),
     ((''share'', ''temporal'', WorkflowUnavailableError), (''inline_dispatch'', TEMPORAL_UNAVAILABLE)),
     ((''capture'', ''capture'', SchemaDriftError), (''halt_source'', CAPTURE_SCHEMA_DRIFT))]"

fun decide_from ::
  "((string \<times> string \<times> exc_class) \<times> (string \<times> degrade_reason)) list \<Rightarrow> string \<Rightarrow> string \<Rightarrow> exc_class
   \<Rightarrow> degraded_decision option" where
  "decide_from [] operation component failure = None"
| "decide_from (((op, part, exc_type), (mode, reason)) # rules) operation component failure =
     (if op = operation \<and> part = component \<and> isinstance_of failure exc_type
      then Some \<lparr>dd_mode = mode, dd_reason = reason\<rparr>
      else decide_from rules operation component failure)"

definition decide :: "string \<Rightarrow> string \<Rightarrow> exc_class \<Rightarrow> degraded_decision option" where
  "decide operation component failure = decide_from degrade_rules operation component failure"

text \<open>The two consumers: counter increments by component, and events applied to the projector
  (None when no projector is wired).\<close>
record sinks =
  metric_log :: "(string \<times> string) list"
  sync_log :: "degraded_mode_entered list option"

definition fan_out :: "degraded_mode_entered \<Rightarrow> sinks \<Rightarrow> unit or_raise \<times> sinks" where
  "fan_out e s = (case sanitize_label_value (dme_component e) of
       Inl x \<Rightarrow> (Inl x, s)
     | Inr label \<Rightarrow>
         let s1 = s\<lparr>metric_log := metric_log s @ [(''mu_degraded_mode_total'', label)]\<rparr>
         in if event_user_visible e
            then (case sync_log s1 of
                    None \<Rightarrow> (Inl RuntimeError, s1)
                  | Some l \<Rightarrow> (Inr (), s1\<lparr>sync_log := Some (l @ [e])\<rparr>))
            else (Inr (), s1))"

definition assert_sync_status_wired :: "'sink option \<Rightarrow> unit or_raise" where
  "assert_sync_status_wired sync =
     (let has_sync_class = sync_class_always @ sync_class_when_device_sync \<noteq> []
      in if has_sync_class \<and> sync = None then Inl RuntimeError else Inr ())"

section \<open>Lemmas\<close>

lemma decide_Some_iff:
  "decide operation component failure = Some d \<longleftrightarrow>
   (operation = ''recall'' \<and> component = ''ltm'' \<and> isinstance_of failure StoreUnavailableError
      \<and> d = \<lparr>dd_mode = ''recall_mtm_only'', dd_reason = LTM_UNAVAILABLE\<rparr>)
   \<or> (operation = ''share'' \<and> component = ''temporal'' \<and> isinstance_of failure WorkflowUnavailableError
      \<and> d = \<lparr>dd_mode = ''inline_dispatch'', dd_reason = TEMPORAL_UNAVAILABLE\<rparr>)
   \<or> (operation = ''capture'' \<and> component = ''capture'' \<and> isinstance_of failure SchemaDriftError
      \<and> d = \<lparr>dd_mode = ''halt_source'', dd_reason = CAPTURE_SCHEMA_DRIFT\<rparr>)"
  by (auto simp: decide_def degrade_rules_def)

lemma dollar_match_body: "body s \<Longrightarrow> dollar_match body s"
  by (simp add: dollar_match_def)

lemma sanitize_label_value_iff:
  "sanitize_label_value v = Inr w \<longleftrightarrow> w = v \<and> (safe_value_body v \<or> (\<exists>u. v = u @ [CHR 0x0A] \<and> safe_value_body u))"
proof -
  have "dollar_match safe_value_body v \<longleftrightarrow> safe_value_body v \<or> (\<exists>u. v = u @ [CHR 0x0A] \<and> safe_value_body u)"
    by (auto simp: dollar_match_def) (metis append_butlast_last_id)
  then show ?thesis by (auto simp: sanitize_label_value_def)
qed

lemma sanitize_labels_id: "sanitize_labels d = Inr e \<Longrightarrow> e = d"
  by (induction d arbitrary: e rule: sanitize_labels.induct)
    (auto simp: rbind_Inr_iff sanitize_label_value_iff split: if_splits)

lemma space_not_safe: "safe_value_body v \<Longrightarrow> CHR '' '' \<notin> set v \<and> CHR 0x0A \<notin> set v"
  by (auto simp: safe_value_body_def is_upper_def is_lower_def is_digit_def char_range_def)

section \<open>Properties\<close>

text \<open>
  The whole event catalogue is content-free and well named: every event class of the catalogue
  passes the base class check, so importing the module defines all of them, none declares a field
  called body, text, content, message, prompt, raw, blob or secret, and no two share a name.
\<close>
theorem event_catalog_is_content_free:
  "rmap define_event_class event_catalog = Inr event_catalog \<and> distinct (map fst event_catalog)"
  by code_simp


text \<open>
  The policy degrades only what its table lists and never in a way a user would see or that is
  reserved: a decision names one of the three rows for a failure of the row's class, its event is
  operator-only under every component name, and its reason is not reserved. In particular an outage
  of the mid-term tier is never degraded.
\<close>
theorem decisions_are_listed_and_operator_only:
  assumes "decide operation component failure = Some d"
  shows "(operation, component, dd_reason d) \<in>
      {(''recall'', ''ltm'', LTM_UNAVAILABLE), (''share'', ''temporal'', TEMPORAL_UNAVAILABLE),
       (''capture'', ''capture'', CAPTURE_SCHEMA_DRIFT)}
    \<and> \<not> event_user_visible (to_event d c detail) \<and> dd_reason d \<notin> set reserved_reasons
    \<and> isinstance_of failure MemoryUniverseError"
proof -
  have "isinstance_of StoreUnavailableError MemoryUniverseError"
    "isinstance_of WorkflowUnavailableError MemoryUniverseError"
    "isinstance_of SchemaDriftError MemoryUniverseError"
    by (simp_all add: isinstance_of_def mro_def numeral_eq_Suc)
  then have "isinstance_of failure MemoryUniverseError"
    using assms isinstance_of_trans unfolding decide_Some_iff by metis
  then show ?thesis
    using assms unfolding decide_Some_iff
    by (elim disjE conjE) (simp_all add: to_event_def event_user_visible_def sync_class_always_def
        sync_class_when_device_sync_def reserved_reasons_def)
qed

theorem decisions_are_listed_and_operator_only_witness:
  "\<not> event_user_visible (to_event \<lparr>dd_mode = ''recall_mtm_only'', dd_reason = LTM_UNAVAILABLE\<rparr>
       ''device_sync'' None)"
proof -
  have "decide ''recall'' ''ltm'' TierRepositoryUnavailableError
      = Some \<lparr>dd_mode = ''recall_mtm_only'', dd_reason = LTM_UNAVAILABLE\<rparr>"
    by (simp add: decide_Some_iff isinstance_of_def mro_def numeral_eq_Suc)
  then show ?thesis
    using decisions_are_listed_and_operator_only by blast
qed

text \<open>
  What the label guard lets through: exactly the bodies of 1 to 256 characters over the
  id alphabet, and besides them such a body followed by one newline, because the pattern is anchored
  with a dollar sign. So a label value with a control character does pass the content-free guard.
\<close>
theorem label_guard_accepts_trailing_newline:
  "(sanitize_label_value v = Inr v \<longleftrightarrow>
     safe_value_body v \<or> (\<exists>u. v = u @ [CHR 0x0A] \<and> safe_value_body u))
   \<and> sanitize_label_value (''ltm'' @ [CHR 0x0A]) = Inr (''ltm'' @ [CHR 0x0A])"
  by (auto simp: sanitize_label_value_iff)
    (simp add: safe_value_body_def is_lower_def char_range_def)

end
