(* ===== verification/Recall.thy ===== *)
theory Recall
  imports Fusion Degradation
begin

text \<open>
  The recall service (services/recall): the request and result records of dto.py, the authorization
  filter of authz.py over the tenancy guard, the three-channel ranker of ranker.py, the in-process
  shared arm of shared_port.py, and the federated recall of service.py. The tier repositories, the
  embedder and the clock are injected in the code and are parameters here; a repository call returns
  hits or raises. The three channel calls run in an asyncio.TaskGroup: which of several failures
  have happened when the group is cancelled is the parameter sched. Operator counters are the log
  the functions return.

  The lemmas show what the service promises for any repositories: nothing outside the caller's two
  namespaces is returned, ids come from the arms, a floor member that survives deduplication is
  never evicted, ids and content hashes are unique.
\<close>

section \<open>Request and result objects\<close>

record recall_channels =
  ch_stm :: bool
  ch_mtm :: bool
  ch_ltm :: bool

datatype recall_mode = RANKED | ANSWER | INJECT

record recall_query =
  rq_namespace :: namespace
  rq_text :: string
  rq_limit :: int
  rq_channels :: recall_channels
  rq_mode :: recall_mode
  rq_persona :: "string option"
  rq_max_tokens :: "int option"
  rq_correlation_id :: "string option"

definition for_namespace :: "namespace \<Rightarrow> recall_query \<Rightarrow> recall_query" where
  "for_namespace ns q = q\<lparr>rq_namespace := ns\<rparr>"

record recall_item_view =
  rv_memory_id :: string
  rv_content :: string
  rv_content_hash :: string
  rv_tier :: memory_tier
  rv_channel :: string
  rv_namespace :: namespace
  rv_fused_score :: rat
  rv_rerank_score :: "rat option"
  rv_is_floor :: bool
  rv_artifact_ref :: "string option"

record recall_result =
  rr_namespace :: namespace
  rr_items :: "recall_item_view list"
  rr_channels_run :: recall_channels
  rr_degraded :: "degrade_reason option"
  rr_generated_at :: int

definition memory_ids :: "recall_result \<Rightarrow> string list" where
  "memory_ids r = map rv_memory_id (rr_items r)"

definition with_degrade :: "degrade_reason \<Rightarrow> recall_result \<Rightarrow> recall_result" where
  "with_degrade reason r = r\<lparr>rr_degraded := Some reason\<rparr>"

record recall_settings =
  rs_rrf_k :: nat
  rs_recency_floor_limit :: int
  rs_channel_pool_size :: int
  rs_weight_mtm :: rat
  rs_weight_ltm :: rat
  rs_weight_private :: rat
  rs_weight_shared :: rat

definition default_recall_settings :: recall_settings where
  "default_recall_settings = \<lparr>rs_rrf_k = 60, rs_recency_floor_limit = 10,
     rs_channel_pool_size = 20, rs_weight_mtm = 1, rs_weight_ltm = 1, rs_weight_private = 1,
     rs_weight_shared = 1\<rparr>"

section \<open>Authorization\<close>

type_synonym caller_set = "string set option"

text \<open>PrincipalAuthorizedIdsResolver.for_scope\<close>
definition for_scope :: "client_scope \<Rightarrow> namespace \<Rightarrow> caller_set" where
  "for_scope s ns = (if ns_visibility ns = PRIVATE then None
     else Some {cs_principal_id s, cs_agent_principal_id s})"

definition authz_resolve :: "client_scope \<Rightarrow> namespace \<Rightarrow> (namespace \<times> caller_set) or_raise" where
  "authz_resolve s ns = rbind (assert_scope s ns ''recall'') (\<lambda>_. Inr (ns, for_scope s ns))"

text \<open>The loop over a set of namespaces; every failure is the same error, so its order is moot.\<close>
definition assert_items :: "namespace list \<Rightarrow> client_scope \<Rightarrow> unit or_raise" where
  "assert_items nss s =
     rfold (\<lambda>_ ns. assert_scope s ns ''recall'') () (remdups nss)"

section \<open>The three-channel ranker\<close>

definition to_view :: "string \<Rightarrow> scored \<Rightarrow> recall_item_view" where
  "to_view channel s = (let item = sc_item s in
     \<lparr>rv_memory_id = mi_id item, rv_content = mi_content item,
      rv_content_hash = mi_content_hash item, rv_tier = mi_tier item, rv_channel = channel,
      rv_namespace = mi_namespace item, rv_fused_score = sc_score s, rv_rerank_score = None,
      rv_is_floor = sc_is_floor s, rv_artifact_ref = mi_artifact_ref item\<rparr>)"

definition channel_label :: "scored \<Rightarrow> string" where
  "channel_label s = (if sc_channel s \<in> {LTM_GRAPH, LTM_FULLTEXT} then ''ltm'' else ''mtm'')"

definition merge_floor ::
  "recall_item_view list \<Rightarrow> recall_item_view list \<Rightarrow> int \<Rightarrow> recall_item_view list" where
  "merge_floor floor_views fused limit =
     (let floor_ids = rv_memory_id ` set floor_views;
          tail = filter (\<lambda>v. rv_memory_id v \<notin> floor_ids) fused;
          room = max 0 (limit - int (length floor_views))
      in floor_views @ take (nat room) tail)"

text \<open>What leaves an asyncio.TaskGroup: one exception, or a group of them.\<close>
datatype raised = Naked exc_class | Group "exc_class list"

type_synonym 'a outcome = "raised + 'a"

text \<open>The injected repositories of one plane.\<close>
record tier_repos =
  tr_stm_recent :: "namespace \<Rightarrow> int \<Rightarrow> scored list or_raise"
  tr_mtm_semantic :: "namespace \<Rightarrow> rat list \<Rightarrow> int \<Rightarrow> caller_set \<Rightarrow> scored list or_raise"
  tr_ltm_graph :: "namespace \<Rightarrow> int \<Rightarrow> caller_set \<Rightarrow> scored list or_raise"

definition ltm_channel ::
  "tier_repos \<Rightarrow> namespace \<Rightarrow> int \<Rightarrow> caller_set \<Rightarrow> (scored list \<times> bool) or_raise" where
  "ltm_channel repos ns pool caller = (case tr_ltm_graph repos ns pool caller of
       Inl e \<Rightarrow> if isinstance_of e StoreUnavailableError then Inr ([], True) else Inl e
     | Inr hits \<Rightarrow> Inr (hits, False))"

definition errors_of :: "'a or_raise \<Rightarrow> exc_class list" where
  "errors_of r = (case r of Inl e \<Rightarrow> [e] | Inr _ \<Rightarrow> [])"

text \<open>except* StoreUnavailableError: its part of the group is replaced by its first member, raised
  anew; the rest of the group, if any, is raised together with it.\<close>
definition group_outcome :: "exc_class list \<Rightarrow> raised" where
  "group_outcome es =
     (let store = filter (\<lambda>e. isinstance_of e StoreUnavailableError) es;
          rest = filter (\<lambda>e. \<not> isinstance_of e StoreUnavailableError) es
      in if store = [] then Group rest
         else if rest = [] then Naked (hd store)
         else Group (hd store # rest))"

definition rank ::
  "(exc_class list \<Rightarrow> exc_class list) \<Rightarrow> tier_repos \<Rightarrow> recall_settings \<Rightarrow> int \<Rightarrow> namespace \<Rightarrow> rat list
   \<Rightarrow> int \<Rightarrow> recall_channels \<Rightarrow> caller_set \<Rightarrow> recall_result outcome" where
  "rank sched repos st now ns query_vec limit channels caller =
     (let pool = rs_channel_pool_size st;
          floor_r = (if ch_stm channels then tr_stm_recent repos ns (rs_recency_floor_limit st)
                     else Inr []);
          mtm_r = (if ch_mtm channels then tr_mtm_semantic repos ns query_vec pool caller
                   else Inr []);
          ltm_r = (if ch_ltm channels then ltm_channel repos ns pool caller else Inr ([], False))
      in case (floor_r, mtm_r, ltm_r) of
           (Inr flr, Inr mtm_hits, Inr (ltm_hits, ltm_degraded)) \<Rightarrow>
             (case fuse sc_id [rs_weight_mtm st, rs_weight_ltm st] (rs_rrf_k st)
                     [mtm_hits, ltm_hits] of
                Inl e \<Rightarrow> Inl (Naked e)
              | Inr fused_pairs \<Rightarrow>
                  let fused_views = map (\<lambda>(s, _). to_view (channel_label s) s) fused_pairs
                  in Inr \<lparr>rr_namespace = ns,
                          rr_items = merge_floor (map (to_view ''stm'') flr) fused_views limit,
                          rr_channels_run = \<lparr>ch_stm = ch_stm channels, ch_mtm = ch_mtm channels,
                             ch_ltm = ch_ltm channels \<and> \<not> ltm_degraded\<rparr>,
                          rr_degraded = (if ltm_degraded then Some LTM_UNAVAILABLE else None),
                          rr_generated_at = now\<rparr>)
         | _ \<Rightarrow> Inl (group_outcome (sched (errors_of floor_r @ errors_of mtm_r @ errors_of ltm_r))))"

section \<open>The shared arm\<close>

text \<open>(await embedder.embed([text]))[0]\<close>
definition embed_one :: "(string list \<Rightarrow> rat list list or_raise) \<Rightarrow> string \<Rightarrow> rat list or_raise" where
  "embed_one embedder text = rbind (embedder [text]) (\<lambda>vs. case vs of [] \<Rightarrow> Inl IndexError | v # _ \<Rightarrow> Inr v)"

definition shared_recall ::
  "(exc_class list \<Rightarrow> exc_class list) \<Rightarrow> (string list \<Rightarrow> rat list list or_raise) \<Rightarrow> tier_repos \<Rightarrow> recall_settings
   \<Rightarrow> int \<Rightarrow> recall_query \<Rightarrow> caller_set \<Rightarrow> recall_result outcome" where
  "shared_recall sched embedder repos st now q caller =
     (case shared_namespace (ns_org (rq_namespace q)) (ns_workspace (rq_namespace q))
             (ns_session (rq_namespace q)) of
        Inl e \<Rightarrow> Inl (Naked e)
      | Inr shared_ns \<Rightarrow>
          (let r = (case embed_one embedder (rq_text q) of
                      Inl e \<Rightarrow> Inl (Naked e)
                    | Inr v \<Rightarrow> rank sched repos st now shared_ns v (rq_limit q) (rq_channels q) caller)
           in case r of
                Inl (Naked e) \<Rightarrow>
                  if isinstance_of e StoreUnavailableError
                  then Inl (Naked SharedRecallUnavailableError) else Inl (Naked e)
              | _ \<Rightarrow> r))"

section \<open>The federated service\<close>

definition protect_floor :: "recall_item_view list \<Rightarrow> int \<Rightarrow> recall_item_view list" where
  "protect_floor items limit =
     (let flr = filter rv_is_floor items;
          floor_ids = rv_memory_id ` set flr;
          tail = filter (\<lambda>v. rv_memory_id v \<notin> floor_ids) items;
          room = max 0 (limit - int (length flr))
      in flr @ take (nat room) tail)"

definition union_channels :: "recall_channels \<Rightarrow> recall_channels \<Rightarrow> recall_channels" where
  "union_channels a b = \<lparr>ch_stm = ch_stm a \<or> ch_stm b, ch_mtm = ch_mtm a \<or> ch_mtm b,
     ch_ltm = ch_ltm a \<or> ch_ltm b\<rparr>"

text \<open>Everything the service is constructed with: the ranker's and the shared port's behaviour, the
  embedder, the settings. A call returns or raises, with the degraded-mode counters it bumped.\<close>
record recall_deps =
  rd_embed :: "string list \<Rightarrow> rat list list or_raise"
  rd_private_rank :: "namespace \<Rightarrow> rat list \<Rightarrow> int \<Rightarrow> recall_channels \<Rightarrow> caller_set \<Rightarrow> recall_result outcome"
  rd_shared_recall :: "recall_query \<Rightarrow> caller_set \<Rightarrow> recall_result outcome"
  rd_settings :: recall_settings

type_synonym 'a logged = "'a outcome \<times> string list"

definition naked :: "'a or_raise \<Rightarrow> 'a outcome" where
  "naked r = (case r of Inl e \<Rightarrow> Inl (Naked e) | Inr a \<Rightarrow> Inr a)"

definition degrade_private_only ::
  "int \<Rightarrow> client_scope \<Rightarrow> recall_result \<Rightarrow> recall_result logged" where
  "degrade_private_only now scope private =
     (case naked (assert_items (map rv_namespace (rr_items private)) scope) of
        Inl e \<Rightarrow> (Inl e, [])
      | Inr _ \<Rightarrow>
          let n = int (length (rr_items private));
              items = protect_floor (dedup_by rv_content_hash (rr_items private))
                        (if n \<noteq> 0 then n else 1)
          in (Inr \<lparr>rr_namespace = rr_namespace private, rr_items = items,
                   rr_channels_run = rr_channels_run private,
                   rr_degraded = Some SHARED_RECALL_UNAVAILABLE, rr_generated_at = now\<rparr>,
              [''shared-recall'']))"

text \<open>Steps (5) to (8): fuse the arms, drop duplicate bodies, protect the floor, re-assert.\<close>
definition federate ::
  "recall_settings \<Rightarrow> int \<Rightarrow> client_scope \<Rightarrow> recall_query \<Rightarrow> recall_result \<Rightarrow> recall_result
   \<Rightarrow> recall_result logged" where
  "federate st now scope q private shared =
     (case fuse rv_memory_id [rs_weight_private st, rs_weight_shared st] (rs_rrf_k st)
             [rr_items private, rr_items shared] of
        Inl e \<Rightarrow> (Inl (Naked e), [])
      | Inr fused_pairs \<Rightarrow>
          let deduped = dedup_by rv_content_hash (map fst fused_pairs);
              items = protect_floor deduped (rq_limit q)
          in case naked (assert_items (map rv_namespace items) scope) of
               Inl e \<Rightarrow> (Inl e, [])
             | Inr _ \<Rightarrow>
                 let degraded = (case rr_degraded private of Some d \<Rightarrow> Some d
                                 | None \<Rightarrow> rr_degraded shared)
                 in (Inr \<lparr>rr_namespace = rq_namespace q, rr_items = items,
                          rr_channels_run = union_channels (rr_channels_run private)
                                              (rr_channels_run shared),
                          rr_degraded = degraded, rr_generated_at = now\<rparr>,
                     (if degraded \<noteq> None then [''ltm''] else [])))"

text \<open>The arms, after both scopes were resolved and the query embedded.\<close>
definition run_arms ::
  "recall_deps \<Rightarrow> int \<Rightarrow> client_scope \<Rightarrow> recall_query \<Rightarrow> namespace \<Rightarrow> caller_set \<Rightarrow> caller_set
   \<Rightarrow> rat list \<Rightarrow> recall_result logged" where
  "run_arms deps now scope q shared_ns private_caller shared_caller query_vec =
     (case rd_private_rank deps (rq_namespace q) query_vec (rq_limit q) (rq_channels q)
             private_caller of
        Inl e \<Rightarrow> (Inl e, [])
      | Inr private \<Rightarrow>
          let caller = (case shared_caller of None \<Rightarrow> Some {} | Some c \<Rightarrow> Some c)
          in case rd_shared_recall deps (for_namespace shared_ns q) caller of
               Inl (Naked e) \<Rightarrow> if isinstance_of e SharedRecallUnavailableError
                                then degrade_private_only now scope private
                                else (Inl (Naked e), [])
             | Inl g \<Rightarrow> (Inl g, [])
             | Inr shared \<Rightarrow> federate (rd_settings deps) now scope q private shared)"

definition recall :: "recall_deps \<Rightarrow> int \<Rightarrow> client_scope \<Rightarrow> recall_query \<Rightarrow> recall_result logged" where
  "recall deps now scope q =
     (let private_ns = rq_namespace q
      in case rbind (shared_namespace (ns_org private_ns) (ns_workspace private_ns)
                       (ns_session private_ns)) (\<lambda>shared_ns.
              rbind (authz_resolve scope private_ns) (\<lambda>(_, private_caller).
              rbind (authz_resolve scope shared_ns) (\<lambda>(_, shared_caller).
              rbind (embed_one (rd_embed deps) (rq_text q)) (\<lambda>query_vec.
                Inr (shared_ns, private_caller, shared_caller, query_vec))))) of
           Inl e \<Rightarrow> (Inl (Naked e), [])
         | Inr (shared_ns, private_caller, shared_caller, query_vec) \<Rightarrow>
             run_arms deps now scope q shared_ns private_caller shared_caller query_vec)"

definition recall_degraded ::
  "recall_deps \<Rightarrow> int \<Rightarrow> client_scope \<Rightarrow> recall_query \<Rightarrow> string set \<Rightarrow> degrade_reason
   \<Rightarrow> recall_result logged" where
  "recall_degraded deps now scope q without reason =
     (let c = rq_channels q;
          narrowed = \<lparr>ch_stm = ch_stm c \<and> ''stm'' \<notin> without, ch_mtm = ch_mtm c \<and> ''mtm'' \<notin> without,
                      ch_ltm = ch_ltm c \<and> ''ltm'' \<notin> without\<rparr>
      in case recall deps now scope (q\<lparr>rq_channels := narrowed\<rparr>) of
           (Inl e, l) \<Rightarrow> (Inl e, l)
         | (Inr r, l) \<Rightarrow> (Inr (with_degrade reason r), l @ [''recall'']))"

section \<open>Lemmas\<close>

lemma rfold_unit_Inr: "rfold (\<lambda>_ x. f x) () xs = Inr () \<longleftrightarrow> (\<forall>x\<in>set xs. f x = Inr ())"
  by (induction xs) (auto simp: rbind_Inr_iff)

lemma assert_items_Inr:
  "assert_items nss s = Inr () \<longleftrightarrow> (\<forall>ns\<in>set nss. assert_scope s ns ''recall'' = Inr ())"
  by (simp add: assert_items_def rfold_unit_Inr)

lemma naked_Inr [simp]: "naked r = Inr x \<longleftrightarrow> r = Inr x"
  by (cases r) (simp_all add: naked_def)

lemma distinct_map_sub:
  "\<lbrakk> distinct (map f xs); distinct ys; set ys \<subseteq> set xs \<rbrakk> \<Longrightarrow> distinct (map f ys)"
  by (auto simp: distinct_map intro: inj_on_subset)

lemma protect_floor_set: "set (protect_floor items limit) \<subseteq> set items"
  by (auto simp: protect_floor_def Let_def dest: in_set_takeD)

lemma protect_floor_keeps: "v \<in> set items \<Longrightarrow> rv_is_floor v \<Longrightarrow> v \<in> set (protect_floor items limit)"
  by (simp add: protect_floor_def Let_def)

lemma protect_floor_distinct:
  assumes "distinct (map f items)" shows "distinct (map f (protect_floor items limit))"
proof (rule distinct_map_sub [OF assms _ protect_floor_set])
  have "distinct items" using assms by (simp add: distinct_map)
  then show "distinct (protect_floor items limit)"
    by (auto simp: protect_floor_def Let_def dest: in_set_takeD)
qed

lemma protect_floor_length:
  "int (length (protect_floor items limit)) \<le> max limit (int (length (filter rv_is_floor items)))"
  by (simp add: protect_floor_def Let_def)

text \<open>Room below the limit is filled: nothing is left out while there is room.\<close>
lemma protect_floor_full:
  assumes "distinct (map rv_memory_id items)" "int (length items) \<le> limit"
  shows "set (protect_floor items limit) = set items"
proof -
  let ?t = "filter (\<lambda>v. rv_memory_id v \<notin> rv_memory_id ` set (filter rv_is_floor items)) items"
  have inj: "inj_on rv_memory_id (set items)" using assms(1) by (simp add: distinct_map)
  have t: "?t = filter (\<lambda>v. \<not> rv_is_floor v) items"
    by (rule filter_cong [OF refl]) (use inj in \<open>auto simp: inj_on_def\<close>)
  have "length (filter rv_is_floor items) + length ?t = length items"
    unfolding t by (rule sum_length_filter_compl)
  then have "length ?t \<le> nat (max 0 (limit - int (length (filter rv_is_floor items))))"
    using assms(2) by linarith
  then have "take (nat (max 0 (limit - int (length (filter rv_is_floor items))))) ?t = ?t"
    by (rule take_all)
  then show ?thesis
    unfolding protect_floor_def Let_def set_append t by auto
qed

lemma merge_floor_facts:
  "set (merge_floor fl fused limit) \<subseteq> set fl \<union> set fused"
  "set fl \<subseteq> set (merge_floor fl fused limit)"
  "int (length (merge_floor fl fused limit)) \<le> max limit (int (length fl))"
  "take (length fl) (merge_floor fl fused limit) = fl"
  by (auto simp: merge_floor_def Let_def dest: in_set_takeD)

lemma merge_floor_distinct:
  assumes "distinct (map rv_memory_id fl)" "distinct (map rv_memory_id fused)"
  shows "distinct (map rv_memory_id (merge_floor fl fused limit))"
proof -
  let ?t = "filter (\<lambda>v. rv_memory_id v \<notin> rv_memory_id ` set fl) fused"
  have "distinct (map rv_memory_id (take n ?t))" for n
    using assms(2) by (simp add: distinct_map_filter take_map [symmetric] distinct_take)
  moreover have "rv_memory_id ` set fl \<inter> rv_memory_id ` set (take n ?t) = {}" for n
  proof -
    have "i \<notin> rv_memory_id ` set fl" if "i \<in> rv_memory_id ` set ?t" for i
      using that by fastforce
    moreover have "rv_memory_id ` set (take n ?t) \<subseteq> rv_memory_id ` set ?t"
      by (rule image_mono [OF set_take_subset])
    ultimately show ?thesis by blast
  qed
  ultimately show ?thesis
    using assms(1) by (simp add: merge_floor_def Let_def)
qed

lemma to_view_simps [simp]:
  "rv_memory_id (to_view c s) = sc_id s" "rv_namespace (to_view c s) = mi_namespace (sc_item s)"
  "rv_is_floor (to_view c s) = sc_is_floor s" "rv_content_hash (to_view c s) = mi_content_hash (sc_item s)"
  "rv_fused_score (to_view c s) = sc_score s"
  by (simp_all add: to_view_def Let_def)

lemma fuse_two:
  "fuse key [a, b] k [xs, ys] = Inr r \<Longrightarrow>
     distinct (map key (map fst r)) \<and> set (map fst r) \<subseteq> set xs \<union> set ys
     \<and> key ` set (map fst r) = key ` (set xs \<union> set ys)"
  using rrf.distinct_ids [of key "[a, b]" k "[xs, ys]" r] rrf.narrows [of key "[a, b]" k "[xs, ys]" r]
    rrf.same_ids [of key "[a, b]" k "[xs, ys]" r]
  by (auto simp: image_comp)

lemma fuse_two_total: "\<exists>r. fuse key [a, b] k [xs, ys] = Inr r"
  using rrf.total [of "[xs, ys]" "[a, b]" key k] by simp

lemma degrade_private_only_Inr:
  "fst (degrade_private_only now scope private) = Inr r \<longleftrightarrow>
   assert_items (map rv_namespace (rr_items private)) scope = Inr () \<and>
   r = \<lparr>rr_namespace = rr_namespace private,
        rr_items = protect_floor (dedup_by rv_content_hash (rr_items private))
          (let n = int (length (rr_items private)) in if n \<noteq> 0 then n else 1),
        rr_channels_run = rr_channels_run private,
        rr_degraded = Some SHARED_RECALL_UNAVAILABLE, rr_generated_at = now\<rparr>"
  by (auto simp: degrade_private_only_def Let_def naked_def split: sum.splits)

lemma federate_Inr:
  assumes "fst (federate st now scope q private shared) = Inr r"
  obtains pairs where
    "fuse rv_memory_id [rs_weight_private st, rs_weight_shared st] (rs_rrf_k st)
       [rr_items private, rr_items shared] = Inr pairs"
    "rr_items r = protect_floor (dedup_by rv_content_hash (map fst pairs)) (rq_limit q)"
    "assert_items (map rv_namespace (rr_items r)) scope = Inr ()"
    "rr_degraded r = (case rr_degraded private of Some d \<Rightarrow> Some d | None \<Rightarrow> rr_degraded shared)"
  using assms by (auto simp: federate_def Let_def naked_def split: sum.splits)

text \<open>How a recall can return: through the federation or through the named degrade.\<close>
lemma recall_Inr:
  assumes "fst (recall deps now scope q) = Inr r"
  obtains shared_ns vec priv where
    "assert_scope scope (rq_namespace q) ''recall'' = Inr ()"
    "shared_namespace (ns_org (rq_namespace q)) (ns_workspace (rq_namespace q))
       (ns_session (rq_namespace q)) = Inr shared_ns"
    "embed_one (rd_embed deps) (rq_text q) = Inr vec"
    "rd_private_rank deps (rq_namespace q) vec (rq_limit q) (rq_channels q)
       (for_scope scope (rq_namespace q)) = Inr priv"
    "(\<exists>shared. rd_shared_recall deps (for_namespace shared_ns q)
         (Some {cs_principal_id scope, cs_agent_principal_id scope}) = Inr shared
       \<and> fst (federate (rd_settings deps) now scope q priv shared) = Inr r)
     \<or> (\<exists>e. rd_shared_recall deps (for_namespace shared_ns q)
         (Some {cs_principal_id scope, cs_agent_principal_id scope}) = Inl (Naked e)
       \<and> isinstance_of e SharedRecallUnavailableError
       \<and> fst (degrade_private_only now scope priv) = Inr r)"
  using assms
  by (auto simp: recall_def run_arms_def Let_def rbind_def authz_resolve_def for_scope_def
      shared_namespace_def mk_namespace_Inr split: sum.splits raised.splits if_splits prod.splits)

lemma recall_items_subset:
  assumes "fst (recall deps now scope q) = Inr r" "v \<in> set (rr_items r)"
  shows "assert_scope scope (rv_namespace v) ''recall'' = Inr ()"
  using assms(1)
proof (cases rule: recall_Inr)
  case (1 shared_ns vec priv)
  from 1(5) show ?thesis
  proof (elim disjE exE conjE)
    fix shared assume "fst (federate (rd_settings deps) now scope q priv shared) = Inr r"
    then show ?thesis
      using assms(2) by (auto elim!: federate_Inr simp: assert_items_Inr)
  next
    assume d: "fst (degrade_private_only now scope priv) = Inr r"
    then have "v \<in> set (rr_items priv)"
      using assms(2) dedup_on_set protect_floor_set
      by (fastforce simp: degrade_private_only_Inr dedup_by_def)
    then show ?thesis using d by (auto simp: degrade_private_only_Inr assert_items_Inr)
  qed
qed

lemma dedup_by_facts:
  "set (dedup_by f xs) \<subseteq> set xs" "distinct (map f (dedup_by f xs))" "distinct (dedup_by f xs)"
  using dedup_on_distinct [of f "{}" xs] dedup_on_set [of f "{}" xs]
  by (auto simp: dedup_by_def distinct_map)

lemma dedup_on_keeps:
  "\<lbrakk> v \<in> set xs; \<forall>u\<in>set xs. f u = f v \<longrightarrow> u = v; f v \<notin> S \<rbrakk> \<Longrightarrow> v \<in> set (dedup_on f S xs)"
  by (induction f S xs rule: dedup_on.induct) auto

lemma federate_narrow:
  assumes "fst (federate st now scope q priv shared) = Inr r"
  shows "set (rr_items r) \<subseteq> set (rr_items priv) \<union> set (rr_items shared)
    \<and> distinct (map rv_memory_id (rr_items r)) \<and> distinct (map rv_content_hash (rr_items r))
    \<and> int (length (rr_items r)) \<le>
        max (rq_limit q) (int (length (filter rv_is_floor (rr_items r))))"
  using assms
proof (rule federate_Inr)
  fix pairs
  assume pairs: "fuse rv_memory_id [rs_weight_private st, rs_weight_shared st] (rs_rrf_k st)
       [rr_items priv, rr_items shared] = Inr pairs"
    and r: "rr_items r = protect_floor (dedup_by rv_content_hash (map fst pairs)) (rq_limit q)"
  let ?d = "dedup_by rv_content_hash (map fst pairs)"
  have d: "set ?d \<subseteq> set (map fst pairs)" "distinct (map rv_content_hash ?d)"
    using dedup_on_set [of rv_content_hash "{}" "map fst pairs"] dedup_on_distinct by (auto simp: dedup_by_def)
  have "distinct ?d" using d(2) by (simp add: distinct_map)
  then have "distinct (map rv_memory_id ?d)"
    using distinct_map_sub [OF conjunct1 [OF fuse_two [OF pairs]]] d(1) by blast
  then have "distinct (map rv_memory_id (rr_items r))" "distinct (map rv_content_hash (rr_items r))"
    unfolding r using protect_floor_distinct d(2) by blast+
  moreover have "set (rr_items r) \<subseteq> set (rr_items priv) \<union> set (rr_items shared)"
    using protect_floor_set [of ?d "rq_limit q"] d(1) fuse_two [OF pairs] unfolding r by blast
  moreover have "length (filter rv_is_floor ?d) \<le> length (filter rv_is_floor (rr_items r))"
    unfolding r by (simp add: protect_floor_def Let_def)
  then have "int (length (rr_items r)) \<le> max (rq_limit q) (int (length (filter rv_is_floor (rr_items r))))"
    using protect_floor_length [of ?d "rq_limit q"] unfolding r by linarith
  ultimately show ?thesis by blast
qed

lemma federate_keeps_floor:
  assumes "fst (federate st now scope q priv shared) = Inr r"
    and v: "v \<in> set (rr_items priv) \<union> set (rr_items shared)" "rv_is_floor v"
    and unique: "\<forall>u\<in>set (rr_items priv) \<union> set (rr_items shared).
      rv_memory_id u = rv_memory_id v \<or> rv_content_hash u = rv_content_hash v \<longrightarrow> u = v"
  shows "v \<in> set (rr_items r)"
  using assms(1)
proof (rule federate_Inr)
  fix pairs
  assume pairs: "fuse rv_memory_id [rs_weight_private st, rs_weight_shared st] (rs_rrf_k st)
       [rr_items priv, rr_items shared] = Inr pairs"
    and r: "rr_items r = protect_floor (dedup_by rv_content_hash (map fst pairs)) (rq_limit q)"
  note f = fuse_two [OF pairs]
  have "rv_memory_id v \<in> rv_memory_id ` set (map fst pairs)"
    using f v(1) by (metis imageI)
  then have "v \<in> set (map fst pairs)"
    using f unique by (metis (no_types, lifting) imageE in_mono)
  then have "v \<in> set (dedup_by rv_content_hash (map fst pairs))"
    unfolding dedup_by_def using f unique by (intro dedup_on_keeps) auto
  then show ?thesis unfolding r using protect_floor_keeps v(2) by blast
qed

text \<open>The degraded result also keeps what the private arm returned, one per body.\<close>
lemma degraded_is_private_arm:
  assumes "fst (degrade_private_only now scope priv) = Inr r"
    "distinct (map rv_memory_id (rr_items priv))"
  shows "set (rr_items r) = set (dedup_by rv_content_hash (rr_items priv))"
proof -
  let ?d = "dedup_by rv_content_hash (rr_items priv)"
  have d: "set ?d \<subseteq> set (rr_items priv)" "distinct ?d" "distinct (map rv_content_hash ?d)"
    by (rule dedup_by_facts)+
  have ids: "distinct (map rv_memory_id ?d)"
    using distinct_map_sub [OF assms(2) d(2,1)] .
  have "length ?d \<le> length (rr_items priv)"
    using d assms(2) by (metis distinct_map card_mono distinct_card finite_set)
  then have "int (length ?d) \<le> (let n = int (length (rr_items priv)) in if n \<noteq> 0 then n else 1)"
    by (auto simp: Let_def dedup_by_def)
  then show ?thesis
    using protect_floor_full [OF ids] assms(1) by (simp add: degrade_private_only_Inr)
qed

lemma rank_Inr:
  assumes "rank sched repos st now ns vec limit channels caller = Inr r"
  obtains flr mtm ltm deg pairs where
    "(if ch_stm channels then tr_stm_recent repos ns (rs_recency_floor_limit st) else Inr []) = Inr flr"
    "(if ch_mtm channels then tr_mtm_semantic repos ns vec (rs_channel_pool_size st) caller else Inr []) = Inr mtm"
    "(if ch_ltm channels then ltm_channel repos ns (rs_channel_pool_size st) caller else Inr ([], False)) = Inr (ltm, deg)"
    "fuse sc_id [rs_weight_mtm st, rs_weight_ltm st] (rs_rrf_k st) [mtm, ltm] = Inr pairs"
    "rr_items r = merge_floor (map (to_view ''stm'') flr)
       (map (\<lambda>(s, _). to_view (channel_label s) s) pairs) limit"
    "rr_degraded r = (if deg then Some LTM_UNAVAILABLE else None)"
    "rr_namespace r = ns"
    "rr_channels_run r = \<lparr>ch_stm = ch_stm channels, ch_mtm = ch_mtm channels,
       ch_ltm = ch_ltm channels \<and> \<not> deg\<rparr>"
  using assms by (auto simp: rank_def Let_def split: sum.splits prod.splits if_splits)

section \<open>Properties\<close>

text \<open>
  C1. No recall leaves the caller's two namespaces. Whatever the ranker, the shared arm and the
  embedder return, if recall returns a result then the query's namespace was one the tenancy guard
  grants to the scope, and so was the namespace of every returned item; for a validated namespace
  that means it is the private or the shared namespace the scope derives.
\<close>
theorem recall_never_leaves_scope:
  assumes "fst (recall deps now scope q) = Inr r"
  shows "assert_scope scope (rq_namespace q) ''recall'' = Inr ()
    \<and> (\<forall>v\<in>set (rr_items r). assert_scope scope (rv_namespace v) ''recall'' = Inr ()
        \<and> (valid_ns (rv_namespace v) \<longrightarrow> (\<exists>vis. scope_namespace scope vis = Inr (rv_namespace v))))"
proof -
  have "assert_scope scope (rq_namespace q) ''recall'' = Inr ()"
    using assms by (rule recall_Inr)
  moreover have "\<exists>vis. scope_namespace scope vis = Inr ns"
    if "assert_scope scope ns ''recall'' = Inr ()" "valid_ns ns" for ns
    using that by (auto simp: assert_scope_Inr legal_scope_namespace)
  ultimately show ?thesis
    using recall_items_subset [OF assms] by blast
qed

definition demo_scope :: client_scope where
  "demo_scope = \<lparr>cs_principal_id = ''u'', cs_org_id = ''o'', cs_workspace_id = ''w'',
     cs_session_id = ''s'', cs_agent_principal_id = ''u'', cs_agent_kind = HUMAN_PROXY,
     cs_agent_path = ''''\<rparr>"

definition demo_view :: "string \<Rightarrow> string \<Rightarrow> visibility \<Rightarrow> bool \<Rightarrow> recall_item_view" where
  "demo_view mid h vis fl = \<lparr>rv_memory_id = mid, rv_content = ''text'', rv_content_hash = h,
     rv_tier = STM, rv_channel = ''stm'', rv_namespace = \<lparr>ns_org = ''o'', ns_workspace = ''w'',
       ns_user = (if vis = SHARED then ''*'' else ''u''), ns_session = ''s'', ns_visibility = vis\<rparr>,
     rv_fused_score = 1, rv_rerank_score = None, rv_is_floor = fl, rv_artifact_ref = None\<rparr>"

definition all_channels :: recall_channels where
  "all_channels = \<lparr>ch_stm = True, ch_mtm = True, ch_ltm = True\<rparr>"

definition demo_result :: "visibility \<Rightarrow> recall_item_view list \<Rightarrow> recall_result" where
  "demo_result vis items = \<lparr>rr_namespace = rv_namespace (demo_view ''x'' ''x'' vis False),
     rr_items = items, rr_channels_run = all_channels, rr_degraded = None, rr_generated_at = 5\<rparr>"

definition demo_query :: "int \<Rightarrow> recall_query" where
  "demo_query limit = \<lparr>rq_namespace = rv_namespace (demo_view ''x'' ''x'' PRIVATE False),
     rq_text = ''q'', rq_limit = limit, rq_channels = all_channels, rq_mode = RANKED,
     rq_persona = None, rq_max_tokens = None, rq_correlation_id = None\<rparr>"

definition demo_deps :: recall_deps where
  "demo_deps = \<lparr>rd_embed = (\<lambda>ts. Inr (map (\<lambda>_. [1]) ts)),
     rd_private_rank = (\<lambda>_ _ _ _ _. Inr (demo_result PRIVATE [demo_view ''a'' ''h'' PRIVATE True])),
     rd_shared_recall = (\<lambda>_ _. Inr (demo_result SHARED [demo_view ''b'' ''h'' SHARED False,
        demo_view ''c'' ''k'' SHARED False])),
     rd_settings = default_recall_settings\<rparr>"

lemma demo_recall: "fst (recall demo_deps 5 demo_scope (demo_query 3)) =
    Inr (demo_result PRIVATE [demo_view ''a'' ''h'' PRIVATE True, demo_view ''c'' ''k'' SHARED False])"
  by code_simp

theorem recall_never_leaves_scope_witness:
  "assert_scope demo_scope (rv_namespace (demo_view ''c'' ''k'' SHARED False)) ''recall'' = Inr ()"
  using recall_never_leaves_scope [OF demo_recall] by (simp add: demo_result_def)

text \<open>
  A denied recall touches nothing: when the guard refuses the query's namespace (validated, as a
  query's always is), recall raises the isolation error whatever the embedder, the ranker and the
  shared arm would do, with no degraded-mode counter bumped.
\<close>
theorem denied_recall_is_uniform:
  assumes "valid_ns (rq_namespace q)" and "assert_scope scope (rq_namespace q) ''recall'' \<noteq> Inr ()"
  shows "recall deps now scope q = (Inl (Naked NamespaceIsolationError), [])"
proof -
  obtain sns where "shared_namespace (ns_org (rq_namespace q)) (ns_workspace (rq_namespace q))
      (ns_session (rq_namespace q)) = Inr sns"
    using assms(1) by (auto simp: shared_namespace_def mk_namespace_Inr valid_ns_def shared_sentinel_ok_def)
  then show ?thesis
    using assert_scope_denies [OF assms(2)] by (simp add: recall_def authz_resolve_def Let_def)
qed

theorem denied_recall_is_uniform_witness:
  "recall demo_deps 5 (demo_scope\<lparr>cs_org_id := ''other''\<rparr>) (demo_query 3)
     = (Inl (Naked NamespaceIsolationError), [])"
  by (rule denied_recall_is_uniform)
    (simp_all add: demo_query_def demo_view_def demo_scope_def valid_ns_def legal_component_def
      forbidden_ns_chars_def shared_sentinel_ok_def assert_scope_Inr)

text \<open>
  C36. Federation only narrows: the items of a federated result come from the two arms unchanged, no
  memory id and no content hash occurs twice, the list is at most limit long unless floor members
  alone exceed it, and a floor member that no other arm item shadows (by id or by content hash) is
  always in it.
\<close>
theorem federation_narrows_and_keeps_floor:
  assumes "fst (federate st now scope q priv shared) = Inr r"
  shows "set (rr_items r) \<subseteq> set (rr_items priv) \<union> set (rr_items shared)
    \<and> distinct (map rv_memory_id (rr_items r)) \<and> distinct (map rv_content_hash (rr_items r))
    \<and> int (length (rr_items r)) \<le> max (rq_limit q) (int (length (filter rv_is_floor (rr_items r))))
    \<and> (\<forall>v\<in>set (rr_items priv) \<union> set (rr_items shared).
         rv_is_floor v \<and> (\<forall>u\<in>set (rr_items priv) \<union> set (rr_items shared).
             rv_memory_id u = rv_memory_id v \<or> rv_content_hash u = rv_content_hash v \<longrightarrow> u = v)
         \<longrightarrow> v \<in> set (rr_items r))"
  using federate_narrow [OF assms] federate_keeps_floor [OF assms] by blast

theorem federation_narrows_and_keeps_floor_witness:
  "distinct (map rv_memory_id (rr_items (demo_result PRIVATE [demo_view ''a'' ''h'' PRIVATE True])))"
proof -
  have "fst (federate default_recall_settings 5 demo_scope (demo_query 1)
      (demo_result PRIVATE [demo_view ''a'' ''h'' PRIVATE True])
      (demo_result SHARED [demo_view ''b'' ''k'' SHARED False]))
    = Inr (demo_result PRIVATE [demo_view ''a'' ''h'' PRIVATE True])"
    by code_simp
  then show ?thesis
    using federation_narrows_and_keeps_floor by blast
qed

text \<open>
  Without that condition the floor is not safe: content-hash deduplication runs before the floor
  is protected, so a shared copy that ranks above a private floor member removes it, and the copy
  itself, not being a floor member, is then cut at the limit. The body of a recency-floor item can
  thus be missing from the result altogether.
\<close>
theorem floor_body_can_be_lost:
  "\<exists>q priv shared r v. fst (federate default_recall_settings 5 demo_scope q priv shared) = Inr r
     \<and> v \<in> set (rr_items priv) \<and> rv_is_floor v
     \<and> rv_content_hash v \<notin> rv_content_hash ` set (rr_items r)"
proof -
  let ?p = "demo_result PRIVATE [demo_view ''a'' ''h'' PRIVATE True, demo_view ''b'' ''k'' PRIVATE True]"
  let ?s = "demo_result SHARED [demo_view ''c'' ''k'' SHARED False]"
  let ?r = "demo_result PRIVATE [demo_view ''a'' ''h'' PRIVATE True]"
  let ?v = "demo_view ''b'' ''k'' PRIVATE True"
  have "fst (federate default_recall_settings 5 demo_scope (demo_query 1) ?p ?s) = Inr ?r"
    by code_simp
  moreover have "?v \<in> set (rr_items ?p)" "rv_is_floor ?v"
    "rv_content_hash ?v \<notin> rv_content_hash ` set (rr_items ?r)"
    by (simp_all add: demo_result_def demo_view_def)
  ultimately show ?thesis by blast
qed

text \<open>
  A shared-arm outage is a named degrade, not a partial answer: when the shared port raises its
  unavailability error, a recall that returns is labelled SHARED_RECALL_UNAVAILABLE, bumps exactly
  the shared-recall counter, and lists the private arm intact up to duplicate bodies (every content
  hash of the private arm is present, and nothing else).
\<close>
theorem shared_outage_keeps_private_arm:
  assumes "rd_shared_recall deps = (\<lambda>_ _. Inl (Naked SharedRecallUnavailableError))"
    and "recall deps now scope q = (Inr r, ctrs)"
    and "\<And>ns v l c s priv. rd_private_rank deps ns v l c s = Inr priv \<Longrightarrow>
           distinct (map rv_memory_id (rr_items priv))"
  shows "rr_degraded r = Some SHARED_RECALL_UNAVAILABLE \<and> ctrs = [''shared-recall'']
    \<and> (\<exists>vec priv. rd_private_rank deps (rq_namespace q) vec (rq_limit q) (rq_channels q)
           (for_scope scope (rq_namespace q)) = Inr priv
         \<and> set (rr_items r) = set (dedup_by rv_content_hash (rr_items priv))
         \<and> rv_content_hash ` set (rr_items r) = rv_content_hash ` set (rr_items priv))"
proof -
  have r: "fst (recall deps now scope q) = Inr r" using assms(2) by simp
  show ?thesis using r
  proof (cases rule: recall_Inr)
    case (1 shared_ns vec priv)
    then have d: "fst (degrade_private_only now scope priv) = Inr r"
      by (simp add: assms(1))
    have "ctrs = [''shared-recall'']"
      using assms(1,2) by (auto simp: recall_def run_arms_def degrade_private_only_def Let_def rbind_def
          naked_def split: sum.splits raised.splits if_splits prod.splits)
    moreover have "rv_content_hash ` set (dedup_by rv_content_hash (rr_items priv))
        = rv_content_hash ` set (rr_items priv)"
      using dedup_on_keys [of rv_content_hash "{}" "rr_items priv"] by (simp add: dedup_by_def)
    ultimately show ?thesis
      using degraded_is_private_arm [OF d assms(3) [OF 1(4)]] d 1(4)
      by (auto simp: degrade_private_only_Inr)
  qed
qed

theorem shared_outage_keeps_private_arm_witness:
  "rr_degraded (demo_result PRIVATE [demo_view ''a'' ''h'' PRIVATE True]
      \<lparr>rr_degraded := Some SHARED_RECALL_UNAVAILABLE\<rparr>) = Some SHARED_RECALL_UNAVAILABLE"
proof (rule shared_outage_keeps_private_arm [THEN conjunct1])
  show "recall (demo_deps\<lparr>rd_shared_recall := (\<lambda>_ _. Inl (Naked SharedRecallUnavailableError))\<rparr>)
      5 demo_scope (demo_query 3) =
    (Inr (demo_result PRIVATE [demo_view ''a'' ''h'' PRIVATE True]
      \<lparr>rr_degraded := Some SHARED_RECALL_UNAVAILABLE\<rparr>), [''shared-recall''])"
    by code_simp
qed (auto simp: demo_deps_def demo_result_def)

text \<open>
  The ranker's contract for any repositories: the recency floor leads the result in its own
  order and is never cut, everything else comes from the mid-term or long-term hits, the length is
  at most limit unless the floor alone exceeds it, and the result is labelled LTM_UNAVAILABLE
  exactly when the long-term channel was asked for and its store was down, in which case the items
  are those of a ranking without that channel.
\<close>
theorem ranker_floor_and_degrade:
  assumes "rank sched repos st now ns vec limit channels caller = Inr r"
  shows "\<exists>flr mtm ltm.
      (if ch_stm channels then tr_stm_recent repos ns (rs_recency_floor_limit st) = Inr flr else flr = [])
    \<and> (if ch_mtm channels then tr_mtm_semantic repos ns vec (rs_channel_pool_size st) caller = Inr mtm
       else mtm = [])
    \<and> take (length flr) (rr_items r) = map (to_view ''stm'') flr
    \<and> set (rr_items r) \<subseteq> to_view ''stm'' ` set flr \<union> (\<lambda>s. to_view (channel_label s) s) ` (set mtm \<union> set ltm)
    \<and> int (length (rr_items r)) \<le> max limit (int (length flr))
    \<and> (rr_degraded r = Some LTM_UNAVAILABLE \<longleftrightarrow> ch_ltm channels \<and>
        (\<exists>e. tr_ltm_graph repos ns (rs_channel_pool_size st) caller = Inl e
             \<and> isinstance_of e StoreUnavailableError))
    \<and> (rr_degraded r = Some LTM_UNAVAILABLE \<longrightarrow>
        (\<exists>r'. rank sched repos st now ns vec limit (channels\<lparr>ch_ltm := False\<rparr>) caller = Inr r'
              \<and> rr_items r' = rr_items r \<and> rr_channels_run r' = rr_channels_run r))"
  using assms
proof (rule rank_Inr)
  fix flr mtm ltm deg pairs
  assume f: "(if ch_stm channels then tr_stm_recent repos ns (rs_recency_floor_limit st) else Inr []) = Inr flr"
    and m: "(if ch_mtm channels then tr_mtm_semantic repos ns vec (rs_channel_pool_size st) caller else Inr []) = Inr mtm"
    and l: "(if ch_ltm channels then ltm_channel repos ns (rs_channel_pool_size st) caller else Inr ([], False)) = Inr (ltm, deg)"
    and p: "fuse sc_id [rs_weight_mtm st, rs_weight_ltm st] (rs_rrf_k st) [mtm, ltm] = Inr pairs"
    and items: "rr_items r = merge_floor (map (to_view ''stm'') flr)
       (map (\<lambda>(s, _). to_view (channel_label s) s) pairs) limit"
    and d: "rr_degraded r = (if deg then Some LTM_UNAVAILABLE else None)"
    and run: "rr_channels_run r = \<lparr>ch_stm = ch_stm channels, ch_mtm = ch_mtm channels,
       ch_ltm = ch_ltm channels \<and> \<not> deg\<rparr>"
  note mf = merge_floor_facts [of "map (to_view ''stm'') flr"
      "map (\<lambda>(s, _). to_view (channel_label s) s) pairs" limit]
  have deg: "deg \<longleftrightarrow> ch_ltm channels \<and> (\<exists>e. tr_ltm_graph repos ns (rs_channel_pool_size st) caller = Inl e
             \<and> isinstance_of e StoreUnavailableError)"
    using l by (auto simp: ltm_channel_def split: sum.splits if_splits)
  have "set (map (\<lambda>(s, _). to_view (channel_label s) s) pairs)
      \<subseteq> (\<lambda>s. to_view (channel_label s) s) ` (set mtm \<union> set ltm)"
    using fuse_two [OF p] by (force simp: image_iff)
  then have "set (rr_items r) \<subseteq> to_view ''stm'' ` set flr
      \<union> (\<lambda>s. to_view (channel_label s) s) ` (set mtm \<union> set ltm)"
    using mf(1) unfolding items by (simp add: subset_iff) blast
  moreover have "take (length flr) (rr_items r) = map (to_view ''stm'') flr"
    "int (length (rr_items r)) \<le> max limit (int (length flr))"
    using mf(3,4) unfolding items by simp_all
  moreover have "\<exists>r'. rank sched repos st now ns vec limit (channels\<lparr>ch_ltm := False\<rparr>) caller = Inr r'
              \<and> rr_items r' = rr_items r \<and> rr_channels_run r' = rr_channels_run r" if "deg"
  proof -
    have "ltm = []" using l that by (auto simp: ltm_channel_def split: sum.splits if_splits)
    then show ?thesis
      using f m p items run that by (auto simp: rank_def Let_def)
  qed
  ultimately show ?thesis
    using f m deg d by (intro exI [of _ flr] exI [of _ mtm] exI [of _ ltm]) (auto split: if_splits)
qed

definition demo_repos :: tier_repos where
  "demo_repos = \<lparr>tr_stm_recent = (\<lambda>_ _. Inr []), tr_mtm_semantic = (\<lambda>_ _ _ _. Inr []),
     tr_ltm_graph = (\<lambda>_ _ _. Inl StoreUnavailableError)\<rparr>"

theorem ranker_floor_and_degrade_witness:
  "\<exists>r'. rank id demo_repos default_recall_settings 5 (rq_namespace (demo_query 3)) [1] 3
     (all_channels\<lparr>ch_ltm := False\<rparr>) None = Inr r' \<and> rr_items r' = []"
proof -
  let ?r = "(demo_result PRIVATE [])\<lparr>rr_channels_run := all_channels\<lparr>ch_ltm := False\<rparr>,
    rr_degraded := Some LTM_UNAVAILABLE\<rparr>"
  have "rank id demo_repos default_recall_settings 5 (rq_namespace (demo_query 3)) [1] 3 all_channels None
      = Inr ?r"
    by code_simp
  then show ?thesis
    using ranker_floor_and_degrade [of id demo_repos default_recall_settings 5 "rq_namespace (demo_query 3)"
        "[1]" 3 all_channels None ?r]
    by (simp add: demo_result_def) metis
qed

end
