(* ===== verification/Pipeline.thy ===== *)
theory Pipeline
  imports Memory_Model Degradation
begin

text \<open>
  The pipeline framework (pipelines/base.py, pipelines/ledger.py). Code with effects is a function
  from the world to an outcome and the world after it (effects made before a raise stay made). The
  world of a pipeline is the stage ledger, the stores and the bus; the stores and the bus are
  injected in the code, so their states are type variables and their calls are the fields of a
  ports record.

  A stage is its name, its idempotency key and its body; the gate (look up the key, run, mark after
  success) is written once, as in BaseStage. The interface of the ledger is a locale, interpreted on
  the in-memory ledger.
\<close>

section \<open>Effects\<close>

type_synonym ('w, 'a) eff = "'w \<Rightarrow> 'a or_raise \<times> 'w"

definition ret :: "'a \<Rightarrow> ('w, 'a) eff" where
  "ret a w = (Inr a, w)"

definition raise_exc :: "exc_class \<Rightarrow> ('w, 'a) eff" where
  "raise_exc e w = (Inl e, w)"

definition seq :: "('w, 'a) eff \<Rightarrow> ('a \<Rightarrow> ('w, 'b) eff) \<Rightarrow> ('w, 'b) eff" where
  "seq m f w = (case m w of (Inl e, w') \<Rightarrow> (Inl e, w') | (Inr a, w') \<Rightarrow> f a w')"

fun for_each :: "('a \<Rightarrow> ('w, unit) eff) \<Rightarrow> 'a list \<Rightarrow> ('w, unit) eff" where
  "for_each f [] = ret ()"
| "for_each f (x # xs) = seq (f x) (\<lambda>_. for_each f xs)"

lemma ret_apply [simp]: "ret a w = (Inr a, w)"
  by (simp add: ret_def)

lemma raise_apply [simp]: "raise_exc e w = (Inl e, w)"
  by (simp add: raise_exc_def)

lemma seq_Inr: "m w = (Inr a, w') \<Longrightarrow> seq m f w = f a w'"
  by (simp add: seq_def)

lemma seq_Inl: "m w = (Inl e, w') \<Longrightarrow> seq m f w = (Inl e, w')"
  by (simp add: seq_def)

lemma seq_ret [simp]: "seq (ret a) f = f a"
  by (rule ext) (simp add: seq_def)

lemma seq_Inr_iff:
  "seq m f w = (Inr b, w'') \<longleftrightarrow> (\<exists>a w'. m w = (Inr a, w') \<and> f a w' = (Inr b, w''))"
  by (auto simp: seq_def split: prod.splits sum.splits)

lemma for_each_append: "for_each f (xs @ ys) = seq (for_each f xs) (\<lambda>_. for_each f ys)"
proof (induction xs)
  case (Cons x xs)
  then show ?case
    by (intro ext) (simp add: seq_def split: prod.split sum.split)
qed (rule ext, simp add: seq_def)

section \<open>Domain events of the pipelines\<close>

text \<open>The members of the catalogue that the two pipelines emit, with their fields.\<close>
datatype domain_event =
    MemoryCaptured namespace "string list" memory_tier
  | MemoryPromoted namespace string memory_tier memory_tier string
  | MemorySuperseded namespace string string int
  | FactsExtracted namespace int
  | ConsolidationCompleted namespace int int
  | IngestCompleted namespace "string list"

fun event_name :: "domain_event \<Rightarrow> string" where
  "event_name (MemoryCaptured _ _ _) = ''MemoryCaptured''"
| "event_name (MemoryPromoted _ _ _ _ _) = ''MemoryPromoted''"
| "event_name (MemorySuperseded _ _ _ _) = ''MemorySuperseded''"
| "event_name (FactsExtracted _ _) = ''FactsExtracted''"
| "event_name (ConsolidationCompleted _ _ _) = ''ConsolidationCompleted''"
| "event_name (IngestCompleted _ _) = ''IngestCompleted''"

section \<open>The event codec of the durable ledger\<close>

text \<open>
  A recorded event travels as its class name and its JSON dump. The dump and the validating load of
  an event class are pydantic's: they are the parameters dump and validate. The codec itself looks
  the class name up among the event classes of the catalogue; an unknown name is a KeyError.
\<close>
definition encode_events :: "('e \<Rightarrow> string) \<Rightarrow> ('e \<Rightarrow> 'd) \<Rightarrow> 'e list \<Rightarrow> (string \<times> 'd) list" where
  "encode_events type_name dump es = map (\<lambda>e. (type_name e, dump e)) es"

definition event_types :: "string set" where
  "event_types = set (map fst event_catalog)"

definition decode_events ::
  "(string \<Rightarrow> 'd \<Rightarrow> 'e or_raise) \<Rightarrow> (string \<times> 'd) list \<Rightarrow> 'e list or_raise" where
  "decode_events validate rows =
     rmap (\<lambda>(tag, d). if tag \<notin> event_types then Inl KeyError else validate tag d) rows"

lemma rmap_map_id: "(\<And>x. x \<in> set xs \<Longrightarrow> f (g x) = Inr x) \<Longrightarrow> rmap f (map g xs) = Inr xs"
  by (induction xs) auto

lemma rmap_append: "rmap f (xs @ ys) = rbind (rmap f xs) (\<lambda>a. rbind (rmap f ys) (\<lambda>b. Inr (a @ b)))"
  by (induction xs) (auto simp: rbind_def split: sum.splits)

lemma codec_roundtrip:
  assumes "\<And>e. e \<in> set es \<Longrightarrow> type_name e \<in> event_types \<and> validate (type_name e) (dump e) = Inr e"
  shows "decode_events validate (encode_events type_name dump es) = Inr es"
  unfolding decode_events_def encode_events_def by (rule rmap_map_id) (simp add: assms)

text \<open>An instance for the events above: JSON values, with the ISO printer and reader of datetimes
  as parameters.\<close>
datatype json = JStr string | JInt int | JStrs "string list" | JNs "string list"

definition ns_json :: "namespace \<Rightarrow> json" where
  "ns_json ns = JNs (ns_parts ns)"

fun event_data :: "(int \<Rightarrow> string) \<Rightarrow> domain_event \<Rightarrow> (string, json) dict" where
  "event_data iso_of (MemoryCaptured ns ids tier) =
     [(''namespace'', ns_json ns), (''ids'', JStrs ids), (''tier'', JStr (tier_value tier))]"
| "event_data iso_of (MemoryPromoted ns mid frm to reason) =
     [(''namespace'', ns_json ns), (''id'', JStr mid), (''frm'', JStr (tier_value frm)),
      (''to'', JStr (tier_value to)), (''reason'', JStr reason)]"
| "event_data iso_of (MemorySuperseded ns loser winner at_t) =
     [(''namespace'', ns_json ns), (''loser_id'', JStr loser), (''winner_id'', JStr winner),
      (''valid_at'', JStr (iso_of at_t))]"
| "event_data iso_of (FactsExtracted ns n) = [(''namespace'', ns_json ns), (''count'', JInt n)]"
| "event_data iso_of (ConsolidationCompleted ns f s) =
     [(''namespace'', ns_json ns), (''facts_n'', JInt f), (''superseded_n'', JInt s)]"
| "event_data iso_of (IngestCompleted ns ids) =
     [(''namespace'', ns_json ns), (''memory_ids'', JStrs ids)]"

text \<open>Field access with validation: a missing field or a wrong shape is a validation error.\<close>
definition get_ns :: "(string, json) dict \<Rightarrow> namespace or_raise" where
  "get_ns d = (case dict_get d ''namespace'' of Some (JNs p) \<Rightarrow> ns_from_parts p | _ \<Rightarrow> Inl ValueError)"

definition get_str :: "string \<Rightarrow> (string, json) dict \<Rightarrow> string or_raise" where
  "get_str k d = (case dict_get d k of Some (JStr s) \<Rightarrow> Inr s | _ \<Rightarrow> Inl ValueError)"

definition get_int :: "string \<Rightarrow> (string, json) dict \<Rightarrow> int or_raise" where
  "get_int k d = (case dict_get d k of Some (JInt i) \<Rightarrow> Inr i | _ \<Rightarrow> Inl ValueError)"

definition get_strs :: "string \<Rightarrow> (string, json) dict \<Rightarrow> string list or_raise" where
  "get_strs k d = (case dict_get d k of Some (JStrs s) \<Rightarrow> Inr s | _ \<Rightarrow> Inl ValueError)"

definition get_tier :: "string \<Rightarrow> (string, json) dict \<Rightarrow> memory_tier or_raise" where
  "get_tier k d = rbind (get_str k d) tier_of"

definition validate_event ::
  "(string \<Rightarrow> int or_raise) \<Rightarrow> string \<Rightarrow> (string, json) dict \<Rightarrow> domain_event or_raise" where
  "validate_event parse_iso tag d =
    (if tag = ''MemoryCaptured'' then
       rbind (get_ns d) (\<lambda>ns. rbind (get_strs ''ids'' d) (\<lambda>ids. rbind (get_tier ''tier'' d) (\<lambda>t.
         Inr (MemoryCaptured ns ids t))))
     else if tag = ''MemoryPromoted'' then
       rbind (get_ns d) (\<lambda>ns. rbind (get_str ''id'' d) (\<lambda>i. rbind (get_tier ''frm'' d) (\<lambda>f.
       rbind (get_tier ''to'' d) (\<lambda>t. rbind (get_str ''reason'' d) (\<lambda>x.
         Inr (MemoryPromoted ns i f t x))))))
     else if tag = ''MemorySuperseded'' then
       rbind (get_ns d) (\<lambda>ns. rbind (get_str ''loser_id'' d) (\<lambda>l. rbind (get_str ''winner_id'' d) (\<lambda>w.
       rbind (rbind (get_str ''valid_at'' d) parse_iso) (\<lambda>v. Inr (MemorySuperseded ns l w v)))))
     else if tag = ''FactsExtracted'' then
       rbind (get_ns d) (\<lambda>ns. rbind (get_int ''count'' d) (\<lambda>n. Inr (FactsExtracted ns n)))
     else if tag = ''ConsolidationCompleted'' then
       rbind (get_ns d) (\<lambda>ns. rbind (get_int ''facts_n'' d) (\<lambda>f. rbind (get_int ''superseded_n'' d) (\<lambda>s.
         Inr (ConsolidationCompleted ns f s))))
     else if tag = ''IngestCompleted'' then
       rbind (get_ns d) (\<lambda>ns. rbind (get_strs ''memory_ids'' d) (\<lambda>ids. Inr (IngestCompleted ns ids)))
     else Inl ValueError)"

fun event_ns :: "domain_event \<Rightarrow> namespace" where
  "event_ns (MemoryCaptured ns _ _) = ns"
| "event_ns (MemoryPromoted ns _ _ _ _) = ns"
| "event_ns (MemorySuperseded ns _ _ _) = ns"
| "event_ns (FactsExtracted ns _) = ns"
| "event_ns (ConsolidationCompleted ns _ _) = ns"
| "event_ns (IngestCompleted ns _) = ns"

lemma ns_roundtrip: "valid_ns ns \<Longrightarrow> ns_from_parts (ns_parts ns) = Inr ns"
  by (simp add: ns_parts_def mk_namespace_valid)

lemma validate_event_data:
  assumes "valid_ns (event_ns e)" "\<And>t. parse_iso (iso_of t) = Inr t"
  shows "validate_event parse_iso (event_name e) (event_data iso_of e) = Inr e"
  using assms
  by (cases e) (simp_all add: validate_event_def get_ns_def get_str_def get_int_def get_strs_def
      get_tier_def ns_json_def ns_roundtrip)

lemma event_name_known: "event_name e \<in> event_types"
  by (cases e) (simp_all add: event_types_def event_catalog_def lifecycle_events_def)

text \<open>
  The ledger codec is lossless for events of the catalogue: if each event's class is in the
  catalogue and the class's own dump and load are inverse on it, decoding the encoded list gives
  back exactly the list, in order; and a row whose class name is unknown makes the whole decode
  raise, never a shorter list.
\<close>
theorem ledger_codec_roundtrip:
  assumes "\<And>e. e \<in> set es \<Longrightarrow> type_name e \<in> event_types \<and> validate (type_name e) (dump e) = Inr e"
  shows "decode_events validate (encode_events type_name dump es) = Inr es
    \<and> (tag \<notin> event_types \<longrightarrow>
        decode_events validate (encode_events type_name dump es @ (tag, d) # rest) = Inl KeyError)"
proof -
  have "decode_events validate (encode_events type_name dump es) = Inr es"
    by (rule codec_roundtrip) (rule assms)
  then show ?thesis
    by (simp add: decode_events_def rmap_append)
qed

theorem ledger_codec_roundtrip_witness:
  "decode_events (validate_event (\<lambda>s. Inr (int (length s))))
     (encode_events event_name (event_data (\<lambda>t. replicate (nat t) (CHR ''i'')))
        [MemorySuperseded \<lparr>ns_org = ''o'', ns_workspace = ''w'', ns_user = ''u'', ns_session = ''s'',
           ns_visibility = PRIVATE\<rparr> ''l'' ''w'' 7])
   = Inr [MemorySuperseded \<lparr>ns_org = ''o'', ns_workspace = ''w'', ns_user = ''u'', ns_session = ''s'',
           ns_visibility = PRIVATE\<rparr> ''l'' ''w'' 7]"
proof (rule ledger_codec_roundtrip [THEN conjunct1])
  let ?iso = "\<lambda>t. replicate (nat t) (CHR ''i'')" and ?p = "\<lambda>s. Inr (int (length s))"
  let ?e = "MemorySuperseded \<lparr>ns_org = ''o'', ns_workspace = ''w'', ns_user = ''u'', ns_session = ''s'',
           ns_visibility = PRIVATE\<rparr> ''l'' ''w'' 7"
  have "validate_event ?p (event_name ?e) (event_data ?iso ?e) = Inr ?e"
    by code_simp
  then show "event_name e \<in> event_types \<and> validate_event ?p (event_name e) (event_data ?iso e) = Inr e"
    if "e \<in> set [?e]" for e
  proof -
    have "e = ?e" using that by simp
    then show ?thesis using \<open>validate_event _ _ _ = _\<close> event_name_known by metis
  qed
qed

section \<open>The stage ledger\<close>

type_synonym ledger = "(string, domain_event list) dict"

text \<open>InMemoryStageLedger: a re-mark keeps the first record.\<close>
definition completed_with_events :: "string \<Rightarrow> ledger \<Rightarrow> domain_event list option" where
  "completed_with_events key l = dict_get l key"

definition mark_completed :: "string \<Rightarrow> domain_event list \<Rightarrow> ledger \<Rightarrow> ledger" where
  "mark_completed key events l = dict_setdefault key events l"

text \<open>What the stage gate relies on: a mark is seen, the first mark wins, and marking one key does
  not touch another.\<close>
locale stage_ledger =
  fixes completed :: "string \<Rightarrow> 'l \<Rightarrow> 'e list option"
    and mark :: "string \<Rightarrow> 'e list \<Rightarrow> 'l \<Rightarrow> 'l"
  assumes mark_fresh: "completed k l = None \<Longrightarrow> completed k (mark k es l) = Some es"
    and mark_kept: "completed k l = Some old \<Longrightarrow> completed k (mark k es l) = Some old"
    and mark_other: "j \<noteq> k \<Longrightarrow> completed j (mark k es l) = completed j l"
begin

definition extends :: "'l \<Rightarrow> 'l \<Rightarrow> bool" where
  "extends l l' = (\<forall>k es. completed k l = Some es \<longrightarrow> completed k l' = Some es)"

lemma extends_refl: "extends l l"
  by (simp add: extends_def)

lemma extends_trans: "extends a b \<Longrightarrow> extends b c \<Longrightarrow> extends a c"
  by (simp add: extends_def)

lemma extends_mark: "extends l (mark k es l)"
  unfolding extends_def using mark_kept mark_other by metis

lemma extends_fold: "extends l (fold (\<lambda>(k, es). mark k es) ms l)"
  by (induction ms arbitrary: l) (auto intro: extends_refl extends_trans extends_mark)

lemma mark_then_completed: "\<exists>es'. completed k (mark k es l) = Some es'"
  using mark_fresh mark_kept by (cases "completed k l") blast+

end

interpretation mem_ledger: stage_ledger completed_with_events mark_completed
  by unfold_locales
    (auto simp: completed_with_events_def mark_completed_def dict_setdefault_get dict_default_def)

section \<open>Stages\<close>

datatype stage_status = OK | SKIPPED | DEGRADED | FAILED

text \<open>The values the ingest pipeline keeps in ctx.state; 'a is the activity type.\<close>
datatype 'a state_value = SvActivity 'a | SvItem memory_item | SvIds "string list" | SvStr string
  | SvBool bool

type_synonym 'a ctx_state = "(string, 'a state_value) dict"

record 'a stage_outcome =
  so_status :: stage_status
  so_produced :: "'a ctx_state"
  so_events :: "domain_event list"
  so_reason :: "string option"
  so_key :: "string option"

text \<open>Construction with its validator: a degraded or skipped outcome needs a non-empty reason.\<close>
definition mk_outcome ::
  "stage_status \<Rightarrow> 'a ctx_state \<Rightarrow> domain_event list \<Rightarrow> string option \<Rightarrow> string option
   \<Rightarrow> 'a stage_outcome or_raise" where
  "mk_outcome status produced events reason key =
     (if (status = DEGRADED \<or> status = SKIPPED) \<and> (reason = None \<or> reason = Some '''')
      then Inl ValueError
      else Inr \<lparr>so_status = status, so_produced = produced, so_events = events,
                so_reason = reason, so_key = key\<rparr>)"

record 'a pipeline_context =
  pc_namespace :: namespace
  pc_correlation_id :: string
  pc_state :: "'a ctx_state"

text \<open>The world of a pipeline: its ledger, the stores (with the clock and the id supply) and the bus.\<close>
record ('s, 'b) world =
  w_ledger :: ledger
  w_stores :: 's
  w_bus :: 'b

text \<open>An injected call on the stores or on the bus.\<close>
definition on_stores :: "('s, 'a) eff \<Rightarrow> (('s, 'b) world, 'a) eff" where
  "on_stores f w = (case f (w_stores w) of (r, s) \<Rightarrow> (r, w\<lparr>w_stores := s\<rparr>))"

definition on_bus :: "('b, 'a) eff \<Rightarrow> (('s, 'b) world, 'a) eff" where
  "on_bus f w = (case f (w_bus w) of (r, b) \<Rightarrow> (r, w\<lparr>w_bus := b\<rparr>))"

definition lift_result :: "'a or_raise \<Rightarrow> ('w, 'a) eff" where
  "lift_result r w = (r, w)"

record ('a, 's, 'b) stage =
  st_name :: string
  st_key :: "'a pipeline_context \<Rightarrow> (('s, 'b) world, string) eff"
  st_execute :: "'a pipeline_context \<Rightarrow> (('s, 'b) world, 'a stage_outcome) eff"

definition lookup_key :: "string \<Rightarrow> (('s, 'b) world, domain_event list option) eff" where
  "lookup_key key w = (Inr (completed_with_events key (w_ledger w)), w)"

definition mark_key :: "string \<Rightarrow> domain_event list \<Rightarrow> (('s, 'b) world, unit) eff" where
  "mark_key key events w = (Inr (), w\<lparr>w_ledger := mark_completed key events (w_ledger w)\<rparr>)"

text \<open>The tail of run: the body, then the mark of a successful outcome under a non-empty key.\<close>
definition execute_and_mark ::
  "('a, 's, 'b) stage \<Rightarrow> string \<Rightarrow> 'a pipeline_context \<Rightarrow> (('s, 'b) world, 'a stage_outcome) eff" where
  "execute_and_mark st key ctx =
     seq (st_execute st ctx) (\<lambda>o'.
       if so_status o' \<in> {OK, DEGRADED} \<and> key \<noteq> ''''
       then seq (mark_key key (so_events o')) (\<lambda>_. ret o') else ret o')"

text \<open>BaseStage.run\<close>
definition run_gated ::
  "('a, 's, 'b) stage \<Rightarrow> 'a pipeline_context \<Rightarrow> (('s, 'b) world, 'a stage_outcome) eff" where
  "run_gated st ctx = seq (st_key st ctx) (\<lambda>key.
     if key \<noteq> '''' then
       seq (lookup_key key) (\<lambda>found. case found of
         Some events \<Rightarrow> lift_result (mk_outcome SKIPPED [] events (Some ''ledger-hit'') (Some key))
       | None \<Rightarrow> execute_and_mark st key ctx)
     else execute_and_mark st key ctx)"

end
