(* ===== verification/Ingest.thy ===== *)
theory Ingest
  imports Pipeline
begin

text \<open>
  The ingest pipeline: its three stages (pipelines/concrete/ingest.py) and the service that drives
  them under HALT_LOUD (services/ingest.py). The clock, the id supply, the tier repositories, the
  embedder and the bus are the injected ports; sha256 is the digest of hashlib. The lemmas give the
  exact course of a first run and of a replay; the properties say what a replay re-does (nothing on
  the stores), and which situations the ledger keys confuse.
\<close>

section \<open>The activity\<close>

record ingest_activity =
  ia_namespace :: namespace
  ia_host :: string
  ia_session_offset :: string
  ia_kind :: string
  ia_text :: string
  ia_importance :: rat
  ia_promote :: bool
  ia_source :: memory_source
  ia_subject :: "string option"
  ia_predicate :: "string option"
  ia_object :: "string option"
  ia_object_kind :: "fact_object_kind option"
  ia_polarity :: polarity
  ia_owner_id :: "string option"

text \<open>Truthiness of an optional string.\<close>
definition truthy :: "string option \<Rightarrow> bool" where
  "truthy s = (s \<noteq> None \<and> s \<noteq> Some '''')"

definition atomic_fact_text :: "ingest_activity \<Rightarrow> string" where
  "atomic_fact_text a =
     (if truthy (ia_subject a) \<and> truthy (ia_predicate a) \<and> truthy (ia_object a)
      then the (ia_subject a) @ '' '' @ the (ia_predicate a) @ '' '' @ the (ia_object a)
      else ia_text a)"

definition activity_basis :: "ingest_activity \<Rightarrow> string" where
  "activity_basis a = join_with unit_separator
     [ia_host a, ns_session (ia_namespace a), ia_session_offset a, ia_kind a]"

definition activity_id_for :: "(string \<Rightarrow> string) \<Rightarrow> ingest_activity \<Rightarrow> string" where
  "activity_id_for sha256 a = sha256 (activity_basis a)"

text \<open>The item minted for an activity at an instant under a fresh id.\<close>
definition minted_item :: "(string \<Rightarrow> string) \<Rightarrow> ingest_activity \<Rightarrow> int \<Rightarrow> string \<Rightarrow> memory_item" where
  "minted_item sha256 a now mid =
     (let ns = ia_namespace a;
          owner = (if truthy (ia_owner_id a) then the (ia_owner_id a) else ns_user ns);
          object_kind = (if ia_object a \<noteq> None \<and> ia_object_kind a = None then Some LITERAL
                         else ia_object_kind a)
      in post_init sha256 ((default_item now mid (ia_text a) ns owner (ns_workspace ns) (ns_session ns))
           \<lparr>mi_importance_score := ia_importance a, mi_source := ia_source a,
            mi_subject := ia_subject a, mi_predicate := ia_predicate a, mi_object := ia_object a,
            mi_object_kind := object_kind, mi_polarity := ia_polarity a\<rparr>))"

section \<open>Ports\<close>

record ('s, 'b) ingest_ports =
  ip_now :: "('s, int) eff"
  ip_new_id :: "('s, string) eff"
  ip_stm_put :: "memory_item \<Rightarrow> ('s, unit) eff"
  ip_stm_get :: "namespace \<Rightarrow> string \<Rightarrow> ('s, memory_item option) eff"
  ip_mtm_upsert :: "memory_item \<Rightarrow> ('s, unit) eff"
  ip_embed :: "string list \<Rightarrow> ('s, rat list list) eff"
  ip_model_name :: string
  ip_publish :: "domain_event \<Rightarrow> ('b, unit) eff"
  ip_sha256 :: "string \<Rightarrow> string"
  ip_importance_promote :: rat

definition build_memory_item ::
  "('s, 'b) ingest_ports \<Rightarrow> ingest_activity \<Rightarrow> (('s, 'b) world, memory_item) eff" where
  "build_memory_item p a =
     seq (on_stores (ip_now p)) (\<lambda>now. seq (on_stores (ip_new_id p)) (\<lambda>mid.
       ret (minted_item (ip_sha256 p) a now mid)))"

section \<open>Stages\<close>

type_synonym ctx = "ingest_activity pipeline_context"

definition activity_of :: "ctx \<Rightarrow> ingest_activity or_raise" where
  "activity_of c = (case dict_get (pc_state c) ''activity'' of
       Some (SvActivity a) \<Rightarrow> Inr a
     | _ \<Rightarrow> Inl StageExecutionError)"

definition write_stm_execute ::
  "('s, 'b) ingest_ports \<Rightarrow> ctx \<Rightarrow> (('s, 'b) world, ingest_activity stage_outcome) eff" where
  "write_stm_execute p c =
     seq (lift_result (activity_of c)) (\<lambda>a.
     seq (build_memory_item p a) (\<lambda>item.
     seq (on_stores (ip_stm_put p item)) (\<lambda>_.
       lift_result (mk_outcome OK
         [(''stm_item'', SvItem item), (''memory_ids'', SvIds [mi_id item]),
          (''content_hash'', SvStr (mi_content_hash item))]
         [MemoryCaptured (ia_namespace a) [mi_id item] STM] None
         (Some (activity_id_for (ip_sha256 p) a))))))"

definition write_stm_stage :: "('s, 'b) ingest_ports \<Rightarrow> (ingest_activity, 's, 'b) stage" where
  "write_stm_stage p = \<lparr>st_name = ''write_stm'',
     st_key = (\<lambda>c. seq (lift_result (activity_of c)) (\<lambda>a. ret (activity_id_for (ip_sha256 p) a))),
     st_execute = write_stm_execute p\<rparr>"

definition promotion_reason :: "rat \<Rightarrow> ingest_activity \<Rightarrow> string option" where
  "promotion_reason threshold a =
     (if ia_promote a then Some ''explicit''
      else if ia_importance a \<ge> threshold then Some ''importance'' else None)"

text \<open>ctx.state.get("content_hash") or the hash of a freshly built item\<close>
definition content_hash_or_build ::
  "('s, 'b) ingest_ports \<Rightarrow> ctx \<Rightarrow> ingest_activity \<Rightarrow> (('s, 'b) world, string) eff" where
  "content_hash_or_build p c a = (case dict_get (pc_state c) ''content_hash'' of
       Some (SvStr h) \<Rightarrow> if h \<noteq> '''' then ret h
                          else seq (build_memory_item p a) (\<lambda>i. ret (mi_content_hash i))
     | _ \<Rightarrow> seq (build_memory_item p a) (\<lambda>i. ret (mi_content_hash i)))"

definition promote_key :: "('s, 'b) ingest_ports \<Rightarrow> ctx \<Rightarrow> (('s, 'b) world, string) eff" where
  "promote_key p c =
     seq (lift_result (activity_of c)) (\<lambda>a.
       if promotion_reason (ip_importance_promote p) a = None then ret ''''
       else content_hash_or_build p c a)"

definition resolve_item ::
  "('s, 'b) ingest_ports \<Rightarrow> ctx \<Rightarrow> ingest_activity \<Rightarrow> (('s, 'b) world, memory_item) eff" where
  "resolve_item p c a = (case dict_get (pc_state c) ''stm_item'' of
       Some (SvItem item) \<Rightarrow> ret item
     | _ \<Rightarrow> (case dict_get (pc_state c) ''memory_ids'' of
           Some (SvIds (i # _)) \<Rightarrow>
             seq (on_stores (ip_stm_get p (ia_namespace a) i)) (\<lambda>recovered. case recovered of
               Some item \<Rightarrow> ret item
             | None \<Rightarrow> raise_exc StageExecutionError)
         | _ \<Rightarrow> raise_exc StageExecutionError))"

definition promoted_copy :: "memory_item \<Rightarrow> rat list \<Rightarrow> string \<Rightarrow> int \<Rightarrow> memory_item" where
  "promoted_copy item v model now = item\<lparr>mi_tier := MTM, mi_state := ACTIVE,
     mi_embedding := Some v, mi_embedding_model := Some model, mi_updated_at := now\<rparr>"

definition promote_execute ::
  "('s, 'b) ingest_ports \<Rightarrow> ctx \<Rightarrow> (('s, 'b) world, ingest_activity stage_outcome) eff" where
  "promote_execute p c =
     seq (lift_result (activity_of c)) (\<lambda>a. case promotion_reason (ip_importance_promote p) a of
       None \<Rightarrow> lift_result (mk_outcome OK [(''promoted'', SvBool False)] [] None None)
     | Some reason \<Rightarrow>
         seq (resolve_item p c a) (\<lambda>item.
         seq (on_stores (ip_embed p [atomic_fact_text a])) (\<lambda>vectors. case vectors of
           [] \<Rightarrow> raise_exc IndexError
         | v # _ \<Rightarrow>
             seq (on_stores (ip_now p)) (\<lambda>_. seq (on_stores (ip_now p)) (\<lambda>now.
             let promoted = promoted_copy item v (ip_model_name p) now in
             seq (on_stores (ip_mtm_upsert p promoted)) (\<lambda>_.
             seq (promote_key p c) (\<lambda>key.
               lift_result (mk_outcome OK
                 [(''promoted'', SvBool True), (''mtm_item'', SvItem promoted)]
                 [MemoryPromoted (ia_namespace a) (mi_id promoted) STM MTM reason] None
                 (Some key)))))))))"

definition promote_stage :: "('s, 'b) ingest_ports \<Rightarrow> (ingest_activity, 's, 'b) stage" where
  "promote_stage p = \<lparr>st_name = ''deterministic_promote'', st_key = promote_key p,
     st_execute = promote_execute p\<rparr>"

definition emit_key :: "ctx \<Rightarrow> string" where
  "emit_key c = ''ingest-completed:'' @ pc_correlation_id c"

definition emit_execute :: "ctx \<Rightarrow> (('s, 'b) world, ingest_activity stage_outcome) eff" where
  "emit_execute c =
     (let memory_ids = (case dict_get (pc_state c) ''memory_ids'' of Some (SvIds ids) \<Rightarrow> ids | _ \<Rightarrow> [])
      in lift_result (mk_outcome OK [] [IngestCompleted (pc_namespace c) memory_ids] None
           (Some (emit_key c))))"

definition emit_stage :: "(ingest_activity, 's, 'b) stage" where
  "emit_stage = \<lparr>st_name = ''emit_ingest_completed'', st_key = (\<lambda>c. ret (emit_key c)),
     st_execute = emit_execute\<rparr>"

section \<open>The service\<close>

record ingest_result =
  ir_memory_id :: string
  ir_content_hash :: string
  ir_promoted :: bool
  ir_tiers_written :: "string list"
  ir_events_emitted :: "string list"

text \<open>except Exception: any failure of the stage but a cancellation becomes a StageExecutionError.\<close>
definition wrap_stage_error :: "('w, 'a) eff \<Rightarrow> ('w, 'a) eff" where
  "wrap_stage_error m w = (case m w of
       (Inl e, w') \<Rightarrow> (Inl (if isinstance_of e PyException then StageExecutionError else e), w')
     | (Inr a, w') \<Rightarrow> (Inr a, w'))"

definition update_state :: "ctx \<Rightarrow> ingest_activity ctx_state \<Rightarrow> ctx" where
  "update_state c produced =
     c\<lparr>pc_state := fold (\<lambda>(k, v). dict_put k v) produced (pc_state c)\<rparr>"

definition run_stage ::
  "('s, 'b) ingest_ports \<Rightarrow> (ingest_activity, 's, 'b) stage \<Rightarrow> ctx
   \<Rightarrow> (('s, 'b) world, ctx \<times> domain_event list) eff" where
  "run_stage p st c =
     seq (wrap_stage_error (run_gated st c)) (\<lambda>outcome.
       if so_status outcome = FAILED then raise_exc StageExecutionError
       else seq (for_each (\<lambda>e. on_bus (ip_publish p e)) (so_events outcome)) (\<lambda>_.
         ret (update_state c (so_produced outcome), so_events outcome)))"

fun run_stages ::
  "('s, 'b) ingest_ports \<Rightarrow> (ingest_activity, 's, 'b) stage list \<Rightarrow> ctx \<Rightarrow> domain_event list
   \<Rightarrow> (('s, 'b) world, ctx \<times> domain_event list) eff" where
  "run_stages p [] c emitted = ret (c, emitted)"
| "run_stages p (st # sts) c emitted =
     seq (run_stage p st c) (\<lambda>(c', es). run_stages p sts c' (emitted @ es))"

definition captured_ids :: "domain_event list \<Rightarrow> string list" where
  "captured_ids es = concat (map (\<lambda>e. case e of MemoryCaptured _ ids _ \<Rightarrow> ids | _ \<Rightarrow> []) es)"

definition any_promoted :: "domain_event list \<Rightarrow> bool" where
  "any_promoted es = (\<exists>e\<in>set es. case e of MemoryPromoted _ _ _ _ _ \<Rightarrow> True | _ \<Rightarrow> False)"

definition initial_ctx :: "ingest_activity \<Rightarrow> string \<Rightarrow> ctx" where
  "initial_ctx a correlation_id = \<lparr>pc_namespace = ia_namespace a,
     pc_correlation_id = correlation_id, pc_state = [(''activity'', SvActivity a)]\<rparr>"

definition remember_inner ::
  "('s, 'b) ingest_ports \<Rightarrow> ingest_activity \<Rightarrow> string \<Rightarrow> (('s, 'b) world, ingest_result) eff" where
  "remember_inner p a correlation_id =
     seq (on_stores (ip_now p)) (\<lambda>_.
     seq (run_stages p [write_stm_stage p, promote_stage p, emit_stage]
            (initial_ctx a correlation_id) []) (\<lambda>(c, emitted). case captured_ids emitted of
         [] \<Rightarrow> raise_exc StageExecutionError
       | mid # _ \<Rightarrow>
           seq (content_hash_or_build p c a) (\<lambda>h. let promoted = any_promoted emitted in
             ret \<lparr>ir_memory_id = mid, ir_content_hash = h, ir_promoted = promoted,
                  ir_tiers_written = (if promoted then [''stm'', ''mtm''] else [''stm'']),
                  ir_events_emitted = map event_name emitted\<rparr>)))"

text \<open>The counters and the audit rows of the wrapped operation (content-free).\<close>
record ingest_obs =
  ob_errors :: nat
  ob_latencies :: nat
  ob_audit :: "(string \<times> string \<times> string \<times> nat) list"

definition remember ::
  "('s, 'b) ingest_ports \<Rightarrow> ingest_activity \<Rightarrow> ingest_obs \<Rightarrow> ('s, 'b) world
   \<Rightarrow> ingest_result or_raise \<times> ingest_obs \<times> ('s, 'b) world" where
  "remember p a obs w =
     (case remember_inner p a (activity_id_for (ip_sha256 p) a) w of
        (Inl e, w') \<Rightarrow>
          (Inl e, obs\<lparr>ob_errors := (if isinstance_of e CancelledError then ob_errors obs
                                    else Suc (ob_errors obs)),
                      ob_latencies := Suc (ob_latencies obs)\<rparr>, w')
      | (Inr r, w') \<Rightarrow>
          (Inr r, obs\<lparr>ob_latencies := Suc (ob_latencies obs),
                      ob_audit := ob_audit obs @ [(activity_id_for (ip_sha256 p) a,
                        last (ir_tiers_written r),
                        visibility_value (ns_visibility (ia_namespace a)),
                        length (ir_tiers_written r))]\<rparr>, w'))"

section \<open>Lemmas\<close>

text \<open>Reading the clock and drawing an id succeed and leave the stores alone; the bus accepts every
  event; a digest is not empty.\<close>
definition quiet_ports :: "('s, 'b) ingest_ports \<Rightarrow> bool" where
  "quiet_ports p = ((\<forall>s. \<exists>t. ip_now p s = (Inr t, s)) \<and> (\<forall>s. \<exists>i. ip_new_id p s = (Inr i, s))
     \<and> (\<forall>e b. \<exists>b'. ip_publish p e b = (Inr (), b')) \<and> (\<forall>x. ip_sha256 p x \<noteq> ''''))"

definition activity_hash :: "(string \<Rightarrow> string) \<Rightarrow> ingest_activity \<Rightarrow> string" where
  "activity_hash sha256 a = mi_content_hash (minted_item sha256 a 0 '''')"

lemma minted_hash: "mi_content_hash (minted_item sha256 a t i) = activity_hash sha256 a"
  by (simp add: activity_hash_def minted_item_def post_init_def compute_content_hash_def hash_basis_def
      default_item_def Let_def)

lemma activity_hash_eq: "activity_hash sha256 a = sha256 (hash_basis (minted_item sha256 a 0 ''''))"
  by (simp add: activity_hash_def minted_item_def post_init_def compute_content_hash_def hash_basis_def
      default_item_def Let_def)

lemma minted_simps [simp]:
  "mi_id (minted_item sha256 a t i) = i" "mi_namespace (minted_item sha256 a t i) = ia_namespace a"
  "mi_content (minted_item sha256 a t i) = ia_text a" "mi_tier (minted_item sha256 a t i) = STM"
  "mi_state (minted_item sha256 a t i) = ACTIVE" "mi_created_at (minted_item sha256 a t i) = t"
  by (simp_all add: minted_item_def Let_def default_item_def)

lemma build_quiet:
  assumes "quiet_ports p"
  shows "\<exists>t i. build_memory_item p a w = (Inr (minted_item (ip_sha256 p) a t i), w)"
proof -
  obtain t where t: "ip_now p (w_stores w) = (Inr t, w_stores w)"
    using assms unfolding quiet_ports_def by blast
  obtain i where i: "ip_new_id p (w_stores w) = (Inr i, w_stores w)"
    using assms unfolding quiet_ports_def by blast
  show ?thesis
    by (intro exI [of _ t] exI [of _ i]) (simp add: build_memory_item_def seq_def on_stores_def t i)
qed

lemma publish_quiet:
  assumes "quiet_ports p"
  shows "\<exists>b. for_each (\<lambda>e. on_bus (ip_publish p e)) es w = (Inr (), w\<lparr>w_bus := b\<rparr>)"
proof (induction es arbitrary: w)
  case Nil
  show ?case by (intro exI [of _ "w_bus w"]) simp
next
  case (Cons e es)
  obtain b' where "ip_publish p e (w_bus w) = (Inr (), b')"
    using assms unfolding quiet_ports_def by blast
  then have "on_bus (ip_publish p e) w = (Inr (), w\<lparr>w_bus := b'\<rparr>)"
    by (simp add: on_bus_def)
  then show ?case
    using Cons [of "w\<lparr>w_bus := b'\<rparr>"] by (simp add: seq_Inr)
qed

text \<open>The hash a context yields: the one the first stage left, or the one rebuilt.\<close>
definition hash_ctx :: "('s, 'b) ingest_ports \<Rightarrow> ctx \<Rightarrow> ingest_activity \<Rightarrow> bool" where
  "hash_ctx p c a = (dict_get (pc_state c) ''activity'' = Some (SvActivity a)
     \<and> (dict_get (pc_state c) ''content_hash'' = None
        \<or> dict_get (pc_state c) ''content_hash'' = Some (SvStr (activity_hash (ip_sha256 p) a))))"

lemma content_hash_quiet:
  assumes "quiet_ports p" "hash_ctx p c a"
  shows "content_hash_or_build p c a w = (Inr (activity_hash (ip_sha256 p) a), w)"
proof -
  obtain t i where b: "build_memory_item p a w = (Inr (minted_item (ip_sha256 p) a t i), w)"
    using build_quiet [OF assms(1)] by blast
  have "seq (build_memory_item p a) (\<lambda>i. ret (mi_content_hash i)) w
      = (Inr (activity_hash (ip_sha256 p) a), w)"
    by (simp add: seq_def b minted_hash)
  then show ?thesis
    using assms(2) by (auto simp: content_hash_or_build_def hash_ctx_def)
qed

definition promote_key_value :: "('s, 'b) ingest_ports \<Rightarrow> ingest_activity \<Rightarrow> string" where
  "promote_key_value p a = (if promotion_reason (ip_importance_promote p) a = None then ''''
     else activity_hash (ip_sha256 p) a)"

lemma promote_key_quiet:
  assumes "quiet_ports p" "hash_ctx p c a"
  shows "promote_key p c w = (Inr (promote_key_value p a), w)"
  using assms(2) content_hash_quiet [OF assms]
  by (simp add: promote_key_def seq_def lift_result_def activity_of_def hash_ctx_def promote_key_value_def)

lemma promote_key_value_Nil:
  "quiet_ports p \<Longrightarrow> promote_key_value p a = '''' \<longleftrightarrow> promotion_reason (ip_importance_promote p) a = None"
  by (simp add: promote_key_value_def quiet_ports_def activity_hash_eq)

text \<open>A body that never touches the ledger and succeeds only with OK.\<close>
definition ok_body :: "('a, 's, 'b) stage \<Rightarrow> bool" where
  "ok_body st = (\<forall>c w. w_ledger (snd (st_execute st c w)) = w_ledger w
     \<and> (\<forall>o' w'. st_execute st c w = (Inr o', w') \<longrightarrow> so_status o' = OK))"

definition key_is :: "('a, 's, 'b) stage \<Rightarrow> 'a pipeline_context \<Rightarrow> string \<Rightarrow> bool" where
  "key_is st c k = (\<forall>w. st_key st c w = (Inr k, w))"

lemma publish_ledger: "w_ledger (snd (for_each (\<lambda>e. on_bus (pub e)) es w)) = w_ledger w
    \<and> w_stores (snd (for_each (\<lambda>e. on_bus (pub e)) es w)) = w_stores w"
proof (induction es arbitrary: w)
  case (Cons e es)
  obtain r b where "pub e (w_bus w) = (r, b)" by (cases "pub e (w_bus w)")
  then have "on_bus (pub e) w = (r, w\<lparr>w_bus := b\<rparr>)" by (simp add: on_bus_def)
  then show ?case
    using Cons [of "w\<lparr>w_bus := b\<rparr>"] by (cases r) (simp_all add: seq_def)
qed simp

lemma run_gated_mark:
  assumes "key_is st c k" "ok_body st" "run_gated st c w = (Inr o', w')"
  shows "so_status o' \<in> {OK, SKIPPED} \<and> mem_ledger.extends (w_ledger w) (w_ledger w')
    \<and> (k \<noteq> '''' \<longrightarrow> completed_with_events k (w_ledger w') = Some (so_events o'))
    \<and> (so_status o' = SKIPPED \<longrightarrow> so_produced o' = [])
    \<and> (so_status o' = OK \<longrightarrow> (\<exists>v. st_execute st c w = (Inr o', v)))"
proof -
  have ex: "so_status o' = OK \<and> mem_ledger.extends (w_ledger w) (w_ledger w')
      \<and> (k \<noteq> '''' \<and> completed_with_events k (w_ledger w) = None \<longrightarrow>
           completed_with_events k (w_ledger w') = Some (so_events o'))
      \<and> (\<exists>v. st_execute st c w = (Inr o', v))"
    if e: "execute_and_mark st k c w = (Inr o', w')"
  proof -
    obtain x v where x: "st_execute st c w = (Inr x, v)"
      using e by (auto simp: execute_and_mark_def seq_Inr_iff)
    then have "so_status x = OK" "w_ledger v = w_ledger w"
      using assms(2) unfolding ok_body_def by (blast, metis snd_conv)
    then show ?thesis
      using e x mem_ledger.mark_fresh
      by (auto simp: execute_and_mark_def seq_def mark_key_def mem_ledger.extends_refl
          mem_ledger.extends_mark split: if_splits)
  qed
  show ?thesis
  proof (cases "k = ''''")
    case True
    then have "execute_and_mark st k c w = (Inr o', w')"
      using assms(1,3) by (simp add: run_gated_def seq_def key_is_def)
    then show ?thesis using ex True by auto
  next
    case False
    show ?thesis
    proof (cases "completed_with_events k (w_ledger w)")
      case None
      then have "execute_and_mark st k c w = (Inr o', w')"
        using assms(1,3) False by (simp add: run_gated_def seq_def key_is_def lookup_key_def)
      then show ?thesis using ex None False by auto
    next
      case (Some es)
      then show ?thesis
        using assms(1,3) False
        by (auto simp: run_gated_def seq_def key_is_def lookup_key_def lift_result_def mk_outcome_def
            mem_ledger.extends_refl)
    qed
  qed
qed

text \<open>A successful stage, in any run: its key is in the ledger with what it emitted.\<close>
lemma run_stage_mark:
  assumes "key_is st c k" "ok_body st" "run_stage p st c w = (Inr (c', es), w')"
  shows "mem_ledger.extends (w_ledger w) (w_ledger w')
    \<and> (k \<noteq> '''' \<longrightarrow> completed_with_events k (w_ledger w') = Some es)
    \<and> (c' = c \<or> (\<exists>o' v. st_execute st c w = (Inr o', v) \<and> c' = update_state c (so_produced o')
                   \<and> es = so_events o'))"
proof -
  obtain o' v where g: "run_gated st c w = (Inr o', v)"
    and pub: "for_each (\<lambda>e. on_bus (ip_publish p e)) (so_events o') v = (Inr (), w')"
    and c': "c' = update_state c (so_produced o')" "es = so_events o'"
    using assms(3)
    by (auto simp: run_stage_def seq_def wrap_stage_error_def split: prod.splits sum.splits if_splits)
  have "w_ledger w' = w_ledger v"
    using publish_ledger [of "ip_publish p" "so_events o'" v] pub by simp
  then show ?thesis
    using run_gated_mark [OF assms(1,2) g] c' by (auto simp: update_state_def)
qed

text \<open>A replayed stage: nothing but its recorded events on the bus.\<close>
lemma run_stage_replay:
  assumes "quiet_ports p" "key_is st c k" "k \<noteq> ''''"
    "completed_with_events k (w_ledger w) = Some es"
  shows "\<exists>b. run_stage p st c w = (Inr (c, es), w\<lparr>w_bus := b\<rparr>)"
proof -
  obtain b where b: "for_each (\<lambda>e. on_bus (ip_publish p e)) es w = (Inr (), w\<lparr>w_bus := b\<rparr>)"
    using publish_quiet [OF assms(1)] by blast
  have "run_gated st c w = (Inr \<lparr>so_status = SKIPPED, so_produced = [], so_events = es,
      so_reason = Some ''ledger-hit'', so_key = Some k\<rparr>, w)"
    using assms(2-4) by (simp add: run_gated_def seq_def key_is_def lookup_key_def lift_result_def
        mk_outcome_def)
  then show ?thesis
    by (intro exI [of _ b]) (simp add: run_stage_def seq_def wrap_stage_error_def b update_state_def)
qed

definition keeps_ledger :: "(('s, 'b) world, 'a) eff \<Rightarrow> bool" where
  "keeps_ledger m = (\<forall>w. w_ledger (snd (m w)) = w_ledger w)"

text \<open>Every outcome a computation returns has a property.\<close>
definition returns_only :: "('a \<Rightarrow> bool) \<Rightarrow> ('w, 'a) eff \<Rightarrow> bool" where
  "returns_only P m = (\<forall>w a w'. m w = (Inr a, w') \<longrightarrow> P a)"

abbreviation ok_result :: "('w, 'a stage_outcome) eff \<Rightarrow> bool" where
  "ok_result \<equiv> returns_only (\<lambda>o'. so_status o' = OK)"

lemma keeps_ledger_intros [inv_intros]:
  "keeps_ledger (ret a)" "keeps_ledger (raise_exc e)" "keeps_ledger (lift_result r)"
  "keeps_ledger (on_stores f)"
  "\<lbrakk> keeps_ledger m; \<And>a. keeps_ledger (g a) \<rbrakk> \<Longrightarrow> keeps_ledger (seq m g)"
proof -
  show "keeps_ledger (seq m g)" if "keeps_ledger m" "\<And>a. keeps_ledger (g a)"
    using that by (auto simp: keeps_ledger_def seq_def split: prod.splits sum.splits) (metis snd_conv)+
qed (auto simp: keeps_ledger_def on_stores_def lift_result_def split: prod.splits)

lemma returns_only_intros [inv_intros]:
  "returns_only P (raise_exc e)"
  "(\<And>a. r = Inr a \<Longrightarrow> P a) \<Longrightarrow> returns_only P (lift_result r)"
  "\<lbrakk> \<And>a. returns_only P (g a) \<rbrakk> \<Longrightarrow> returns_only P (seq m g)"
  by (auto simp: returns_only_def lift_result_def seq_Inr_iff)

lemma mk_outcome_OK: "mk_outcome OK pr es re k =
    Inr \<lparr>so_status = OK, so_produced = pr, so_events = es, so_reason = re, so_key = k\<rparr>"
  by (simp add: mk_outcome_def)

lemma ok_bodyI: "(\<And>c. keeps_ledger (st_execute st c)) \<Longrightarrow> (\<And>c. ok_result (st_execute st c)) \<Longrightarrow> ok_body st"
  by (auto simp: ok_body_def keeps_ledger_def returns_only_def)

lemma keeps_build: "keeps_ledger (build_memory_item p a)"
  unfolding build_memory_item_def by (intro keeps_ledger_intros)

lemma keeps_promote_key: "keeps_ledger (promote_key p c)"
  unfolding promote_key_def content_hash_or_build_def
  by (auto intro!: keeps_ledger_intros keeps_build split: option.split state_value.split)

lemma write_stm_ok_body: "ok_body (write_stm_stage p)"
  by (rule ok_bodyI)
    (auto simp: write_stm_stage_def write_stm_execute_def mk_outcome_OK
      intro!: keeps_ledger_intros keeps_build returns_only_intros)

lemma promote_ok_body: "ok_body (promote_stage p)"
proof (rule ok_bodyI)
  show "keeps_ledger (st_execute (promote_stage p) c)" for c
    by (auto simp: promote_stage_def promote_execute_def resolve_item_def Let_def
        intro!: keeps_ledger_intros keeps_promote_key
        split: option.split list.split state_value.split)
  show "ok_result (st_execute (promote_stage p) c)" for c
    by (auto simp: promote_stage_def promote_execute_def Let_def mk_outcome_OK
        intro!: returns_only_intros split: option.split list.split)
qed

lemma emit_ok_body: "ok_body emit_stage"
  by (rule ok_bodyI)
    (auto simp: emit_stage_def emit_execute_def Let_def mk_outcome_OK
      intro!: keeps_ledger_intros returns_only_intros)

lemma write_stm_key: "dict_get (pc_state c) ''activity'' = Some (SvActivity a) \<Longrightarrow>
    key_is (write_stm_stage p) c (activity_id_for (ip_sha256 p) a)"
  by (simp add: key_is_def write_stm_stage_def seq_def lift_result_def activity_of_def)

lemma promote_key_is: "quiet_ports p \<Longrightarrow> hash_ctx p c a \<Longrightarrow>
    key_is (promote_stage p) c (promote_key_value p a)"
  by (simp add: key_is_def promote_stage_def promote_key_quiet)

lemma emit_key_is: "key_is emit_stage c (emit_key c)"
  by (simp add: key_is_def emit_stage_def)

lemma initial_hash_ctx: "hash_ctx p (initial_ctx a cid) a"
  by (simp add: hash_ctx_def initial_ctx_def)

text \<open>What the first stage leaves in the context when it ran, with what it did to the stores.\<close>
lemma write_stm_executes:
  assumes "quiet_ports p" "dict_get (pc_state c) ''activity'' = Some (SvActivity a)"
    "st_execute (write_stm_stage p) c w = (Inr o', v)"
  shows "\<exists>t i s'. ip_stm_put p (minted_item (ip_sha256 p) a t i) (w_stores w) = (Inr (), s')
    \<and> v = w\<lparr>w_stores := s'\<rparr> \<and> so_events o' = [MemoryCaptured (ia_namespace a) [i] STM]
    \<and> so_produced o' = [(''stm_item'', SvItem (minted_item (ip_sha256 p) a t i)),
         (''memory_ids'', SvIds [i]), (''content_hash'', SvStr (activity_hash (ip_sha256 p) a))]"
proof -
  obtain t i where b: "build_memory_item p a w = (Inr (minted_item (ip_sha256 p) a t i), w)"
    using build_quiet [OF assms(1)] by blast
  show ?thesis
    using assms(2,3)
    by (intro exI [of _ t] exI [of _ i])
      (auto simp: write_stm_stage_def write_stm_execute_def seq_def lift_result_def activity_of_def b
        on_stores_def mk_outcome_def minted_hash split: prod.splits sum.splits)
qed

lemma promote_produced:
  assumes "st_execute (promote_stage p) c w = (Inr o', v)"
  shows "fst ` set (so_produced o') \<subseteq> {''promoted'', ''mtm_item''}"
proof -
  have "returns_only (\<lambda>o'. fst ` set (so_produced o') \<subseteq> {''promoted'', ''mtm_item''})
      (st_execute (promote_stage p) c)"
    by (auto simp: promote_stage_def promote_execute_def Let_def mk_outcome_OK
        intro!: returns_only_intros split: option.split list.split)
  then show ?thesis
    using assms unfolding returns_only_def by blast
qed

lemma dict_put_all_other:
  "k \<notin> fst ` set kvs \<Longrightarrow> dict_get (fold (\<lambda>(k, v). dict_put k v) kvs d) k = dict_get d k"
  by (induction kvs arbitrary: d) auto

lemma hash_ctx_update:
  assumes "hash_ctx p c a" "fst ` set pr \<subseteq> {''promoted'', ''mtm_item''}"
  shows "hash_ctx p (update_state c pr) a \<and> pc_correlation_id (update_state c pr) = pc_correlation_id c"
proof -
  have "''activity'' \<notin> fst ` set pr" "''content_hash'' \<notin> fst ` set pr"
    using assms(2) by auto
  then show ?thesis
    using assms(1) by (simp add: hash_ctx_def update_state_def dict_put_all_other)
qed

text \<open>A successful call, taken apart: the three stages and their events.\<close>
lemma remember_inner_Inr:
  assumes "quiet_ports p" "remember_inner p a cid w = (Inr r, w')"
  obtains c1 e1 w1 c2 e2 w2 c3 e3 where
    "run_stage p (write_stm_stage p) (initial_ctx a cid) w = (Inr (c1, e1), w1)"
    "run_stage p (promote_stage p) c1 w1 = (Inr (c2, e2), w2)"
    "run_stage p emit_stage c2 w2 = (Inr (c3, e3), w')"
    "hash_ctx p c1 a" "hash_ctx p c2 a" "hash_ctx p c3 a" "pc_correlation_id c2 = cid"
    "captured_ids (e1 @ e2 @ e3) \<noteq> []"
    "r = \<lparr>ir_memory_id = hd (captured_ids (e1 @ e2 @ e3)),
          ir_content_hash = activity_hash (ip_sha256 p) a, ir_promoted = any_promoted (e1 @ e2 @ e3),
          ir_tiers_written = (if any_promoted (e1 @ e2 @ e3) then [''stm'', ''mtm''] else [''stm'']),
          ir_events_emitted = map event_name (e1 @ e2 @ e3)\<rparr>"
proof -
  obtain t where t: "ip_now p (w_stores w) = (Inr t, w_stores w)"
    using assms(1) unfolding quiet_ports_def by blast
  have now: "on_stores (ip_now p) w = (Inr t, w)" by (simp add: on_stores_def t)
  obtain c1 e1 w1 c2 e2 w2 c3 e3 w3 where
    s1: "run_stage p (write_stm_stage p) (initial_ctx a cid) w = (Inr (c1, e1), w1)" and
    s2: "run_stage p (promote_stage p) c1 w1 = (Inr (c2, e2), w2)" and
    s3: "run_stage p emit_stage c2 w2 = (Inr (c3, e3), w3)" and
    fin: "(case captured_ids (e1 @ e2 @ e3) of [] \<Rightarrow> raise_exc StageExecutionError
       | mid # _ \<Rightarrow> seq (content_hash_or_build p c3 a) (\<lambda>h. let promoted = any_promoted (e1 @ e2 @ e3) in
             ret \<lparr>ir_memory_id = mid, ir_content_hash = h, ir_promoted = promoted,
                  ir_tiers_written = (if promoted then [''stm'', ''mtm''] else [''stm'']),
                  ir_events_emitted = map event_name (e1 @ e2 @ e3)\<rparr>)) w3 = (Inr r, w')"
    using assms(2) by (auto simp: remember_inner_def seq_Inr_iff now split: prod.splits)
  have h1: "hash_ctx p c1 a \<and> pc_correlation_id c1 = cid"
  proof -
    have "c1 = initial_ctx a cid \<or> (\<exists>o' v. st_execute (write_stm_stage p) (initial_ctx a cid) w = (Inr o', v)
        \<and> c1 = update_state (initial_ctx a cid) (so_produced o'))"
      using run_stage_mark [OF write_stm_key write_stm_ok_body s1] by (auto simp: initial_ctx_def)
    then show ?thesis
    proof (elim disjE exE conjE)
      fix o' v assume "st_execute (write_stm_stage p) (initial_ctx a cid) w = (Inr o', v)"
        "c1 = update_state (initial_ctx a cid) (so_produced o')"
      then show ?thesis
        using write_stm_executes [OF assms(1), of "initial_ctx a cid" a w o' v]
        by (auto simp: initial_ctx_def update_state_def hash_ctx_def)
    qed (use initial_hash_ctx in \<open>simp add: initial_ctx_def\<close>)
  qed
  have h2: "hash_ctx p c2 a \<and> pc_correlation_id c2 = cid"
    using run_stage_mark [OF promote_key_is promote_ok_body s2, OF assms(1) conjunct1 [OF h1]]
      promote_produced hash_ctx_update [OF conjunct1 [OF h1]] h1 by metis
  have h3: "hash_ctx p c3 a"
  proof -
    have "c3 = c2" using run_stage_mark [OF emit_key_is emit_ok_body s3]
      by (auto simp: emit_stage_def emit_execute_def lift_result_def mk_outcome_def update_state_def)
    then show ?thesis using h2 by simp
  qed
  have ne: "captured_ids (e1 @ e2 @ e3) \<noteq> []"
    using fin by (auto split: list.splits)
  have q: "content_hash_or_build p c3 a w3 = (Inr (activity_hash (ip_sha256 p) a), w3)"
    by (rule content_hash_quiet [OF assms(1) h3])
  have "w' = w3 \<and> r = \<lparr>ir_memory_id = hd (captured_ids (e1 @ e2 @ e3)),
          ir_content_hash = activity_hash (ip_sha256 p) a, ir_promoted = any_promoted (e1 @ e2 @ e3),
          ir_tiers_written = (if any_promoted (e1 @ e2 @ e3) then [''stm'', ''mtm''] else [''stm'']),
          ir_events_emitted = map event_name (e1 @ e2 @ e3)\<rparr>"
    using fin ne by (cases "captured_ids (e1 @ e2 @ e3)") (simp_all add: seq_def q Let_def)
  then show thesis
    using that [OF s1 s2 _ conjunct1 [OF h1] conjunct1 [OF h2] h3 conjunct2 [OF h2] ne] s3 by blast
qed

text \<open>The no-promotion case of the second stage.\<close>
lemma promote_skipped:
  assumes "quiet_ports p" "hash_ctx p c a" "promotion_reason (ip_importance_promote p) a = None"
  shows "run_stage p (promote_stage p) c w = (Inr (update_state c [(''promoted'', SvBool False)], []), w)"
proof -
  have "st_execute (promote_stage p) c w = (Inr \<lparr>so_status = OK, so_produced = [(''promoted'', SvBool False)],
      so_events = [], so_reason = None, so_key = None\<rparr>, w)"
    using assms(2,3) by (simp add: promote_stage_def promote_execute_def seq_def lift_result_def
        activity_of_def hash_ctx_def mk_outcome_def)
  moreover have "promote_key p c w = (Inr '''', w)"
    using promote_key_quiet [OF assms(1,2)] assms(3) by (simp add: promote_key_value_def)
  ultimately show ?thesis
    by (simp add: run_stage_def run_gated_def execute_and_mark_def seq_def wrap_stage_error_def
        promote_stage_def)
qed

text \<open>The second stage in any later world: it emits what it emitted before, and only publishes.\<close>
lemma promote_again:
  assumes "quiet_ports p" "hash_ctx p c1 a" "hash_ctx p c a"
    "run_stage p (promote_stage p) c1 w1 = (Inr (c2, e2), w2)"
    "mem_ledger.extends (w_ledger w2) (w_ledger w)"
  shows "\<exists>c' b. run_stage p (promote_stage p) c w = (Inr (c', e2), w\<lparr>w_bus := b\<rparr>)
    \<and> hash_ctx p c' a \<and> pc_correlation_id c' = pc_correlation_id c"
proof (cases "promotion_reason (ip_importance_promote p) a = None")
  case True
  have "e2 = []" using promote_skipped [OF assms(1,2) True] assms(4) by simp
  moreover have "hash_ctx p (update_state c [(''promoted'', SvBool False)]) a
      \<and> pc_correlation_id (update_state c [(''promoted'', SvBool False)]) = pc_correlation_id c"
    using hash_ctx_update [OF assms(3), of "[(''promoted'', SvBool False)]"] by simp
  ultimately show ?thesis
    using promote_skipped [OF assms(1,3) True, of w]
    by (intro exI [of _ "update_state c [(''promoted'', SvBool False)]"] exI [of _ "w_bus w"]) simp
next
  case False
  let ?k = "promote_key_value p a"
  have k: "?k \<noteq> ''''" using promote_key_value_Nil [OF assms(1)] False by simp
  have "completed_with_events ?k (w_ledger w2) = Some e2"
    using run_stage_mark [OF promote_key_is [OF assms(1,2)] promote_ok_body assms(4)] k by simp
  then have "completed_with_events ?k (w_ledger w) = Some e2"
    using assms(5) by (simp add: mem_ledger.extends_def)
  then show ?thesis
    using run_stage_replay [OF assms(1) promote_key_is [OF assms(1,3)] k] assms(3) by blast
qed

lemma remember_again:
  assumes q: "quiet_ports p"
    and first: "remember_inner p a (activity_id_for (ip_sha256 p) a) w = (Inr r, w1)"
    and ext: "mem_ledger.extends (w_ledger w1) (w_ledger w2)"
    and same: "activity_id_for (ip_sha256 p) a' = activity_id_for (ip_sha256 p) a"
      "promotion_reason (ip_importance_promote p) a' = None \<and>
       promotion_reason (ip_importance_promote p) a = None \<or> a' = a"
  shows "\<exists>b. remember_inner p a' (activity_id_for (ip_sha256 p) a') w2 =
      (Inr (r\<lparr>ir_content_hash := activity_hash (ip_sha256 p) a'\<rparr>), w2\<lparr>w_bus := b\<rparr>)"
proof -
  let ?cid = "activity_id_for (ip_sha256 p) a"
  let ?c = "initial_ctx a' ?cid"
  obtain c1 e1 wa c2 e2 wb c3 e3 where
    s1: "run_stage p (write_stm_stage p) (initial_ctx a ?cid) w = (Inr (c1, e1), wa)" and
    s2: "run_stage p (promote_stage p) c1 wa = (Inr (c2, e2), wb)" and
    s3: "run_stage p emit_stage c2 wb = (Inr (c3, e3), w1)" and
    h: "hash_ctx p c1 a" "hash_ctx p c2 a" "pc_correlation_id c2 = ?cid" and
    ne: "captured_ids (e1 @ e2 @ e3) \<noteq> []" and
    r: "r = \<lparr>ir_memory_id = hd (captured_ids (e1 @ e2 @ e3)),
          ir_content_hash = activity_hash (ip_sha256 p) a, ir_promoted = any_promoted (e1 @ e2 @ e3),
          ir_tiers_written = (if any_promoted (e1 @ e2 @ e3) then [''stm'', ''mtm''] else [''stm'']),
          ir_events_emitted = map event_name (e1 @ e2 @ e3)\<rparr>"
    using remember_inner_Inr [OF q first] by metis
  have k1: "?cid \<noteq> ''''" using q by (simp add: quiet_ports_def activity_id_for_def)
  have m1: "completed_with_events ?cid (w_ledger wa) = Some e1"
    using run_stage_mark [OF write_stm_key write_stm_ok_body s1] k1 by (simp add: initial_ctx_def)
  have x2: "mem_ledger.extends (w_ledger wa) (w_ledger wb)"
    using run_stage_mark [OF promote_key_is [OF q h(1)] promote_ok_body s2] by blast
  have x3: "mem_ledger.extends (w_ledger wb) (w_ledger w1)"
    and m3: "completed_with_events (emit_key c2) (w_ledger w1) = Some e3"
    using run_stage_mark [OF emit_key_is emit_ok_body s3] by (auto simp: emit_key_def)
  have L1: "completed_with_events ?cid (w_ledger w2) = Some e1"
    using m1 x2 x3 ext by (simp add: mem_ledger.extends_def)
  obtain b1 where r1: "run_stage p (write_stm_stage p) ?c w2 = (Inr (?c, e1), w2\<lparr>w_bus := b1\<rparr>)"
    using run_stage_replay [OF q write_stm_key [of ?c a'] _ L1 [folded same(1)]] k1 same(1)
    by (auto simp: initial_ctx_def)
  obtain c' b2 where r2: "run_stage p (promote_stage p) ?c (w2\<lparr>w_bus := b1\<rparr>) = (Inr (c', e2), w2\<lparr>w_bus := b2\<rparr>)"
    and c': "hash_ctx p c' a'" "pc_correlation_id c' = ?cid"
  proof (cases "a' = a")
    case True
    then show ?thesis
      using that promote_again [OF q h(1) initial_hash_ctx s2, of "w2\<lparr>w_bus := b1\<rparr>" ?cid]
        x3 ext mem_ledger.extends_trans by (fastforce simp: initial_ctx_def)
  next
    case False
    then have n: "promotion_reason (ip_importance_promote p) a' = None"
      "promotion_reason (ip_importance_promote p) a = None" using same(2) by auto
    have "e2 = []" using promote_skipped [OF q h(1) n(2)] s2 by simp
    let ?c'' = "update_state ?c [(''promoted'', SvBool False)]"
    have u: "hash_ctx p ?c'' a' \<and> pc_correlation_id ?c'' = ?cid"
      using hash_ctx_update [OF initial_hash_ctx, of "[(''promoted'', SvBool False)]" p a' ?cid]
      by (simp add: initial_ctx_def)
    show ?thesis
    proof (rule that)
      show "run_stage p (promote_stage p) ?c (w2\<lparr>w_bus := b1\<rparr>) = (Inr (?c'', e2), w2\<lparr>w_bus := b1\<rparr>)"
        using promote_skipped [OF q initial_hash_ctx n(1)] \<open>e2 = []\<close> by simp
    qed (use u in auto)
  qed
  have L3: "completed_with_events (emit_key c') (w_ledger w2) = Some e3"
    using m3 ext h(3) c'(2) by (simp add: mem_ledger.extends_def emit_key_def)
  obtain b3 where r3: "run_stage p emit_stage c' (w2\<lparr>w_bus := b2\<rparr>) = (Inr (c', e3), w2\<lparr>w_bus := b3\<rparr>)"
    using run_stage_replay [OF q emit_key_is [of c'], of "w2\<lparr>w_bus := b2\<rparr>" e3] L3
    by (auto simp: emit_key_def)
  obtain t where t: "ip_now p (w_stores w2) = (Inr t, w_stores w2)"
    using q unfolding quiet_ports_def by blast
  have now: "on_stores (ip_now p) w2 = (Inr t, w2)" by (simp add: on_stores_def t)
  have q3: "content_hash_or_build p c' a' (w2\<lparr>w_bus := b3\<rparr>)
      = (Inr (activity_hash (ip_sha256 p) a'), w2\<lparr>w_bus := b3\<rparr>)"
    by (rule content_hash_quiet [OF q c'(1)])
  show ?thesis
    using ne same(1)
    by (intro exI [of _ b3], cases "captured_ids (e1 @ e2 @ e3)")
      (simp_all add: remember_inner_def seq_def now r1 r2 r3 q3 Let_def r)
qed

section \<open>A concrete instance\<close>

text \<open>Stores as two item lists and a tick; the digest prefixes its input, so it is injective.\<close>
type_synonym demo_stores = "int \<times> memory_item list \<times> memory_item list"

definition demo_ports :: "(demo_stores, domain_event list) ingest_ports" where
  "demo_ports = \<lparr>
     ip_now = (\<lambda>s. (Inr (fst s), s)),
     ip_new_id = (\<lambda>s. (Inr (''m'' @ replicate (length (fst (snd s))) (CHR ''i'')), s)),
     ip_stm_put = (\<lambda>m (t, stm, mtm). (Inr (), (t, m # stm, mtm))),
     ip_stm_get = (\<lambda>ns i (t, stm, mtm).
        (Inr (find (\<lambda>m. mi_id m = i \<and> mi_namespace m = ns) stm), (t, stm, mtm))),
     ip_mtm_upsert = (\<lambda>m (t, stm, mtm). (Inr (), (t, stm, m # mtm))),
     ip_embed = (\<lambda>ts s. (Inr (map (\<lambda>_. [1]) ts), s)),
     ip_model_name = ''model'',
     ip_publish = (\<lambda>e b. (Inr (), b @ [e])),
     ip_sha256 = (\<lambda>x. ''#'' @ x),
     ip_importance_promote = 3 / 5\<rparr>"

definition demo_activity :: "string \<Rightarrow> string \<Rightarrow> bool \<Rightarrow> ingest_activity" where
  "demo_activity user offset promote = \<lparr>ia_namespace = \<lparr>ns_org = ''o'', ns_workspace = ''w'',
     ns_user = user, ns_session = ''s'', ns_visibility = PRIVATE\<rparr>, ia_host = ''h'',
     ia_session_offset = offset, ia_kind = ''user_message'', ia_text = ''hi'',
     ia_importance = 1 / 2, ia_promote = promote, ia_source = Src_USER, ia_subject = None,
     ia_predicate = None, ia_object = None, ia_object_kind = None, ia_polarity = POSITIVE,
     ia_owner_id = None\<rparr>"

definition demo_world :: "(demo_stores, domain_event list) world" where
  "demo_world = \<lparr>w_ledger = [], w_stores = (7, [], []), w_bus = []\<rparr>"

definition run_demo :: "ingest_activity \<Rightarrow> (demo_stores, domain_event list) world
    \<Rightarrow> ingest_result or_raise \<times> (demo_stores, domain_event list) world" where
  "run_demo a w = remember_inner demo_ports a (activity_id_for (ip_sha256 demo_ports) a) w"

lemma demo_quiet: "quiet_ports demo_ports"
  by (simp add: quiet_ports_def demo_ports_def)

lemma run_demo_Inr: "isl (fst (run_demo (demo_activity ''u'' ''1'' True) demo_world)) = False"
  by code_simp

section \<open>Properties\<close>

text \<open>
  C4. Exactly-once ingest: once an activity has been ingested, ingesting it again in any later world
  (whatever else was ingested in between, as long as the ledger still holds what it held) returns
  the identical receipt and changes neither the ledger nor any store; only the recorded events are
  published again.
\<close>
theorem ingest_replay_is_idempotent:
  assumes "quiet_ports p"
    and "remember_inner p a (activity_id_for (ip_sha256 p) a) w = (Inr r, w1)"
    and "\<And>k es. completed_with_events k (w_ledger w1) = Some es \<Longrightarrow>
           completed_with_events k (w_ledger w2) = Some es"
  shows "\<exists>b. remember_inner p a (activity_id_for (ip_sha256 p) a) w2 = (Inr r, w2\<lparr>w_bus := b\<rparr>)"
proof -
  have "mem_ledger.extends (w_ledger w1) (w_ledger w2)"
    using assms(3) by (simp add: mem_ledger.extends_def)
  then obtain b where "remember_inner p a (activity_id_for (ip_sha256 p) a) w2 =
      (Inr (r\<lparr>ir_content_hash := activity_hash (ip_sha256 p) a\<rparr>), w2\<lparr>w_bus := b\<rparr>)"
    using remember_again [OF assms(1,2)] by blast
  moreover have "r\<lparr>ir_content_hash := activity_hash (ip_sha256 p) a\<rparr> = r"
    using remember_inner_Inr [OF assms(1,2)] by (metis ingest_result.update_convs(2))
  ultimately show ?thesis by auto
qed

theorem ingest_replay_is_idempotent_witness:
  "\<exists>r w1 b. run_demo (demo_activity ''u'' ''1'' True) demo_world = (Inr r, w1)
     \<and> run_demo (demo_activity ''u'' ''1'' True) w1 = (Inr r, w1\<lparr>w_bus := b\<rparr>)"
proof -
  obtain r w1 where r: "run_demo (demo_activity ''u'' ''1'' True) demo_world = (Inr r, w1)"
  proof (cases "run_demo (demo_activity ''u'' ''1'' True) demo_world")
    case (Pair x v)
    then show ?thesis using that run_demo_Inr by (cases x) auto
  qed
  then show ?thesis
    using ingest_replay_is_idempotent [OF demo_quiet, of "demo_activity ''u'' ''1'' True" demo_world r w1 w1]
    unfolding run_demo_def by blast
qed

text \<open>
  C39. The recovery path after a crash is dead: when the first stage of a promoting activity is in
  the ledger and the second is not (the process died between the short-term and the mid-term write),
  every retry raises StageExecutionError, with ledger and stores unchanged, so no retry ever
  succeeds: the skipped first stage hands nothing over for the second to promote.
\<close>
theorem ingest_crash_recovery_fails_forever:
  assumes "quiet_ports p"
    and "completed_with_events (activity_id_for (ip_sha256 p) a) (w_ledger w) = Some es"
    and "promotion_reason (ip_importance_promote p) a \<noteq> None"
    and "completed_with_events (activity_hash (ip_sha256 p) a) (w_ledger w) = None"
  shows "\<exists>b. remember_inner p a (activity_id_for (ip_sha256 p) a) w
    = (Inl StageExecutionError, w\<lparr>w_bus := b\<rparr>)"
proof -
  let ?cid = "activity_id_for (ip_sha256 p) a"
  let ?c = "initial_ctx a ?cid"
  have k1: "?cid \<noteq> ''''" using assms(1) by (simp add: quiet_ports_def activity_id_for_def)
  obtain b1 where r1: "run_stage p (write_stm_stage p) ?c w = (Inr (?c, es), w\<lparr>w_bus := b1\<rparr>)"
    using run_stage_replay [OF assms(1) write_stm_key [of ?c a] k1 assms(2)]
    by (auto simp: initial_ctx_def)
  have h: "hash_ctx p ?c a" by (rule initial_hash_ctx)
  have key: "promote_key p ?c v = (Inr (activity_hash (ip_sha256 p) a), v)" for v
    using promote_key_quiet [OF assms(1) h] assms(3) by (simp add: promote_key_value_def)
  have nonempty: "activity_hash (ip_sha256 p) a \<noteq> ''''"
    using assms(1) by (simp add: quiet_ports_def activity_hash_eq)
  obtain reason where reason: "promotion_reason (ip_importance_promote p) a = Some reason"
    using assms(3) by auto
  have "promote_execute p ?c v = (Inl StageExecutionError, v)" for v
    by (simp add: promote_execute_def seq_def lift_result_def activity_of_def initial_ctx_def reason
        resolve_item_def)
  moreover have "isinstance_of StageExecutionError PyException"
    by (simp add: isinstance_of_def mro_def numeral_eq_Suc)
  ultimately have r2: "run_stage p (promote_stage p) ?c (w\<lparr>w_bus := b1\<rparr>)
      = (Inl StageExecutionError, w\<lparr>w_bus := b1\<rparr>)"
    using assms(4) nonempty
    by (simp add: run_stage_def run_gated_def execute_and_mark_def seq_def wrap_stage_error_def
        promote_stage_def key lookup_key_def)
  obtain t where t: "ip_now p (w_stores w) = (Inr t, w_stores w)"
    using assms(1) unfolding quiet_ports_def by blast
  have now: "on_stores (ip_now p) w = (Inr t, w)" by (simp add: on_stores_def t)
  show ?thesis
    by (intro exI [of _ b1]) (simp add: remember_inner_def seq_def now r1 r2)
qed

theorem ingest_crash_recovery_fails_forever_witness:
  "\<exists>b. run_demo (demo_activity ''u'' ''1'' True)
     (demo_world\<lparr>w_ledger := [(activity_id_for (ip_sha256 demo_ports) (demo_activity ''u'' ''1'' True), [])]\<rparr>)
   = (Inl StageExecutionError, demo_world\<lparr>w_ledger :=
        [(activity_id_for (ip_sha256 demo_ports) (demo_activity ''u'' ''1'' True), [])], w_bus := b\<rparr>)"
  unfolding run_demo_def
proof (rule ingest_crash_recovery_fails_forever [OF demo_quiet])
  show "completed_with_events (activity_hash (ip_sha256 demo_ports) (demo_activity ''u'' ''1'' True))
     (w_ledger (demo_world\<lparr>w_ledger :=
        [(activity_id_for (ip_sha256 demo_ports) (demo_activity ''u'' ''1'' True), [])]\<rparr>)) = None"
    by code_simp
qed (simp_all add: completed_with_events_def promotion_reason_def demo_activity_def)

text \<open>
  The activity key ignores the tenant: two activities with the same host, session, offset and
  kind have one ledger key whatever their org, workspace, user and text. After the first (not
  promoting) was ingested, the second (not promoting either) gets the first one's memory id as its
  receipt, and nothing of it is written to any store.
\<close>
theorem activity_key_ignores_tenant:
  assumes "quiet_ports p"
    and "remember_inner p a (activity_id_for (ip_sha256 p) a) w = (Inr r, w1)"
    and "ia_host b = ia_host a" and "ns_session (ia_namespace b) = ns_session (ia_namespace a)"
    and "ia_session_offset b = ia_session_offset a" and "ia_kind b = ia_kind a"
    and "promotion_reason (ip_importance_promote p) a = None"
    and "promotion_reason (ip_importance_promote p) b = None"
  shows "\<exists>rb bus. remember_inner p b (activity_id_for (ip_sha256 p) b) w1 = (Inr rb, w1\<lparr>w_bus := bus\<rparr>)
    \<and> ir_memory_id rb = ir_memory_id r"
proof -
  have "activity_id_for (ip_sha256 p) b = activity_id_for (ip_sha256 p) a"
    using assms(3-6) by (simp add: activity_id_for_def activity_basis_def)
  then obtain bus where "remember_inner p b (activity_id_for (ip_sha256 p) b) w1 =
      (Inr (r\<lparr>ir_content_hash := activity_hash (ip_sha256 p) b\<rparr>), w1\<lparr>w_bus := bus\<rparr>)"
    using remember_again [OF assms(1,2) mem_ledger.extends_refl, of b] assms(7,8) by blast
  then show ?thesis by auto
qed

theorem activity_key_ignores_tenant_witness:
  "\<exists>r w1 rb bus. run_demo (demo_activity ''alice'' ''1'' False) demo_world = (Inr r, w1)
     \<and> run_demo (demo_activity ''bob'' ''1'' False) w1 = (Inr rb, w1\<lparr>w_bus := bus\<rparr>)
     \<and> ir_memory_id rb = ir_memory_id r"
proof (cases "run_demo (demo_activity ''alice'' ''1'' False) demo_world")
  case (Pair x w1)
  have "isl (fst (run_demo (demo_activity ''alice'' ''1'' False) demo_world)) = False"
    by code_simp
  then obtain r where r: "run_demo (demo_activity ''alice'' ''1'' False) demo_world = (Inr r, w1)"
    using Pair by (cases x) auto
  have n: "promotion_reason (ip_importance_promote demo_ports) (demo_activity u ''1'' False) = None" for u
    by (simp add: promotion_reason_def demo_activity_def demo_ports_def)
  show ?thesis
    using activity_key_ignores_tenant [OF demo_quiet r [unfolded run_demo_def], of "demo_activity ''bob'' ''1'' False"]
      r n by (simp add: demo_activity_def run_demo_def)
qed

lemma any_promoted_simps [simp]:
  "any_promoted (xs @ ys) \<longleftrightarrow> any_promoted xs \<or> any_promoted ys"
  "any_promoted [MemoryPromoted ns i f t x]"
  by (auto simp: any_promoted_def)

text \<open>The events of the third stage never count as a promotion or capture when it runs fresh.\<close>
lemma write_stm_fresh:
  assumes "quiet_ports p" "completed_with_events (activity_id_for (ip_sha256 p) a) (w_ledger w) = None"
    "run_stage p (write_stm_stage p) (initial_ctx a (activity_id_for (ip_sha256 p) a)) w = (Inr (c1, e1), w1)"
  shows "\<exists>t i s'. ip_stm_put p (minted_item (ip_sha256 p) a t i) (w_stores w) = (Inr (), s')
    \<and> w_stores w1 = s' \<and> e1 = [MemoryCaptured (ia_namespace a) [i] STM]
    \<and> w_ledger w1 = mark_completed (activity_id_for (ip_sha256 p) a) e1 (w_ledger w)
    \<and> dict_get (pc_state c1) ''stm_item'' = Some (SvItem (minted_item (ip_sha256 p) a t i))"
proof -
  let ?cid = "activity_id_for (ip_sha256 p) a"
  let ?c = "initial_ctx a ?cid"
  have k: "key_is (write_stm_stage p) ?c ?cid" by (rule write_stm_key) (simp add: initial_ctx_def)
  have k1: "?cid \<noteq> ''''" using assms(1) by (simp add: quiet_ports_def activity_id_for_def)
  obtain o' v where g: "run_gated (write_stm_stage p) ?c w = (Inr o', v)"
    and pub: "for_each (\<lambda>e. on_bus (ip_publish p e)) (so_events o') v = (Inr (), w1)"
    and c1: "c1 = update_state ?c (so_produced o')" "e1 = so_events o'"
    using assms(3)
    by (auto simp: run_stage_def seq_def wrap_stage_error_def split: prod.splits sum.splits if_splits)
  have "execute_and_mark (write_stm_stage p) ?cid ?c w = (Inr o', v)"
    using g k k1 assms(2) by (simp add: run_gated_def seq_def key_is_def lookup_key_def)
  then obtain u where u: "st_execute (write_stm_stage p) ?c w = (Inr o', u)"
    and v: "v = u\<lparr>w_ledger := mark_completed ?cid (so_events o') (w_ledger u)\<rparr>"
    using write_stm_ok_body [of p] k1 unfolding ok_body_def
    by (auto simp: execute_and_mark_def seq_Inr_iff mark_key_def split: if_splits)
  obtain t i s' where e: "ip_stm_put p (minted_item (ip_sha256 p) a t i) (w_stores w) = (Inr (), s')"
    "u = w\<lparr>w_stores := s'\<rparr>" "so_events o' = [MemoryCaptured (ia_namespace a) [i] STM]"
    "so_produced o' = [(''stm_item'', SvItem (minted_item (ip_sha256 p) a t i)),
         (''memory_ids'', SvIds [i]), (''content_hash'', SvStr (activity_hash (ip_sha256 p) a))]"
    using write_stm_executes [OF assms(1) _ u, of a] by (auto simp: initial_ctx_def)
  have "w_ledger w1 = w_ledger v" "w_stores w1 = w_stores v"
    using publish_ledger [of "ip_publish p" "so_events o'" v] pub by simp_all
  then show ?thesis
    using e v c1 by (intro exI [of _ t] exI [of _ i]) (simp add: update_state_def initial_ctx_def)
qed

text \<open>
  The promotion key ignores the namespace: it is the content hash, which covers text and triple
  only. When some namespace promoted the same text before, a fresh promoting activity elsewhere is
  reported as promoted to the mid-term tier, yet the only store effect of the call is its
  short-term write: its item is never upserted there.
\<close>
theorem promotion_key_ignores_namespace:
  assumes "quiet_ports p"
    and "completed_with_events (activity_id_for (ip_sha256 p) a) (w_ledger w) = None"
    and "promotion_reason (ip_importance_promote p) a \<noteq> None"
    and "completed_with_events (activity_hash (ip_sha256 p) a) (w_ledger w)
       = Some [MemoryPromoted other_ns other_id STM MTM why]"
    and "remember_inner p a (activity_id_for (ip_sha256 p) a) w = (Inr r, w')"
  shows "ir_promoted r \<and> ir_tiers_written r = [''stm'', ''mtm'']
    \<and> (\<exists>t i. ip_stm_put p (minted_item (ip_sha256 p) a t i) (w_stores w) = (Inr (), w_stores w')
          \<and> ir_memory_id r = i)"
proof -
  let ?cid = "activity_id_for (ip_sha256 p) a"
  obtain c1 e1 wa c2 e2 wb c3 e3 where
    s1: "run_stage p (write_stm_stage p) (initial_ctx a ?cid) w = (Inr (c1, e1), wa)" and
    s2: "run_stage p (promote_stage p) c1 wa = (Inr (c2, e2), wb)" and
    s3: "run_stage p emit_stage c2 wb = (Inr (c3, e3), w')" and
    h: "hash_ctx p c1 a" and
    r: "r = \<lparr>ir_memory_id = hd (captured_ids (e1 @ e2 @ e3)),
          ir_content_hash = activity_hash (ip_sha256 p) a, ir_promoted = any_promoted (e1 @ e2 @ e3),
          ir_tiers_written = (if any_promoted (e1 @ e2 @ e3) then [''stm'', ''mtm''] else [''stm'']),
          ir_events_emitted = map event_name (e1 @ e2 @ e3)\<rparr>"
    using remember_inner_Inr [OF assms(1,5)] by metis
  obtain t i where w1: "ip_stm_put p (minted_item (ip_sha256 p) a t i) (w_stores w) = (Inr (), w_stores wa)"
    "e1 = [MemoryCaptured (ia_namespace a) [i] STM]" "w_ledger wa = mark_completed ?cid e1 (w_ledger w)"
    using write_stm_fresh [OF assms(1,2) s1] by blast
  have k: "promote_key_value p a \<noteq> ''''" "promote_key_value p a = activity_hash (ip_sha256 p) a"
    using promote_key_value_Nil [OF assms(1)] assms(3) by (auto simp: promote_key_value_def)
  have "completed_with_events (activity_hash (ip_sha256 p) a) (w_ledger wa)
       = Some [MemoryPromoted other_ns other_id STM MTM why]"
    using assms(4) mem_ledger.extends_mark [of "w_ledger w" ?cid e1] w1(3)
    by (simp add: mem_ledger.extends_def)
  then have "e2 = [MemoryPromoted other_ns other_id STM MTM why] \<and> w_stores wb = w_stores wa"
    using run_stage_replay [OF assms(1) promote_key_is [OF assms(1) h] k(1)] k(2) s2 by fastforce
  moreover have "w_stores w' = w_stores wb"
  proof -
    obtain o' v where "run_gated emit_stage c2 wb = (Inr o', v)"
      "for_each (\<lambda>e. on_bus (ip_publish p e)) (so_events o') v = (Inr (), w')"
      using s3 by (auto simp: run_stage_def seq_def wrap_stage_error_def
          split: prod.splits sum.splits if_splits)
    moreover from this(1) have "w_stores v = w_stores wb"
      by (auto simp: run_gated_def execute_and_mark_def seq_def emit_stage_def emit_execute_def
          lookup_key_def lift_result_def mk_outcome_def mark_key_def split: option.splits if_splits)
    ultimately show ?thesis
      using publish_ledger [of "ip_publish p" "so_events o'" v] by simp
  qed
  ultimately show ?thesis
    using w1 r by (auto simp: captured_ids_def any_promoted_def)
qed

theorem promotion_key_ignores_namespace_witness:
  "\<exists>r w1. run_demo (demo_activity ''bob'' ''2'' True)
       (demo_world\<lparr>w_ledger := [(activity_hash (ip_sha256 demo_ports) (demo_activity ''alice'' ''1'' True),
          [MemoryPromoted (ia_namespace (demo_activity ''alice'' ''1'' True)) ''m'' STM MTM ''explicit''])]\<rparr>)
       = (Inr r, w1) \<and> ir_promoted r"
proof -
  let ?w = "demo_world\<lparr>w_ledger := [(activity_hash (ip_sha256 demo_ports) (demo_activity ''alice'' ''1'' True),
          [MemoryPromoted (ia_namespace (demo_activity ''alice'' ''1'' True)) ''m'' STM MTM ''explicit''])]\<rparr>"
  let ?a = "demo_activity ''bob'' ''2'' True"
  have "isl (fst (run_demo ?a ?w)) = False"
    "completed_with_events (activity_id_for (ip_sha256 demo_ports) ?a) (w_ledger ?w) = None"
    "completed_with_events (activity_hash (ip_sha256 demo_ports) ?a) (w_ledger ?w) =
      Some [MemoryPromoted (ia_namespace (demo_activity ''alice'' ''1'' True)) ''m'' STM MTM ''explicit'']"
    by code_simp+
  moreover have "promotion_reason (ip_importance_promote demo_ports) ?a \<noteq> None"
    by (simp add: promotion_reason_def demo_activity_def)
  moreover obtain r w1 where "run_demo ?a ?w = (Inr r, w1)"
    using calculation(1) by (cases "run_demo ?a ?w"; cases "fst (run_demo ?a ?w)") auto
  ultimately show ?thesis
    using promotion_key_ignores_namespace [OF demo_quiet, of ?a ?w] unfolding run_demo_def by blast
qed

end
