(* ===== verification/Ltm_Graph.thy ===== *)
theory Ltm_Graph
  imports Memory_Model Pipeline "HOL-Library.List_Lexorder" "HOL-Library.Char_ord"
begin

text \<open>
  The long-term tier: GraphMapper.to_store (storage/mappers/graph_mapper.py) and FalkorLtmAdapter
  (storage/adapters/falkor_ltm.py). A graph is the list of its Memory nodes with the artifact and
  supersession edges; each query of the adapter is the function on that list its openCypher text
  denotes. Parameters: the ISO printer of datetimes, pydantic's JSON dump and load of an item, the
  order in which a MATCH enumerates nodes, the clock readings, and casefold. Timestamps are stored
  and compared as strings, the way the queries do it. The theory also states the abstract contract
  of a bi-temporal graph store and proves that the adapter refines it.
\<close>

section \<open>Rows\<close>

record 'j graph_node =
  gn_id :: string
  gn_namespace :: string
  gn_subject :: string
  gn_predicate :: string
  gn_object :: string
  gn_object_kind :: string
  gn_polarity :: string
  gn_state :: string
  gn_valid_at :: string
  gn_invalid_at :: string
  gn_content_hash :: string
  gn_artifact_ref :: string
  gn_provenance_id :: string
  gn_content :: string
  gn_memory_json :: 'j
  gn_authorized_ids :: "string list option"

type_synonym node_key = "string \<times> string"

record entity_node =
  en_uid :: string
  en_canonical :: string
  en_aliases :: "string list"
  en_alias_keys :: "string list"
  en_namespace :: string

record 'j graph =
  g_nodes :: "'j graph_node list"
  g_artifacts :: "node_key list"
  g_references :: "(node_key \<times> node_key) list"
  g_superseded_by :: "(node_key \<times> node_key, string \<times> string) dict"
  g_conflicts_with :: "(node_key \<times> node_key, string) dict"
  g_entities :: "entity_node list"

definition empty_graph :: "'j graph" where
  "empty_graph = \<lparr>g_nodes = [], g_artifacts = [], g_references = [], g_superseded_by = [],
     g_conflicts_with = [], g_entities = []\<rparr>"

record 'j falkor =
  fk_iso :: "int \<Rightarrow> string"
  fk_dump :: "memory_item \<Rightarrow> 'j"
  fk_load :: "'j \<Rightarrow> memory_item or_raise"
  fk_scan :: "'j graph_node list \<Rightarrow> 'j graph_node list"
  fk_clock :: "nat \<Rightarrow> int"
  fk_casefold :: "string \<Rightarrow> string"
  fk_shortlist_size :: nat
  fk_similarity_threshold :: rat

record 'j falkor_state =
  fs_db :: "(string, 'j graph) dict"
  fs_tick :: nat

definition iso_or_empty :: "'j falkor \<Rightarrow> int option \<Rightarrow> string" where
  "iso_or_empty cfg t = (case t of None \<Rightarrow> '''' | Some v \<Rightarrow> fk_iso cfg v)"

text \<open>list(authorized) if authorized else []: a string lists its characters, a number is a
  TypeError; the integers of a span equal no caller id, so it authorizes nobody.\<close>
definition authorized_list :: "meta_value option \<Rightarrow> string list or_raise" where
  "authorized_list v = (case v of
       None \<Rightarrow> Inr []
     | Some (MStrs xs) \<Rightarrow> Inr xs
     | Some (MStr s) \<Rightarrow> Inr (map (\<lambda>c. [c]) s)
     | Some (MNum q) \<Rightarrow> if q = 0 then Inr [] else Inl TypeError
     | Some (MBool b) \<Rightarrow> if b then Inl TypeError else Inr []
     | Some (MSpan _ _) \<Rightarrow> Inr []
     | Some MNone \<Rightarrow> Inr [])"

text \<open>GraphMapper.to_store, the node part.\<close>
definition to_node :: "'j falkor \<Rightarrow> memory_item \<Rightarrow> 'j graph_node or_raise" where
  "to_node cfg m =
     rbind (if ns_visibility (mi_namespace m) = SHARED
            then rbind (authorized_list (dict_get (mi_metadata m) ''authorized_ids'')) (\<lambda>a. Inr (Some a))
            else Inr None)
       (\<lambda>auth. Inr \<lparr>gn_id = mi_id m, gn_namespace = to_prefix (mi_namespace m),
          gn_subject = str_or_empty (mi_subject m), gn_predicate = str_or_empty (mi_predicate m),
          gn_object = str_or_empty (mi_object m),
          gn_object_kind = (case mi_object_kind m of None \<Rightarrow> '''' | Some k \<Rightarrow> object_kind_value k),
          gn_polarity = polarity_value (mi_polarity m), gn_state = state_value (mi_state m),
          gn_valid_at = iso_or_empty cfg (mi_valid_at m),
          gn_invalid_at = iso_or_empty cfg (mi_invalid_at m),
          gn_content_hash = mi_content_hash m, gn_artifact_ref = str_or_empty (mi_artifact_ref m),
          gn_provenance_id = mi_provenance_id m, gn_content = mi_content m,
          gn_memory_json = fk_dump cfg m, gn_authorized_ids = auth\<rparr>)"

section \<open>Writes\<close>

definition graph_of :: "namespace \<Rightarrow> 'j falkor_state \<Rightarrow> 'j graph" where
  "graph_of ns s = dict_default empty_graph (fs_db s) (graph_name_for ns)"

definition put_graph :: "namespace \<Rightarrow> 'j graph \<Rightarrow> 'j falkor_state \<Rightarrow> 'j falkor_state" where
  "put_graph ns g s = s\<lparr>fs_db := dict_put (graph_name_for ns) g (fs_db s)\<rparr>"

definition at_key :: "string \<Rightarrow> string \<Rightarrow> 'j graph_node \<Rightarrow> bool" where
  "at_key prefix mid n = (gn_namespace n = prefix \<and> gn_id n = mid)"

text \<open>MERGE by namespace and id, then SET: an existing node keeps its authorized_ids when the row
  carries none.\<close>
definition set_props :: "'j graph_node \<Rightarrow> 'j graph_node \<Rightarrow> 'j graph_node" where
  "set_props row old =
     row\<lparr>gn_authorized_ids := (case gn_authorized_ids row of None \<Rightarrow> gn_authorized_ids old
                               | Some a \<Rightarrow> Some a)\<rparr>"

definition merge_node :: "'j graph_node \<Rightarrow> 'j graph_node list \<Rightarrow> 'j graph_node list" where
  "merge_node row nodes =
     (let here = at_key (gn_namespace row) (gn_id row)
      in if \<exists>n\<in>set nodes. here n then map (\<lambda>n. if here n then set_props row n else n) nodes
         else nodes @ [row])"

definition merge_in :: "'a \<Rightarrow> 'a list \<Rightarrow> 'a list" where
  "merge_in x xs = (if x \<in> set xs then xs else xs @ [x])"

definition reference_artifact :: "node_key \<Rightarrow> node_key \<Rightarrow> 'j graph \<Rightarrow> 'j graph" where
  "reference_artifact mk ak g =
     g\<lparr>g_artifacts := merge_in ak (g_artifacts g),
       g_references := merge_in (mk, ak) (g_references g)\<rparr>"

definition upsert_fact :: "'j falkor \<Rightarrow> memory_item \<Rightarrow> ('j falkor_state, unit) eff" where
  "upsert_fact cfg m s = (case to_node cfg m of
       Inl e \<Rightarrow> (Inl e, s)
     | Inr row \<Rightarrow>
         let ns = mi_namespace m;
             g = graph_of ns s;
             g1 = g\<lparr>g_nodes := merge_node row (g_nodes g)\<rparr>;
             g2 = (if gn_artifact_ref row \<noteq> ''''
                   then reference_artifact (to_prefix ns, mi_id m) (to_prefix ns, gn_artifact_ref row) g1
                   else g1)
         in (Inr (), put_graph ns g2 s))"

definition stamp :: "string \<Rightarrow> 'j graph_node \<Rightarrow> 'j graph_node" where
  "stamp at_iso n = n\<lparr>gn_state := state_value SUPERSEDED, gn_invalid_at := at_iso\<rparr>"

text \<open>The loser is stamped even when no winner matches; the edges need both.\<close>
definition invalidate ::
  "'j falkor \<Rightarrow> namespace \<Rightarrow> string \<Rightarrow> string \<Rightarrow> int \<Rightarrow> string \<Rightarrow> ('j falkor_state, unit) eff" where
  "invalidate cfg ns loser winner at_t reason s =
     (let prefix = to_prefix ns;
          at_iso = fk_iso cfg at_t;
          g = graph_of ns s;
          nodes = map (\<lambda>n. if at_key prefix loser n then stamp at_iso n else n) (g_nodes g);
          both = (\<exists>n\<in>set nodes. at_key prefix loser n) \<and> (\<exists>n\<in>set nodes. at_key prefix winner n);
          edge = ((prefix, loser), (prefix, winner));
          g1 = g\<lparr>g_nodes := nodes\<rparr>;
          g2 = (if both then g1\<lparr>g_superseded_by := dict_put edge (at_iso, reason) (g_superseded_by g1),
                              g_conflicts_with := dict_put edge at_iso (g_conflicts_with g1)\<rparr>
                else g1)
      in (Inr (), put_graph ns g2 s))"

section \<open>Reads\<close>

definition tick :: "'j falkor_state \<Rightarrow> 'j falkor_state" where
  "tick s = s\<lparr>fs_tick := Suc (fs_tick s)\<rparr>"

definition now_of :: "'j falkor \<Rightarrow> 'j falkor_state \<Rightarrow> int" where
  "now_of cfg s = fk_clock cfg (fs_tick s)"

definition open_after :: "string \<Rightarrow> 'j graph_node \<Rightarrow> bool" where
  "open_after t_iso n = (gn_invalid_at n = '''' \<or> t_iso < gn_invalid_at n)"

definition active_node :: "string \<Rightarrow> string \<Rightarrow> 'j graph_node \<Rightarrow> bool" where
  "active_node prefix t_iso n =
     (gn_namespace n = prefix \<and> gn_state n = state_value ACTIVE \<and> open_after t_iso n)"

definition matches :: "string option \<Rightarrow> string \<Rightarrow> bool" where
  "matches q v = (case q of None \<Rightarrow> True | Some x \<Rightarrow> v = x)"

definition load_all :: "'j falkor \<Rightarrow> 'j graph_node list \<Rightarrow> memory_item list or_raise" where
  "load_all cfg rows = rmap (fk_load cfg) (map gn_memory_json rows)"

definition find_conflicts ::
  "'j falkor \<Rightarrow> namespace \<Rightarrow> string \<Rightarrow> string \<Rightarrow> ('j falkor_state, memory_item list) eff" where
  "find_conflicts cfg ns subject predicate s =
     (load_all cfg (filter (\<lambda>n. active_node (to_prefix ns) (fk_iso cfg (now_of cfg s)) n
          \<and> gn_subject n = subject \<and> gn_predicate n = predicate)
        (fk_scan cfg (g_nodes (graph_of ns s)))), tick s)"

definition facts_at ::
  "'j falkor \<Rightarrow> namespace \<Rightarrow> int \<Rightarrow> string option \<Rightarrow> 'j falkor_state \<Rightarrow> memory_item list or_raise" where
  "facts_at cfg ns at_t subject s =
     (let at_iso = fk_iso cfg at_t
      in load_all cfg (filter (\<lambda>n. gn_namespace n = to_prefix ns \<and> gn_valid_at n \<noteq> ''''
            \<and> gn_valid_at n \<le> at_iso \<and> open_after at_iso n \<and> matches subject (gn_subject n))
          (fk_scan cfg (g_nodes (graph_of ns s)))))"

definition order_desc :: "('a \<Rightarrow> 'k::linorder) \<Rightarrow> 'a list \<Rightarrow> 'a list" where
  "order_desc f xs = rev (sort_key f xs)"

definition authorized_node :: "namespace \<Rightarrow> string set option \<Rightarrow> 'j graph_node \<Rightarrow> bool" where
  "authorized_node ns caller n = (case caller of
       None \<Rightarrow> True
     | Some ids \<Rightarrow> if ns_visibility ns = SHARED
                   then (case gn_authorized_ids n of None \<Rightarrow> False | Some a \<Rightarrow> \<exists>x\<in>set a. x \<in> ids)
                   else True)"

definition graph_scored :: "nat \<Rightarrow> memory_item \<Rightarrow> scored" where
  "graph_scored rank m = \<lparr>sc_item = m, sc_score = 1 / of_nat (rank + 1), sc_channel = LTM_GRAPH,
     sc_rank = Some rank, sc_is_floor = False\<rparr>"

definition graph_recall ::
  "'j falkor \<Rightarrow> namespace \<Rightarrow> string option \<Rightarrow> string option \<Rightarrow> nat \<Rightarrow> string set option
   \<Rightarrow> ('j falkor_state, scored list) eff" where
  "graph_recall cfg ns subject predicate limit caller s =
     (rbind (load_all cfg (take limit (order_desc gn_valid_at
        (filter (\<lambda>n. active_node (to_prefix ns) (fk_iso cfg (now_of cfg s)) n
            \<and> matches subject (gn_subject n) \<and> matches predicate (gn_predicate n)
            \<and> authorized_node ns caller n)
          (fk_scan cfg (g_nodes (graph_of ns s)))))))
        (\<lambda>items. Inr (map (\<lambda>(rank, m). graph_scored rank m) (List.enumerate 0 items))), tick s)"

record entity_candidate =
  ec_uid :: string
  ec_canonical :: string
  ec_aliases :: "string list"
  ec_similarity :: rat

record entity_resolution =
  er_canonical :: string
  er_uid :: "string option"
  er_candidates :: "entity_candidate list"

definition resolve_entity ::
  "'j falkor \<Rightarrow> namespace \<Rightarrow> (string \<Rightarrow> string) \<Rightarrow> string \<Rightarrow> 'j falkor_state \<Rightarrow> entity_resolution" where
  "resolve_entity cfg ns strip name s =
     (let canonical = fk_casefold cfg (strip name);
          hits = take (fk_shortlist_size cfg) (filter (\<lambda>e. en_namespace e = to_prefix ns
            \<and> (en_canonical e = canonical \<or> canonical \<in> set (en_alias_keys e)))
            (g_entities (graph_of ns s)));
          candidates = map (\<lambda>e. \<lparr>ec_uid = en_uid e, ec_canonical = en_canonical e,
            ec_aliases = en_aliases e, ec_similarity = 1\<rparr>) hits
      in case candidates of
           [c] \<Rightarrow> if ec_similarity c \<ge> fk_similarity_threshold cfg
                  then \<lparr>er_canonical = ec_canonical c, er_uid = Some (ec_uid c), er_candidates = candidates\<rparr>
                  else \<lparr>er_canonical = canonical, er_uid = None, er_candidates = candidates\<rparr>
         | _ \<Rightarrow> \<lparr>er_canonical = canonical, er_uid = None, er_candidates = candidates\<rparr>)"

section \<open>The contract: a bi-temporal fact map\<close>

text \<open>
  What the engine relies on in a graph store: it is a map from namespace and id to facts. A fact is
  the item as it was last written, with its current state and end of validity, which an invalidation
  changes and an upsert resets. Nothing is ever deleted.
\<close>
record fact =
  ft_item :: memory_item
  ft_state :: memory_state
  ft_invalid :: "int option"

type_synonym facts = "namespace \<times> string \<Rightarrow> fact option"

definition fact_of :: "memory_item \<Rightarrow> fact" where
  "fact_of m = \<lparr>ft_item = m, ft_state = mi_state m, ft_invalid = mi_invalid_at m\<rparr>"

definition close_fact :: "int \<Rightarrow> fact \<Rightarrow> fact" where
  "close_fact at_t f = f\<lparr>ft_state := SUPERSEDED, ft_invalid := Some at_t\<rparr>"

definition put_fact :: "memory_item \<Rightarrow> facts \<Rightarrow> facts" where
  "put_fact m F = F((mi_namespace m, mi_id m) \<mapsto> fact_of m)"

definition end_fact :: "namespace \<Rightarrow> string \<Rightarrow> int \<Rightarrow> facts \<Rightarrow> facts" where
  "end_fact ns loser at_t F = F((ns, loser) := map_option (close_fact at_t) (F (ns, loser)))"

definition ends_after :: "int \<Rightarrow> fact \<Rightarrow> bool" where
  "ends_after t f = (case ft_invalid f of None \<Rightarrow> True | Some e \<Rightarrow> t < e)"

definition live :: "int \<Rightarrow> fact \<Rightarrow> bool" where
  "live t f = (ft_state f = ACTIVE \<and> ends_after t f)"

definition about :: "string \<Rightarrow> string \<Rightarrow> fact \<Rightarrow> bool" where
  "about subject predicate f = (str_or_empty (mi_subject (ft_item f)) = subject
     \<and> str_or_empty (mi_predicate (ft_item f)) = predicate)"

text \<open>Every fact of a map built by these operations is either as written or superseded, and sits
  under its own key.\<close>
definition fact_ok :: "namespace \<times> string \<Rightarrow> fact \<Rightarrow> bool" where
  "fact_ok k f = (k = (mi_namespace (ft_item f), mi_id (ft_item f)) \<and>
     (ft_state f = SUPERSEDED \<or> (ft_state f = mi_state (ft_item f) \<and> ft_invalid f = mi_invalid_at (ft_item f))))"

definition facts_ok :: "facts \<Rightarrow> bool" where
  "facts_ok F = (\<forall>k f. F k = Some f \<longrightarrow> fact_ok k f)"

lemma facts_ok_put [inv_intros]: "facts_ok F \<Longrightarrow> facts_ok (put_fact m F)"
  by (auto simp: facts_ok_def put_fact_def fact_ok_def fact_of_def)

lemma facts_ok_end [inv_intros]: "facts_ok F \<Longrightarrow> facts_ok (end_fact ns l t F)"
  by (auto simp: facts_ok_def end_fact_def fact_ok_def close_fact_def)

locale graph_store =
  fixes upsert :: "memory_item \<Rightarrow> ('s, unit) eff"
    and find_live :: "namespace \<Rightarrow> string \<Rightarrow> string \<Rightarrow> ('s, memory_item list) eff"
    and inval :: "namespace \<Rightarrow> string \<Rightarrow> string \<Rightarrow> int \<Rightarrow> string \<Rightarrow> ('s, unit) eff"
    and rel :: "'s \<Rightarrow> facts \<Rightarrow> bool"
    and next_now :: "'s \<Rightarrow> int"
    and storable :: "memory_item \<Rightarrow> bool"
  assumes rel_ok: "rel s F \<Longrightarrow> facts_ok F"
    and upsert_stored: "\<lbrakk> rel s F; valid_ns (mi_namespace m); storable m \<rbrakk>
      \<Longrightarrow> \<exists>s'. upsert m s = (Inr (), s') \<and> rel s' (put_fact m F) \<and> next_now s \<le> next_now s'"
    and upsert_refused: "\<lbrakk> rel s F; \<not> storable m \<rbrakk> \<Longrightarrow> \<exists>e. upsert m s = (Inl e, s)"
    and found: "\<lbrakk> rel s F; valid_ns ns \<rbrakk>
      \<Longrightarrow> \<exists>xs s'. find_live ns subj pred s = (Inr xs, s') \<and> rel s' F \<and> next_now s \<le> next_now s'
        \<and> distinct (map mi_id xs)
        \<and> set xs = {ft_item f | i f. F (ns, i) = Some f \<and> live (next_now s) f \<and> about subj pred f}"
    and inval_ends: "\<lbrakk> rel s F; valid_ns ns \<rbrakk>
      \<Longrightarrow> \<exists>s'. inval ns l w t r s = (Inr (), s') \<and> rel s' (end_fact ns l t F) \<and> next_now s \<le> next_now s'"

section \<open>The adapter refines the contract\<close>

text \<open>Documented behaviour of what the adapter is built on: the ISO form of UTC datetimes is never
  empty and orders like the instants, pydantic's load inverts its dump, a MATCH enumerates every node
  once, the clock does not run backwards.\<close>
definition falkor_ok :: "'j falkor \<Rightarrow> bool" where
  "falkor_ok cfg = ((\<forall>t. fk_iso cfg t \<noteq> '''') \<and> (\<forall>a b. (fk_iso cfg a < fk_iso cfg b) = (a < b))
     \<and> (\<forall>m. fk_load cfg (fk_dump cfg m) = Inr m) \<and> (\<forall>xs. mset (fk_scan cfg xs) = mset xs)
     \<and> mono (fk_clock cfg))"

definition node_keys :: "'j graph_node list \<Rightarrow> node_key list" where
  "node_keys nodes = map (\<lambda>n. (gn_namespace n, gn_id n)) nodes"

text \<open>The node that stores a fact.\<close>
definition stores :: "'j falkor \<Rightarrow> 'j graph_node \<Rightarrow> fact \<Rightarrow> bool" where
  "stores cfg n f = (fk_load cfg (gn_memory_json n) = Inr (ft_item f)
     \<and> gn_namespace n = to_prefix (mi_namespace (ft_item f)) \<and> gn_id n = mi_id (ft_item f)
     \<and> gn_subject n = str_or_empty (mi_subject (ft_item f))
     \<and> gn_predicate n = str_or_empty (mi_predicate (ft_item f))
     \<and> gn_valid_at n = iso_or_empty cfg (mi_valid_at (ft_item f))
     \<and> gn_state n = state_value (ft_state f) \<and> gn_invalid_at n = iso_or_empty cfg (ft_invalid f))"

text \<open>The abstraction relation, per validated namespace: its nodes are exactly its facts.\<close>
definition ltm_rel :: "'j falkor \<Rightarrow> 'j falkor_state \<Rightarrow> facts \<Rightarrow> bool" where
  "ltm_rel cfg s F = (falkor_ok cfg \<and> facts_ok F
     \<and> (\<forall>g\<in>snd ` set (fs_db s). distinct (node_keys (g_nodes g)))
     \<and> (\<forall>ns i f. F (ns, i) = Some f \<longrightarrow> valid_ns ns)
     \<and> (\<forall>ns. valid_ns ns \<longrightarrow>
          (\<forall>i f. F (ns, i) = Some f \<longrightarrow> (\<exists>n\<in>set (g_nodes (graph_of ns s)). at_key (to_prefix ns) i n \<and> stores cfg n f))
        \<and> (\<forall>n\<in>set (g_nodes (graph_of ns s)). gn_namespace n = to_prefix ns \<longrightarrow>
             (\<exists>f. F (ns, gn_id n) = Some f \<and> stores cfg n f))))"

definition storable_item :: "memory_item \<Rightarrow> bool" where
  "storable_item m = (ns_visibility (mi_namespace m) = SHARED \<longrightarrow>
     isl (authorized_list (dict_get (mi_metadata m) ''authorized_ids'')) = False)"

lemma graph_of_put [simp]:
  "graph_of ns' (put_graph ns g s) = (if graph_name_for ns' = graph_name_for ns then g else graph_of ns' s)"
  by (simp add: graph_of_def put_graph_def dict_default_def)

lemma now_of_put [simp]: "now_of cfg (put_graph ns g s) = now_of cfg s"
  by (simp add: now_of_def put_graph_def)

lemma graph_of_tick [simp]: "graph_of ns (tick s) = graph_of ns s"
  by (simp add: graph_of_def tick_def)

lemma node_keys_merge:
  "node_keys (merge_node row nodes) =
     (if (gn_namespace row, gn_id row) \<in> set (node_keys nodes) then node_keys nodes
      else node_keys nodes @ [(gn_namespace row, gn_id row)])"
  by (simp add: merge_node_def node_keys_def at_key_def Let_def set_props_def image_iff)
    (auto intro: bexI [rotated])

lemma set_merge_node:
  "n \<in> set (merge_node row nodes) \<longleftrightarrow>
     (n \<in> set nodes \<and> \<not> at_key (gn_namespace row) (gn_id row) n)
   \<or> (at_key (gn_namespace row) (gn_id row) n \<and> n \<in> set (merge_node row nodes))"
  by (auto simp: merge_node_def Let_def at_key_def set_props_def image_iff split: if_splits)

lemma merged_is_row:
  assumes "n \<in> set (merge_node row nodes)" "at_key (gn_namespace row) (gn_id row) n"
  shows "stores cfg n f = stores cfg row f"
  using assms by (auto simp: merge_node_def Let_def set_props_def stores_def image_iff at_key_def split: if_splits)

lemma merged_exists: "\<exists>n\<in>set (merge_node row nodes). at_key (gn_namespace row) (gn_id row) n"
proof (cases "\<exists>n\<in>set nodes. at_key (gn_namespace row) (gn_id row) n")
  case True
  then obtain n where "n \<in> set nodes" "at_key (gn_namespace row) (gn_id row) n" by blast
  then have "set_props row n \<in> set (merge_node row nodes)"
    using True by (auto simp: merge_node_def Let_def)
  then show ?thesis by (rule bexI [rotated]) (simp add: at_key_def set_props_def)
qed (auto simp: merge_node_def Let_def at_key_def)

lemma ltm_rel_fact_node:
  "\<lbrakk> ltm_rel cfg s F; F (ns, i) = Some f \<rbrakk>
   \<Longrightarrow> valid_ns ns \<and> (\<exists>n\<in>set (g_nodes (graph_of ns s)). at_key (to_prefix ns) i n \<and> stores cfg n f)"
  unfolding ltm_rel_def by blast

lemma ltm_rel_node_fact:
  "\<lbrakk> ltm_rel cfg s F; valid_ns ns; n \<in> set (g_nodes (graph_of ns s)); gn_namespace n = to_prefix ns \<rbrakk>
   \<Longrightarrow> \<exists>f. F (ns, gn_id n) = Some f \<and> stores cfg n f"
  unfolding ltm_rel_def by blast

lemma graph_of_distinct:
  "ltm_rel cfg s F \<Longrightarrow> distinct (node_keys (g_nodes (graph_of ns s)))"
  by (auto simp: ltm_rel_def graph_of_def dict_default_def empty_graph_def node_keys_def image_iff
      split: option.splits dest!: map_of_SomeD)

lemma ltm_rel_put:
  assumes rel: "ltm_rel cfg s F" and v: "valid_ns ns" and d: "distinct (node_keys (g_nodes g))"
    and frame: "\<And>n. gn_namespace n \<noteq> to_prefix ns \<Longrightarrow> n \<in> set (g_nodes g) \<longleftrightarrow> n \<in> set (g_nodes (graph_of ns s))"
    and ok: "facts_ok F'" and other: "\<And>ns' i. ns' \<noteq> ns \<Longrightarrow> F' (ns', i) = F (ns', i)"
    and there: "\<And>i f. F' (ns, i) = Some f \<Longrightarrow> \<exists>n\<in>set (g_nodes g). at_key (to_prefix ns) i n \<and> stores cfg n f"
    and onto: "\<And>n. n \<in> set (g_nodes g) \<Longrightarrow> gn_namespace n = to_prefix ns \<Longrightarrow>
      \<exists>f. F' (ns, gn_id n) = Some f \<and> stores cfg n f"
  shows "ltm_rel cfg (put_graph ns g s) F'"
proof -
  have other_ns: "(\<forall>i f. F' (ns', i) = Some f \<longrightarrow> (\<exists>n\<in>set (g_nodes (graph_of ns' (put_graph ns g s))).
          at_key (to_prefix ns') i n \<and> stores cfg n f))
      \<and> (\<forall>n\<in>set (g_nodes (graph_of ns' (put_graph ns g s))). gn_namespace n = to_prefix ns' \<longrightarrow>
          (\<exists>f. F' (ns', gn_id n) = Some f \<and> stores cfg n f))" if v': "valid_ns ns'" "ns' \<noteq> ns" for ns'
  proof -
    have p: "to_prefix ns' \<noteq> to_prefix ns" using to_prefix_inj v v' by blast
    have same: "n \<in> set (g_nodes (graph_of ns' (put_graph ns g s))) \<longleftrightarrow> n \<in> set (g_nodes (graph_of ns' s))"
      if "gn_namespace n = to_prefix ns'" for n
    proof (cases "graph_name_for ns' = graph_name_for ns")
      case True
      then have "graph_of ns' s = graph_of ns s" by (simp add: graph_of_def)
      then show ?thesis using True frame [of n] that p by simp
    qed simp
    show ?thesis
      using rel v' same other [OF v'(2)] unfolding ltm_rel_def at_key_def by metis
  qed
  have "\<forall>g'\<in>snd ` set (fs_db (put_graph ns g s)). distinct (node_keys (g_nodes g'))"
    using rel d by (auto simp: ltm_rel_def put_graph_def dest!: dict_put_set)
  moreover have "\<forall>ns' i f. F' (ns', i) = Some f \<longrightarrow> valid_ns ns'"
    using rel v other unfolding ltm_rel_def by metis
  ultimately show ?thesis
    using rel ok other_ns there onto unfolding ltm_rel_def
    by (metis graph_of_put)
qed

lemma to_node_Inr:
  assumes "to_node cfg m = Inr row" "falkor_ok cfg"
  shows "gn_namespace row = to_prefix (mi_namespace m) \<and> gn_id row = mi_id m \<and> stores cfg row (fact_of m)"
  using assms by (auto simp: to_node_def rbind_Inr_iff stores_def fact_of_def falkor_ok_def)

lemma to_node_storable: "storable_item m \<longleftrightarrow> (\<exists>row. to_node cfg m = Inr row)"
  by (auto simp: storable_item_def to_node_def rbind_def split: sum.splits)

lemma reference_nodes [simp]: "g_nodes (reference_artifact a b g) = g_nodes g"
  by (simp add: reference_artifact_def)

lemma upsert_rel:
  assumes rel: "ltm_rel cfg s F" and v: "valid_ns (mi_namespace m)" and st: "storable_item m"
  shows "\<exists>s'. upsert_fact cfg m s = (Inr (), s') \<and> ltm_rel cfg s' (put_fact m F) \<and> now_of cfg s \<le> now_of cfg s'"
proof -
  obtain row where row: "to_node cfg m = Inr row" using st to_node_storable by blast
  let ?ns = "mi_namespace m"
  let ?nodes = "merge_node row (g_nodes (graph_of ?ns s))"
  have k: "gn_namespace row = to_prefix ?ns" "gn_id row = mi_id m" "stores cfg row (fact_of m)"
    using to_node_Inr [OF row] rel by (simp_all add: ltm_rel_def)
  obtain g where g: "upsert_fact cfg m s = (Inr (), put_graph ?ns g s)" "g_nodes g = ?nodes"
    by (simp add: upsert_fact_def row Let_def)
  have "ltm_rel cfg (put_graph ?ns g s) (put_fact m F)"
  proof (rule ltm_rel_put [OF rel v])
    show "distinct (node_keys (g_nodes g))"
      using graph_of_distinct [OF rel] by (simp add: g node_keys_merge)
    show "n \<in> set (g_nodes g) \<longleftrightarrow> n \<in> set (g_nodes (graph_of ?ns s))" if "gn_namespace n \<noteq> to_prefix ?ns" for n
      using that set_merge_node [of n row] by (simp add: g at_key_def k)
    show "facts_ok (put_fact m F)" using rel by (simp add: ltm_rel_def facts_ok_put)
    show "put_fact m F (ns', i) = F (ns', i)" if "ns' \<noteq> ?ns" for ns' i
      using that by (simp add: put_fact_def)
    show "\<exists>n\<in>set (g_nodes g). at_key (to_prefix ?ns) i n \<and> stores cfg n f"
      if "put_fact m F (?ns, i) = Some f" for i f
    proof (cases "i = mi_id m")
      case True
      then show ?thesis
        using that merged_exists [of row "g_nodes (graph_of ?ns s)"] merged_is_row [of _ row _ cfg] k
        by (auto simp: g put_fact_def)
    next
      case False
      then have "F (?ns, i) = Some f" using that by (simp add: put_fact_def)
      then obtain n where "n \<in> set (g_nodes (graph_of ?ns s))" "at_key (to_prefix ?ns) i n" "stores cfg n f"
        using ltm_rel_fact_node [OF rel] by blast
      then show ?thesis
        using False set_merge_node [of n row] by (auto simp: g at_key_def k)
    qed
    show "\<exists>f. put_fact m F (?ns, gn_id n) = Some f \<and> stores cfg n f"
      if "n \<in> set (g_nodes g)" "gn_namespace n = to_prefix ?ns" for n
    proof (cases "gn_id n = mi_id m")
      case True
      then show ?thesis
        using merged_is_row [of n row _ cfg "fact_of m"] that k by (auto simp: g put_fact_def at_key_def)
    next
      case False
      then show ?thesis
        using that set_merge_node [of n row] ltm_rel_node_fact [OF rel v, of n]
        by (auto simp: g put_fact_def at_key_def k)
    qed
  qed
  then show ?thesis using g(1) by auto
qed


lemma upsert_not_storable: "\<not> storable_item m \<Longrightarrow> \<exists>e. upsert_fact cfg m s = (Inl e, s)"
  using to_node_storable [of m cfg] by (auto simp: upsert_fact_def split: sum.splits)

lemma stamp_stores:
  "\<lbrakk> falkor_ok cfg; stores cfg n f \<rbrakk> \<Longrightarrow> stores cfg (stamp (fk_iso cfg t) n) (close_fact t f)"
  by (simp add: stores_def stamp_def close_fact_def iso_or_empty_def)

lemma stamp_key [simp]:
  "at_key p i (stamp t n) = at_key p i n" "gn_namespace (stamp t n) = gn_namespace n" "gn_id (stamp t n) = gn_id n"
  by (simp_all add: at_key_def stamp_def)

lemma invalidate_shape:
  "\<exists>g. invalidate cfg ns l w t r s = (Inr (), put_graph ns g s)
     \<and> g_nodes g = map (\<lambda>n. if at_key (to_prefix ns) l n then stamp (fk_iso cfg t) n else n) (g_nodes (graph_of ns s))"
  unfolding invalidate_def Let_def by (intro exI conjI, rule refl) simp

lemma invalidate_rel:
  assumes rel: "ltm_rel cfg s F" and v: "valid_ns ns"
  shows "\<exists>s'. invalidate cfg ns l w t r s = (Inr (), s') \<and> ltm_rel cfg s' (end_fact ns l t F)
    \<and> now_of cfg s \<le> now_of cfg s'"
proof -
  let ?hit = "\<lambda>n. if at_key (to_prefix ns) l n then stamp (fk_iso cfg t) n else n"
  let ?old = "g_nodes (graph_of ns s)"
  obtain g where g: "invalidate cfg ns l w t r s = (Inr (), put_graph ns g s)" "g_nodes g = map ?hit ?old"
    using invalidate_shape [of cfg ns l w t r s] by blast
  have okc: "falkor_ok cfg" using rel by (simp add: ltm_rel_def)
  have "ltm_rel cfg (put_graph ns g s) (end_fact ns l t F)"
  proof (rule ltm_rel_put [OF rel v])
    have "node_keys (g_nodes g) = node_keys ?old"
      by (simp add: g node_keys_def)
    then show "distinct (node_keys (g_nodes g))"
      using graph_of_distinct [OF rel] by simp
    show "n \<in> set (g_nodes g) \<longleftrightarrow> n \<in> set ?old" if "gn_namespace n \<noteq> to_prefix ns" for n
      using that by (auto simp: g image_iff at_key_def)
    show "facts_ok (end_fact ns l t F)" using rel by (simp add: ltm_rel_def facts_ok_end)
    show "end_fact ns l t F (ns', i) = F (ns', i)" if "ns' \<noteq> ns" for ns' i
      using that by (simp add: end_fact_def)
    show "\<exists>n\<in>set (g_nodes g). at_key (to_prefix ns) i n \<and> stores cfg n f"
      if f: "end_fact ns l t F (ns, i) = Some f" for i f
    proof -
      obtain f0 where f0: "F (ns, i) = Some f0" "f = (if i = l then close_fact t f0 else f0)"
        using f by (auto simp: end_fact_def split: if_splits)
      obtain n where n: "n \<in> set ?old" "at_key (to_prefix ns) i n" "stores cfg n f0"
        using ltm_rel_fact_node [OF rel f0(1)] by blast
      then have "at_key (to_prefix ns) i (?hit n) \<and> stores cfg (?hit n) f"
        using f0(2) stamp_stores [OF okc n(3)] by (cases "i = l") (simp_all add: at_key_def)
      moreover have "?hit n \<in> set (g_nodes g)" using n(1) by (simp add: g(2))
      ultimately show ?thesis by blast
    qed
    show "\<exists>f. end_fact ns l t F (ns, gn_id n) = Some f \<and> stores cfg n f"
      if n: "n \<in> set (g_nodes g)" "gn_namespace n = to_prefix ns" for n
    proof -
      obtain n0 where n0: "n0 \<in> set ?old" "n = ?hit n0" using n(1) by (auto simp: g)
      then have "gn_namespace n0 = to_prefix ns" using n(2) by (auto split: if_splits)
      then obtain f0 where "F (ns, gn_id n0) = Some f0" "stores cfg n0 f0"
        using ltm_rel_node_fact [OF rel v n0(1)] by blast
      then show ?thesis
        using n0(2) n(2) stamp_stores [OF okc] by (cases "gn_id n0 = l") (auto simp: end_fact_def at_key_def)
    qed
  qed
  then show ?thesis using g(1) by auto
qed

lemma state_value_inj [simp]: "state_value a = state_value b \<longleftrightarrow> a = b"
  by (cases a; cases b) simp_all

lemma state_value_active [simp]: "state_value a = ''active'' \<longleftrightarrow> a = ACTIVE"
  by (cases a) simp_all

lemma falkor_okD:
  assumes "falkor_ok cfg"
  shows "fk_iso cfg t \<noteq> ''''" "fk_iso cfg a < fk_iso cfg b \<longleftrightarrow> a < b" "fk_iso cfg a \<le> fk_iso cfg b \<longleftrightarrow> a \<le> b"
    "mset (fk_scan cfg xs) = mset xs" "set (fk_scan cfg xs) = set xs" "mono (fk_clock cfg)"
proof -
  show m: "mset (fk_scan cfg xs) = mset xs" using assms by (simp add: falkor_ok_def)
  show "set (fk_scan cfg xs) = set xs" using mset_eq_setD [OF m] .
qed (use assms in \<open>auto simp: falkor_ok_def not_less [symmetric]\<close>)

lemma storesD:
  assumes "stores cfg n f"
  shows "gn_subject n = str_or_empty (mi_subject (ft_item f))"
    "gn_predicate n = str_or_empty (mi_predicate (ft_item f))" "gn_id n = mi_id (ft_item f)"
    "gn_state n = state_value (ft_state f)"
  using assms by (simp_all add: stores_def)

lemma stores_open:
  "\<lbrakk> falkor_ok cfg; stores cfg n f \<rbrakk> \<Longrightarrow> open_after (fk_iso cfg t) n \<longleftrightarrow> ends_after t f"
  by (auto simp: open_after_def ends_after_def stores_def iso_or_empty_def falkor_okD split: option.splits)

lemma stores_active:
  "\<lbrakk> falkor_ok cfg; stores cfg n f; gn_namespace n = p \<rbrakk> \<Longrightarrow> active_node p (fk_iso cfg t) n \<longleftrightarrow> live t f"
  using stores_open [of cfg n f t] by (simp add: active_node_def live_def storesD)

definition valid_from :: "int \<Rightarrow> fact \<Rightarrow> bool" where
  "valid_from t f = (case mi_valid_at (ft_item f) of None \<Rightarrow> False | Some v \<Rightarrow> v \<le> t)"

lemma stores_valid:
  "\<lbrakk> falkor_ok cfg; stores cfg n f \<rbrakk> \<Longrightarrow>
   (gn_valid_at n \<noteq> '''' \<and> gn_valid_at n \<le> fk_iso cfg t) \<longleftrightarrow> valid_from t f"
  by (auto simp: valid_from_def stores_def iso_or_empty_def falkor_okD split: option.splits)

text \<open>The item a node carries.\<close>
definition node_item :: "'j falkor \<Rightarrow> 'j graph_node \<Rightarrow> memory_item" where
  "node_item cfg n = (case fk_load cfg (gn_memory_json n) of Inr m \<Rightarrow> m)"

lemma stores_item [simp]: "stores cfg n f \<Longrightarrow> node_item cfg n = ft_item f"
  by (simp add: node_item_def stores_def)

lemma load_all_items:
  "(\<And>n. n \<in> set rows \<Longrightarrow> \<exists>f. stores cfg n f) \<Longrightarrow> load_all cfg rows = Inr (map (node_item cfg) rows)"
proof (induction rows)
  case (Cons n rows)
  obtain f where "stores cfg n f" using Cons.prems by fastforce
  then have "fk_load cfg (gn_memory_json n) = Inr (node_item cfg n)"
    by (simp add: stores_def node_item_def)
  then show ?case using Cons by (simp add: load_all_def)
qed (simp add: load_all_def)

text \<open>A read that selects the nodes of one namespace by a test on the stored fact.\<close>
lemma selected_items:
  assumes rel: "ltm_rel cfg s F" and v: "valid_ns ns"
    and P: "\<And>n f. \<lbrakk> gn_namespace n = to_prefix ns; stores cfg n f \<rbrakk> \<Longrightarrow> P n = Q f"
    and own: "\<And>n. P n \<Longrightarrow> gn_namespace n = to_prefix ns"
  shows "\<exists>xs. load_all cfg (filter P (fk_scan cfg (g_nodes (graph_of ns s)))) = Inr xs
    \<and> distinct (map mi_id xs) \<and> set xs = {ft_item f | i f. F (ns, i) = Some f \<and> Q f}"
proof -
  let ?nodes = "g_nodes (graph_of ns s)"
  let ?rows = "filter P (fk_scan cfg ?nodes)"
  have okc: "falkor_ok cfg" using rel by (simp add: ltm_rel_def)
  have rows: "n \<in> set ?rows \<longleftrightarrow> n \<in> set ?nodes \<and> P n" for n
    using falkor_okD(5) [OF okc] by auto
  have st: "\<exists>f. F (ns, gn_id n) = Some f \<and> stores cfg n f" if "n \<in> set ?rows" for n
    using that [unfolded rows] ltm_rel_node_fact [OF rel v, of n] own by blast
  have items: "load_all cfg ?rows = Inr (map (node_item cfg) ?rows)"
    using load_all_items [of ?rows cfg] st by blast
  have "distinct (node_keys (fk_scan cfg ?nodes))"
    using graph_of_distinct [OF rel, of ns] falkor_okD(4) [OF okc, of ?nodes] unfolding node_keys_def
    by (metis mset_map mset_eq_imp_distinct_iff)
  then have "distinct (map gn_id ?rows)"
    using own by (auto simp: node_keys_def distinct_map inj_on_def)
  moreover have "mi_id (node_item cfg n) = gn_id n" if "n \<in> set ?rows" for n
    using st [OF that] by (auto simp: stores_def node_item_def)
  then have "map mi_id (map (node_item cfg) ?rows) = map gn_id ?rows" by simp
  moreover have "set (map (node_item cfg) ?rows) = {ft_item f | i f. F (ns, i) = Some f \<and> Q f}" (is "?L = ?R")
  proof
    show "?L \<subseteq> ?R"
    proof
      fix m assume "m \<in> ?L"
      then obtain n where n: "n \<in> set ?rows" "m = node_item cfg n" by auto
      obtain f where f: "F (ns, gn_id n) = Some f" "stores cfg n f" using st [OF n(1)] by blast
      have "Q f" using P [OF _ f(2)] own n(1) [unfolded rows] by blast
      then show "m \<in> ?R" using f n(2) by auto
    qed
    show "?R \<subseteq> ?L"
    proof
      fix m assume "m \<in> ?R"
      then obtain i f where f: "F (ns, i) = Some f" "Q f" "m = ft_item f" by blast
      obtain n where n: "n \<in> set ?nodes" "at_key (to_prefix ns) i n" "stores cfg n f"
        using ltm_rel_fact_node [OF rel f(1)] by blast
      then have "n \<in> set ?rows" unfolding rows using P [OF _ n(3)] f(2) by (simp add: at_key_def)
      then have "node_item cfg n \<in> ?L" by (simp only: set_map imageI)
      then show "m \<in> ?L" using n(3) f(3) by simp
    qed
  qed
  ultimately show ?thesis using items by metis
qed

lemma rel_tick: "ltm_rel cfg (tick s) F = ltm_rel cfg s F"
  by (simp add: ltm_rel_def) (simp add: tick_def)

lemma now_tick: "falkor_ok cfg \<Longrightarrow> now_of cfg s \<le> now_of cfg (tick s)"
  using falkor_okD(6) [of cfg] by (simp add: now_of_def tick_def mono_def)

lemma find_conflicts_spec:
  assumes rel: "ltm_rel cfg s F" and v: "valid_ns ns"
  shows "\<exists>xs. find_conflicts cfg ns subj pred s = (Inr xs, tick s) \<and> distinct (map mi_id xs)
    \<and> set xs = {ft_item f | i f. F (ns, i) = Some f \<and> live (now_of cfg s) f \<and> about subj pred f}"
proof -
  let ?P = "\<lambda>n. active_node (to_prefix ns) (fk_iso cfg (now_of cfg s)) n \<and> gn_subject n = subj
     \<and> gn_predicate n = pred"
  have okc: "falkor_ok cfg" using rel by (simp add: ltm_rel_def)
  have "\<exists>xs. load_all cfg (filter ?P (fk_scan cfg (g_nodes (graph_of ns s)))) = Inr xs
    \<and> distinct (map mi_id xs)
    \<and> set xs = {ft_item f | i f. F (ns, i) = Some f \<and> (live (now_of cfg s) f \<and> about subj pred f)}"
  proof (rule selected_items [OF rel v])
    show "?P n = (live (now_of cfg s) f \<and> about subj pred f)"
      if "gn_namespace n = to_prefix ns" "stores cfg n f" for n f
      using stores_active [OF okc that(2,1)] storesD [OF that(2)] by (simp add: about_def)
  qed (simp add: active_node_def)
  then show ?thesis unfolding find_conflicts_def by auto
qed

lemma facts_at_spec:
  assumes rel: "ltm_rel cfg s F" and v: "valid_ns ns"
  shows "\<exists>xs. facts_at cfg ns t subj s = Inr xs \<and> distinct (map mi_id xs)
    \<and> set xs = {ft_item f | i f. F (ns, i) = Some f \<and> (valid_from t f \<and> ends_after t f
         \<and> matches subj (str_or_empty (mi_subject (ft_item f))))}"
  unfolding facts_at_def Let_def
proof (rule selected_items [OF rel v])
  have okc: "falkor_ok cfg" using rel by (simp add: ltm_rel_def)
  show "(gn_namespace n = to_prefix ns \<and> gn_valid_at n \<noteq> '''' \<and> gn_valid_at n \<le> fk_iso cfg t
       \<and> open_after (fk_iso cfg t) n \<and> matches subj (gn_subject n))
     = (valid_from t f \<and> ends_after t f \<and> matches subj (str_or_empty (mi_subject (ft_item f))))"
    if "gn_namespace n = to_prefix ns" "stores cfg n f" for n f
    using stores_valid [OF okc that(2), of t] stores_open [OF okc that(2), of t] storesD [OF that(2)] that(1)
    by auto
qed simp

interpretation ltm: graph_store "upsert_fact cfg" "find_conflicts cfg" "invalidate cfg" "ltm_rel cfg"
  "now_of cfg" storable_item for cfg
proof (unfold_locales, goal_cases)
  case (1 s F)
  then show ?case by (simp add: ltm_rel_def)
next
  case (2 s F m)
  then show ?case by (rule upsert_rel)
next
  case (3 s F m)
  then show ?case by (intro upsert_not_storable)
next
  case (4 s F ns subj pred)
  then show ?case
    using find_conflicts_spec [of cfg s F ns subj pred] now_tick [of cfg s] rel_tick [of cfg s F]
    by (metis ltm_rel_def)
next
  case (5 s F ns l w t r)
  then show ?case by (rule invalidate_rel)
qed

text \<open>The order of the recall query: latest start of validity first, undated facts last.\<close>
definition newer_eq :: "memory_item \<Rightarrow> memory_item \<Rightarrow> bool" where
  "newer_eq a b = (case mi_valid_at b of None \<Rightarrow> True
     | Some y \<Rightarrow> (case mi_valid_at a of None \<Rightarrow> False | Some x \<Rightarrow> y \<le> x))"

lemma mset_order_desc [simp]: "mset (order_desc f xs) = mset xs"
  by (simp add: order_desc_def)

lemma set_order_desc [simp]: "set (order_desc f xs) = set xs"
  by (simp add: order_desc_def)

lemma sorted_order_desc: "sorted_wrt (\<lambda>a b. f b \<le> f a) (order_desc f xs)"
  using sorted_sort_key [of f xs] by (simp add: order_desc_def sorted_wrt_rev sorted_map)

lemma iso_newer:
  assumes "falkor_ok cfg"
  shows "iso_or_empty cfg (mi_valid_at b) \<le> iso_or_empty cfg (mi_valid_at a) \<longleftrightarrow> newer_eq a b"
  using falkor_okD [OF assms]
  by (simp add: newer_eq_def iso_or_empty_def split: option.splits)

lemma graph_recall_spec:
  fixes cfg :: "'j falkor"
  assumes rel: "ltm_rel cfg s F" and v: "valid_ns ns"
  shows "\<exists>fl ys. graph_recall cfg ns subj pred k caller s = (Inr fl, tick s)
    \<and> map sc_item fl = take k ys \<and> distinct (map mi_id ys) \<and> sorted_wrt newer_eq ys
    \<and> set ys \<subseteq> {ft_item f | i f. F (ns, i) = Some f \<and> live (now_of cfg s) f
         \<and> matches subj (str_or_empty (mi_subject (ft_item f)))
         \<and> matches pred (str_or_empty (mi_predicate (ft_item f)))}
    \<and> (caller = None \<or> ns_visibility ns = PRIVATE \<longrightarrow>
        set ys = {ft_item f | i f. F (ns, i) = Some f \<and> live (now_of cfg s) f
         \<and> matches subj (str_or_empty (mi_subject (ft_item f)))
         \<and> matches pred (str_or_empty (mi_predicate (ft_item f)))})"
proof -
  have okc: "falkor_ok cfg" using rel by (simp add: ltm_rel_def)
  let ?P = "\<lambda>n. active_node (to_prefix ns) (fk_iso cfg (now_of cfg s)) n
     \<and> matches subj (gn_subject n) \<and> matches pred (gn_predicate n)"
  let ?PA = "\<lambda>n. active_node (to_prefix ns) (fk_iso cfg (now_of cfg s)) n
     \<and> matches subj (gn_subject n) \<and> matches pred (gn_predicate n) \<and> authorized_node ns caller n"
  let ?Q = "\<lambda>f. live (now_of cfg s) f \<and> matches subj (str_or_empty (mi_subject (ft_item f)))
     \<and> matches pred (str_or_empty (mi_predicate (ft_item f)))"
  let ?scan = "fk_scan cfg (g_nodes (graph_of ns s))"
  let ?rows = "order_desc gn_valid_at (filter ?PA ?scan)"
  have st: "\<exists>f. stores cfg n f" if "n \<in> set ?scan" "?P n" for n
  proof -
    have "n \<in> set (g_nodes (graph_of ns s))" "gn_namespace n = to_prefix ns"
      using that falkor_okD(5) [OF okc] by (simp_all add: active_node_def)
    then show ?thesis using ltm_rel_node_fact [OF rel v] by blast
  qed
  have "\<exists>xs. load_all cfg (filter ?P ?scan) = Inr xs \<and> distinct (map mi_id xs)
      \<and> set xs = {ft_item f | i f. F (ns, i) = Some f \<and> ?Q f}"
  proof (rule selected_items [OF rel v])
    show "?P n = ?Q f" if "gn_namespace n = to_prefix ns" "stores cfg n f" for n f
      using stores_active [OF okc that(2,1)] storesD [OF that(2)] by simp
  qed (simp add: active_node_def)
  then obtain xs where xs: "load_all cfg (filter ?P ?scan) = Inr xs" "distinct (map mi_id xs)"
    "set xs = {ft_item f | i f. F (ns, i) = Some f \<and> ?Q f}" by blast
  have rd: "load_all cfg rows = Inr (map (node_item cfg) rows)"
    if "\<And>n. n \<in> set rows \<Longrightarrow> n \<in> set ?scan \<and> ?P n" for rows
    by (rule load_all_items) (use that st in blast)
  have "load_all cfg (filter ?P ?scan) = Inr (map (node_item cfg) (filter ?P ?scan))"
    by (rule rd) simp
  then have "xs = map (node_item cfg) (filter ?P ?scan)" using xs(1) by simp
  then have base: "distinct (map mi_id (map (node_item cfg) (filter ?P ?scan)))"
    "set (map (node_item cfg) (filter ?P ?scan)) = {ft_item f | i f. F (ns, i) = Some f \<and> ?Q f}"
    using xs(2,3) by simp_all
  have sub: "filter ?PA ?scan = filter (authorized_node ns caller) (filter ?P ?scan)"
    by (simp only: filter_filter conj_assoc)
  let ?ys = "map (node_item cfg) ?rows"
  have "distinct (map mi_id (map (node_item cfg) (filter ?PA ?scan)))"
    using base(1) unfolding sub map_map by (rule distinct_map_filter)
  moreover have "mset (map mi_id ?ys) = mset (map mi_id (map (node_item cfg) (filter ?PA ?scan)))"
    by (simp only: mset_map mset_order_desc)
  ultimately have d: "distinct (map mi_id ?ys)"
    using mset_eq_imp_distinct_iff by blast
  have sorted: "sorted_wrt newer_eq ?ys"
    unfolding sorted_wrt_map
  proof (rule sorted_wrt_mono_rel [OF _ sorted_order_desc])
    fix x y assume xy: "x \<in> set ?rows" "y \<in> set ?rows" "gn_valid_at y \<le> gn_valid_at x"
    have "x \<in> set ?scan \<and> ?P x" "y \<in> set ?scan \<and> ?P y" using xy(1,2) by simp_all
    then obtain f g where "stores cfg x f" "stores cfg y g" using st by blast
    then have "gn_valid_at x = iso_or_empty cfg (mi_valid_at (node_item cfg x))"
      "gn_valid_at y = iso_or_empty cfg (mi_valid_at (node_item cfg y))"
      by (simp_all add: stores_def node_item_def)
    then show "newer_eq (node_item cfg x) (node_item cfg y)"
      using xy(3) iso_newer [OF okc] by simp
  qed
  have sub_ys: "set ?ys \<subseteq> {ft_item f | i f. F (ns, i) = Some f \<and> ?Q f}"
    unfolding base(2) [symmetric] by (simp only: set_map set_order_desc sub) (rule image_mono, auto)
  have all_ys: "caller = None \<or> ns_visibility ns = PRIVATE \<longrightarrow>
      set ?ys = {ft_item f | i f. F (ns, i) = Some f \<and> ?Q f}"
  proof
    assume "caller = None \<or> ns_visibility ns = PRIVATE"
    then have "authorized_node ns caller n" for n :: "'j graph_node"
      by (auto simp: authorized_node_def split: option.splits)
    then have "filter ?PA ?scan = filter ?P ?scan" by (intro filter_cong) simp_all
    then have "set ?ys = set (map (node_item cfg) (filter ?P ?scan))"
      by (simp only: set_map set_order_desc)
    then show "set ?ys = {ft_item f | i f. F (ns, i) = Some f \<and> ?Q f}"
      unfolding base(2) .
  qed
  have "load_all cfg (take k ?rows) = Inr (take k ?ys)"
    unfolding take_map
  proof (rule rd)
    fix n assume "n \<in> set (take k ?rows)"
    then have "n \<in> set ?rows" by (rule in_set_takeD)
    then show "n \<in> set ?scan \<and> ?P n" by simp
  qed
  then have run: "graph_recall cfg ns subj pred k caller s =
      (Inr (map (\<lambda>(rank, m). graph_scored rank m) (List.enumerate 0 (take k ?ys))), tick s)"
    by (simp only: graph_recall_def rbind_simps)
  have "map sc_item (map (\<lambda>(rank, m). graph_scored rank m) (List.enumerate j xs)) = xs" for j xs
    by (induction xs arbitrary: j) (simp_all add: graph_scored_def)
  then show ?thesis
    using run d sorted sub_ys all_ys
    by (intro exI [of _ "map (\<lambda>(rank, m). graph_scored rank m) (List.enumerate 0 (take k ?ys))"]
        exI [of _ ?ys] conjI) assumption+
qed

section \<open>Properties\<close>


text \<open>A configuration that satisfies the hypotheses: a unary order-preserving printer of instants,
  items carried as they are, nodes enumerated in storage order, a counting clock.\<close>
definition unary_iso :: "int \<Rightarrow> string" where
  "unary_iso t = (if t \<ge> 0 then replicate (nat t + 1) (CHR ''b'')
     else replicate (nat (- t)) (CHR ''a'') @ [CHR ''b''])"

lemma unary_below:
  "m < n \<Longrightarrow> replicate m c < (replicate n c :: 'a::linorder list)"
proof (induction m arbitrary: n)
  case 0
  then show ?case by (cases n) simp_all
next
  case (Suc m)
  then show ?case by (cases n) simp_all
qed

lemma unary_above:
  "m < n \<Longrightarrow> replicate n (CHR ''a'') @ [CHR ''b''] < replicate m (CHR ''a'') @ [CHR ''b'']"
proof (induction m arbitrary: n)
  case 0
  then show ?case by (cases n) (simp_all add: Cons_less_Cons less_char_def)
next
  case (Suc m)
  then show ?case by (cases n) simp_all
qed

lemma unary_iso_less: "a < b \<Longrightarrow> unary_iso a < unary_iso b"
  by (auto simp: unary_iso_def nat_less_iff Cons_less_Cons less_char_def
      intro!: unary_below unary_above)
    (cases "nat (- a)", simp_all add: Cons_less_Cons less_char_def)

lemma unary_iso_iff: "unary_iso a < unary_iso b \<longleftrightarrow> a < b"
  using unary_iso_less [of a b] unary_iso_less [of b a] by (metis less_asym less_linear order_less_irrefl)

definition demo_falkor :: "memory_item falkor" where
  "demo_falkor = \<lparr>fk_iso = unary_iso, fk_dump = (\<lambda>m. m), fk_load = Inr, fk_scan = (\<lambda>xs. xs),
     fk_clock = int, fk_casefold = (\<lambda>s. s), fk_shortlist_size = 5, fk_similarity_threshold = 21 / 25\<rparr>"

lemma demo_falkor_ok [simp]: "falkor_ok demo_falkor"
  by (auto simp: falkor_ok_def demo_falkor_def unary_iso_iff mono_def) (simp add: unary_iso_def split: if_splits)

definition empty_falkor :: "'j falkor_state" where
  "empty_falkor = \<lparr>fs_db = [], fs_tick = 0\<rparr>"

lemma empty_falkor_rel: "falkor_ok cfg \<Longrightarrow> ltm_rel cfg empty_falkor (\<lambda>_. None)"
  by (simp add: ltm_rel_def facts_ok_def empty_falkor_def graph_of_def dict_default_def empty_graph_def)

definition ltm_demo_ns :: namespace where
  "ltm_demo_ns = \<lparr>ns_org = ''o'', ns_workspace = ''w'', ns_user = ''u'', ns_session = ''s'',
     ns_visibility = PRIVATE\<rparr>"

lemma ltm_demo_ns_valid [simp]: "valid_ns ltm_demo_ns"
  by (simp add: ltm_demo_ns_def valid_ns_def legal_component_def forbidden_ns_chars_def
      shared_sentinel_ok_def)

definition demo_fact :: "string \<Rightarrow> string \<Rightarrow> int \<Rightarrow> memory_item" where
  "demo_fact mid obj t = (default_item t mid ''text'' ltm_demo_ns ''u'' ''w'' ''s'')
     \<lparr>mi_tier := LTM, mi_subject := Some ''Ada'', mi_predicate := Some ''lives_in'', mi_object := Some obj,
      mi_valid_at := Some t\<rparr>"

lemma demo_fact_simps [simp]:
  "mi_namespace (demo_fact i x t) = ltm_demo_ns" "mi_id (demo_fact i x t) = i" "storable_item (demo_fact i x t)"
  by (simp_all add: demo_fact_def default_item_def storable_item_def ltm_demo_ns_def)

text \<open>The graph after one upsert.\<close>
definition demo_ltm :: "memory_item falkor_state" where
  "demo_ltm = snd (upsert_fact demo_falkor (demo_fact ''m1'' ''Paris'' 3) empty_falkor)"

definition demo_facts :: facts where
  "demo_facts = (\<lambda>_. None)((ltm_demo_ns, ''m1'') \<mapsto> fact_of (demo_fact ''m1'' ''Paris'' 3))"

lemma demo_ltm_rel: "ltm_rel demo_falkor demo_ltm demo_facts"
proof -
  obtain s' where "upsert_fact demo_falkor (demo_fact ''m1'' ''Paris'' 3) empty_falkor = (Inr (), s')"
    "ltm_rel demo_falkor s' (put_fact (demo_fact ''m1'' ''Paris'' 3) (\<lambda>_. None))"
    using ltm.upsert_stored [OF empty_falkor_rel [OF demo_falkor_ok], of "demo_fact ''m1'' ''Paris'' 3"]
    by (metis demo_fact_simps(1,3) ltm_demo_ns_valid)
  then show ?thesis by (simp add: demo_ltm_def demo_facts_def put_fact_def)
qed


lemma facts_ok_id: "\<lbrakk> facts_ok F; F (ns, i) = Some f \<rbrakk> \<Longrightarrow> mi_id (ft_item f) = i"
  by (auto simp: facts_ok_def fact_ok_def)

lemma closed_ends_after:
  "ft_invalid f = None \<Longrightarrow> ends_after q (close_fact t f) \<longleftrightarrow> ends_after q f \<and> q < t"
  by (simp add: ends_after_def close_fact_def)

text \<open>
  Invalidate-don't-delete, as of any instant: ending a fact that had no end changes no as-of read
  before the end, and from the end on removes exactly that fact from every as-of read; the records
  the reads return are the ones written, untouched by the invalidation, and the fact is never again
  among the conflict candidates, at any later clock reading, whether or not a winner exists.
\<close>
theorem invalidation_is_bitemporal:
  assumes "ltm_rel cfg s F" and "valid_ns ns" and "F (ns, l) = Some f" and "ft_invalid f = None"
    and "invalidate cfg ns l w t reason s = (x, s')"
  shows "x = Inr () \<and>
    (\<exists>xs ys. facts_at cfg ns q subj s = Inr xs \<and> facts_at cfg ns q subj s' = Inr ys
      \<and> set ys = (if q < t then set xs else {m \<in> set xs. mi_id m \<noteq> l})
      \<and> (\<exists>zs. find_conflicts cfg ns a b s' = (Inr zs, tick s') \<and> l \<notin> mi_id ` set zs))"
proof -
  let ?F = "end_fact ns l t F"
  have s': "x = Inr ()" "ltm_rel cfg s' ?F"
    using invalidate_rel [OF assms(1,2), of l w t reason] assms(5) by auto
  have ok: "facts_ok F" "facts_ok ?F"
    using ltm.rel_ok assms(1) s'(2) by blast+
  let ?Q = "\<lambda>f. valid_from q f \<and> ends_after q f \<and> matches subj (str_or_empty (mi_subject (ft_item f)))"
  have step: "?F (ns, i) = (if i = l then Some (close_fact t f) else F (ns, i))" for i
    using assms(3) by (simp add: end_fact_def)
  have same_item [simp]: "ft_item (close_fact t f) = ft_item f" "valid_from q (close_fact t f) = valid_from q f"
    by (simp_all add: close_fact_def valid_from_def)
  have ids: "F (ns, i) = Some g \<Longrightarrow> mi_id (ft_item g) = i" for i g
    using facts_ok_id [OF ok(1)] .
  have sel: "m \<in> {ft_item g | i g. G (ns, i) = Some g \<and> ?Q g}
      \<longleftrightarrow> (\<exists>i g. G (ns, i) = Some g \<and> ?Q g \<and> m = ft_item g)" for m and G :: facts
    by blast
  have "{ft_item g | i g. ?F (ns, i) = Some g \<and> ?Q g} =
      (if q < t then {ft_item g | i g. F (ns, i) = Some g \<and> ?Q g}
       else {m \<in> {ft_item g | i g. F (ns, i) = Some g \<and> ?Q g}. mi_id m \<noteq> l})" (is "?L = ?R")
  proof (rule set_eqI)
    fix m
    have "(\<exists>g. ?F (ns, i) = Some g \<and> ?Q g \<and> m = ft_item g)
       = (\<exists>g. F (ns, i) = Some g \<and> ?Q g \<and> m = ft_item g \<and> (q < t \<or> mi_id m \<noteq> l))" for i
      using closed_ends_after [OF assms(4), of q t] assms(3) ids [of i] by (auto simp: step)
    then have "m \<in> ?L \<longleftrightarrow> (\<exists>i g. F (ns, i) = Some g \<and> ?Q g \<and> m = ft_item g \<and> (q < t \<or> mi_id m \<noteq> l))"
      unfolding sel by simp
    also have "\<dots> \<longleftrightarrow> m \<in> ?R"
      by (cases "q < t") (simp_all, blast+)
    finally show "m \<in> ?L \<longleftrightarrow> m \<in> ?R" .
  qed
  moreover obtain xs where "facts_at cfg ns q subj s = Inr xs" "set xs = {ft_item g | i g. F (ns, i) = Some g \<and> ?Q g}"
    using facts_at_spec [OF assms(1,2), of q subj] by blast
  moreover obtain ys where "facts_at cfg ns q subj s' = Inr ys" "set ys = ?L"
    using facts_at_spec [OF s'(2) assms(2), of q subj] by blast
  moreover obtain zs where zs: "find_conflicts cfg ns a b s' = (Inr zs, tick s')"
    "set zs = {ft_item g | i g. ?F (ns, i) = Some g \<and> live (now_of cfg s') g \<and> about a b g}"
    using find_conflicts_spec [OF s'(2) assms(2), of a b] by blast
  moreover have "l \<notin> mi_id ` set zs"
    unfolding zs(2) using ids by (auto simp: step live_def close_fact_def split: if_splits)
  ultimately show ?thesis using s'(1) by auto
qed

theorem invalidation_is_bitemporal_witness:
  "\<exists>xs ys s'. facts_at demo_falkor ltm_demo_ns 7 None demo_ltm = Inr xs
     \<and> invalidate demo_falkor ltm_demo_ns ''m1'' ''m2'' 6 ''r'' demo_ltm = (Inr (), s')
     \<and> facts_at demo_falkor ltm_demo_ns 7 None s' = Inr ys \<and> set ys = {m \<in> set xs. mi_id m \<noteq> ''m1''}"
proof -
  obtain s' where s': "invalidate demo_falkor ltm_demo_ns ''m1'' ''m2'' 6 ''r'' demo_ltm = (Inr (), s')"
    using invalidate_rel [OF demo_ltm_rel ltm_demo_ns_valid] by blast
  have f: "demo_facts (ltm_demo_ns, ''m1'') = Some (fact_of (demo_fact ''m1'' ''Paris'' 3))"
    by (simp add: demo_facts_def)
  have "ft_invalid (fact_of (demo_fact ''m1'' ''Paris'' 3)) = None"
    by (simp add: fact_of_def demo_fact_def default_item_def)
  from invalidation_is_bitemporal [OF demo_ltm_rel ltm_demo_ns_valid f this s', of 7 None "''x''" "''y''"]
  show ?thesis using s' by auto
qed

end
