(* ===== verification/Distill.thy ===== *)
theory Distill
  imports Ltm_Graph Ingest
begin

text \<open>
  The DISTILL pipeline (pipelines/distill.py): facts of the mid-term window become bi-temporal
  facts of the long-term graph. The stores, the bus, the clock with the id supply, the extractor and
  the hash are the ports record; the graph store is used through the contract of locale graph_store,
  whose laws carry every proof, and is the FalkorDB adapter in the properties. The writer lease makes
  a consolidation of one namespace exclusive, so it is one run of distill_inner.
\<close>

section \<open>Data\<close>

record distill_settings =
  ds_candidate_k :: int
  ds_supersede_confidence :: rat
  ds_refine_confidence :: rat
  ds_use_llm_extractor :: bool
  ds_functional_predicates :: "string list"

definition default_distill_settings :: distill_settings where
  "default_distill_settings = \<lparr>ds_candidate_k = 5, ds_supersede_confidence = 4 / 5,
     ds_refine_confidence = 1 / 2, ds_use_llm_extractor = False,
     ds_functional_predicates = [''is'', ''lives_in'', ''live_in'', ''lived_in'', ''resides_in'',
       ''works_at'', ''work_at'', ''worked_at'', ''based_in'', ''located_in'', ''moved_to'',
       ''relocated_to'', ''reports_to'']\<rparr>"

datatype action_kind = ADD | NOOP | SUPERSEDE | SELF_EXPIRE | COEXIST

record distill_action =
  da_kind :: action_kind
  da_winner_id :: string
  da_loser_ids :: "string list"
  da_subject :: string
  da_predicate :: string
  da_object :: string
  da_valid_at :: int
  da_valid_at_inferred :: bool
  da_reason :: string

record distill_report =
  dr_facts_extracted :: nat
  dr_actions :: "distill_action list"

definition report_added :: "distill_report \<Rightarrow> nat" where
  "report_added r = length (filter (\<lambda>a. da_kind a = ADD) (dr_actions r))"

definition report_superseded :: "distill_report \<Rightarrow> nat" where
  "report_superseded r = sum_list (map (\<lambda>a. length (da_loser_ids a)) (dr_actions r))"

definition report_noop :: "distill_report \<Rightarrow> nat" where
  "report_noop r = length (filter (\<lambda>a. da_kind a = NOOP) (dr_actions r))"

text \<open>ExtractedFact (services/extract.py)\<close>
record extracted_fact =
  ef_subject :: string
  ef_predicate :: string
  ef_object :: string
  ef_polarity :: polarity
  ef_object_kind :: fact_object_kind
  ef_content :: string
  ef_valid_at :: "int option"
  ef_valid_at_inferred :: bool
  ef_source_span :: "(int \<times> int) option"

text \<open>The world: graph store, mid-term store, bus, and the clock with the id supply.\<close>
record ('g, 'm, 'b, 'c) dworld =
  dw_ltm :: 'g
  dw_mtm :: 'm
  dw_bus :: 'b
  dw_clock :: 'c

text \<open>The injected collaborators; no mid-term store or no bus is None.\<close>
record ('g, 'm, 'b, 'c) distill_ports =
  dp_upsert :: "memory_item \<Rightarrow> ('g, unit) eff"
  dp_find :: "namespace \<Rightarrow> string \<Rightarrow> string \<Rightarrow> ('g, memory_item list) eff"
  dp_invalidate :: "namespace \<Rightarrow> string \<Rightarrow> string \<Rightarrow> int \<Rightarrow> string \<Rightarrow> ('g, unit) eff"
  dp_mtm_invalidate :: "(namespace \<Rightarrow> string \<Rightarrow> string \<Rightarrow> int \<Rightarrow> string \<Rightarrow> ('m, unit) eff) option"
  dp_publish :: "(domain_event \<Rightarrow> ('b, unit) eff) option"
  dp_now :: "('c, int) eff"
  dp_utcnow :: "('c, int) eff"
  dp_new_id :: "('c, string) eff"
  dp_extract :: "string \<Rightarrow> int \<Rightarrow> extracted_fact list or_raise"
  dp_sha256 :: "string \<Rightarrow> string"
  dp_str :: "meta_value \<Rightarrow> string"
  dp_settings :: distill_settings

definition on_ltm :: "('g, 'a) eff \<Rightarrow> (('g, 'm, 'b, 'c) dworld, 'a) eff" where
  "on_ltm f w = (case f (dw_ltm w) of (r, s) \<Rightarrow> (r, w\<lparr>dw_ltm := s\<rparr>))"

definition on_mtm :: "('m, 'a) eff \<Rightarrow> (('g, 'm, 'b, 'c) dworld, 'a) eff" where
  "on_mtm f w = (case f (dw_mtm w) of (r, s) \<Rightarrow> (r, w\<lparr>dw_mtm := s\<rparr>))"

definition on_dbus :: "('b, 'a) eff \<Rightarrow> (('g, 'm, 'b, 'c) dworld, 'a) eff" where
  "on_dbus f w = (case f (dw_bus w) of (r, s) \<Rightarrow> (r, w\<lparr>dw_bus := s\<rparr>))"

definition on_clock :: "('c, 'a) eff \<Rightarrow> (('g, 'm, 'b, 'c) dworld, 'a) eff" where
  "on_clock f w = (case f (dw_clock w) of (r, s) \<Rightarrow> (r, w\<lparr>dw_clock := s\<rparr>))"

section \<open>Candidate facts\<close>

text \<open>_valid_at\<close>
definition valid_at_of :: "memory_item \<Rightarrow> int" where
  "valid_at_of m = (case mi_valid_at m of None \<Rightarrow> mi_created_at m | Some v \<Rightarrow> v)"

definition promote_structured :: "int \<Rightarrow> memory_item \<Rightarrow> memory_item" where
  "promote_structured now m =
     (let w = m\<lparr>mi_tier := LTM, mi_state := ACTIVE, mi_updated_at := now\<rparr>
      in case mi_valid_at m of
           None \<Rightarrow> w\<lparr>mi_valid_at := Some (mi_created_at m),
                     mi_metadata := dict_put ''valid_at_inferred'' (MBool True) (mi_metadata m)\<rparr>
         | Some _ \<Rightarrow> w)"

definition span_meta :: "(int \<times> int) option \<Rightarrow> meta_value" where
  "span_meta s = (case s of None \<Rightarrow> MNone | Some (a, b) \<Rightarrow> MSpan a b)"

text \<open>The item minted for an extracted fact, given what the default factories supply.\<close>
definition fact_item ::
  "(string \<Rightarrow> string) \<Rightarrow> namespace \<Rightarrow> memory_item \<Rightarrow> extracted_fact \<Rightarrow> int \<Rightarrow> string \<Rightarrow> int \<Rightarrow> int \<Rightarrow> memory_item" where
  "fact_item sha ns source f now mid created updated =
     (let meta = [(''derived_from'', MStr (mi_id source)), (''extractor_span'', span_meta (ef_source_span f))]
            @ (if ef_valid_at_inferred f then [(''valid_at_inferred'', MBool True)] else [])
      in post_init sha ((default_item created mid (ef_content f) ns (mi_owner_id source)
            (mi_workspace_id source) (mi_session_id source))
          \<lparr>mi_updated_at := updated, mi_subject := Some (ef_subject f), mi_predicate := Some (ef_predicate f),
           mi_object := Some (ef_object f), mi_object_kind := Some (ef_object_kind f),
           mi_polarity := ef_polarity f, mi_tier := LTM, mi_state := ACTIVE, mi_source := Src_INFERRED,
           mi_valid_at := Some (case ef_valid_at f of None \<Rightarrow> now | Some v \<Rightarrow> v),
           mi_importance_score := mi_importance_score source, mi_metadata := meta\<rparr>))"

definition fact_to_item ::
  "('g, 'm, 'b, 'c) distill_ports \<Rightarrow> namespace \<Rightarrow> memory_item \<Rightarrow> int \<Rightarrow> extracted_fact
   \<Rightarrow> (('g, 'm, 'b, 'c) dworld, memory_item) eff" where
  "fact_to_item p ns source now f =
     seq (on_clock (dp_new_id p)) (\<lambda>mid. seq (on_clock (dp_utcnow p)) (\<lambda>created.
     seq (on_clock (dp_utcnow p)) (\<lambda>updated.
       ret (fact_item (dp_sha256 p) ns source f now mid created updated))))"

text \<open>A comprehension whose element expression has effects.\<close>
fun map_eff :: "('a \<Rightarrow> ('w, 'b) eff) \<Rightarrow> 'a list \<Rightarrow> ('w, 'b list) eff" where
  "map_eff f [] = ret []"
| "map_eff f (x # xs) = seq (f x) (\<lambda>y. seq (map_eff f xs) (\<lambda>ys. ret (y # ys)))"

definition structured :: "memory_item \<Rightarrow> bool" where
  "structured m = (truthy (mi_subject m) \<and> truthy (mi_predicate m) \<and> truthy (mi_object m))"

definition collect_one ::
  "('g, 'm, 'b, 'c) distill_ports \<Rightarrow> namespace \<Rightarrow> int \<Rightarrow> memory_item
   \<Rightarrow> (('g, 'm, 'b, 'c) dworld, memory_item list) eff" where
  "collect_one p ns now item =
     (if structured item then ret [promote_structured now item]
      else seq (lift_result (dp_extract p (mi_content item) now)) (map_eff (fact_to_item p ns item now)))"

definition collect_facts ::
  "('g, 'm, 'b, 'c) distill_ports \<Rightarrow> namespace \<Rightarrow> memory_item list
   \<Rightarrow> (('g, 'm, 'b, 'c) dworld, memory_item list) eff" where
  "collect_facts p ns window =
     seq (on_clock (dp_now p)) (\<lambda>now.
       seq (map_eff (collect_one p ns now) window) (\<lambda>parts. ret (concat parts)))"

section \<open>Reconciliation\<close>

text \<open>_contradicts: opposite polarity of the same triple, or another object under a
  single-cardinality predicate.\<close>
definition contradicts :: "distill_settings \<Rightarrow> memory_item \<Rightarrow> memory_item \<Rightarrow> bool" where
  "contradicts st winner c =
     (let same_object = (str_or_empty (mi_object c) = str_or_empty (mi_object winner))
      in if same_object \<and> mi_polarity c \<noteq> mi_polarity winner then True
         else \<not> same_object
              \<and> py_lower (str_or_empty (mi_predicate winner)) \<in> set (ds_functional_predicates st))"

text \<open>_mtm_point_id\<close>
definition mtm_point_id :: "(meta_value \<Rightarrow> string) \<Rightarrow> memory_item \<Rightarrow> string" where
  "mtm_point_id str m = (case dict_get (mi_metadata m) ''derived_from'' of
       None \<Rightarrow> mi_id m
     | Some (MStr s) \<Rightarrow> if s \<noteq> '''' then s else mi_id m
     | Some (MStrs xs) \<Rightarrow> if xs \<noteq> [] then str (MStrs xs) else mi_id m
     | Some (MNum q) \<Rightarrow> if q \<noteq> 0 then str (MNum q) else mi_id m
     | Some (MBool b) \<Rightarrow> if b then str (MBool b) else mi_id m
     | Some (MSpan a b) \<Rightarrow> str (MSpan a b)
     | Some MNone \<Rightarrow> mi_id m)"

definition meta_truthy :: "meta_value option \<Rightarrow> bool" where
  "meta_truthy v = (case v of
       None \<Rightarrow> False | Some (MStr s) \<Rightarrow> s \<noteq> '''' | Some (MStrs xs) \<Rightarrow> xs \<noteq> [] | Some (MNum q) \<Rightarrow> q \<noteq> 0
     | Some (MBool b) \<Rightarrow> b | Some (MSpan _ _) \<Rightarrow> True | Some MNone \<Rightarrow> False)"

definition mk_action :: "action_kind \<Rightarrow> memory_item \<Rightarrow> string list \<Rightarrow> string \<Rightarrow> distill_action" where
  "mk_action kind winner losers reason =
     \<lparr>da_kind = kind, da_winner_id = mi_id winner, da_loser_ids = losers,
      da_subject = str_or_empty (mi_subject winner), da_predicate = str_or_empty (mi_predicate winner),
      da_object = str_or_empty (mi_object winner), da_valid_at = valid_at_of winner,
      da_valid_at_inferred = meta_truthy (dict_get (mi_metadata winner) ''valid_at_inferred''),
      da_reason = reason\<rparr>"

definition publish_if :: "('g, 'm, 'b, 'c) distill_ports \<Rightarrow> domain_event \<Rightarrow> (('g, 'm, 'b, 'c) dworld, unit) eff" where
  "publish_if p e = (case dp_publish p of None \<Rightarrow> ret () | Some f \<Rightarrow> on_dbus (f e))"

definition maybe_promote_event ::
  "('g, 'm, 'b, 'c) distill_ports \<Rightarrow> namespace \<Rightarrow> memory_item \<Rightarrow> (('g, 'm, 'b, 'c) dworld, unit) eff" where
  "maybe_promote_event p ns m = publish_if p (MemoryPromoted ns (mi_id m) MTM LTM ''distill'')"

text \<open>max(xs, key=f): the first of the maximal elements.\<close>
fun first_max :: "('a \<Rightarrow> 'k::linorder) \<Rightarrow> 'a \<Rightarrow> 'a list \<Rightarrow> 'a" where
  "first_max f best [] = best"
| "first_max f best (x # xs) = first_max f (if f best < f x then x else best) xs"

definition mtm_invalidate_if ::
  "('g, 'm, 'b, 'c) distill_ports \<Rightarrow> namespace \<Rightarrow> memory_item \<Rightarrow> memory_item
   \<Rightarrow> (('g, 'm, 'b, 'c) dworld, unit) eff" where
  "mtm_invalidate_if p ns loser winner = (case dp_mtm_invalidate p of
       None \<Rightarrow> ret ()
     | Some f \<Rightarrow> on_mtm (f ns (mtm_point_id (dp_str p) loser) (mtm_point_id (dp_str p) winner)
                          (valid_at_of winner) ''functional_supersede''))"

text \<open>The body of the loop over the losers.\<close>
definition supersede_one ::
  "('g, 'm, 'b, 'c) distill_ports \<Rightarrow> namespace \<Rightarrow> memory_item \<Rightarrow> memory_item
   \<Rightarrow> (('g, 'm, 'b, 'c) dworld, unit) eff" where
  "supersede_one p ns winner loser =
     seq (on_ltm (dp_invalidate p ns (mi_id loser) (mi_id winner) (valid_at_of winner) ''functional_supersede''))
       (\<lambda>_. seq (mtm_invalidate_if p ns loser winner)
       (\<lambda>_. publish_if p (MemorySuperseded ns (mi_id loser) (mi_id winner) (valid_at_of winner))))"

definition apply_noop ::
  "('g, 'm, 'b, 'c) distill_ports \<Rightarrow> memory_item \<Rightarrow> (('g, 'm, 'b, 'c) dworld, distill_action) eff" where
  "apply_noop p identical =
     seq (on_clock (dp_now p)) (\<lambda>now.
       let reinforced = identical\<lparr>mi_access_count := mi_access_count identical + 1, mi_updated_at := now\<rparr>
       in seq (on_ltm (dp_upsert p reinforced)) (\<lambda>_.
            ret (mk_action NOOP reinforced [] ''identical_active_fact'')))"

definition apply_add ::
  "('g, 'm, 'b, 'c) distill_ports \<Rightarrow> namespace \<Rightarrow> memory_item list \<Rightarrow> memory_item
   \<Rightarrow> (('g, 'm, 'b, 'c) dworld, distill_action) eff" where
  "apply_add p ns candidates winner =
     seq (on_ltm (dp_upsert p winner)) (\<lambda>_. seq (maybe_promote_event p ns winner) (\<lambda>_.
       ret (mk_action (if candidates = [] then ADD else COEXIST) winner []
              (if candidates = [] then ''new_subject_predicate'' else ''non_functional_coexist''))))"

definition apply_self_expire ::
  "('g, 'm, 'b, 'c) distill_ports \<Rightarrow> namespace \<Rightarrow> memory_item \<Rightarrow> memory_item
   \<Rightarrow> (('g, 'm, 'b, 'c) dworld, distill_action) eff" where
  "apply_self_expire p ns newest winner =
     (let expired = winner\<lparr>mi_state := SUPERSEDED, mi_invalid_at := Some (valid_at_of newest)\<rparr>
      in seq (on_ltm (dp_upsert p expired)) (\<lambda>_.
         seq (on_ltm (dp_invalidate p ns (mi_id winner) (mi_id newest) (valid_at_of newest)
                ''superseded_by_more_recent'')) (\<lambda>_.
         ret (mk_action SELF_EXPIRE newest [mi_id winner] ''incoming_older_than_candidate''))))"

definition apply_supersede ::
  "('g, 'm, 'b, 'c) distill_ports \<Rightarrow> namespace \<Rightarrow> memory_item list \<Rightarrow> memory_item
   \<Rightarrow> (('g, 'm, 'b, 'c) dworld, distill_action) eff" where
  "apply_supersede p ns losers winner =
     seq (on_ltm (dp_upsert p winner)) (\<lambda>_. seq (maybe_promote_event p ns winner) (\<lambda>_.
     seq (for_each (supersede_one p ns winner) losers) (\<lambda>_.
       ret (mk_action SUPERSEDE winner (map mi_id losers) ''functional_or_polarity_conflict''))))"

text \<open>_reconcile_and_apply\<close>
definition reconcile_and_apply ::
  "('g, 'm, 'b, 'c) distill_ports \<Rightarrow> namespace \<Rightarrow> memory_item \<Rightarrow> (('g, 'm, 'b, 'c) dworld, distill_action) eff" where
  "reconcile_and_apply p ns winner =
     seq (on_ltm (dp_find p ns (str_or_empty (mi_subject winner)) (str_or_empty (mi_predicate winner))))
       (\<lambda>raw.
         let candidates = py_take (ds_candidate_k (dp_settings p)) (filter (\<lambda>c. mi_id c \<noteq> mi_id winner) raw)
         in case List.find (\<lambda>c. str_or_empty (mi_object c) = str_or_empty (mi_object winner)
                   \<and> mi_polarity c = mi_polarity winner) candidates of
              Some identical \<Rightarrow> apply_noop p identical
            | None \<Rightarrow>
                let losers = filter (contradicts (dp_settings p) winner) candidates
                in if losers = [] then apply_add p ns candidates winner
                   else (case filter (\<lambda>c. valid_at_of c > valid_at_of winner) losers of
                           r # rs \<Rightarrow> apply_self_expire p ns (first_max valid_at_of r rs) winner
                         | [] \<Rightarrow> apply_supersede p ns losers winner))"

text \<open>_distill\<close>
definition distill_inner ::
  "('g, 'm, 'b, 'c) distill_ports \<Rightarrow> namespace \<Rightarrow> memory_item list
   \<Rightarrow> (('g, 'm, 'b, 'c) dworld, distill_report) eff" where
  "distill_inner p ns window =
     seq (collect_facts p ns window) (\<lambda>candidates.
     seq (publish_if p (FactsExtracted ns (int (length candidates)))) (\<lambda>_.
     seq (map_eff (reconcile_and_apply p ns) candidates) (\<lambda>actions.
       let report = \<lparr>dr_facts_extracted = length candidates, dr_actions = actions\<rparr>
       in seq (publish_if p (ConsolidationCompleted ns (int (dr_facts_extracted report))
                 (int (report_superseded report)))) (\<lambda>_. ret report))))"

text \<open>distill with its observability: one latency sample always, an error count for anything but a
  cancellation, one audit row on success.\<close>
record distill_obs =
  dob_errors :: nat
  dob_latencies :: nat
  dob_audit :: "(string \<times> string \<times> nat \<times> nat) list"

definition distill ::
  "('g, 'm, 'b, 'c) distill_ports \<Rightarrow> namespace \<Rightarrow> memory_item list \<Rightarrow> distill_obs
   \<Rightarrow> ('g, 'm, 'b, 'c) dworld \<Rightarrow> distill_report or_raise \<times> distill_obs \<times> ('g, 'm, 'b, 'c) dworld" where
  "distill p ns window obs w = (case distill_inner p ns window w of
       (Inl e, w') \<Rightarrow>
         (Inl e, obs\<lparr>dob_errors := (if isinstance_of e CancelledError then dob_errors obs
                                    else Suc (dob_errors obs)),
                     dob_latencies := Suc (dob_latencies obs)\<rparr>, w')
     | (Inr r, w') \<Rightarrow>
         (Inr r, obs\<lparr>dob_latencies := Suc (dob_latencies obs),
                     dob_audit := dob_audit obs @ [(to_prefix ns, visibility_value (ns_visibility ns),
                       dr_facts_extracted r, report_superseded r)]\<rparr>, w'))"

section \<open>Effects that leave the graph alone\<close>

definition keeps_ltm :: "(('g, 'm, 'b, 'c) dworld, 'a) eff \<Rightarrow> bool" where
  "keeps_ltm m = (\<forall>w. dw_ltm (snd (m w)) = dw_ltm w)"

named_theorems ltm_frame "effects that do not touch the graph store"

lemma keeps_ltmD: "keeps_ltm m \<Longrightarrow> m w = (r, w') \<Longrightarrow> dw_ltm w' = dw_ltm w"
  by (metis keeps_ltm_def snd_conv)

lemma keeps_ltm_basic [ltm_frame]:
  "keeps_ltm (ret a)" "keeps_ltm (lift_result x)" "keeps_ltm (on_mtm f)" "keeps_ltm (on_dbus g)" "keeps_ltm (on_clock h)"
  by (simp_all add: keeps_ltm_def ret_def lift_result_def on_mtm_def on_dbus_def on_clock_def split: prod.splits)

lemma keeps_ltm_seq [ltm_frame]:
  "\<lbrakk> keeps_ltm m; \<And>a. keeps_ltm (f a) \<rbrakk> \<Longrightarrow> keeps_ltm (seq m f)"
  by (auto simp: keeps_ltm_def seq_def split: prod.splits sum.splits) (metis snd_conv)+

lemma keeps_ltm_map [ltm_frame]: "(\<And>x. keeps_ltm (f x)) \<Longrightarrow> keeps_ltm (map_eff f xs)"
  by (induction xs) (auto intro!: ltm_frame)

lemma keeps_ltm_publish [ltm_frame]: "keeps_ltm (publish_if p e)"
  by (auto simp: publish_if_def intro: ltm_frame split: option.splits)

lemma keeps_ltm_mtm [ltm_frame]: "keeps_ltm (mtm_invalidate_if p ns l w)"
  by (auto simp: mtm_invalidate_if_def intro: ltm_frame split: option.splits)

lemma keeps_ltm_collect [ltm_frame]: "keeps_ltm (collect_facts p ns window)"
  unfolding collect_facts_def collect_one_def fact_to_item_def
  by (intro ltm_frame) (auto intro!: ltm_frame)

lemma map_eff_all:
  "\<lbrakk> \<And>x w y w'. x \<in> set xs \<Longrightarrow> f x w = (Inr y, w') \<Longrightarrow> P y; map_eff f xs w = (Inr ys, w') \<rbrakk>
   \<Longrightarrow> \<forall>y\<in>set ys. P y"
proof (induction xs arbitrary: w ys)
  case (Cons x xs)
  then obtain y u zs where "f x w = (Inr y, u)" "map_eff f xs u = (Inr zs, w')" "ys = y # zs"
    by (auto simp: seq_Inr_iff ret_def)
  then show ?case
    using Cons.IH [of u zs] Cons.prems(1) [of x w y u] Cons.prems(1) by (metis list.set_intros set_ConsD)
qed (simp add: ret_def)

lemma post_init_namespace [simp]: "mi_namespace (post_init sha m) = mi_namespace m"
  by (simp add: post_init_def Let_def)

lemma fact_item_namespace [simp]: "mi_namespace (fact_item sha ns source f now mid c u) = ns"
  by (simp add: fact_item_def default_item_def Let_def)

lemma promote_structured_namespace [simp]: "mi_namespace (promote_structured now m) = mi_namespace m"
  by (simp add: promote_structured_def Let_def split: option.splits)

text \<open>Every candidate is in the namespace of the consolidation.\<close>
lemma collect_facts_namespace:
  assumes "collect_facts p ns window w = (Inr cs, w')" "\<forall>m\<in>set window. mi_namespace m = ns"
  shows "\<forall>c\<in>set cs. mi_namespace c = ns"
proof -
  obtain now u parts where parts: "map_eff (collect_one p ns now) window u = (Inr parts, w')" "cs = concat parts"
    using assms(1) by (auto simp: collect_facts_def seq_Inr_iff ret_def)
  have "\<forall>c\<in>set ys. mi_namespace c = ns" if "m \<in> set window" "collect_one p ns now m v = (Inr ys, v')" for m v ys v'
  proof (cases "structured m")
    case True
    then show ?thesis using that assms(2) by (auto simp: collect_one_def ret_def)
  next
    case False
    have "\<exists>fs v1. map_eff (fact_to_item p ns m now) fs v1 = (Inr ys, v')"
      using that(2) False by (auto simp: collect_one_def seq_Inr_iff)
    then obtain fs v1 where "map_eff (fact_to_item p ns m now) fs v1 = (Inr ys, v')"
      by blast
    then show ?thesis
      by (rule map_eff_all [rotated]) (auto simp: fact_to_item_def seq_Inr_iff ret_def)
  qed
  then have "\<forall>ys\<in>set parts. \<forall>c\<in>set ys. mi_namespace c = ns"
    using map_eff_all [of window "collect_one p ns now" "\<lambda>ys. \<forall>c\<in>set ys. mi_namespace c = ns", OF _ parts(1)]
    by blast
  then show ?thesis using parts(2) by auto
qed

section \<open>Nothing is ever deleted\<close>

text \<open>No key is lost, and other namespaces do not change at all.\<close>
definition grows :: "namespace \<Rightarrow> facts \<Rightarrow> facts \<Rightarrow> bool" where
  "grows ns F F' = (dom F \<subseteq> dom F' \<and> (\<forall>ns' i. ns' \<noteq> ns \<longrightarrow> F' (ns', i) = F (ns', i)))"

lemma grows_refl [simp]: "grows ns F F"
  by (simp add: grows_def)

lemma grows_trans: "grows ns F G \<Longrightarrow> grows ns G H \<Longrightarrow> grows ns F H"
  by (simp add: grows_def) blast

lemma grows_put: "mi_namespace m = ns \<Longrightarrow> grows ns F (put_fact m F)"
  by (auto simp: grows_def put_fact_def)

lemma grows_end: "grows ns F (end_fact ns l t F)"
  by (auto simp: grows_def end_fact_def dom_def)

context graph_store begin

text \<open>Whatever the outcome, the map grew; and a returned value satisfies the postcondition.\<close>
definition evolves :: "namespace \<Rightarrow> (('s, 'm, 'b, 'c) dworld, 'a) eff \<Rightarrow> ('a \<Rightarrow> bool) \<Rightarrow> bool" where
  "evolves ns m P = (\<forall>w F r w'. rel (dw_ltm w) F \<longrightarrow> m w = (r, w') \<longrightarrow>
     (\<exists>F'. rel (dw_ltm w') F' \<and> grows ns F F') \<and> (\<forall>a. r = Inr a \<longrightarrow> P a))"

lemma evolvesI:
  "(\<And>w F r w'. rel (dw_ltm w) F \<Longrightarrow> m w = (r, w') \<Longrightarrow>
     (\<exists>F'. rel (dw_ltm w') F' \<and> grows ns F F') \<and> (\<forall>a. r = Inr a \<longrightarrow> P a)) \<Longrightarrow> evolves ns m P"
  by (simp add: evolves_def)

lemma evolves_frame: "keeps_ltm m \<Longrightarrow> evolves ns m (\<lambda>_. True)"
  by (rule evolvesI) (metis grows_refl keeps_ltmD)

lemma evolves_seq:
  assumes "evolves ns m P" "\<And>a. P a \<Longrightarrow> evolves ns (f a) Q"
  shows "evolves ns (seq m f) Q"
proof (rule evolvesI)
  fix w F r w' assume a: "rel (dw_ltm w) F" "seq m f w = (r, w')"
  obtain x u where u: "m w = (x, u)" by fastforce
  have post: "(\<exists>G. rel (dw_ltm u) G \<and> grows ns F G) \<and> (\<forall>b. x = Inr b \<longrightarrow> P b)"
    using assms(1) [unfolded evolves_def, rule_format, OF a(1) u] by blast
  then obtain G where G: "rel (dw_ltm u) G" "grows ns F G" by blast
  show "(\<exists>F'. rel (dw_ltm w') F' \<and> grows ns F F') \<and> (\<forall>a. r = Inr a \<longrightarrow> Q a)"
  proof (cases x)
    case (Inl e)
    then show ?thesis using a(2) u G by (auto simp: seq_def)
  next
    case (Inr b)
    then have fb: "f b u = (r, w')" using a(2) u by (simp add: seq_def)
    have "evolves ns (f b) Q" using assms(2) post Inr by blast
    from this [unfolded evolves_def, rule_format, OF G(1) fb]
    show ?thesis using G(2) grows_trans by blast
  qed
qed

lemma evolves_ret: "P a \<Longrightarrow> evolves ns (ret a) P"
  by (rule evolvesI) (auto simp: ret_def)

lemma evolves_upsert:
  assumes "mi_namespace m = ns" "valid_ns ns" shows "evolves ns (on_ltm (upsert m)) (\<lambda>_. True)"
proof (rule evolvesI)
  fix w F r w' assume a: "rel (dw_ltm w) F" "on_ltm (upsert m) w = (r, w')"
  show "(\<exists>F'. rel (dw_ltm w') F' \<and> grows ns F F') \<and> (\<forall>a. r = Inr a \<longrightarrow> True)"
  proof (cases "storable m")
    case True
    then obtain s' where "upsert m (dw_ltm w) = (Inr (), s')" "rel s' (put_fact m F)"
      using upsert_stored [OF a(1), of m] assms by blast
    then show ?thesis using a(2) grows_put [OF assms(1), of F] by (auto simp: on_ltm_def)
  next
    case False
    then obtain e where "upsert m (dw_ltm w) = (Inl e, dw_ltm w)"
      using upsert_refused [OF a(1), of m] by blast
    then show ?thesis using a by (auto simp: on_ltm_def intro: grows_refl)
  qed
qed

lemma evolves_inval:
  assumes "valid_ns ns" shows "evolves ns (on_ltm (inval ns l x t q)) (\<lambda>_. True)"
proof (rule evolvesI)
  fix w F r w' assume a: "rel (dw_ltm w) F" "on_ltm (inval ns l x t q) w = (r, w')"
  obtain s' where "inval ns l x t q (dw_ltm w) = (Inr (), s')" "rel s' (end_fact ns l t F)"
    using inval_ends [OF a(1) assms, of l x t q] by blast
  then show "(\<exists>F'. rel (dw_ltm w') F' \<and> grows ns F F') \<and> (\<forall>a. r = Inr a \<longrightarrow> True)"
    using a(2) grows_end [of ns F l t] by (auto simp: on_ltm_def)
qed

lemma evolves_find:
  assumes "valid_ns ns"
  shows "evolves ns (on_ltm (find_live ns a b)) (\<lambda>xs. \<forall>x\<in>set xs. mi_namespace x = ns)"
proof (rule evolvesI)
  fix w F r w' assume a: "rel (dw_ltm w) F" "on_ltm (find_live ns a b) w = (r, w')"
  obtain xs s' where f: "find_live ns a b (dw_ltm w) = (Inr xs, s')" "rel s' F"
    "set xs = {ft_item f | i f. F (ns, i) = Some f \<and> live (next_now (dw_ltm w)) f \<and> about a b f}"
    using found [OF a(1) assms, of a b] by blast
  have "mi_namespace x = ns" if "x \<in> set xs" for x
    using that f(3) rel_ok [OF a(1)] by (auto simp: facts_ok_def fact_ok_def)
  then show "(\<exists>F'. rel (dw_ltm w') F' \<and> grows ns F F') \<and> (\<forall>xs. r = Inr xs \<longrightarrow> (\<forall>x\<in>set xs. mi_namespace x = ns))"
    using a(2) f by (auto simp: on_ltm_def)
qed

end

section \<open>What one reconciliation does to the fact map\<close>

definition same_fact :: "memory_item \<Rightarrow> memory_item \<Rightarrow> bool" where
  "same_fact winner c = (str_or_empty (mi_object c) = str_or_empty (mi_object winner)
     \<and> mi_polarity c = mi_polarity winner)"

text \<open>The live facts about the winner's subject and predicate under other ids.\<close>
definition rivals :: "int \<Rightarrow> namespace \<Rightarrow> memory_item \<Rightarrow> facts \<Rightarrow> memory_item set" where
  "rivals t ns winner F = {ft_item f | i f. F (ns, i) = Some f \<and> live t f
     \<and> about (str_or_empty (mi_subject winner)) (str_or_empty (mi_predicate winner)) f
     \<and> i \<noteq> mi_id winner}"

definition end_all :: "namespace \<Rightarrow> string list \<Rightarrow> int \<Rightarrow> facts \<Rightarrow> facts" where
  "end_all ns ids t F = fold (\<lambda>i. end_fact ns i t) ids F"

text \<open>The specification, given the candidates C that were looked at: reinforce an identical fact, or
  add, or store the incoming fact already closed when a contradicting candidate is newer, or store it
  and close every contradicting candidate.\<close>
definition resolves ::
  "distill_settings \<Rightarrow> namespace \<Rightarrow> memory_item \<Rightarrow> memory_item list \<Rightarrow> facts \<Rightarrow> distill_action \<Rightarrow> facts \<Rightarrow> bool" where
  "resolves st ns winner C F act F' =
     (let losers = filter (contradicts st winner) C in
      (if \<exists>c\<in>set C. same_fact winner c then
         da_kind act = NOOP \<and> da_loser_ids act = [] \<and> (\<exists>c u. c \<in> set C \<and> same_fact winner c
           \<and> F' = put_fact (c\<lparr>mi_access_count := mi_access_count c + 1, mi_updated_at := u\<rparr>) F)
       else if losers = [] then
         da_kind act = (if C = [] then ADD else COEXIST) \<and> da_loser_ids act = [] \<and> F' = put_fact winner F
       else if \<exists>c\<in>set losers. valid_at_of c > valid_at_of winner then
         da_kind act = SELF_EXPIRE \<and> da_loser_ids act = [mi_id winner] \<and> (\<exists>n. n \<in> set losers
           \<and> (\<forall>c\<in>set losers. valid_at_of c \<le> valid_at_of n) \<and> da_winner_id act = mi_id n
           \<and> F' = end_fact ns (mi_id winner) (valid_at_of n)
               (put_fact (winner\<lparr>mi_state := SUPERSEDED, mi_invalid_at := Some (valid_at_of n)\<rparr>) F))
       else
         da_kind act = SUPERSEDE \<and> da_loser_ids act = map mi_id losers \<and> da_winner_id act = mi_id winner
           \<and> F' = end_all ns (map mi_id losers) (valid_at_of winner) (put_fact winner F)))"

text \<open>Collaborators that do not fail: bus, mid-term store, clock, id supply and extractor.\<close>
definition quiet_distill :: "('g, 'm, 'b, 'c) distill_ports \<Rightarrow> bool" where
  "quiet_distill p = ((\<forall>f e b. dp_publish p = Some f \<longrightarrow> isl (fst (f e b)) = False)
     \<and> (\<forall>f ns l w t r m. dp_mtm_invalidate p = Some f \<longrightarrow> isl (fst (f ns l w t r m)) = False)
     \<and> (\<forall>c. isl (fst (dp_now p c)) = False) \<and> (\<forall>c. isl (fst (dp_utcnow p c)) = False)
     \<and> (\<forall>c. isl (fst (dp_new_id p c)) = False) \<and> (\<forall>x t. isl (dp_extract p x t) = False))"

definition returns :: "('w, 'a) eff \<Rightarrow> bool" where
  "returns m = (\<forall>w. isl (fst (m w)) = False)"

lemma not_isl_iff: "isl x = False \<longleftrightarrow> (\<exists>a. x = Inr a)"
  by (cases x) auto

lemma returns_basic [ltm_frame]: "returns (ret a)"
  by (simp add: returns_def ret_def)

lemma returns_seq [ltm_frame]: "\<lbrakk> returns m; \<And>a. returns (f a) \<rbrakk> \<Longrightarrow> returns (seq m f)"
  by (auto simp: returns_def seq_def split: prod.splits sum.splits) (metis fst_conv isl_def)

lemma returns_map [ltm_frame]: "(\<And>x. returns (f x)) \<Longrightarrow> returns (map_eff f xs)"
  by (induction xs) (auto intro!: ltm_frame)

lemma returns_quiet:
  assumes "quiet_distill p"
  shows "returns (publish_if p e)" "returns (mtm_invalidate_if p ns l w)" "returns (on_clock (dp_now p))"
    "returns (collect_facts p ns window)"
proof -
  show "returns (publish_if p e)"
    using assms by (auto simp: returns_def publish_if_def quiet_distill_def on_dbus_def ret_def split: option.splits prod.splits)
      (metis fst_conv)
  show "returns (mtm_invalidate_if p ns l w)"
    using assms by (auto simp: returns_def mtm_invalidate_if_def quiet_distill_def on_mtm_def ret_def split: option.splits prod.splits)
      (metis fst_conv)
  have clk: "returns (on_clock (dp_now p))" "returns (on_clock (dp_utcnow p))" "returns (on_clock (dp_new_id p))"
    using assms by (auto simp: returns_def quiet_distill_def on_clock_def split: prod.splits) (metis fst_conv)+
  then show "returns (on_clock (dp_now p))" by simp
  have "returns (lift_result (dp_extract p x t))" for x t
    using assms by (simp add: returns_def lift_result_def quiet_distill_def)
  then show "returns (collect_facts p ns window)"
    unfolding collect_facts_def collect_one_def fact_to_item_def
    by (intro ltm_frame clk) (auto intro!: ltm_frame clk)
qed

lemma first_max_in: "first_max f b xs \<in> insert b (set xs)"
proof (induction xs arbitrary: b)
  case (Cons y ys)
  then show ?case using Cons [of "if f b < f y then y else b"] by (auto split: if_splits)
qed simp

lemma first_max_ge: "x \<in> insert b (set xs) \<Longrightarrow> f x \<le> f (first_max f b xs)"
proof (induction xs arbitrary: b x)
  case (Cons y ys)
  have step: "f z \<le> f (first_max f (if f b < f y then y else b) ys)"
    if "z \<in> insert (if f b < f y then y else b) (set ys)" for z
    using Cons.IH that by blast
  show ?case
  proof (cases "x \<in> set ys")
    case False
    then have "f x \<le> f (if f b < f y then y else b)" using Cons.prems by (auto split: if_splits)
    also have "\<dots> \<le> f (first_max f (if f b < f y then y else b) ys)" by (rule step) simp
    finally show ?thesis by simp
  qed (use step in simp)
qed simp

lemma set_py_take: "set (py_take k xs) \<subseteq> set xs"
  using set_take_subset by (auto simp: py_take_def dest: in_set_takeD)

lemma py_take_all: "int (length xs) \<le> k \<Longrightarrow> py_take k xs = xs"
  by (simp add: py_take_def)

lemma py_take_Nil: "k \<ge> 1 \<Longrightarrow> py_take k xs = [] \<longleftrightarrow> xs = []"
  by (simp add: py_take_def)

context graph_store begin

lemma evolves_weaken: "evolves ns m P \<Longrightarrow> evolves ns m (\<lambda>_. True)"
  unfolding evolves_def by blast

lemma evolves_then:
  "\<lbrakk> evolves ns m (\<lambda>_. True); \<And>a. evolves ns (f a) Q \<rbrakk> \<Longrightarrow> evolves ns (seq m f) Q"
  by (rule evolves_seq) auto

lemma evolves_for_each:
  "(\<And>x. evolves ns (f x) (\<lambda>_. True)) \<Longrightarrow> evolves ns (for_each f xs) (\<lambda>_. True)"
  by (induction xs) (auto intro: evolves_ret evolves_then)

lemma evolves_map:
  "(\<And>x. x \<in> set xs \<Longrightarrow> evolves ns (f x) (\<lambda>_. True)) \<Longrightarrow> evolves ns (map_eff f xs) (\<lambda>_. True)"
  by (induction xs) (auto intro!: evolves_ret evolves_then)

definition wired :: "('s, 'm, 'b, 'c) distill_ports \<Rightarrow> bool" where
  "wired p = (dp_upsert p = upsert \<and> dp_find p = find_live \<and> dp_invalidate p = inval)"

lemma evolves_reconcile:
  assumes "wired p" "valid_ns ns" "mi_namespace winner = ns"
  shows "evolves ns (reconcile_and_apply p ns winner) (\<lambda>_. True)"
proof -
  have w [simp]: "dp_upsert p = upsert" "dp_find p = find_live" "dp_invalidate p = inval"
    using assms(1) by (simp_all add: wired_def)
  note step = evolves_upsert [OF _ assms(2)] evolves_inval [OF assms(2)] evolves_ret
    evolves_frame [OF keeps_ltm_publish] evolves_frame [OF keeps_ltm_mtm] evolves_frame [OF keeps_ltm_basic(5)]
  have noop: "evolves ns (apply_noop p c) (\<lambda>_. True)" if "mi_namespace c = ns" for c
    unfolding apply_noop_def Let_def w by (intro evolves_then step) (simp_all add: that)
  have add: "evolves ns (apply_add p ns cs winner) (\<lambda>_. True)" for cs
    unfolding apply_add_def maybe_promote_event_def w by (intro evolves_then step) (simp_all add: assms(3))
  have self: "evolves ns (apply_self_expire p ns n winner) (\<lambda>_. True)" for n
    unfolding apply_self_expire_def Let_def w by (intro evolves_then step) (simp_all add: assms(3))
  have sup: "evolves ns (apply_supersede p ns ls winner) (\<lambda>_. True)" for ls
    unfolding apply_supersede_def maybe_promote_event_def supersede_one_def w
    by (intro evolves_then evolves_for_each step) (simp_all add: assms(3))
  show ?thesis
    unfolding reconcile_and_apply_def w
  proof (rule evolves_seq [OF evolves_find [OF assms(2)]], goal_cases)
    case (1 raw)
    have "mi_namespace c = ns" if "List.find Q (py_take k (filter R raw)) = Some c" for Q R k c
      using that set_py_take [of k "filter R raw"] 1 by (auto simp: find_Some_iff dest!: nth_mem)
    then show ?case
      by (auto simp: Let_def split: option.split list.split intro: noop add self sup)
  qed
qed

lemma evolves_distill:
  assumes "wired p" "valid_ns ns" "\<forall>m\<in>set window. mi_namespace m = ns"
  shows "evolves ns (distill_inner p ns window) (\<lambda>_. True)"
  unfolding distill_inner_def Let_def
proof (rule evolves_seq [where P = "\<lambda>cs. \<forall>c\<in>set cs. mi_namespace c = ns"], goal_cases)
  case 1
  show ?case
  proof (rule evolvesI)
    fix w F r w' assume a: "rel (dw_ltm w) F" "collect_facts p ns window w = (r, w')"
    then show "(\<exists>F'. rel (dw_ltm w') F' \<and> grows ns F F') \<and> (\<forall>cs. r = Inr cs \<longrightarrow> (\<forall>c\<in>set cs. mi_namespace c = ns))"
      using collect_facts_namespace [OF _ assms(3), of p w] keeps_ltmD [OF keeps_ltm_collect a(2)]
      by (metis grows_refl)
  qed
next
  case (2 cs)
  have "evolves ns (map_eff (reconcile_and_apply p ns) cs) (\<lambda>_. True)"
    by (rule evolves_map) (use 2 evolves_reconcile [OF assms(1,2)] in blast)
  then show ?case
    by (intro evolves_then evolves_frame [OF keeps_ltm_publish] evolves_ret) simp_all
qed

text \<open>Total triples: the effect returns, the store still represents a map, its clock did not run
  backwards, and the result and the map satisfy the postcondition.\<close>
definition runs ::
  "(('s, 'm, 'b, 'c) dworld, 'a) eff \<Rightarrow> ('s, 'm, 'b, 'c) dworld \<Rightarrow> facts \<Rightarrow> ('a \<Rightarrow> facts \<Rightarrow> bool) \<Rightarrow> bool" where
  "runs m w F Q = (\<exists>a w' F'. m w = (Inr a, w') \<and> rel (dw_ltm w') F'
     \<and> next_now (dw_ltm w) \<le> next_now (dw_ltm w') \<and> Q a F')"

lemma runs_ret: "rel (dw_ltm w) F \<Longrightarrow> Q a F \<Longrightarrow> runs (ret a) w F Q"
  by (auto simp: runs_def ret_def)

lemma runs_seq:
  assumes "runs m w F P"
    and "\<And>a w1 G. \<lbrakk> rel (dw_ltm w1) G; next_now (dw_ltm w) \<le> next_now (dw_ltm w1); P a G \<rbrakk> \<Longrightarrow> runs (f a) w1 G Q"
  shows "runs (seq m f) w F Q"
proof -
  obtain a w1 G where 1: "m w = (Inr a, w1)" "rel (dw_ltm w1) G"
    "next_now (dw_ltm w) \<le> next_now (dw_ltm w1)" "P a G"
    using assms(1) unfolding runs_def by blast
  obtain b w2 H where "f a w1 = (Inr b, w2)" "rel (dw_ltm w2) H"
    "next_now (dw_ltm w1) \<le> next_now (dw_ltm w2)" "Q b H"
    using assms(2) [OF 1(2-4)] unfolding runs_def by blast
  then show ?thesis using 1 unfolding runs_def by (auto simp: seq_def intro: order_trans)
qed

lemma runs_frame:
  assumes "keeps_ltm m" "returns m" "rel (dw_ltm w) F" "\<And>a. Q a F"
  shows "runs m w F Q"
proof -
  obtain x w' where x: "m w = (x, w')" by fastforce
  then obtain a where "x = Inr a" using assms(2) unfolding returns_def not_isl_iff by (metis fst_conv)
  then show ?thesis
    using x keeps_ltmD [OF assms(1) x] assms(3,4) unfolding runs_def by auto
qed

lemma runs_upsert:
  assumes "rel (dw_ltm w) F" "valid_ns (mi_namespace m)" "storable m" "Q () (put_fact m F)"
  shows "runs (on_ltm (upsert m)) w F Q"
proof -
  obtain s' where "upsert m (dw_ltm w) = (Inr (), s')" "rel s' (put_fact m F)"
    "next_now (dw_ltm w) \<le> next_now s'"
    using upsert_stored [OF assms(1-3)] by blast
  then show ?thesis using assms(4) unfolding runs_def by (auto simp: on_ltm_def)
qed

lemma runs_inval:
  assumes "rel (dw_ltm w) F" "valid_ns ns" "Q () (end_fact ns l t F)"
  shows "runs (on_ltm (inval ns l x t r)) w F Q"
proof -
  obtain s' where "inval ns l x t r (dw_ltm w) = (Inr (), s')" "rel s' (end_fact ns l t F)"
    "next_now (dw_ltm w) \<le> next_now s'"
    using inval_ends [OF assms(1,2), of l x t r] by blast
  then show ?thesis using assms(3) unfolding runs_def by (auto simp: on_ltm_def)
qed

lemma runs_find:
  assumes "rel (dw_ltm w) F" "valid_ns ns"
    and "\<And>xs. \<lbrakk> distinct (map mi_id xs);
      set xs = {ft_item f | i f. F (ns, i) = Some f \<and> live (next_now (dw_ltm w)) f \<and> about a b f} \<rbrakk> \<Longrightarrow> Q xs F"
  shows "runs (on_ltm (find_live ns a b)) w F Q"
proof -
  obtain xs s' where "find_live ns a b (dw_ltm w) = (Inr xs, s')" "rel s' F"
    "next_now (dw_ltm w) \<le> next_now s'" "distinct (map mi_id xs)"
    "set xs = {ft_item f | i f. F (ns, i) = Some f \<and> live (next_now (dw_ltm w)) f \<and> about a b f}"
    using found [OF assms(1,2), of a b] by blast
  then show ?thesis using assms(3) [of xs] unfolding runs_def by (auto simp: on_ltm_def)
qed

end

context graph_store begin

lemma runs_conseq: "runs m w F P \<Longrightarrow> (\<And>a G. P a G \<Longrightarrow> Q a G) \<Longrightarrow> runs m w F Q"
  unfolding runs_def by blast

text \<open>Sequencing when the first effect turns the map into a known one.\<close>
lemma runs_then:
  fixes w :: "('s, 'm, 'b, 'c) dworld"
  assumes "runs m w F (\<lambda>_ G. G = F1)"
    and "\<And>a (w1 :: ('s, 'm, 'b, 'c) dworld). rel (dw_ltm w1) F1 \<Longrightarrow> runs (f a) w1 F1 Q"
  shows "runs (seq m f) w F Q"
  by (rule runs_seq [OF assms(1)]) (use assms(2) in blast)

lemma runs_quiet:
  "\<lbrakk> keeps_ltm m; returns m; rel (dw_ltm w) F \<rbrakk> \<Longrightarrow> runs m w F (\<lambda>_ G. G = F)"
  by (rule runs_frame) auto

lemma runs_put:
  "\<lbrakk> rel (dw_ltm w) F; valid_ns (mi_namespace m); storable m \<rbrakk>
   \<Longrightarrow> runs (on_ltm (upsert m)) w F (\<lambda>_ G. G = put_fact m F)"
  by (rule runs_upsert) auto

lemma runs_end:
  "\<lbrakk> rel (dw_ltm w) F; valid_ns ns \<rbrakk> \<Longrightarrow> runs (on_ltm (inval ns l x t r)) w F (\<lambda>_ G. G = end_fact ns l t F)"
  by (rule runs_inval) auto

lemma runs_supersede_one:
  assumes "wired p" "quiet_distill p" "valid_ns ns" "rel (dw_ltm w) F"
  shows "runs (supersede_one p ns winner l) w F (\<lambda>_ G. G = end_fact ns (mi_id l) (valid_at_of winner) F)"
proof -
  have w: "dp_invalidate p = inval" using assms(1) by (simp add: wired_def)
  show ?thesis
    unfolding supersede_one_def w
  proof (rule runs_then [OF runs_end [OF assms(4,3)]], goal_cases)
    case (1 a w1)
    then show ?case
      by (rule runs_then [OF runs_quiet [OF keeps_ltm_mtm returns_quiet(2) [OF assms(2)]]
          runs_quiet [OF keeps_ltm_publish returns_quiet(1) [OF assms(2)]]])
  qed
qed

lemma runs_supersede_all:
  assumes "wired p" "quiet_distill p" "valid_ns ns" "rel (dw_ltm w) F"
  shows "runs (for_each (supersede_one p ns winner) losers) w F
    (\<lambda>_ G. G = end_all ns (map mi_id losers) (valid_at_of winner) F)"
  using assms(4)
proof (induction losers arbitrary: w F)
  case Nil
  then show ?case unfolding for_each.simps by (intro runs_ret) (simp_all add: end_all_def)
next
  case (Cons l ls)
  show ?case
    unfolding for_each.simps
    by (rule runs_then [OF runs_supersede_one [OF assms(1-3) Cons.prems]])
      (use Cons.IH in \<open>simp add: end_all_def\<close>)
qed

lemma runs_noop:
  assumes "wired p" "quiet_distill p" "valid_ns ns" "\<And>m. mi_namespace m = ns \<Longrightarrow> storable m"
    and "rel (dw_ltm w) F" "mi_namespace c = ns"
  shows "runs (apply_noop p c) w F (\<lambda>act G. da_kind act = NOOP \<and> da_loser_ids act = []
    \<and> (\<exists>u. G = put_fact (c\<lparr>mi_access_count := mi_access_count c + 1, mi_updated_at := u\<rparr>) F))"
proof -
  have w: "dp_upsert p = upsert" using assms(1) by (simp add: wired_def)
  show ?thesis
    unfolding apply_noop_def Let_def w
  proof (rule runs_then [OF runs_quiet [OF keeps_ltm_basic(5) returns_quiet(3) [OF assms(2)] assms(5)]], goal_cases)
    case (1 now w1)
    let ?m = "c\<lparr>mi_access_count := mi_access_count c + 1, mi_updated_at := now\<rparr>"
    show ?case
      by (rule runs_then [OF runs_put [OF 1, of ?m] runs_ret])
        (use assms(3,4,6) in \<open>auto simp: mk_action_def\<close>)
  qed
qed

lemma runs_add:
  assumes "wired p" "quiet_distill p" "valid_ns (mi_namespace winner)" "storable winner" "rel (dw_ltm w) F"
  shows "runs (apply_add p ns cs winner) w F (\<lambda>act G. da_kind act = (if cs = [] then ADD else COEXIST)
    \<and> da_loser_ids act = [] \<and> G = put_fact winner F)"
proof -
  have w: "dp_upsert p = upsert" using assms(1) by (simp add: wired_def)
  show ?thesis
    unfolding apply_add_def maybe_promote_event_def w
  proof (rule runs_then [OF runs_put [OF assms(5,3,4)]], goal_cases)
    case (1 a w1)
    show ?case
      by (rule runs_then [OF runs_quiet [OF keeps_ltm_publish returns_quiet(1) [OF assms(2)] 1] runs_ret])
        (auto simp: mk_action_def)
  qed
qed

lemma runs_self_expire:
  assumes "wired p" "valid_ns ns" "mi_namespace winner = ns" "\<And>m. mi_namespace m = ns \<Longrightarrow> storable m"
    and "rel (dw_ltm w) F"
  shows "runs (apply_self_expire p ns n winner) w F (\<lambda>act G. da_kind act = SELF_EXPIRE
    \<and> da_loser_ids act = [mi_id winner] \<and> da_winner_id act = mi_id n
    \<and> G = end_fact ns (mi_id winner) (valid_at_of n)
         (put_fact (winner\<lparr>mi_state := SUPERSEDED, mi_invalid_at := Some (valid_at_of n)\<rparr>) F))"
proof -
  have w: "dp_upsert p = upsert" "dp_invalidate p = inval" using assms(1) by (simp_all add: wired_def)
  let ?m = "winner\<lparr>mi_state := SUPERSEDED, mi_invalid_at := Some (valid_at_of n)\<rparr>"
  have m: "valid_ns (mi_namespace ?m)" "storable ?m" using assms(2-4) by simp_all
  show ?thesis
    unfolding apply_self_expire_def Let_def w
  proof (rule runs_then [OF runs_put [OF assms(5) m]], goal_cases)
    case (1 a w1)
    show ?case
      by (rule runs_then [OF runs_end [OF 1 assms(2)] runs_ret]) (auto simp: mk_action_def)
  qed
qed

lemma runs_supersede:
  assumes "wired p" "quiet_distill p" "valid_ns ns" "mi_namespace winner = ns" "storable winner" "rel (dw_ltm w) F"
  shows "runs (apply_supersede p ns losers winner) w F (\<lambda>act G. da_kind act = SUPERSEDE
    \<and> da_loser_ids act = map mi_id losers \<and> da_winner_id act = mi_id winner
    \<and> G = end_all ns (map mi_id losers) (valid_at_of winner) (put_fact winner F))"
proof -
  have w: "dp_upsert p = upsert" using assms(1) by (simp add: wired_def)
  have v: "valid_ns (mi_namespace winner)" using assms(3,4) by simp
  show ?thesis
    unfolding apply_supersede_def maybe_promote_event_def w
  proof (rule runs_then [OF runs_put [OF assms(6) v assms(5)]], goal_cases)
    case (1 a w1)
    show ?case
    proof (rule runs_then [OF runs_quiet [OF keeps_ltm_publish returns_quiet(1) [OF assms(2)] 1]], goal_cases)
      case (1 b w2)
      show ?case
        by (rule runs_then [OF runs_supersede_all [OF assms(1-3) 1] runs_ret]) (auto simp: mk_action_def)
    qed
  qed
qed

text \<open>The decision itself, on the candidates that were gathered.\<close>
lemma runs_decision:
  assumes "wired p" "quiet_distill p" "valid_ns ns" "mi_namespace winner = ns"
    "\<And>m. mi_namespace m = ns \<Longrightarrow> storable m" "rel (dw_ltm w) F" "\<forall>c\<in>set C. mi_namespace c = ns"
  shows "runs (case List.find (same_fact winner) C of
              Some identical \<Rightarrow> apply_noop p identical
            | None \<Rightarrow> if filter (contradicts (dp_settings p) winner) C = [] then apply_add p ns C winner
                   else (case filter (\<lambda>c. valid_at_of c > valid_at_of winner)
                                (filter (contradicts (dp_settings p) winner) C) of
                           r # rs \<Rightarrow> apply_self_expire p ns (first_max valid_at_of r rs) winner
                         | [] \<Rightarrow> apply_supersede p ns (filter (contradicts (dp_settings p) winner) C) winner))
      w F (resolves (dp_settings p) ns winner C F)"
proof (cases "List.find (same_fact winner) C")
  case (Some c)
  then have c: "c \<in> set C" "same_fact winner c" by (auto simp: find_Some_iff)
  show ?thesis
    unfolding Some option.case
    by (rule runs_conseq [OF runs_noop [OF assms(1-3,5,6), of c]]) (use c assms(7) in \<open>auto simp: resolves_def\<close>)
next
  case None
  then have none: "\<not> (\<exists>c\<in>set C. same_fact winner c)" by (auto simp: find_None_iff)
  let ?losers = "filter (contradicts (dp_settings p) winner) C"
  have sw: "storable winner" "valid_ns (mi_namespace winner)" using assms(3-5) by simp_all
  show ?thesis
  proof (cases "?losers = []")
    case True
    show ?thesis
      unfolding None option.case True if_True eqTrueI [OF refl]
      by (rule runs_conseq [OF runs_add [OF assms(1,2) sw(2,1) assms(6)]])
        (use none True in \<open>simp add: resolves_def\<close>)
  next
    case False
    show ?thesis
    proof (cases "filter (\<lambda>c. valid_at_of c > valid_at_of winner) ?losers")
      case Nil
      then have no: "\<not> (\<exists>c\<in>set ?losers. valid_at_of c > valid_at_of winner)"
        unfolding filter_empty_conv by blast
      show ?thesis
        unfolding None option.case Nil list.case if_not_P [OF False]
        by (rule runs_conseq [OF runs_supersede [OF assms(1-4) sw(1) assms(6)]])
          (use none False no in \<open>simp add: resolves_def\<close>)
    next
      case (Cons r rs)
      let ?n = "first_max valid_at_of r rs"
      have more: "set (r # rs) = {c \<in> set ?losers. valid_at_of c > valid_at_of winner}"
        unfolding Cons [symmetric] by auto
      have n: "?n \<in> set (r # rs)" using first_max_in [of valid_at_of r rs] by simp
      have ge: "valid_at_of c \<le> valid_at_of ?n" if "c \<in> set (r # rs)" for c
        using first_max_ge [of c r rs valid_at_of] that by simp
      have n2: "?n \<in> set ?losers" "valid_at_of ?n > valid_at_of winner" using n more by blast+
      have all: "\<forall>c\<in>set ?losers. valid_at_of c \<le> valid_at_of ?n"
      proof
        fix c assume "c \<in> set ?losers"
        then show "valid_at_of c \<le> valid_at_of ?n"
          using ge [of c] more n2(2) by (cases "valid_at_of c > valid_at_of winner") auto
      qed
      show ?thesis
        unfolding None option.case Cons list.case if_not_P [OF False]
      proof (rule runs_conseq [OF runs_self_expire [OF assms(1,3,4) _ assms(6)]])
        show "storable m" if "mi_namespace m = ns" for m using assms(5) [OF that] .
      qed (use none False n2 all in \<open>auto simp: resolves_def\<close>)
    qed
  qed
qed

lemma runs_reconcile:
  assumes p: "wired p" "quiet_distill p" and v: "valid_ns ns" and ns: "mi_namespace winner = ns"
    and st: "\<And>m. mi_namespace m = ns \<Longrightarrow> storable m" and r: "rel (dw_ltm w) F"
  shows "runs (reconcile_and_apply p ns winner) w F (\<lambda>act F'. \<exists>raw.
     set raw = rivals (next_now (dw_ltm w)) ns winner F \<and> distinct (map mi_id raw)
     \<and> resolves (dp_settings p) ns winner (py_take (ds_candidate_k (dp_settings p)) raw) F act F')"
proof -
  have w: "dp_find p = find_live" using p(1) by (simp add: wired_def)
  let ?k = "ds_candidate_k (dp_settings p)"
  let ?t = "next_now (dw_ltm w)"
  let ?sub = "str_or_empty (mi_subject winner)" and ?pred = "str_or_empty (mi_predicate winner)"
  let ?P = "\<lambda>xs G. G = F \<and> distinct (map mi_id xs)
      \<and> set xs = {ft_item f | i f. F (ns, i) = Some f \<and> live ?t f \<and> about ?sub ?pred f}"
  have key: "mi_namespace (ft_item f) = ns \<and> mi_id (ft_item f) = i" if "F (ns, i) = Some f" for i f
    using rel_ok [OF r] that by (auto simp: facts_ok_def fact_ok_def)
  have same: "(\<lambda>c. str_or_empty (mi_object c) = str_or_empty (mi_object winner)
     \<and> mi_polarity c = mi_polarity winner) = same_fact winner"
    by (simp add: fun_eq_iff same_fact_def)
  show ?thesis
    unfolding reconcile_and_apply_def w Let_def same
  proof (rule runs_seq [OF runs_find [OF r v, where Q = ?P]], simp, goal_cases)
    case (1 xs w1 G)
    let ?raw = "filter (\<lambda>c. mi_id c \<noteq> mi_id winner) xs"
    have raw: "set ?raw = rivals ?t ns winner F" "distinct (map mi_id ?raw)"
      using 1(3) key by (auto simp: rivals_def distinct_map_filter)
    have C: "\<forall>c\<in>set (py_take ?k ?raw). mi_namespace c = ns"
      using set_py_take [of ?k ?raw] raw(1) key by (auto simp: rivals_def)
    have G: "G = F" and F: "rel (dw_ltm w1) F" using 1 by simp_all
    show ?case
      unfolding G
      by (rule runs_conseq [OF runs_decision [OF p v ns st F C]]) (assumption, use raw in blast)
  qed
qed

end

section \<open>One live value per functional predicate\<close>

definition functional :: "distill_settings \<Rightarrow> string \<Rightarrow> bool" where
  "functional st predicate = (py_lower predicate \<in> set (ds_functional_predicates st))"

text \<open>At instant t, no two live facts of the namespace share a subject and a single-cardinality
  predicate.\<close>
definition one_live :: "distill_settings \<Rightarrow> int \<Rightarrow> namespace \<Rightarrow> facts \<Rightarrow> bool" where
  "one_live st t ns F = (\<forall>i j f g a b. F (ns, i) = Some f \<and> F (ns, j) = Some g \<and> live t f \<and> live t g
     \<and> about a b f \<and> about a b g \<and> functional st b \<longrightarrow> i = j)"

lemma live_later: "t \<le> t' \<Longrightarrow> live t' f \<Longrightarrow> live t f"
  by (auto simp: live_def ends_after_def split: option.splits)

lemma one_live_later: "t \<le> t' \<Longrightarrow> one_live st t ns F \<Longrightarrow> one_live st t' ns F"
  unfolding one_live_def using live_later by blast

lemma closed_not_live [simp]: "\<not> live t (close_fact u f)"
  by (simp add: live_def close_fact_def)

lemma about_close [simp]: "about a b (close_fact u f) = about a b f"
  by (simp add: about_def close_fact_def)

lemma one_live_end: "one_live st t ns F \<Longrightarrow> one_live st t ns (end_fact ns l u F)"
  by (auto simp: one_live_def end_fact_def split: if_splits)

lemma one_live_end_all: "one_live st t ns F \<Longrightarrow> one_live st t ns (end_all ns ids u F)"
  by (induction ids arbitrary: F) (simp_all add: end_all_def one_live_end)

text \<open>An upsert keeps it when the item is not live, not functional, or has no rival.\<close>
lemma one_live_put:
  assumes "one_live st t ns F" "mi_namespace m = ns"
    and "live t (fact_of m) \<Longrightarrow> functional st (str_or_empty (mi_predicate m)) \<Longrightarrow> rivals t ns m F = {}"
  shows "one_live st t ns (put_fact m F)"
proof -
  have no: "i = mi_id m"
    if "F (ns, i) = Some f" "live t f" "about a b f" "about a b (fact_of m)" "live t (fact_of m)" "functional st b"
    for i f a b
  proof (rule ccontr)
    assume "i \<noteq> mi_id m"
    then have "ft_item f \<in> rivals t ns m F"
      using that(1-4) by (auto simp: rivals_def about_def fact_of_def)
    then show False using assms(3) that(4-6) by (auto simp: about_def fact_of_def)
  qed
  show ?thesis
    unfolding one_live_def
  proof (intro allI impI, goal_cases)
    case (1 i j f g a b)
    then show ?case
      using assms(1,2) no [of i f a b] no [of j g a b]
      unfolding one_live_def by (auto simp: put_fact_def split: if_splits) blast+
  qed
qed

lemma end_all_put:
  "\<lbrakk> mi_namespace m = ns; mi_id m \<notin> set ids \<rbrakk> \<Longrightarrow> end_all ns ids u (put_fact m F) = put_fact m (end_all ns ids u F)"
proof (induction ids arbitrary: F)
  case (Cons i ids)
  then have "end_fact ns i u (put_fact m F) = put_fact m (end_fact ns i u F)"
    by (auto simp: end_fact_def put_fact_def fun_eq_iff)
  then show ?case using Cons by (simp add: end_all_def)
qed (simp add: end_all_def)

lemma end_all_other: "i \<notin> set ids \<Longrightarrow> end_all ns ids u F (ns, i) = F (ns, i)"
  by (induction ids arbitrary: F) (auto simp: end_all_def end_fact_def)

lemma end_all_closed:
  "\<lbrakk> i \<in> set ids; end_all ns ids u F (ns, i) = Some f \<rbrakk> \<Longrightarrow> \<not> live t f"
proof (induction ids arbitrary: F)
  case (Cons j ids)
  show ?case
  proof (cases "i \<in> set ids")
    case False
    then have "i = j" "end_fact ns j u F (ns, i) = Some f"
      using Cons.prems end_all_other [OF False, of ns u "end_fact ns j u F"] by (simp_all add: end_all_def)
    then show ?thesis by (auto simp: end_fact_def)
  qed (use Cons in \<open>simp add: end_all_def\<close>)
qed simp

lemma rivals_item:
  assumes "facts_ok F" "c \<in> rivals t ns winner F"
  shows "\<exists>f. F (ns, mi_id c) = Some f \<and> ft_item f = c \<and> live t f \<and> mi_namespace c = ns \<and> mi_id c \<noteq> mi_id winner
    \<and> about (str_or_empty (mi_subject winner)) (str_or_empty (mi_predicate winner)) f"
  using assms by (auto simp: rivals_def facts_ok_def fact_ok_def)

lemma functional_candidates:
  assumes "functional st (str_or_empty (mi_predicate winner))" "\<not> same_fact winner c"
  shows "contradicts st winner c"
  using assms by (auto simp: contradicts_def functional_def same_fact_def)

lemma resolves_cases [consumes 1, case_names noop add expire supersede]:
  assumes "resolves st ns winner C F act F'"
  obtains c u where "c \<in> set C" "same_fact winner c"
      "F' = put_fact (c\<lparr>mi_access_count := mi_access_count c + 1, mi_updated_at := u\<rparr>) F"
    | "\<forall>c\<in>set C. \<not> same_fact winner c" "filter (contradicts st winner) C = []" "F' = put_fact winner F"
    | n where "F' = end_fact ns (mi_id winner) (valid_at_of n)
        (put_fact (winner\<lparr>mi_state := SUPERSEDED, mi_invalid_at := Some (valid_at_of n)\<rparr>) F)"
    | "\<forall>c\<in>set C. \<not> same_fact winner c"
        "F' = end_all ns (map mi_id (filter (contradicts st winner) C)) (valid_at_of winner) (put_fact winner F)"
proof (cases "\<exists>c\<in>set C. same_fact winner c")
  case True
  then show ?thesis using assms that(1) unfolding resolves_def Let_def by (simp only: if_True) blast
next
  case no: False
  show ?thesis
  proof (cases "filter (contradicts st winner) C = []")
    case True
    then show ?thesis
      using assms no that(2) unfolding resolves_def Let_def by (simp only: if_True if_False) blast
  next
    case False
    note d = assms [unfolded resolves_def Let_def if_not_P [OF no] if_not_P [OF False]]
    show ?thesis
    proof (cases "\<exists>c\<in>set (filter (contradicts st winner) C). valid_at_of winner < valid_at_of c")
      case True
      then show ?thesis using d that(3) by (simp only: if_True) blast
    next
      case False
      then show ?thesis using d no that(4) by (simp only: if_False) blast
    qed
  qed
qed

text \<open>Every branch of a reconciliation keeps it, as soon as one candidate is looked at.\<close>
lemma resolves_one_live:
  assumes sv: "one_live st t ns F" and ok: "facts_ok F" and ns: "mi_namespace winner = ns"
    and raw: "set raw = rivals t ns winner F" "distinct (map mi_id raw)" and k: "k \<ge> 1"
    and res: "resolves st ns winner (py_take k raw) F act F'"
  shows "one_live st t ns F'"
proof -
  let ?a = "str_or_empty (mi_subject winner)" and ?b = "str_or_empty (mi_predicate winner)"
  let ?C = "py_take k raw"
  let ?losers = "filter (contradicts st winner) ?C"
  have item: "\<exists>f. F (ns, mi_id c) = Some f \<and> ft_item f = c \<and> live t f \<and> mi_namespace c = ns
      \<and> mi_id c \<noteq> mi_id winner \<and> about ?a ?b f" if "c \<in> set ?C" for c
    using rivals_item [OF ok, of c t ns winner] that set_py_take [of k raw] raw(1) by blast
  have one: "?C = raw" if "functional st ?b"
  proof -
    have same: "mi_id c = mi_id d" if "c \<in> set raw" "d \<in> set raw" for c d
      using rivals_item [OF ok, of c t ns winner] rivals_item [OF ok, of d t ns winner] that raw(1)
        sv [unfolded one_live_def, rule_format, of "mi_id c" _ "mi_id d" _ ?a ?b] \<open>functional st ?b\<close>
      by blast
    have "length raw \<le> 1"
    proof (cases raw)
      case (Cons x xs)
      show ?thesis
      proof (cases xs)
        case (Cons y ys)
        then have "mi_id x = mi_id y" using same [of x y] \<open>raw = x # xs\<close> by simp
        then show ?thesis using raw(2) \<open>raw = x # xs\<close> Cons by simp
      qed (simp add: \<open>raw = x # xs\<close>)
    qed simp
    then show ?thesis using k by (intro py_take_all) simp
  qed
  from res show ?thesis
  proof (cases rule: resolves_cases)
    case (noop c u)
    obtain f where f: "F (ns, mi_id c) = Some f" "ft_item f = c" "live t f" "mi_namespace c = ns" "about ?a ?b f"
      using item [OF noop(1)] by blast
    have "rivals t ns (c\<lparr>mi_access_count := mi_access_count c + 1, mi_updated_at := u\<rparr>) F = {}"
      if fn: "functional st (str_or_empty (mi_predicate c))"
    proof (rule equals0I)
      fix x assume "x \<in> rivals t ns (c\<lparr>mi_access_count := mi_access_count c + 1, mi_updated_at := u\<rparr>) F"
      then obtain i g where g: "F (ns, i) = Some g" "live t g" "i \<noteq> mi_id c"
        "about (str_or_empty (mi_subject c)) (str_or_empty (mi_predicate c)) g"
        by (auto simp: rivals_def)
      have "about (str_or_empty (mi_subject c)) (str_or_empty (mi_predicate c)) f"
        using f(2) by (simp add: about_def)
      then show False
        using sv [unfolded one_live_def, rule_format, of i g "mi_id c" f] g f(1,3) fn by blast
    qed
    then show ?thesis
      unfolding noop(3) using f(4) by (intro one_live_put [OF sv]) simp_all
  next
    case add
    have "rivals t ns winner F = {}" if "functional st ?b"
      using add(1,2) functional_candidates [OF that] raw(1) one [OF that] by (cases ?C) (auto simp: filter_empty_conv)
    then show ?thesis unfolding add(3) by (intro one_live_put [OF sv ns])
  next
    case (expire n)
    show ?thesis
      unfolding expire by (intro one_live_end one_live_put [OF sv]) (simp_all add: ns live_def fact_of_def)
  next
    case supersede
    have nin: "mi_id winner \<notin> set (map mi_id ?losers)"
    proof
      assume "mi_id winner \<in> set (map mi_id ?losers)"
      then obtain c where "c \<in> set ?C" "mi_id winner = mi_id c" by auto
      then show False using item [of c] by metis
    qed
    have "rivals t ns winner (end_all ns (map mi_id ?losers) (valid_at_of winner) F) = {}" if fn: "functional st ?b"
    proof -
      have "set ?losers = rivals t ns winner F"
        using supersede(1) functional_candidates [OF fn] one [OF fn] raw(1) by auto
      then have in_losers: "i \<in> set (map mi_id ?losers)"
        if "F (ns, i) = Some f" "live t f" "about ?a ?b f" "i \<noteq> mi_id winner" for i f
      proof -
        have "ft_item f \<in> rivals t ns winner F" using that unfolding rivals_def by blast
        moreover have "mi_id (ft_item f) = i" using facts_ok_id [OF ok that(1)] .
        ultimately show ?thesis using \<open>set ?losers = rivals t ns winner F\<close> by force
      qed
      show ?thesis
      proof (rule equals0I)
        fix x assume "x \<in> rivals t ns winner (end_all ns (map mi_id ?losers) (valid_at_of winner) F)"
        then obtain i f where f: "end_all ns (map mi_id ?losers) (valid_at_of winner) F (ns, i) = Some f"
          "live t f" "about ?a ?b f" "i \<noteq> mi_id winner" unfolding rivals_def by blast
        then show False
          using end_all_closed [OF _ f(1), of t] end_all_other [of i "map mi_id ?losers"] in_losers [of i f] by metis
      qed
    qed
    then show ?thesis
      unfolding supersede(2) end_all_put [OF ns nin]
      by (intro one_live_put one_live_end_all sv ns)
  qed
qed

context graph_store begin

lemma reconcile_all:
  assumes "wired p" "quiet_distill p" "valid_ns ns" "\<And>m. mi_namespace m = ns \<Longrightarrow> storable m"
    and "ds_candidate_k (dp_settings p) \<ge> 1" "\<forall>c\<in>set cs. mi_namespace c = ns"
    and "rel (dw_ltm w) F" "one_live (dp_settings p) (next_now (dw_ltm w)) ns F"
  shows "\<exists>as w' F'. map_eff (reconcile_and_apply p ns) cs w = (Inr as, w') \<and> rel (dw_ltm w') F'
    \<and> one_live (dp_settings p) (next_now (dw_ltm w')) ns F' \<and> length as = length cs"
  using assms(6-)
proof (induction cs arbitrary: w F)
  case Nil
  then show ?case by (auto simp: ret_def)
next
  case (Cons c cs)
  have c: "mi_namespace c = ns" using Cons.prems(1) by simp
  obtain act w1 F1 raw where 1: "reconcile_and_apply p ns c w = (Inr act, w1)" "rel (dw_ltm w1) F1"
    "next_now (dw_ltm w) \<le> next_now (dw_ltm w1)" "set raw = rivals (next_now (dw_ltm w)) ns c F"
    "distinct (map mi_id raw)"
    "resolves (dp_settings p) ns c (py_take (ds_candidate_k (dp_settings p)) raw) F act F1"
    using runs_reconcile [OF assms(1-3) c assms(4) Cons.prems(2)] unfolding runs_def by blast
  have "one_live (dp_settings p) (next_now (dw_ltm w)) ns F1"
    by (rule resolves_one_live [OF Cons.prems(3) rel_ok [OF Cons.prems(2)] c 1(4,5) assms(5) 1(6)])
  then have "one_live (dp_settings p) (next_now (dw_ltm w1)) ns F1"
    using one_live_later 1(3) by blast
  then obtain as w' F' where "map_eff (reconcile_and_apply p ns) cs w1 = (Inr as, w')" "rel (dw_ltm w') F'"
    "one_live (dp_settings p) (next_now (dw_ltm w')) ns F'" "length as = length cs"
    using Cons.IH [OF _ 1(2)] Cons.prems(1) by auto
  then show ?case using 1(1) by (auto simp: seq_def ret_def)
qed

lemma publish_if_quiet:
  assumes "quiet_distill p"
  shows "\<exists>w'. publish_if p e w = (Inr (), w') \<and> dw_ltm w' = dw_ltm w"
proof -
  obtain x w' where x: "publish_if p e w = (x, w')" by fastforce
  then have "x = Inr ()"
    using returns_quiet(1) [OF assms, of e] unfolding returns_def not_isl_iff by (metis fst_conv old.unit.exhaust)
  then show ?thesis using x keeps_ltmD [OF keeps_ltm_publish x] by simp
qed

lemma distill_total:
  assumes "wired p" "quiet_distill p" "valid_ns ns" "\<And>m. mi_namespace m = ns \<Longrightarrow> storable m"
    and "ds_candidate_k (dp_settings p) \<ge> 1" "\<forall>m\<in>set window. mi_namespace m = ns"
    and "rel (dw_ltm w) F" "one_live (dp_settings p) (next_now (dw_ltm w)) ns F"
  shows "\<exists>r w' F'. distill_inner p ns window w = (Inr r, w') \<and> rel (dw_ltm w') F'
    \<and> one_live (dp_settings p) (next_now (dw_ltm w')) ns F' \<and> length (dr_actions r) = dr_facts_extracted r"
proof -
  obtain x w1 where x: "collect_facts p ns window w = (x, w1)" by fastforce
  then obtain cs where cs: "collect_facts p ns window w = (Inr cs, w1)"
    using returns_quiet(4) [OF assms(2), of ns window] unfolding returns_def not_isl_iff by (metis fst_conv)
  have l1: "dw_ltm w1 = dw_ltm w" by (rule keeps_ltmD [OF keeps_ltm_collect cs])
  obtain w2 where w2: "publish_if p (FactsExtracted ns (int (length cs))) w1 = (Inr (), w2)" "dw_ltm w2 = dw_ltm w1"
    using publish_if_quiet [OF assms(2)] by blast
  have pre: "rel (dw_ltm w2) F" "one_live (dp_settings p) (next_now (dw_ltm w2)) ns F"
    using assms(7,8) l1 w2(2) by simp_all
  obtain as w3 F' where w3: "map_eff (reconcile_and_apply p ns) cs w2 = (Inr as, w3)" "rel (dw_ltm w3) F'"
    "one_live (dp_settings p) (next_now (dw_ltm w3)) ns F'" "length as = length cs"
    using reconcile_all [OF assms(1-5) collect_facts_namespace [OF cs assms(6)] pre] by blast
  let ?r = "\<lparr>dr_facts_extracted = length cs, dr_actions = as\<rparr>"
  obtain w4 where w4: "publish_if p (ConsolidationCompleted ns (int (dr_facts_extracted ?r))
      (int (report_superseded ?r))) w3 = (Inr (), w4)" "dw_ltm w4 = dw_ltm w3"
    using publish_if_quiet [OF assms(2)] by blast
  have "distill_inner p ns window w = (Inr ?r, w4)"
    using cs w2(1) w3(1) w4(1) by (simp add: distill_inner_def seq_def Let_def ret_def)
  then show ?thesis using w3(2-4) w4(2) by (intro exI [of _ ?r] exI [of _ w4] exI [of _ F']) simp
qed

end

section \<open>Properties\<close>

text \<open>The pipeline on the FalkorDB adapter.\<close>
definition on_falkor ::
  "'j falkor \<Rightarrow> ('j falkor_state, 'm, 'b, 'c) distill_ports \<Rightarrow> ('j falkor_state, 'm, 'b, 'c) distill_ports" where
  "on_falkor cfg p = p\<lparr>dp_upsert := upsert_fact cfg, dp_find := find_conflicts cfg,
     dp_invalidate := invalidate cfg\<rparr>"

lemma on_falkor_wired [simp]: "ltm.wired cfg (on_falkor cfg p)"
  by (simp add: ltm.wired_def on_falkor_def)

lemma on_falkor_simps [simp]:
  "dp_settings (on_falkor cfg p) = dp_settings p" "quiet_distill (on_falkor cfg p) = quiet_distill p"
  by (simp_all add: on_falkor_def quiet_distill_def)

text \<open>
  C15. Consolidation never deletes: whatever the window (of the namespace), the extractor, the other
  stores and the bus do, and whether consolidation returns or raises half-way, the graph still
  represents a fact map, every fact that was there is still there under its key, and no fact of
  another namespace changed.
\<close>
theorem distill_never_deletes:
  assumes "ltm_rel cfg (dw_ltm w) F" and "valid_ns ns" and "\<forall>m\<in>set window. mi_namespace m = ns"
    and "distill (on_falkor cfg p) ns window obs w = (x, obs', w')"
  shows "\<exists>F'. ltm_rel cfg (dw_ltm w') F' \<and> dom F \<subseteq> dom F' \<and> (\<forall>ns' i. ns' \<noteq> ns \<longrightarrow> F' (ns', i) = F (ns', i))"
proof -
  obtain y where "distill_inner (on_falkor cfg p) ns window w = (y, w')"
    using assms(4) by (auto simp: distill_def split: prod.splits sum.splits)
  then show ?thesis
    using ltm.evolves_distill [OF on_falkor_wired assms(2,3)] assms(1)
    unfolding ltm.evolves_def grows_def by blast
qed

text \<open>
  C9. After a consolidation the graph never asserts two values: in a private namespace, with
  collaborators that do not fail and at least one candidate looked at, consolidation returns, one
  action per candidate fact, and if no two live facts of the namespace shared a subject and a
  single-cardinality predicate before, none do afterwards, at the graph's clock then and at every
  later instant.
\<close>
theorem distill_keeps_one_live_value:
  assumes "ltm_rel cfg (dw_ltm w) F" and "valid_ns ns" and "ns_visibility ns = PRIVATE"
    and "\<forall>m\<in>set window. mi_namespace m = ns" and "quiet_distill p"
    and "ds_candidate_k (dp_settings p) \<ge> 1"
    and "one_live (dp_settings p) (now_of cfg (dw_ltm w)) ns F"
  shows "\<exists>r w' F'. distill_inner (on_falkor cfg p) ns window w = (Inr r, w') \<and> ltm_rel cfg (dw_ltm w') F'
    \<and> length (dr_actions r) = dr_facts_extracted r
    \<and> (\<forall>t \<ge> now_of cfg (dw_ltm w'). one_live (dp_settings p) t ns F')"
proof -
  have "storable_item m" if "mi_namespace m = ns" for m
    using that assms(3) by (simp add: storable_item_def)
  from ltm.distill_total [OF on_falkor_wired, where p1 = p and ns = ns and window = window and w = w and F = F,
      simplified on_falkor_simps, OF assms(5,2) this assms(6,4,1,7)]
  obtain r w' F' where "distill_inner (on_falkor cfg p) ns window w = (Inr r, w')" "ltm_rel cfg (dw_ltm w') F'"
    "one_live (dp_settings p) (now_of cfg (dw_ltm w')) ns F'" "length (dr_actions r) = dr_facts_extracted r"
    by blast
  then show ?thesis using one_live_later by blast
qed

text \<open>A concrete pipeline: no mid-term store, a bus that collects the events, a counting clock.\<close>
definition demo_distill_ports :: "(memory_item falkor_state, unit, domain_event list, nat) distill_ports" where
  "demo_distill_ports = \<lparr>dp_upsert = upsert_fact demo_falkor, dp_find = find_conflicts demo_falkor,
     dp_invalidate = invalidate demo_falkor, dp_mtm_invalidate = None,
     dp_publish = Some (\<lambda>e b. (Inr (), b @ [e])), dp_now = (\<lambda>c. (Inr (int c), Suc c)),
     dp_utcnow = (\<lambda>c. (Inr (int c), Suc c)), dp_new_id = (\<lambda>c. (Inr (replicate c (CHR ''i'')), Suc c)),
     dp_extract = (\<lambda>_ _. Inr []), dp_sha256 = (\<lambda>s. s), dp_str = (\<lambda>_. ''''),
     dp_settings = default_distill_settings\<rparr>"

lemma demo_distill_quiet [simp]: "quiet_distill demo_distill_ports"
  by (simp add: quiet_distill_def demo_distill_ports_def)

definition demo_distill_world :: "(memory_item falkor_state, unit, domain_event list, nat) dworld" where
  "demo_distill_world = \<lparr>dw_ltm = demo_ltm, dw_mtm = (), dw_bus = [], dw_clock = 0\<rparr>"

lemma demo_window: "\<forall>m\<in>set [demo_fact ''m2'' ''Rome'' 4]. mi_namespace m = ltm_demo_ns"
  by simp

lemma demo_world_rel: "ltm_rel demo_falkor (dw_ltm demo_distill_world) demo_facts"
  by (simp add: demo_distill_world_def demo_ltm_rel)

theorem distill_never_deletes_witness:
  "\<exists>F' x obs' w'. distill (on_falkor demo_falkor demo_distill_ports) ltm_demo_ns [demo_fact ''m2'' ''Rome'' 4]
       \<lparr>dob_errors = 0, dob_latencies = 0, dob_audit = []\<rparr> demo_distill_world = (x, obs', w')
     \<and> ltm_rel demo_falkor (dw_ltm w') F' \<and> dom demo_facts \<subseteq> dom F'"
proof -
  obtain x obs' w' where r: "distill (on_falkor demo_falkor demo_distill_ports) ltm_demo_ns
      [demo_fact ''m2'' ''Rome'' 4] \<lparr>dob_errors = 0, dob_latencies = 0, dob_audit = []\<rparr> demo_distill_world = (x, obs', w')"
    by (metis prod_cases3)
  from distill_never_deletes [OF demo_world_rel ltm_demo_ns_valid demo_window r]
  show ?thesis using r by blast
qed

theorem distill_keeps_one_live_value_witness:
  "\<exists>r w' F'. distill_inner (on_falkor demo_falkor demo_distill_ports) ltm_demo_ns [demo_fact ''m2'' ''Rome'' 4]
       demo_distill_world = (Inr r, w')
     \<and> ltm_rel demo_falkor (dw_ltm w') F' \<and> one_live default_distill_settings (now_of demo_falkor (dw_ltm w')) ltm_demo_ns F'"
proof -
  have "one_live (dp_settings demo_distill_ports) t ltm_demo_ns demo_facts" for t
    by (auto simp: one_live_def demo_facts_def split: if_splits)
  moreover have "ns_visibility ltm_demo_ns = PRIVATE" "ds_candidate_k (dp_settings demo_distill_ports) \<ge> 1"
    "dp_settings demo_distill_ports = default_distill_settings"
    by (simp_all add: ltm_demo_ns_def demo_distill_ports_def default_distill_settings_def)
  ultimately show ?thesis
    using distill_keeps_one_live_value [OF demo_world_rel ltm_demo_ns_valid _ demo_window demo_distill_quiet] by force
qed

text \<open>
  Facts that begin at the same instant take turns: after Paris was added and Rome, valid from the
  same instant, superseded it, consolidating the window that still holds the Paris item once more
  reopens Paris and supersedes Rome, so the answer depends on which window was consolidated last.
\<close>
theorem redistilling_reopens_a_loser:
  "let paris = demo_fact ''m1'' ''Paris'' 3; rome = demo_fact ''m2'' ''Rome'' 3;
       run = (\<lambda>m w. distill_inner demo_distill_ports ltm_demo_ns [m] w);
       w0 = demo_distill_world\<lparr>dw_ltm := empty_falkor\<rparr>;
       (r1, w1) = run paris w0; (r2, w2) = run rome w1; (r3, w3) = run paris w2
   in (case (r1, r2, r3) of
         (Inr a, Inr b, Inr c) \<Rightarrow>
           map (\<lambda>x. (da_kind x, da_winner_id x, da_loser_ids x)) (dr_actions a @ dr_actions b @ dr_actions c)
           = [(ADD, ''m1'', []), (SUPERSEDE, ''m2'', [''m1'']), (SUPERSEDE, ''m1'', [''m2''])]
       | _ \<Rightarrow> False)"
  by code_simp

end
