(* ===== verification/Lifecycle.thy ===== *)
theory Lifecycle
  imports Errors Pipeline "HOL-Library.Sublist" "HOL-Library.List_Lexorder" "HOL-Library.Char_ord"
begin

text \<open>
  Ordered start and stop of the app-scope adapters (platform/lifecycle.py): the Kahn sort of
  _topo_order and the LifecycleManager. Names are compared as strings, as sorted does. The worklist
  loop is a partial_function, so that its termination is a theorem. An adapter call is an entry in a
  trace; what it does may depend on everything called before.
\<close>

section \<open>The dependency sort\<close>

record lifecycle_spec =
  ls_name :: string
  ls_required :: bool
  ls_depends_on :: "string list"

type_synonym specs = "(string, lifecycle_spec) dict"

definition deps_of :: "specs \<Rightarrow> string \<Rightarrow> string list" where
  "deps_of specs name = (case dict_get specs name of None \<Rightarrow> [] | Some s \<Rightarrow> ls_depends_on s)"

text \<open>The counting pass: one for every entry of depends_on, or the raise for an unknown one.\<close>
definition count_deps :: "specs \<Rightarrow> (string \<Rightarrow> int) or_raise" where
  "count_deps specs =
     (if \<forall>(n, s)\<in>set specs. \<forall>d\<in>set (ls_depends_on s). d \<in> fst ` set specs
      then Inr (\<lambda>n. int (length (deps_of specs n)))
      else Inl ValueError)"

definition release_one ::
  "specs \<Rightarrow> string \<Rightarrow> (string \<Rightarrow> int) \<times> string list \<Rightarrow> string \<Rightarrow> (string \<Rightarrow> int) \<times> string list" where
  "release_one specs name st other = (case st of (indeg, ready) \<Rightarrow>
     if name \<in> set (deps_of specs other)
     then (indeg(other := indeg other - 1), if indeg other - 1 = 0 then ready @ [other] else ready)
     else (indeg, ready))"

definition release :: "specs \<Rightarrow> string \<Rightarrow> (string \<Rightarrow> int) \<Rightarrow> string list \<Rightarrow> (string \<Rightarrow> int) \<times> string list" where
  "release specs name indeg ready = foldl (release_one specs name) (indeg, ready) (sort (map fst specs))"

partial_function (option) kahn ::
  "specs \<Rightarrow> (string \<Rightarrow> int) \<Rightarrow> string list \<Rightarrow> string list \<Rightarrow> string list option" where
  "kahn specs indeg ready order = (case ready of
       [] \<Rightarrow> Some order
     | name # rest \<Rightarrow> (case release specs name indeg rest of
         (indeg', ready') \<Rightarrow> kahn specs indeg' (sort ready') (order @ [name])))"

declare kahn.simps [code]

definition topo_order :: "specs \<Rightarrow> string list or_raise option" where
  "topo_order specs = (case count_deps specs of
       Inl e \<Rightarrow> Some (Inl e)
     | Inr indeg \<Rightarrow> map_option (\<lambda>order. if length order \<noteq> length specs then Inl ValueError else Inr order)
         (kahn specs indeg (sort (filter (\<lambda>n. indeg n = 0) (map fst specs))) []))"

section \<open>Its invariant\<close>

text \<open>Every dependency of an entry stands before it.\<close>
definition deps_first :: "specs \<Rightarrow> string list \<Rightarrow> bool" where
  "deps_first specs order = (\<forall>xs n ys. order = xs @ n # ys \<longrightarrow> set (deps_of specs n) \<subseteq> set xs)"

definition kahn_inv :: "specs \<Rightarrow> (string \<Rightarrow> int) \<Rightarrow> string list \<Rightarrow> string list \<Rightarrow> bool" where
  "kahn_inv specs indeg ready order = (distinct (order @ ready) \<and> set (order @ ready) \<subseteq> fst ` set specs
     \<and> (\<forall>n \<in> fst ` set specs. indeg n = int (length (deps_of specs n)) - int (card (set (deps_of specs n) \<inter> set order))
          \<and> (n \<in> set (order @ ready) \<longleftrightarrow> indeg n = 0))
     \<and> deps_first specs order)"

lemma deps_first_snoc:
  "deps_first specs order \<Longrightarrow> set (deps_of specs n) \<subseteq> set order \<Longrightarrow> deps_first specs (order @ [n])"
  unfolding deps_first_def by (auto simp: append_eq_Cons_conv append_eq_append_conv2 Cons_eq_append_conv)

lemma released_all:
  assumes "card (set ds \<inter> S) = length ds"
  shows "distinct ds \<and> set ds \<subseteq> S"
proof -
  have "length ds \<le> card (set ds)" using assms card_mono [of "set ds" "set ds \<inter> S"] by simp
  then have c: "card (set ds) = length ds" using card_length [of ds] by simp
  then have "set ds \<inter> S = set ds" using assms card_subset_eq [of "set ds" "set ds \<inter> S"] by simp
  then show ?thesis using c card_distinct by blast
qed

lemma release_one_simps:
  "name \<notin> set (deps_of specs m) \<Longrightarrow> release_one specs name (indeg, ready) m = (indeg, ready)"
  "name \<in> set (deps_of specs m) \<Longrightarrow> release_one specs name (indeg, ready) m =
     (indeg(m := indeg m - 1), if indeg m = 1 then ready @ [m] else ready)"
  by (simp_all add: release_one_def)

text \<open>The release pass, in closed form.\<close>
lemma release_fold:
  assumes "distinct ns" "set ready \<inter> set ns \<inter> {n. name \<in> set (deps_of specs n)} = {}" "distinct ready"
    and "foldl (release_one specs name) (indeg, ready) ns = (indeg', ready')"
  shows "indeg' n = (if n \<in> set ns \<and> name \<in> set (deps_of specs n) then indeg n - 1 else indeg n)
    \<and> (n \<in> set ready' \<longleftrightarrow> n \<in> set ready \<or> (n \<in> set ns \<and> name \<in> set (deps_of specs n) \<and> indeg n = 1))
    \<and> distinct ready'"
  using assms
proof (induction ns arbitrary: indeg ready)
  case (Cons m ns)
  have "distinct ns" "m \<notin> set ns" using Cons.prems(1) by simp_all
  show ?case
  proof (cases "name \<in> set (deps_of specs m)")
    case False
    then have fold: "foldl (release_one specs name) (indeg, ready) ns = (indeg', ready')"
      using Cons.prems(4) False by (simp add: release_one_simps)
    have "set ready \<inter> set ns \<inter> {n. name \<in> set (deps_of specs n)} = {}" using Cons.prems(2) by auto
    from Cons.IH [OF \<open>distinct ns\<close> this Cons.prems(3) fold] show ?thesis using False by auto
  next
    case True
    let ?i = "indeg(m := indeg m - 1)" and ?r = "if indeg m = 1 then ready @ [m] else ready"
    have fold: "foldl (release_one specs name) (?i, ?r) ns = (indeg', ready')"
      using Cons.prems(4) True by (simp add: release_one_simps)
    have "m \<notin> set ready" using Cons.prems(2) True by auto
    then have "distinct ?r" "set ?r \<inter> set ns \<inter> {n. name \<in> set (deps_of specs n)} = {}"
      using Cons.prems(2,3) \<open>m \<notin> set ns\<close> by auto
    from Cons.IH [OF \<open>distinct ns\<close> this(2,1) fold] show ?thesis
      using True \<open>m \<notin> set ns\<close> by (cases "n = m") auto
  qed
qed simp

lemma kahn_step:
  assumes inv: "kahn_inv specs indeg (name # rest) order" and d: "distinct (map fst specs)"
    and rel: "release specs name indeg rest = (indeg', ready')"
  shows "kahn_inv specs indeg' (sort ready') (order @ [name])"
proof -
  let ?N = "fst ` set specs"
  let ?D = "\<lambda>n. deps_of specs n"
  have name: "name \<in> ?N" "name \<notin> set order" "name \<notin> set rest" "indeg name = 0" "distinct rest"
    using inv unfolding kahn_inv_def by auto
  have cnt: "indeg n = int (length (?D n)) - int (card (set (?D n) \<inter> set order))"
    and mem: "n \<in> set (order @ name # rest) \<longleftrightarrow> indeg n = 0" if "n \<in> ?N" for n
    using inv that unfolding kahn_inv_def by auto
  have card_new: "card (set (?D n) \<inter> set (order @ [name])) =
      (if name \<in> set (?D n) then Suc (card (set (?D n) \<inter> set order)) else card (set (?D n) \<inter> set order))" for n
    using name(2) by (auto simp: Int_insert_right)
  have bound: "card (set (?D n) \<inter> S) \<le> length (?D n)" for n S
    using card_mono [of "set (?D n)" "set (?D n) \<inter> S"] card_length [of "?D n"] by simp
  have busy: "indeg n \<ge> 1" if "n \<in> ?N" "name \<in> set (?D n)" for n
    using cnt [OF that(1)] card_new [of n] bound [of n "set (order @ [name])"] that(2) by simp
  have idle: "set rest \<inter> set (sort (map fst specs)) \<inter> {n. name \<in> set (?D n)} = {}"
  proof (rule equals0I)
    fix n assume "n \<in> set rest \<inter> set (sort (map fst specs)) \<inter> {n. name \<in> set (?D n)}"
    then have "n \<in> ?N" "name \<in> set (?D n)" "n \<in> set rest" by auto
    then show False using mem [of n] busy [of n] by simp
  qed
  have r: "indeg' n = (if n \<in> ?N \<and> name \<in> set (?D n) then indeg n - 1 else indeg n)
    \<and> (n \<in> set ready' \<longleftrightarrow> n \<in> set rest \<or> (n \<in> ?N \<and> name \<in> set (?D n) \<and> indeg n = 1))
    \<and> distinct ready'" for n
    using release_fold [OF _ idle name(5) rel [unfolded release_def], of n] d by simp
  have sub: "set (?D name) \<subseteq> set order"
    using cnt [OF name(1)] name(4) released_all [of "?D name" "set order"] by simp
  show ?thesis
    unfolding kahn_inv_def
  proof (intro conjI ballI)
    show "deps_first specs (order @ [name])"
      using inv sub deps_first_snoc unfolding kahn_inv_def by blast
    have fresh: "n \<notin> set order \<and> n \<noteq> name" if "n \<in> ?N" "name \<in> set (?D n)" for n
      using mem [OF that(1)] busy [OF that] by auto
    have od: "distinct order" "set order \<inter> set rest = {}" "set order \<subseteq> ?N" "set rest \<subseteq> ?N"
      using inv unfolding kahn_inv_def by auto
    have new: "n \<in> ?N \<and> n \<notin> set order \<and> n \<noteq> name" if "n \<in> set ready'" for n
      using that r [of n] fresh [of n] od name(3) by blast
    show "distinct ((order @ [name]) @ sort ready')"
      using new od(1) name(2) r by auto
    show "set ((order @ [name]) @ sort ready') \<subseteq> ?N"
      using new od(3) name(1) by auto
    fix n assume n: "n \<in> ?N"
    show "indeg' n = int (length (?D n)) - int (card (set (?D n) \<inter> set (order @ [name])))"
      using r [of n] cnt [OF n] card_new [of n] n by auto
    show "n \<in> set ((order @ [name]) @ sort ready') \<longleftrightarrow> indeg' n = 0"
      using r [of n] mem [OF n] busy [OF n] n by auto
  qed
qed

lemma kahn_terminates:
  assumes "kahn_inv specs indeg ready order" "distinct (map fst specs)"
  shows "\<exists>out indeg'. kahn specs indeg ready order = Some out \<and> kahn_inv specs indeg' [] out"
  using assms
proof (induction "length specs - length order" arbitrary: indeg ready order rule: less_induct)
  case less
  show ?case
  proof (cases ready)
    case Nil
    then show ?thesis using less.prems(1) by (subst kahn.simps) auto
  next
    case (Cons name rest)
    obtain indeg' ready' where r: "release specs name indeg rest = (indeg', ready')" by fastforce
    have inv: "kahn_inv specs indeg' (sort ready') (order @ [name])"
      using kahn_step less.prems r Cons by blast
    have "length (order @ ready) = card (set (order @ ready))"
      using less.prems(1) distinct_card unfolding kahn_inv_def by metis
    also have "\<dots> \<le> card (fst ` set specs)"
      using less.prems(1) unfolding kahn_inv_def by (intro card_mono) auto
    also have "\<dots> \<le> length specs" by (metis card_length length_map set_map)
    finally have "length specs - length (order @ [name]) < length specs - length order"
      using Cons by simp
    then obtain out indeg2 where "kahn specs indeg' (sort ready') (order @ [name]) = Some out"
      "kahn_inv specs indeg2 [] out"
      using less.hyps [OF _ inv less.prems(2)] by blast
    then show ?thesis using r Cons by (subst kahn.simps) auto
  qed
qed

section \<open>Completeness\<close>

definition depends :: "specs \<Rightarrow> (string \<times> string) set" where
  "depends specs = {(d, n). n \<in> fst ` set specs \<and> d \<in> set (deps_of specs n)}"

definition all_registered :: "specs \<Rightarrow> bool" where
  "all_registered specs = (\<forall>(n, s)\<in>set specs. \<forall>d\<in>set (ls_depends_on s). d \<in> fst ` set specs)"

lemma all_registered_deps:
  "\<lbrakk> all_registered specs; d \<in> set (deps_of specs n) \<rbrakk> \<Longrightarrow> d \<in> fst ` set specs"
  unfolding all_registered_def deps_of_def by (cases "dict_get specs n") (auto dest!: map_of_SomeD)

lemma kahn_start:
  assumes "distinct (map fst specs)" "count_deps specs = Inr indeg"
  shows "kahn_inv specs indeg (sort (filter (\<lambda>n. indeg n = 0) (map fst specs))) []"
proof -
  have "indeg = (\<lambda>n. int (length (deps_of specs n)))"
    using assms(2) by (simp add: count_deps_def split: if_splits)
  then show ?thesis
    using assms(1) by (auto simp: kahn_inv_def deps_first_def)
qed

lemma kahn_end_distinct:
  "\<lbrakk> kahn_inv specs indeg [] order; n \<in> set order \<rbrakk> \<Longrightarrow> distinct (deps_of specs n) \<and> set (deps_of specs n) \<subseteq> set order"
proof (intro released_all)
  assume a: "kahn_inv specs indeg [] order" "n \<in> set order"
  then have "n \<in> fst ` set specs" unfolding kahn_inv_def by auto
  then have "indeg n = int (length (deps_of specs n)) - int (card (set (deps_of specs n) \<inter> set order))"
    "indeg n = 0" using a unfolding kahn_inv_def by auto
  then show "card (set (deps_of specs n) \<inter> set order) = length (deps_of specs n)" by simp
qed

lemma kahn_end_complete:
  assumes inv: "kahn_inv specs indeg [] order" and reg: "all_registered specs"
    and ac: "acyclic (depends specs)" and dd: "\<And>n. distinct (deps_of specs n)"
  shows "set order = fst ` set specs"
proof (rule ccontr)
  let ?N = "fst ` set specs"
  assume "set order \<noteq> ?N"
  then obtain x where x: "x \<in> ?N - set order" using inv unfolding kahn_inv_def by auto
  have "depends specs \<subseteq> ?N \<times> ?N"
    using all_registered_deps [OF reg] by (auto simp: depends_def)
  then have "finite (depends specs)" by (rule finite_subset) simp
  then have "wf (depends specs)" using ac by (rule finite_acyclic_wf)
  then obtain n where n: "n \<in> ?N - set order" "\<And>m. (m, n) \<in> depends specs \<Longrightarrow> m \<notin> ?N - set order"
    using x by (rule wfE_min) auto
  have "set (deps_of specs n) \<subseteq> set order"
    using n all_registered_deps [OF reg] by (auto simp: depends_def)
  then have "set (deps_of specs n) \<inter> set order = set (deps_of specs n)" by auto
  then have "indeg n = 0"
    using inv n(1) distinct_card [OF dd] unfolding kahn_inv_def by auto
  then show False using inv n(1) unfolding kahn_inv_def by auto
qed

definition position :: "string list \<Rightarrow> string \<Rightarrow> nat" where
  "position order n = length (takeWhile (\<lambda>m. m \<noteq> n) order)"

lemma deps_first_acyclic:
  assumes "deps_first specs order" "set order = fst ` set specs"
  shows "acyclic (depends specs)"
proof (rule wf_acyclic, rule wf_subset)
  show "wf (measure (position order))" by simp
  show "depends specs \<subseteq> measure (position order)"
  proof (clarsimp simp: depends_def)
    fix d n s assume n: "(n, s) \<in> set specs" "d \<in> set (deps_of specs n)"
    then have "n \<in> set order" using assms(2) by force
    then obtain xs ys where split: "order = xs @ n # ys" "n \<notin> set xs" by (meson split_list_first)
    then have d: "d \<in> set xs" using assms(1) n(2) unfolding deps_first_def by blast
    have "position order n = length xs"
      using split by (auto simp: position_def takeWhile_append)
    moreover have "position order d < length xs"
    proof -
      obtain us vs where "xs = us @ d # vs" "d \<notin> set us" using d by (meson split_list_first)
      then show ?thesis using split length_takeWhile_le [of "\<lambda>m. m \<noteq> d" us] by (simp add: position_def takeWhile_tail)
    qed
    ultimately show "position order d < position order n" by simp
  qed
qed

text \<open>
  C32. The boot order always exists or is refused: for every set of specs the sort terminates; it
  returns an order exactly when every dependency is registered, there is no cycle, and no spec lists
  a dependency twice, and then the order lists every component once, each after all components it
  depends on; in every other case it raises ValueError. So a repeated dependency, which is harmless,
  is refused as a cycle.
\<close>
theorem topo_order_correct:
  assumes "distinct (map fst specs)"
  shows "\<exists>r. topo_order specs = Some r
    \<and> (case r of Inr order \<Rightarrow> distinct order \<and> set order = fst ` set specs \<and> deps_first specs order
        | Inl e \<Rightarrow> e = ValueError)
    \<and> (\<not> isl r \<longleftrightarrow> all_registered specs \<and> acyclic (depends specs) \<and> (\<forall>n. distinct (deps_of specs n)))"
proof (cases "count_deps specs")
  case (Inl e)
  then have "\<not> all_registered specs" "e = ValueError"
    by (auto simp: count_deps_def all_registered_def split: if_splits)
  then show ?thesis using Inl by (simp add: topo_order_def)
next
  case (Inr indeg)
  then have reg: "all_registered specs"
    unfolding count_deps_def all_registered_def by (auto split: if_splits)
  obtain order indeg' where k: "kahn specs indeg (sort (filter (\<lambda>n. indeg n = 0) (map fst specs))) [] = Some order"
    "kahn_inv specs indeg' [] order"
    using kahn_terminates [OF kahn_start [OF assms Inr] assms] by blast
  have o: "distinct order" "set order \<subseteq> fst ` set specs" "deps_first specs order"
    using k(2) unfolding kahn_inv_def by auto
  have len: "length order = length specs \<longleftrightarrow> set order = fst ` set specs"
  proof -
    have c: "card (fst ` set specs) = length specs" using distinct_card [OF assms] by simp
    show ?thesis
      using distinct_card [OF o(1)] o(2) c card_subset_eq [of "fst ` set specs" "set order"] by auto
  qed
  show ?thesis
  proof (cases "set order = fst ` set specs")
    case True
    have "distinct (deps_of specs n)" for n
    proof (cases "n \<in> set order")
      case False
      then have "deps_of specs n = []"
        using True by (auto simp: deps_of_def map_of_eq_None_iff split: option.splits dest!: map_of_SomeD) force
      then show ?thesis by simp
    qed (use kahn_end_distinct [OF k(2)] in blast)
    then show ?thesis
      using Inr k(1) len True reg o deps_first_acyclic [OF o(3) True] by (simp add: topo_order_def)
  next
    case False
    then have "\<not> (acyclic (depends specs) \<and> (\<forall>n. distinct (deps_of specs n)))"
      using kahn_end_complete [OF k(2) reg] by blast
    then show ?thesis using Inr k(1) len False by (auto simp: topo_order_def)
  qed
qed

definition demo_specs :: specs where
  "demo_specs = map (\<lambda>(n, ds). (n, \<lparr>ls_name = n, ls_required = True, ls_depends_on = ds\<rparr>))
     [(''workflow'', [''bus'', ''store'']), (''store'', []), (''bus'', [''store''])]"

theorem topo_order_correct_witness:
  "distinct (map fst demo_specs) \<and> topo_order demo_specs = Some (Inr [''store'', ''bus'', ''workflow''])
   \<and> acyclic (depends demo_specs)"
proof -
  have d: "distinct (map fst demo_specs)" by (simp add: demo_specs_def)
  have t: "topo_order demo_specs = Some (Inr [''store'', ''bus'', ''workflow''])" by code_simp
  show ?thesis using topo_order_correct [OF d] d t by simp
qed

section \<open>The manager\<close>

datatype call = Start string | Health string | Close string

record health_status =
  hs_healthy :: bool
  hs_degraded :: bool

text \<open>What an adapter does on a call, given the calls made so far.\<close>
record adapters =
  ad_start :: "call list \<Rightarrow> string \<Rightarrow> unit or_raise"
  ad_health :: "call list \<Rightarrow> string \<Rightarrow> health_status or_raise"
  ad_close :: "call list \<Rightarrow> string \<Rightarrow> unit or_raise"

record lifecycle_manager =
  lm_specs :: specs
  lm_order :: "string list"
  lm_started :: "string list"

record readiness_report =
  rr_started :: "string list"
  rr_degraded_names :: "string list"

definition add_spec :: "specs \<Rightarrow> lifecycle_spec \<Rightarrow> specs or_raise" where
  "add_spec by_name s = (if ls_name s \<in> fst ` set by_name then Inl ValueError
     else Inr (dict_put (ls_name s) s by_name))"

definition mk_manager :: "lifecycle_spec list \<Rightarrow> lifecycle_manager or_raise option" where
  "mk_manager specs = (case rfold add_spec [] specs of
       Inl e \<Rightarrow> Some (Inl e)
     | Inr by_name \<Rightarrow> map_option (\<lambda>r. rbind r (\<lambda>order.
         Inr \<lparr>lm_specs = by_name, lm_order = order, lm_started = []\<rparr>)) (topo_order by_name))"

definition required :: "specs \<Rightarrow> string \<Rightarrow> bool" where
  "required specs n = (case dict_get specs n of None \<Rightarrow> True | Some s \<Rightarrow> ls_required s)"

text \<open>_close_started; the argument is the started list from its end.\<close>
fun close_rev :: "adapters \<Rightarrow> string list \<Rightarrow> call list \<Rightarrow> unit or_raise \<times> string list \<times> call list" where
  "close_rev ad [] tr = (Inr (), [], tr)"
| "close_rev ad (n # ns) tr = (case ad_close ad tr n of
       Inl e \<Rightarrow> (Inl e, ns, tr @ [Close n])
     | Inr _ \<Rightarrow> close_rev ad ns (tr @ [Close n]))"

text \<open>One component of the start loop: Inl aborts; Inr says whether it counts as started and as
  degraded.\<close>
definition start_one :: "adapters \<Rightarrow> bool \<Rightarrow> string \<Rightarrow> call list \<Rightarrow> (bool \<times> bool) or_raise \<times> call list" where
  "start_one ad req n tr =
     (let failed = (\<lambda>e. if isinstance_of e PyException \<and> \<not> req then Inr (False, True) else Inl e)
      in case ad_start ad tr n of
           Inl e \<Rightarrow> (failed e, tr @ [Start n])
         | Inr _ \<Rightarrow> (case ad_health ad (tr @ [Start n]) n of
               Inl e \<Rightarrow> (failed e, tr @ [Start n, Health n])
             | Inr st \<Rightarrow>
                 (if hs_healthy st then Inr (True, hs_degraded st)
                  else if req then Inl RuntimeError else Inr (False, True), tr @ [Start n, Health n])))"

fun start_loop ::
  "adapters \<Rightarrow> specs \<Rightarrow> string list \<Rightarrow> string list \<Rightarrow> string list \<Rightarrow> call list
   \<Rightarrow> string list or_raise \<times> string list \<times> call list" where
  "start_loop ad specs [] started degraded tr = (Inr degraded, started, tr)"
| "start_loop ad specs (n # ns) started degraded tr = (case start_one ad (required specs n) n tr of
       (Inl e, tr') \<Rightarrow> (Inl e, started, tr')
     | (Inr (up, deg), tr') \<Rightarrow>
         start_loop ad specs ns (if up then started @ [n] else started)
           (if deg then degraded @ [n] else degraded) tr')"

definition manager_start ::
  "adapters \<Rightarrow> lifecycle_manager \<Rightarrow> call list \<Rightarrow> readiness_report or_raise \<times> lifecycle_manager \<times> call list" where
  "manager_start ad m tr = (case start_loop ad (lm_specs m) (lm_order m) (lm_started m) [] tr of
       (Inr degraded, started, tr') \<Rightarrow>
         (Inr \<lparr>rr_started = started, rr_degraded_names = degraded\<rparr>, m\<lparr>lm_started := started\<rparr>, tr')
     | (Inl e, started, tr') \<Rightarrow> (case close_rev ad (rev started) tr' of
           (Inl e', left, tr2) \<Rightarrow> (Inl e', m\<lparr>lm_started := rev left\<rparr>, tr2)
         | (Inr _, left, tr2) \<Rightarrow> (Inl e, m\<lparr>lm_started := rev left\<rparr>, tr2)))"

definition manager_close ::
  "adapters \<Rightarrow> lifecycle_manager \<Rightarrow> call list \<Rightarrow> unit or_raise \<times> lifecycle_manager \<times> call list" where
  "manager_close ad m tr = (case close_rev ad (rev (lm_started m)) tr of
       (r, left, tr') \<Rightarrow> (r, m\<lparr>lm_started := rev left\<rparr>, tr'))"

definition starts :: "call list \<Rightarrow> string list" where
  "starts tr = concat (map (\<lambda>c. case c of Start n \<Rightarrow> [n] | _ \<Rightarrow> []) tr)"

definition closes :: "call list \<Rightarrow> string list" where
  "closes tr = concat (map (\<lambda>c. case c of Close n \<Rightarrow> [n] | _ \<Rightarrow> []) tr)"

lemma starts_simps [simp]: "starts [] = []" "starts (xs @ ys) = starts xs @ starts ys"
    "starts (Start n # tr) = n # starts tr" "starts (Health n # tr) = starts tr" "starts (Close n # tr) = starts tr"
  by (simp_all add: starts_def)

lemma closes_simps [simp]: "closes [] = []" "closes (xs @ ys) = closes xs @ closes ys"
    "closes (Start n # tr) = closes tr" "closes (Health n # tr) = closes tr" "closes (Close n # tr) = n # closes tr"
  by (simp_all add: closes_def)

lemma starts_map_Close [simp]: "starts (map Close ns) = []" "closes (map Close ns) = ns"
  by (induction ns) simp_all

lemma close_rev_ok:
  "(\<And>tr n. ad_close ad tr n = Inr ()) \<Longrightarrow> close_rev ad ns tr = (Inr (), [], tr @ map Close ns)"
  by (induction ns arbitrary: tr) simp_all

lemma start_one_trace:
  assumes "start_one ad req n tr = (r, tr')"
  shows "\<exists>made. tr' = tr @ made \<and> starts made = [n] \<and> closes made = []"
  using assms by (auto simp: start_one_def Let_def split: sum.splits if_splits)

lemma start_loop_degraded:
  "start_loop ad specs ns started degraded tr = (Inr deg, started', tr') \<Longrightarrow> set degraded \<subseteq> set deg"
  by (induction ns arbitrary: started degraded tr) (fastforce split: prod.splits sum.splits if_splits)+

lemma start_one_flags:
  "start_one ad req n tr = (Inr (up, deg), tr') \<Longrightarrow> (req \<longrightarrow> up) \<and> (up \<or> deg)"
  by (auto simp: start_one_def Let_def split: sum.splits if_splits)

definition boots :: "specs \<Rightarrow> string list \<Rightarrow> string list or_raise \<Rightarrow> string list \<Rightarrow> bool" where
  "boots specs ns r up \<longleftrightarrow> (\<forall>deg. r = Inr deg \<longrightarrow>
     (\<forall>n\<in>set ns. (required specs n \<longrightarrow> n \<in> set up) \<and> (n \<in> set up \<or> n \<in> set deg)))"

lemma start_loop_trace:
  assumes "start_loop ad specs ns started degraded tr = (r, started', tr')"
  shows "\<exists>made up k. tr' = tr @ made \<and> closes made = [] \<and> starts made = take k ns
    \<and> started' = started @ up \<and> subseq up (take k ns)
    \<and> (\<not> isl r \<longrightarrow> length ns \<le> k) \<and> boots specs ns r up"
  using assms
proof (induction ns arbitrary: started degraded tr)
  case Nil
  then show ?case by (intro exI [of _ "[]"] exI [of _ "0::nat"]) (simp add: boots_def)
next
  case (Cons n ns)
  obtain x tr1 where one: "start_one ad (required specs n) n tr = (x, tr1)" by fastforce
  obtain made1 where m1: "tr1 = tr @ made1" "starts made1 = [n]" "closes made1 = []"
    using start_one_trace [OF one] by blast
  show ?case
  proof (cases x)
    case (Inl e)
    then show ?thesis
      using Cons.prems one m1
      by (intro exI [of _ made1] exI [of _ "[]"] exI [of _ "1::nat"]) (auto simp: boots_def)
  next
    case (Inr ud)
    obtain up1 deg1 where ud: "ud = (up1, deg1)" by fastforce
    let ?s = "if up1 then started @ [n] else started" and ?d = "if deg1 then degraded @ [n] else degraded"
    have rest: "start_loop ad specs ns ?s ?d tr1 = (r, started', tr')"
      using Cons.prems one Inr ud by simp
    have flags: "required specs n \<longrightarrow> up1" "up1 \<or> deg1"
      using start_one_flags [OF one [unfolded Inr ud]] by simp_all
    obtain made up k where IH: "tr' = tr1 @ made" "closes made = []" "starts made = take k ns"
      "started' = ?s @ up" "subseq up (take k ns)" "\<not> isl r \<longrightarrow> length ns \<le> k" "boots specs ns r up"
      using Cons.IH [OF rest] by blast
    let ?up = "if up1 then n # up else up"
    have "n \<in> set deg" if "r = Inr deg" "\<not> up1" for deg
      using start_loop_degraded [OF rest [unfolded that(1)]] flags that(2) by auto
    then have "boots specs (n # ns) r ?up"
      using IH(7) flags by (auto simp: boots_def)
    moreover have "tr' = tr @ made1 @ made" "closes (made1 @ made) = []"
      "starts (made1 @ made) = take (Suc k) (n # ns)" "started' = started @ ?up"
      "subseq ?up (take (Suc k) (n # ns))"
      using IH m1 by auto
    ultimately show ?thesis using IH(6) by (metis Suc_le_mono length_Cons)
  qed
qed

lemma start_loop_healthy:
  assumes "start_loop ad specs ns started degraded tr = (r, started', tr')"
    and "\<And>tr st. ad_health ad tr n = Inr st \<Longrightarrow> \<not> hs_healthy st" "n \<notin> set started"
  shows "n \<notin> set started'"
  using assms(1,3)
proof (induction ns arbitrary: started degraded tr)
  case (Cons m ns)
  obtain x tr1 where one: "start_one ad (required specs m) m tr = (x, tr1)" by fastforce
  have no: "\<not> up" if "m = n" "x = Inr (up, deg)" for up deg
    using one that assms(2) by (auto simp: start_one_def Let_def split: sum.splits if_splits)
  show ?case
  proof (cases x)
    case (Inr ud)
    obtain up deg where ud: "ud = (up, deg)" by fastforce
    show ?thesis
      using Cons.prems one Inr ud no [of up deg] 
      by (intro Cons.IH [of "if up then started @ [m] else started"
            "if deg then degraded @ [m] else degraded" tr1]) (auto split: if_splits)
  qed (use Cons.prems one in simp)
qed simp

lemma mk_manager_Inr:
  assumes "mk_manager specs = Some (Inr m)"
  shows "lm_started m = []" "topo_order (lm_specs m) = Some (Inr (lm_order m))"
  using assms by (auto simp: mk_manager_def split: sum.splits elim!: rbind_Inr_iff [THEN iffD1, elim_format])

lemma manager_start_Inr:
  assumes "manager_start ad m tr = (Inr rep, m', tr')"
  obtains deg where "start_loop ad (lm_specs m) (lm_order m) (lm_started m) [] tr = (Inr deg, lm_started m', tr')"
    "rr_degraded_names rep = deg" "rr_started rep = lm_started m'"
  using assms by (auto simp: manager_start_def split: prod.splits sum.splits)

lemma manager_start_Inl:
  assumes "manager_start ad m tr = (Inl e, m', tr')" "\<And>tr n. ad_close ad tr n = Inr ()"
  obtains up tr1 where "start_loop ad (lm_specs m) (lm_order m) (lm_started m) [] tr = (Inl e, up, tr1)"
    "lm_started m' = []" "tr' = tr1 @ map Close (rev up)"
  using assms by (auto simp: manager_start_def close_rev_ok split: prod.splits sum.splits)


text \<open>
  What boot does not roll back: a component whose start succeeded but whose health check never
  reports healthy is left running for good. It is not closed by start, whether start returns or
  raises, and it is not in the started list that a later close works through.
\<close>
theorem unhealthy_component_is_never_closed:
  assumes "mk_manager specs = Some (Inr m)" and "\<And>tr k. ad_close ad tr k = Inr ()"
    and "\<And>tr st. ad_health ad tr n = Inr st \<Longrightarrow> \<not> hs_healthy st"
    and "manager_start ad m [] = (r, m', tr)"
  shows "n \<notin> set (closes tr) \<and> n \<notin> set (closes (snd (snd (manager_close ad m' tr))))"
proof -
  obtain r' up tr1 where s: "start_loop ad (lm_specs m) (lm_order m) [] [] [] = (r', up, tr1)"
    by (metis prod_cases3)
  have up: "n \<notin> set up" using start_loop_healthy [OF s assms(3)] by simp
  have quiet: "closes tr1 = []" using start_loop_trace [OF s] by auto
  have "n \<notin> set (closes tr) \<and> n \<notin> set (lm_started m')"
    using assms(4) s up quiet mk_manager_Inr [OF assms(1)]
    by (cases r') (auto simp: manager_start_def close_rev_ok [OF assms(2)])
  then show ?thesis by (simp add: manager_close_def close_rev_ok [OF assms(2)])
qed

text \<open>The store has come up when the bus turns out unhealthy.\<close>
definition demo_adapters :: adapters where
  "demo_adapters = \<lparr>ad_start = \<lambda>tr n. Inr (),
     ad_health = \<lambda>tr n. Inr \<lparr>hs_healthy = n \<noteq> ''bus'', hs_degraded = False\<rparr>, ad_close = \<lambda>tr n. Inr ()\<rparr>"

definition demo_manager :: lifecycle_manager where
  "demo_manager = \<lparr>lm_specs = demo_specs, lm_order = [''store'', ''bus'', ''workflow''], lm_started = []\<rparr>"

definition demo_trace :: "call list" where
  "demo_trace = [Start ''store'', Health ''store'', Start ''bus'', Health ''bus'', Close ''store'']"

lemma demo_boot:
  "mk_manager (map snd demo_specs) = Some (Inr demo_manager)"
  "manager_start demo_adapters demo_manager [] = (Inl RuntimeError, demo_manager, demo_trace)"
  by code_simp+


theorem unhealthy_component_is_never_closed_witness:
  "''bus'' \<notin> set (closes demo_trace) \<and> Start ''bus'' \<in> set demo_trace"
  using unhealthy_component_is_never_closed [OF demo_boot(1) _ _ demo_boot(2), of "''bus''"]
  by (simp add: demo_adapters_def demo_trace_def)

end
