(* ===== verification/Audit_Trail.thy ===== *)
theory Audit_Trail
  imports Degradation "HOL-Library.Sublist"
begin

text \<open>
  The audit recorders (platform/observability.py): the no-op log, the structured-log mirror and the
  durable log, whose record enqueues on a bounded asyncio queue that a background task drains into
  the durable sink. The two sides interleave at every await of the drain task, so the durable log is
  a step relation: one step per call of record, per queue get, per answer of the sink and per
  cancellation. Third-party code is a parameter: whether the structured logger takes a line, and what
  the sink answers.
\<close>

section \<open>Calls and lines\<close>

record audit_call =
  ac_correlation_id :: string
  ac_operation :: string
  ac_outcome :: string
  ac_tier :: "string option"
  ac_visibility :: "string option"
  ac_store :: "string option"
  ac_ids :: "(string, string) dict option"
  ac_hashes :: "(string, string) dict option"
  ac_counts :: "(string, int) dict option"

record audit_record =
  ar_correlation_id :: string
  ar_operation :: string
  ar_outcome :: string
  ar_tier :: "string option"
  ar_visibility :: "string option"
  ar_store :: "string option"
  ar_fields :: safe_trace_fields

type_synonym line = "(string, attr_value) dict"

definition or_empty :: "('k, 'v) dict option \<Rightarrow> ('k, 'v) dict" where
  "or_empty m = (case m of None \<Rightarrow> [] | Some d \<Rightarrow> d)"

definition call_fields :: "audit_call \<Rightarrow> safe_trace_fields or_raise" where
  "call_fields c = mk_safe_trace_fields (or_empty (ac_ids c)) (or_empty (ac_hashes c)) (or_empty (ac_counts c))"

definition call_record :: "audit_call \<Rightarrow> safe_trace_fields \<Rightarrow> audit_record" where
  "call_record c f = \<lparr>ar_correlation_id = ac_correlation_id c, ar_operation = ac_operation c,
     ar_outcome = ac_outcome c, ar_tier = ac_tier c, ar_visibility = ac_visibility c,
     ar_store = ac_store c, ar_fields = f\<rparr>"

definition put_opt :: "string \<times> string option \<Rightarrow> line \<Rightarrow> line" where
  "put_opt p l = (case snd p of None \<Rightarrow> l | Some v \<Rightarrow> dict_put (fst p) (AStr v) l)"

text \<open>dict.update.\<close>
definition dict_update :: "('k, 'v) dict \<Rightarrow> ('k, 'v) dict \<Rightarrow> ('k, 'v) dict" where
  "dict_update d e = fold (\<lambda>(k, v). dict_put k v) e d"

definition audit_payload :: "audit_call \<Rightarrow> safe_trace_fields \<Rightarrow> line" where
  "audit_payload c f = dict_update
     (fold put_opt [(''tier'', ac_tier c), (''visibility'', ac_visibility c), (''store'', ac_store c)]
        [(''correlation_id'', AStr (ac_correlation_id c)), (''operation'', AStr (ac_operation c)),
         (''outcome'', AStr (ac_outcome c))])
     (as_attributes f)"

section \<open>The recorders\<close>

definition noop_record :: "audit_call \<Rightarrow> string or_raise" where
  "noop_record c = Inr ''noop''"

text \<open>The structured log: log_line is the answer of the third-party logger.\<close>
definition structlog_record ::
  "(line \<Rightarrow> unit or_raise) \<Rightarrow> audit_call \<Rightarrow> line list \<Rightarrow> string or_raise \<times> line list" where
  "structlog_record log_line c lines = (case call_fields c of
       Inl e \<Rightarrow> (Inl e, lines)
     | Inr f \<Rightarrow> (case log_line (audit_payload c f) of
           Inl e \<Rightarrow> (Inl e, lines)
         | Inr _ \<Rightarrow> (Inr (ac_correlation_id c), lines @ [audit_payload c f])))"

datatype drain_task = No_Task | Getting | Appending audit_record | Done

record audit_log =
  al_mirror :: "line list"
  al_queue :: "audit_record list"
  al_unfinished :: nat
  al_drain :: drain_task
  al_rows :: "audit_record list"
  al_failures :: "string list"

definition mk_audit_log :: audit_log where
  "mk_audit_log = \<lparr>al_mirror = [], al_queue = [], al_unfinished = 0, al_drain = No_Task,
     al_rows = [], al_failures = []\<rparr>"

text \<open>asyncio.Queue(maxsize): full only for a positive bound.\<close>
definition queue_full :: "int \<Rightarrow> 'a list \<Rightarrow> bool" where
  "queue_full maxsize q = (0 < maxsize \<and> maxsize \<le> int (length q))"

definition put_nowait :: "int \<Rightarrow> audit_record \<Rightarrow> audit_log \<Rightarrow> audit_log" where
  "put_nowait maxsize r w = (if queue_full maxsize (al_queue w) then w
     else w\<lparr>al_queue := al_queue w @ [r], al_unfinished := Suc (al_unfinished w)\<rparr>)"

definition ensure_drain :: "audit_log \<Rightarrow> audit_log" where
  "ensure_drain w = (if al_drain w = No_Task \<or> al_drain w = Done then w\<lparr>al_drain := Getting\<rparr> else w)"

text \<open>record; has_loop says whether asyncio.get_running_loop finds a loop.\<close>
definition durable_record ::
  "(line \<Rightarrow> unit or_raise) \<Rightarrow> int \<Rightarrow> bool \<Rightarrow> audit_call \<Rightarrow> audit_log \<Rightarrow> string or_raise \<times> audit_log" where
  "durable_record log_line maxsize has_loop c w = (case call_fields c of
       Inl e \<Rightarrow> (Inl e, w)
     | Inr f \<Rightarrow> (case structlog_record log_line c (al_mirror w) of
           (Inl e, lines) \<Rightarrow> (Inl e, w\<lparr>al_mirror := lines\<rparr>)
         | (Inr _, lines) \<Rightarrow> (Inr (ac_correlation_id c),
             if has_loop then put_nowait maxsize (call_record c f) (ensure_drain (w\<lparr>al_mirror := lines\<rparr>))
             else w\<lparr>al_mirror := lines\<rparr>)))"

text \<open>The drain task between two awaits: taking a record, and the answer of sink.append.\<close>
definition drain_get :: "audit_log \<Rightarrow> audit_log" where
  "drain_get w = (case (al_drain w, al_queue w) of
       (Getting, r # rs) \<Rightarrow> w\<lparr>al_drain := Appending r, al_queue := rs\<rparr>
     | _ \<Rightarrow> w)"

definition task_done :: "audit_log \<Rightarrow> audit_log" where
  "task_done w = w\<lparr>al_unfinished := al_unfinished w - 1\<rparr>"

definition drain_append :: "unit or_raise \<Rightarrow> audit_log \<Rightarrow> audit_log" where
  "drain_append answer w = (case al_drain w of
       Appending r \<Rightarrow> task_done (case answer of
           Inr _ \<Rightarrow> w\<lparr>al_drain := Getting, al_rows := al_rows w @ [r]\<rparr>
         | Inl e \<Rightarrow> if isinstance_of e PyException
             then w\<lparr>al_drain := Getting, al_failures := al_failures w @ [ar_correlation_id r]\<rparr>
             else w\<lparr>al_drain := Done\<rparr>)
     | _ \<Rightarrow> w)"

text \<open>Task.cancel: CancelledError is thrown at the await the task stands at.\<close>
definition drain_cancel :: "audit_log \<Rightarrow> audit_log" where
  "drain_cancel w = (case al_drain w of
       Getting \<Rightarrow> w\<lparr>al_drain := Done\<rparr>
     | Appending r \<Rightarrow> drain_append (Inl CancelledError) w
     | _ \<Rightarrow> w)"

text \<open>aclose: None while queue.join still blocks.\<close>
definition aclose :: "audit_log \<Rightarrow> audit_log option" where
  "aclose w = (if al_drain w = No_Task then Some w
     else if al_unfinished w = 0 then Some (drain_cancel w) else None)"

datatype audit_kind = Noop_Log | Durable_Log | Structlog_Log

definition build_audit :: "bool \<Rightarrow> bool \<Rightarrow> audit_kind" where
  "build_audit enabled has_sink =
     (if \<not> enabled then Noop_Log else if has_sink then Durable_Log else Structlog_Log)"

section \<open>Histories\<close>

text \<open>Actions of the event loop; the answers of the third parties are part of the action.\<close>
datatype audit_act = Call bool audit_call | Get | Answer "unit or_raise" | Cancel

definition interrupts :: "audit_act \<Rightarrow> bool" where
  "interrupts a = (case a of Cancel \<Rightarrow> True
     | Answer (Inl e) \<Rightarrow> \<not> isinstance_of e PyException | _ \<Rightarrow> False)"

definition audit_do :: "(line \<Rightarrow> unit or_raise) \<Rightarrow> int \<Rightarrow> audit_act \<Rightarrow> audit_log \<Rightarrow> audit_log" where
  "audit_do log_line maxsize a w = (case a of
       Call has_loop c \<Rightarrow> snd (durable_record log_line maxsize has_loop c w)
     | Get \<Rightarrow> drain_get w
     | Answer x \<Rightarrow> drain_append x w
     | Cancel \<Rightarrow> drain_cancel w)"

text \<open>What the queue took in a step.\<close>
definition taken :: "audit_log \<Rightarrow> audit_act \<Rightarrow> audit_log \<Rightarrow> audit_record list" where
  "taken w a w' = (case a of
       Call _ c \<Rightarrow> if al_unfinished w < al_unfinished w' then [last (al_queue w')] else []
     | _ \<Rightarrow> [])"

text \<open>Reachable logs, with the records the queue accepted and the calls that returned so far.\<close>
inductive reach ::
  "(line \<Rightarrow> unit or_raise) \<Rightarrow> int \<Rightarrow> audit_log \<Rightarrow> audit_record list \<Rightarrow> audit_call list \<Rightarrow> audit_act list \<Rightarrow> bool"
  for log_line maxsize where
  start: "reach log_line maxsize mk_audit_log [] [] []"
| step: "reach log_line maxsize w acc calls acts \<Longrightarrow> w' = audit_do log_line maxsize a w \<Longrightarrow>
    reach log_line maxsize w' (acc @ taken w a w')
      (calls @ (case a of Call has_loop c \<Rightarrow>
         if isl (fst (durable_record log_line maxsize has_loop c w)) then [] else [c] | _ \<Rightarrow> []))
      (acts @ [a])"


definition in_hand :: "audit_log \<Rightarrow> audit_record list" where
  "in_hand w = (case al_drain w of Appending r \<Rightarrow> [r] | _ \<Rightarrow> [])"

definition drain_alive :: "audit_log \<Rightarrow> bool" where
  "drain_alive w = (case al_drain w of Getting \<Rightarrow> True | Appending _ \<Rightarrow> True | _ \<Rightarrow> False)"

lemma in_hand_simps [simp]:
  "al_drain w = No_Task \<Longrightarrow> in_hand w = []" "al_drain w = Getting \<Longrightarrow> in_hand w = []"
  "al_drain w = Done \<Longrightarrow> in_hand w = []" "al_drain w = Appending r \<Longrightarrow> in_hand w = [r]"
  by (simp_all add: in_hand_def)

definition mirror_line :: "audit_call \<Rightarrow> line" where
  "mirror_line c = audit_payload c (projr (call_fields c))"

definition accounts :: "audit_log \<Rightarrow> audit_record list \<Rightarrow> nat \<Rightarrow> bool" where
  "accounts w acc k \<longleftrightarrow> (\<exists>don. acc = don @ in_hand w @ al_queue w \<and> subseq (al_rows w) don
     \<and> length (al_rows w) + length (al_failures w) \<le> length don
     \<and> length don \<le> length (al_rows w) + length (al_failures w) + k)"

definition audit_inv :: "int \<Rightarrow> audit_log \<Rightarrow> audit_record list \<Rightarrow> audit_call list \<Rightarrow> nat \<Rightarrow> bool" where
  "audit_inv maxsize w acc calls k \<longleftrightarrow> al_unfinished w = length (in_hand w @ al_queue w)
     \<and> (0 < maxsize \<longrightarrow> int (length (al_queue w)) \<le> maxsize)
     \<and> al_mirror w = map mirror_line calls \<and> accounts w acc k"

lemma accounts_more: "accounts w acc k \<Longrightarrow> k \<le> k' \<Longrightarrow> accounts w acc k'"
  unfolding accounts_def by (elim exE conjE) (rule exI, intro conjI, assumption+, linarith)

lemma record_cases:
  obtains (invalid) e where "call_fields c = Inl e" "durable_record log_line maxsize lp c w = (Inl e, w)"
  | (refused) e where "durable_record log_line maxsize lp c w = (Inl e, w)"
  | (no_loop) f where "call_fields c = Inr f" "\<not> lp"
      "durable_record log_line maxsize lp c w
         = (Inr (ac_correlation_id c), w\<lparr>al_mirror := al_mirror w @ [mirror_line c]\<rparr>)"
  | (queued) f where "call_fields c = Inr f" "lp"
      "durable_record log_line maxsize lp c w = (Inr (ac_correlation_id c),
         put_nowait maxsize (call_record c f) (ensure_drain (w\<lparr>al_mirror := al_mirror w @ [mirror_line c]\<rparr>)))"
proof (cases "call_fields c")
  case (Inr f)
  then show ?thesis
    using that(2-4) by (cases "log_line (audit_payload c f)"; cases lp)
      (auto simp: durable_record_def structlog_record_def mirror_line_def)
qed (use that in \<open>simp add: durable_record_def\<close>)

lemma audit_inv_ensure:
  assumes "audit_inv maxsize w acc calls k" "mirror_line c = l"
  shows "audit_inv maxsize (ensure_drain (w\<lparr>al_mirror := al_mirror w @ [l]\<rparr>)) acc (calls @ [c]) k"
  using assms unfolding audit_inv_def accounts_def ensure_drain_def in_hand_def by auto

lemma audit_inv_put:
  assumes "audit_inv maxsize w acc calls k"
  shows "audit_inv maxsize (put_nowait maxsize r w) (acc @ (if queue_full maxsize (al_queue w) then [] else [r])) calls k"
  using assms unfolding audit_inv_def accounts_def put_nowait_def queue_full_def in_hand_def
  by (auto split: drain_task.splits)

lemma audit_inv_get:
  assumes "audit_inv maxsize w acc calls k"
  shows "audit_inv maxsize (drain_get w) acc calls k"
  using assms unfolding audit_inv_def accounts_def drain_get_def in_hand_def
  by (auto split: drain_task.splits list.splits)

lemma audit_inv_append:
  assumes inv: "audit_inv maxsize w acc calls k"
  shows "audit_inv maxsize (drain_append x w) acc calls (if interrupts (Answer x) then Suc k else k)"
proof (cases "al_drain w")
  case (Appending r)
  obtain don where d: "acc = don @ r # al_queue w" "subseq (al_rows w) don"
    "length (al_rows w) + length (al_failures w) \<le> length don"
    "length don \<le> length (al_rows w) + length (al_failures w) + k"
    using inv Appending unfolding audit_inv_def accounts_def by auto
  have "acc = (don @ [r]) @ al_queue w" "subseq (al_rows w) (don @ [r])"
    using d by (simp_all add: list_emb_prefix)
  then show ?thesis
    using inv Appending d unfolding audit_inv_def accounts_def drain_append_def task_done_def interrupts_def
    by (auto intro!: exI [of _ "don @ [r]"] split: sum.splits)
qed (use inv accounts_more [of w acc k "Suc k"] in \<open>auto simp: drain_append_def audit_inv_def\<close>)

lemma audit_inv_cancel:
  assumes inv: "audit_inv maxsize w acc calls k"
  shows "audit_inv maxsize (drain_cancel w) acc calls (Suc k)"
proof (cases "al_drain w")
  case (Appending r)
  have "\<not> isinstance_of CancelledError PyException" by code_simp
  then show ?thesis
    using audit_inv_append [OF inv, of "Inl CancelledError"] Appending
    by (simp add: drain_cancel_def interrupts_def)
next
  case Getting
  then show ?thesis
    using inv accounts_more [of w acc k "Suc k"]
    by (auto simp: drain_cancel_def audit_inv_def accounts_def)
qed (use inv accounts_more [of w acc k "Suc k"] in \<open>auto simp: drain_cancel_def audit_inv_def\<close>)

lemma put_taken:
  "al_unfinished (put_nowait maxsize r w) = (if queue_full maxsize (al_queue w) then al_unfinished w else Suc (al_unfinished w))"
  "\<not> queue_full maxsize (al_queue w) \<Longrightarrow> last (al_queue (put_nowait maxsize r w)) = r"
  by (simp_all add: put_nowait_def)

lemma ensure_drain_same [simp]:
  "al_unfinished (ensure_drain w) = al_unfinished w" "al_queue (ensure_drain w) = al_queue w"
  by (simp_all add: ensure_drain_def)

lemma reach_inv:
  assumes "reach log_line maxsize w acc calls acts"
  shows "audit_inv maxsize w acc calls (length (filter interrupts acts))"
  using assms
proof (induction rule: reach.induct)
  case start
  then show ?case by (simp add: audit_inv_def accounts_def mk_audit_log_def in_hand_def)
next
  case (step w acc calls acts w' a)
  let ?k = "length (filter interrupts acts)"
  show ?case
  proof (cases a)
    case (Call lp c)
    then have w': "w' = snd (durable_record log_line maxsize lp c w)"
      using step.hyps(2) by (simp add: audit_do_def)
    show ?thesis
    proof (cases rule: record_cases [of c log_line maxsize lp w])
      case (no_loop f)
      then show ?thesis
        using step.IH Call w' by (auto simp: audit_inv_def accounts_def taken_def interrupts_def in_hand_def)
    next
      case (queued f)
      let ?w1 = "ensure_drain (w\<lparr>al_mirror := al_mirror w @ [mirror_line c]\<rparr>)"
      have "taken w a w' = (if queue_full maxsize (al_queue ?w1) then [] else [call_record c f])"
        using queued w' Call by (simp add: taken_def put_taken)
      then show ?thesis
        using audit_inv_put [OF audit_inv_ensure [OF step.IH refl], of "call_record c f" c] queued w' Call
        by (simp add: interrupts_def)
    qed (use step.IH Call w' in \<open>simp_all add: taken_def interrupts_def\<close>)
  next
    case Get
    then show ?thesis
      using audit_inv_get [OF step.IH] step.hyps(2) by (simp add: audit_do_def taken_def interrupts_def)
  next
    case (Answer x)
    then show ?thesis
      using audit_inv_append [OF step.IH, of x] step.hyps(2) by (auto simp: audit_do_def taken_def)
  next
    case Cancel
    then show ?thesis
      using audit_inv_cancel [OF step.IH] step.hyps(2) by (simp add: audit_do_def taken_def interrupts_def)
  qed
qed


section \<open>Accounting\<close>

text \<open>
  C30. Nothing the audit log accepts is lost or reordered, at any moment of any interleaving. The
  structured log holds one line per call that returned, in order, whatever the queue did. The
  accepted records are, in order, those the drain finished, the one it holds, and the queue; the
  durable rows are a subsequence of the finished ones, the rest has a failure marker, except for at
  most one record per cancellation. The unfinished counter, which close waits on, counts exactly what
  the drain still has to do, and the queue respects its bound.
\<close>
theorem audit_log_accounts_for_every_record:
  assumes "reach log_line maxsize w acc calls acts"
  shows "al_mirror w = map mirror_line calls
    \<and> (\<exists>don. acc = don @ in_hand w @ al_queue w \<and> subseq (al_rows w) don
        \<and> length (al_rows w) + length (al_failures w) \<le> length don
        \<and> length don \<le> length (al_rows w) + length (al_failures w) + length (filter interrupts acts))
    \<and> al_unfinished w = length (in_hand w) + length (al_queue w)
    \<and> (0 < maxsize \<longrightarrow> int (length (al_queue w)) \<le> maxsize)"
  using reach_inv [OF assms] by (simp add: audit_inv_def accounts_def)

section \<open>Draining\<close>

text \<open>One turn of the drain task: it takes a record if it holds none, and gets the sink's answer.\<close>
definition drain_turn :: "unit or_raise \<Rightarrow> audit_log \<Rightarrow> audit_log" where
  "drain_turn x w = drain_append x (drain_get w)"

definition pending :: "audit_log \<Rightarrow> audit_record list" where
  "pending w = in_hand w @ al_queue w"

lemma drain_turn_step:
  assumes "drain_alive w" "pending w = r # rs" "\<not> interrupts (Answer x)"
  shows "drain_alive (drain_turn x w)" "pending (drain_turn x w) = rs"
    "al_unfinished (drain_turn x w) = al_unfinished w - 1"
    "al_rows (drain_turn x w) = al_rows w @ (if isl x then [] else [r])"
    "al_failures (drain_turn x w) = al_failures w @ (if isl x then [ar_correlation_id r] else [])"
  using assms
  by (auto simp: drain_turn_def drain_append_def drain_get_def drain_alive_def pending_def in_hand_def
      task_done_def interrupts_def split: drain_task.splits sum.splits list.splits)

text \<open>The rows and failure markers of a run of answers over the pending records.\<close>
definition stored :: "(unit or_raise \<times> audit_record) list \<Rightarrow> audit_record list" where
  "stored xs = map snd (filter (\<lambda>(x, r). \<not> isl x) xs)"

definition failed :: "(unit or_raise \<times> audit_record) list \<Rightarrow> string list" where
  "failed xs = map (\<lambda>(x, r). ar_correlation_id r) (filter (\<lambda>(x, r). isl x) xs)"

lemma drain_run:
  assumes "drain_alive w" "length answers = length (pending w)" "al_unfinished w = length (pending w)"
    "\<And>x. x \<in> set answers \<Longrightarrow> \<not> interrupts (Answer x)"
  shows "drain_alive (fold drain_turn answers w) \<and> pending (fold drain_turn answers w) = []
    \<and> al_unfinished (fold drain_turn answers w) = 0
    \<and> al_rows (fold drain_turn answers w) = al_rows w @ stored (zip answers (pending w))
    \<and> al_failures (fold drain_turn answers w) = al_failures w @ failed (zip answers (pending w))"
  using assms
proof (induction answers arbitrary: w)
  case Nil
  then show ?case by (simp add: stored_def failed_def)
next
  case (Cons x xs)
  then obtain r rs where p: "pending w = r # rs" by (cases "pending w") auto
  note t = drain_turn_step [OF Cons.prems(1) p Cons.prems(4) [of x]]
  have "length xs = length (pending (drain_turn x w))"
    "al_unfinished (drain_turn x w) = length (pending (drain_turn x w))"
    using Cons.prems p t by simp_all
  then show ?case
    using Cons.IH [of "drain_turn x w"] Cons.prems t p by (simp add: stored_def failed_def)
qed

text \<open>
  Closing flushes. From every reachable state whose drain task is alive, once the sink has
  answered for each pending record (with a stored row or any Exception, a failed write included),
  queue.join is free and aclose returns: every pending record whose write went through is a durable
  row, in the order they were accepted, every other one has its failure marker, nothing is left, and
  the drain task has ended.
\<close>
theorem audit_close_flushes:
  assumes "reach log_line maxsize w acc calls acts" and "drain_alive w"
    and "length answers = length (pending w)"
    and "\<And>x. x \<in> set answers \<Longrightarrow> \<not> interrupts (Answer x)"
  shows "\<exists>w'. aclose (fold drain_turn answers w) = Some w' \<and> al_drain w' = Done \<and> al_queue w' = []
    \<and> al_rows w' = al_rows w @ stored (zip answers (pending w))
    \<and> al_failures w' = al_failures w @ failed (zip answers (pending w))"
proof -
  have u: "al_unfinished w = length (pending w)"
    using reach_inv [OF assms(1)] by (simp add: audit_inv_def pending_def)
  define v where "v = fold drain_turn answers w"
  have v: "drain_alive v" "pending v = []" "al_unfinished v = 0"
    "al_rows v = al_rows w @ stored (zip answers (pending w))"
    "al_failures v = al_failures w @ failed (zip answers (pending w))"
    using drain_run [OF assms(2,3) u assms(4)] unfolding v_def by auto
  have "al_drain v = Getting"
    using v(1,2) by (auto simp: drain_alive_def pending_def in_hand_def split: drain_task.splits)
  then show ?thesis
    using v unfolding v_def [symmetric] by (simp add: aclose_def drain_cancel_def pending_def)
qed

definition no_call :: "audit_act \<Rightarrow> bool" where
  "no_call a = (case a of Call _ _ \<Rightarrow> False | _ \<Rightarrow> True)"

text \<open>
  When it does not: once the drain task has ended with records still queued (a cancellation, or a
  CancelledError out of the sink), nothing but a new record call restarts it. Whatever else the event
  loop does, aclose stays blocked in queue.join forever.
\<close>
theorem audit_close_can_hang:
  assumes "reach log_line maxsize w acc calls acts" and "al_drain w = Done" and "al_queue w \<noteq> []"
    and "\<forall>a\<in>set later. no_call a"
  shows "aclose (fold (audit_do log_line maxsize) later w) = None"
proof -
  have "audit_do log_line maxsize a w = w" if "no_call a" for a
    using that assms(2) by (cases a)
      (auto simp: no_call_def audit_do_def drain_get_def drain_append_def drain_cancel_def)
  then have "fold (audit_do log_line maxsize) later w = w"
    using assms(4) by (induction later) simp_all
  then show ?thesis
    using reach_inv [OF assms(1)] assms(2,3) by (simp add: aclose_def audit_inv_def)
qed

section \<open>What the guard does not see\<close>

lemma fold_put_get:
  "dict_get (fold (\<lambda>(k, v). dict_put k v) e d) k
     = (case map_of (rev e) k of None \<Rightarrow> dict_get d k | Some v \<Rightarrow> Some v)"
  by (induction e arbitrary: d) (auto simp: map_add_def split: option.splits)

lemma fold_put_distinct:
  "distinct (map fst d) \<Longrightarrow> distinct (map fst (fold (\<lambda>(k, v). dict_put k (g v)) e d))"
  by (induction e arbitrary: d) (auto simp: distinct_update split: prod.splits)

lemma attributes_win:
  assumes "dict_get (as_attributes f) k = Some v"
  shows "dict_get (audit_payload c f) k = Some v"
proof -
  have d: "distinct (map fst (as_attributes f))"
    unfolding as_attributes_def by (intro fold_put_distinct) simp
  have "map_of (rev (as_attributes f)) k = Some v"
    using d assms by (simp add: map_of_eq_Some_iff rev_map [symmetric])
  then show ?thesis
    using assms by (simp add: audit_payload_def dict_update_def fold_put_get)
qed

text \<open>
  The record call checks ids, hashes and counts against the content-free patterns and nothing
  else: whatever text the operation and the outcome hold, the call is accepted, mirrored and queued
  with that text as it stands. And an id, hash or count named like a field of the line replaces that
  field in the mirror.
\<close>
theorem audit_scalars_are_unchecked:
  assumes "call_fields c = Inr f" and "\<And>l. log_line l = Inr ()" and "\<not> queue_full maxsize (al_queue w)"
  shows "let c' = c\<lparr>ac_operation := text, ac_outcome := text\<rparr>;
      w' = snd (durable_record log_line maxsize True c' w) in
    al_mirror w' = al_mirror w @ [audit_payload c' f]
    \<and> al_queue w' = al_queue w @ [call_record c' f] \<and> ar_outcome (call_record c' f) = text
    \<and> (dict_get (as_attributes f) ''outcome'' = Some v \<longrightarrow> dict_get (audit_payload c' f) ''outcome'' = Some v)"
  using assms attributes_win [of f "''outcome''" v]
  by (simp add: Let_def durable_record_def structlog_record_def put_nowait_def ensure_drain_def
      call_fields_def call_record_def)

section \<open>Witnesses\<close>

definition demo_call :: "string \<Rightarrow> audit_call" where
  "demo_call corr = \<lparr>ac_correlation_id = corr, ac_operation = ''remember'', ac_outcome = ''ok'',
     ac_tier = Some ''stm'', ac_visibility = None, ac_store = None,
     ac_ids = Some [(''memory_id'', ''m1'')], ac_hashes = None, ac_counts = Some [(''items'', 2)]\<rparr>"

definition demo_fields :: safe_trace_fields where
  "demo_fields = \<lparr>stf_ids = [(''memory_id'', ''m1'')], stf_hashes = [], stf_counts = [(''items'', 2)]\<rparr>"

definition demo_log :: "audit_act list \<Rightarrow> audit_log" where
  "demo_log acts = fold (audit_do (\<lambda>l. Inr ()) 2) acts mk_audit_log"

text \<open>Three calls against a bound of two; the drain stores one and is cancelled.\<close>
definition demo_acts :: "audit_act list" where
  "demo_acts = [Call True (demo_call ''a''), Get, Answer (Inr ()), Call True (demo_call ''b''),
     Call True (demo_call ''c'')]"

definition demo_row :: "string \<Rightarrow> audit_record" where
  "demo_row corr = call_record (demo_call corr) demo_fields"

lemma demo_call_fields: "call_fields (demo_call corr) = Inr demo_fields"
  by code_simp

lemma reach_fold:
  assumes "reach log_line maxsize w acc calls acts"
  shows "\<exists>acc' calls'. reach log_line maxsize (fold (audit_do log_line maxsize) later w) acc' calls' (acts @ later)"
  using assms
proof (induction later arbitrary: w acc calls acts)
  case (Cons a later)
  then show ?case
    using Cons.IH [OF reach.step [OF Cons.prems refl, of a]] by simp
qed auto

lemma demo_reach: "\<exists>acc calls. reach (\<lambda>l. Inr ()) 2 (demo_log acts) acc calls acts"
  using reach_fold [OF reach.start, of "\<lambda>l. Inr ()" 2 acts] by (simp add: demo_log_def)

lemma demo_run_1:
  "demo_log demo_acts = \<lparr>al_mirror = map mirror_line (map demo_call [''a'', ''b'', ''c'']),
     al_queue = [demo_row ''b'', demo_row ''c''], al_unfinished = 2, al_drain = Getting,
     al_rows = [demo_row ''a''], al_failures = []\<rparr>"
  by code_simp

lemma demo_run_2:
  "al_drain (demo_log (demo_acts @ [Get, Cancel])) = Done
   \<and> al_queue (demo_log (demo_acts @ [Get, Cancel])) = [demo_row ''c'']"
  by code_simp

theorem audit_log_accounts_for_every_record_witness:
  "al_unfinished (demo_log demo_acts) = length (al_queue (demo_log demo_acts))
   \<and> length (al_queue (demo_log demo_acts)) = 2"
  using demo_reach [of demo_acts] audit_log_accounts_for_every_record [of "\<lambda>l. Inr ()" 2 "demo_log demo_acts"]
  by (auto simp: demo_run_1)

theorem audit_close_flushes_witness:
  "\<exists>w'. aclose (fold drain_turn [Inr (), Inl ValueError] (demo_log demo_acts)) = Some w'
    \<and> al_rows w' = [demo_row ''a'', demo_row ''b''] \<and> al_failures w' = [''c'']"
proof -
  obtain acc calls where r: "reach (\<lambda>l. Inr ()) 2 (demo_log demo_acts) acc calls demo_acts"
    using demo_reach by blast
  have "isinstance_of ValueError PyException" by code_simp
  then have "\<not> interrupts (Answer x)" if "x \<in> set [Inr (), Inl ValueError]" for x
    using that by (auto simp: interrupts_def)
  moreover have "drain_alive (demo_log demo_acts)" "pending (demo_log demo_acts) = [demo_row ''b'', demo_row ''c'']"
    "al_rows (demo_log demo_acts) = [demo_row ''a'']" "al_failures (demo_log demo_acts) = []"
    by (simp_all add: demo_run_1 drain_alive_def pending_def in_hand_def)
  moreover have "ar_correlation_id (demo_row ''c'') = ''c''"
    by (simp add: demo_row_def call_record_def demo_call_def)
  ultimately show ?thesis
    using audit_close_flushes [OF r, of "[Inr (), Inl ValueError]"] by (auto simp: stored_def failed_def)
qed

theorem audit_close_can_hang_witness:
  "aclose (fold (audit_do (\<lambda>l. Inr ()) 2) [Get, Answer (Inr ()), Get] (demo_log (demo_acts @ [Get, Cancel]))) = None"
proof -
  obtain acc calls where r: "reach (\<lambda>l. Inr ()) 2 (demo_log (demo_acts @ [Get, Cancel])) acc calls (demo_acts @ [Get, Cancel])"
    using demo_reach by blast
  show ?thesis
    using demo_run_2 by (intro audit_close_can_hang [OF r]) (auto simp: no_call_def)
qed

theorem audit_scalars_are_unchecked_witness:
  "ar_outcome (last (al_queue (snd (durable_record (\<lambda>l. Inr ()) 2 True
     ((demo_call ''a'')\<lparr>ac_operation := ''my diary'', ac_outcome := ''my diary''\<rparr>) mk_audit_log)))) = ''my diary''"
  using audit_scalars_are_unchecked [OF demo_call_fields, of "\<lambda>l. Inr ()" 2 mk_audit_log "''my diary''" "''a''"]
  by (simp add: Let_def queue_full_def mk_audit_log_def)

end
