(* ===== verification/Platform.thy ===== *)
theory Platform
  imports Lifecycle Degradation Audit_Trail
begin

text \<open>
  The platform layer around a bus: the fail-loud component registry (platform/registry.py), the
  in-process event bus (platform/adapters/bus_inproc.py), the inline workflow runner
  (platform/adapters/workflow_inline.py), the outbox unit of work
  (platform/application/unit_of_work.py), and the container that wires them, owns their lifetime and
  subscribes the degradation fan-out (platform/composition.py). A handler is an effect on a world
  that holds the bus, so that it may subscribe and unsubscribe while an event is being dispatched.
\<close>

section \<open>The registry\<close>

record 'f registry =
  rg_name :: string
  rg_factories :: "(string, 'f) dict"

definition mk_registry :: "string \<Rightarrow> 'f registry" where
  "mk_registry name = \<lparr>rg_name = name, rg_factories = []\<rparr>"

definition is_registered :: "'f registry \<Rightarrow> string \<Rightarrow> bool" where
  "is_registered reg key = (dict_get (rg_factories reg) key \<noteq> None)"

definition register_factory :: "string \<Rightarrow> 'f \<Rightarrow> 'f registry \<Rightarrow> 'f registry or_raise" where
  "register_factory key factory reg = (if is_registered reg key then Inl DuplicateComponentError
     else Inr (reg\<lparr>rg_factories := dict_put key factory (rg_factories reg)\<rparr>))"

definition create :: "('s \<Rightarrow> 'a or_raise) registry \<Rightarrow> string \<Rightarrow> 's \<Rightarrow> 'a or_raise" where
  "create reg key settings = (case dict_get (rg_factories reg) key of
       None \<Rightarrow> Inl UnknownComponentError
     | Some factory \<Rightarrow> factory settings)"

definition names :: "'f registry \<Rightarrow> string list" where
  "names reg = sort (map fst (rg_factories reg))"

lemma is_registered_iff: "is_registered reg key \<longleftrightarrow> key \<in> set (names reg)"
  by (simp add: is_registered_def names_def map_of_eq_None_iff)

lemma names_put:
  "\<not> is_registered reg key \<Longrightarrow>
   set (names (reg\<lparr>rg_factories := dict_put key f (rg_factories reg)\<rparr>)) = insert key (set (names reg))"
  by (simp add: names_def dict_put_keys)

lemma names_put_distinct:
  "distinct (names reg) \<Longrightarrow> distinct (names (reg\<lparr>rg_factories := dict_put key f (rg_factories reg)\<rparr>))"
  by (simp add: names_def distinct_update)

lemma create_unknown: "k \<notin> set (names reg) \<Longrightarrow> create reg k s = Inl UnknownComponentError"
  using is_registered_iff [of reg k] by (simp add: create_def is_registered_def)

text \<open>Registrations run one after the other at import, the first duplicate raises.\<close>
definition register_all :: "(string \<times> 'f) list \<Rightarrow> 'f registry \<Rightarrow> 'f registry or_raise" where
  "register_all ps reg = rfold (\<lambda>g (k, f). register_factory k f g) reg ps"

text \<open>
  The registry fails loud: a batch of registrations goes through exactly when every key is new
  and no key is repeated; then each key builds with the factory registered for it, earlier ones are
  untouched, the listing is the sorted set of keys without repetition, and any other key raises the
  unknown-component error.
\<close>
theorem registry_is_fail_loud:
  assumes "distinct (names reg)"
  shows "case register_all ps reg of
      Inr reg' \<Rightarrow> distinct (map fst ps) \<and> set (map fst ps) \<inter> set (names reg) = {}
        \<and> sorted (names reg') \<and> distinct (names reg') \<and> set (names reg') = set (names reg) \<union> set (map fst ps)
        \<and> (\<forall>k s. create reg' k s = (case map_of ps k of Some f \<Rightarrow> f s | None \<Rightarrow> create reg k s))
        \<and> (\<forall>k s. k \<notin> set (names reg') \<longrightarrow> create reg' k s = Inl UnknownComponentError)
    | Inl e \<Rightarrow> e = DuplicateComponentError \<and> (\<not> distinct (map fst ps) \<or> set (map fst ps) \<inter> set (names reg) \<noteq> {})"
  using assms
proof (induction ps arbitrary: reg)
  case Nil
  then show ?case
    by (simp add: register_all_def create_unknown) (simp add: names_def)
next
  case (Cons p ps)
  obtain k f where p: "p = (k, f)" by fastforce
  show ?case
  proof (cases "is_registered reg k")
    case True
    then have "k \<in> set (names reg)" by (simp add: is_registered_iff)
    then show ?thesis
      using True p by (auto simp: register_all_def register_factory_def)
  next
    case False
    let ?reg = "reg\<lparr>rg_factories := dict_put k f (rg_factories reg)\<rparr>"
    have step: "register_all (p # ps) reg = register_all ps ?reg"
      using False p by (simp add: register_all_def register_factory_def)
    have n: "set (names ?reg) = insert k (set (names reg))" "k \<notin> set (names reg)"
      using names_put [OF False] False is_registered_iff by metis+
    have c: "create ?reg k' s = (if k' = k then f s else create reg k' s)" for k' s
      by (simp add: create_def)
    note IH = Cons.IH [OF names_put_distinct [OF Cons.prems, of k f]]
    show ?thesis
    proof (cases "register_all ps ?reg")
      case (Inl e)
      then show ?thesis using IH n p step by auto
    next
      case (Inr g)
      then have "map_of ps k = None" using IH n by (auto simp: map_of_eq_None_iff)
      then have look: "create g k' s = (case map_of (p # ps) k' of Some f \<Rightarrow> f s | None \<Rightarrow> create reg k' s)" for k' s
        using IH Inr p by (cases "k' = k") (simp_all add: c split: option.split)
      have rest: "distinct (map fst (p # ps)) \<and> set (map fst (p # ps)) \<inter> set (names reg) = {}
          \<and> sorted (names g) \<and> distinct (names g)
          \<and> set (names g) = set (names reg) \<union> set (map fst (p # ps))"
        using IH n Inr p by auto
      show ?thesis
        unfolding step Inr sum.case
        using rest by (elim conjE) (intro conjI allI impI look create_unknown; assumption)
    qed
  qed
qed


theorem registry_is_fail_loud_witness:
  "\<exists>g. register_all [(''inproc'', Inr :: nat \<Rightarrow> nat or_raise)] (mk_registry ''bus'') = Inr g
    \<and> create g ''inproc'' 7 = Inr 7 \<and> create g ''redis_streams'' 7 = Inl UnknownComponentError"
proof -
  let ?ps = "[(''inproc'', Inr :: nat \<Rightarrow> nat or_raise)]"
  have d: "distinct (names (mk_registry ''bus'' :: (nat \<Rightarrow> nat or_raise) registry))"
    by (simp add: names_def mk_registry_def)
  let ?g = "\<lparr>rg_name = ''bus'', rg_factories = ?ps\<rparr>"
  have r: "register_all ?ps (mk_registry ''bus'') = Inr ?g"
    by (simp add: register_all_def register_factory_def is_registered_def mk_registry_def)
  note spec = registry_is_fail_loud [OF d, of ?ps, unfolded r sum.case]
  have "create ?g k s = (case map_of ?ps k of Some f \<Rightarrow> f s | None \<Rightarrow> create (mk_registry ''bus'') k s)" for k s
    using spec by (elim conjE) (erule allE)+
  then show ?thesis
    using r create_unknown [of "''redis_streams''" "mk_registry ''bus''" "7::nat"]
    by (intro exI [of _ ?g]) (simp add: names_def mk_registry_def)
qed

section \<open>The in-process bus\<close>

text \<open>Handlers by the name of the event class they subscribed to, in subscription order.\<close>
record 'h bus =
  bus_handlers :: "(string, 'h list) dict"
  bus_started :: bool

definition mk_bus :: "'h bus" where
  "mk_bus = \<lparr>bus_handlers = [], bus_started = False\<rparr>"

definition subscribe :: "string \<Rightarrow> 'h \<Rightarrow> 'h bus \<Rightarrow> 'h bus" where
  "subscribe event_type h b =
     (let handlers = dict_setdefault event_type [] (bus_handlers b)
      in b\<lparr>bus_handlers := dict_put event_type (the (dict_get handlers event_type) @ [h]) handlers\<rparr>)"

text \<open>_Subscription.unsubscribe: list.remove takes out the first equal handler.\<close>
definition unsubscribe :: "string \<Rightarrow> 'h \<Rightarrow> 'h bus \<Rightarrow> 'h bus" where
  "unsubscribe event_type h b = (case dict_get (bus_handlers b) event_type of
       None \<Rightarrow> b
     | Some handlers \<Rightarrow> if h \<in> set handlers
         then b\<lparr>bus_handlers := dict_put event_type (remove1 h handlers) (bus_handlers b)\<rparr> else b)"

definition bus_start :: "'h bus \<Rightarrow> 'h bus" where
  "bus_start b = b\<lparr>bus_started := True\<rparr>"

definition bus_health :: "'h bus \<Rightarrow> health_status" where
  "bus_health b = \<lparr>hs_healthy = bus_started b, hs_degraded = False\<rparr>"

definition bus_close :: "'h bus \<Rightarrow> 'h bus" where
  "bus_close b = b\<lparr>bus_started := False, bus_handlers := []\<rparr>"

text \<open>The snapshot: the handlers of every subscribed class the event is an instance of.\<close>
definition targets :: "('e \<Rightarrow> string \<Rightarrow> bool) \<Rightarrow> 'e \<Rightarrow> 'h bus \<Rightarrow> 'h list" where
  "targets is_a event b = concat (map snd (filter (\<lambda>(event_type, _). is_a event event_type) (bus_handlers b)))"

record ('h, 'x) plane =
  pl_bus :: "'h bus"
  pl_rest :: 'x

definition publish ::
  "('e \<Rightarrow> string \<Rightarrow> bool) \<Rightarrow> ('h \<Rightarrow> 'e \<Rightarrow> (('h, 'x) plane, unit) eff) \<Rightarrow> 'e \<Rightarrow> (('h, 'x) plane, unit) eff" where
  "publish is_a run event w = for_each (\<lambda>h. run h event) (targets is_a event (pl_bus w)) w"

section \<open>The inline workflow runner\<close>

type_synonym ('w, 'a, 'b) workflows = "(string, 'a \<Rightarrow> ('w, 'b) eff) dict"

definition wf_register :: "string \<Rightarrow> ('a \<Rightarrow> ('w, 'b) eff) \<Rightarrow> ('w, 'a, 'b) workflows \<Rightarrow> ('w, 'a, 'b) workflows or_raise" where
  "wf_register name fn wfs = (if dict_get wfs name \<noteq> None then Inl ValueError else Inr (dict_put name fn wfs))"

definition wf_run :: "('w, 'a, 'b) workflows \<Rightarrow> string \<Rightarrow> 'a \<Rightarrow> ('w, 'b) eff" where
  "wf_run wfs workflow arg = (case dict_get wfs workflow of
       None \<Rightarrow> raise_exc ValueError
     | Some fn \<Rightarrow> fn arg)"

text \<open>start runs eagerly and hands out an id and the value; execute is the value.\<close>
definition wf_start :: "('w, 'a, 'b) workflows \<Rightarrow> string \<Rightarrow> 'a \<Rightarrow> string \<Rightarrow> ('w, string \<times> 'b) eff" where
  "wf_start wfs workflow arg i = seq (wf_run wfs workflow arg) (\<lambda>value. ret (i, value))"

definition wf_execute :: "('w, 'a, 'b) workflows \<Rightarrow> string \<Rightarrow> 'a \<Rightarrow> string \<Rightarrow> ('w, 'b) eff" where
  "wf_execute wfs workflow arg i = wf_run wfs workflow arg"

section \<open>Units of work\<close>

text \<open>An outbox unit of work: its buffer beside the world it publishes into.\<close>
type_synonym ('e, 'w) uow = "'e list \<times> 'w"

definition uow_add :: "'e \<Rightarrow> (('e, 'w) uow, unit) eff" where
  "uow_add event u = (Inr (), (fst u @ [event], snd u))"

definition uow_commit :: "('e \<Rightarrow> ('w, unit) eff) \<Rightarrow> (('e, 'w) uow, unit) eff" where
  "uow_commit pub u = (case for_each pub (fst u) (snd u) of (r, w) \<Rightarrow> (r, ([], w)))"

definition uow_rollback :: "(('e, 'w) uow, unit) eff" where
  "uow_rollback u = (Inr (), ([], snd u))"

text \<open>async with OutboxUnitOfWork(bus): body. The exit rolls back and lets the exception pass.\<close>
definition with_uow :: "('e \<Rightarrow> ('w, unit) eff) \<Rightarrow> (('e, 'w) uow, 'a) eff \<Rightarrow> ('w, 'a) eff" where
  "with_uow pub body w = (case body ([], w) of
       (Inl e, u) \<Rightarrow> (Inl e, snd (snd (uow_rollback u)))
     | (Inr a, u) \<Rightarrow> (case uow_commit pub u of
           (Inl e, u') \<Rightarrow> (Inl e, snd u')
         | (Inr _, u') \<Rightarrow> (Inr a, snd u')))"

definition no_write_add :: "'e \<Rightarrow> ('w, unit) eff" where
  "no_write_add event = raise_exc RuntimeError"

definition no_write_commit :: "('w, unit) eff" where
  "no_write_commit = raise_exc RuntimeError"

definition no_write_rollback :: "('w, unit) eff" where
  "no_write_rollback = ret ()"

section \<open>What a commit delivers\<close>

text \<open>Handlers that log what reaches them; a failing one is logged and raises.\<close>
definition logging ::
  "('h \<Rightarrow> 'e \<Rightarrow> exc_class option) \<Rightarrow> 'h \<Rightarrow> 'e \<Rightarrow> (('h, ('h \<times> 'e) list) plane, unit) eff" where
  "logging fails h event w =
     (case fails h event of None \<Rightarrow> Inr () | Some e \<Rightarrow> Inl e, w\<lparr>pl_rest := pl_rest w @ [(h, event)]\<rparr>)"

definition deliveries :: "('e \<Rightarrow> string \<Rightarrow> bool) \<Rightarrow> 'h bus \<Rightarrow> 'e list \<Rightarrow> ('h \<times> 'e) list" where
  "deliveries is_a b events = concat (map (\<lambda>event. map (\<lambda>h. (h, event)) (targets is_a event b)) events)"

text \<open>The calls made when each pair is called in turn until one raises.\<close>
fun until_failure :: "('p \<Rightarrow> exc_class option) \<Rightarrow> 'p list \<Rightarrow> 'p list \<times> exc_class option" where
  "until_failure f [] = ([], None)"
| "until_failure f (p # ps) = (case f p of
       Some e \<Rightarrow> ([p], Some e)
     | None \<Rightarrow> (p # fst (until_failure f ps), snd (until_failure f ps)))"

lemma until_failure_append:
  "until_failure f (ps @ qs) = (case until_failure f ps of
     (done1, Some e) \<Rightarrow> (done1, Some e)
   | (done1, None) \<Rightarrow> (done1 @ fst (until_failure f qs), snd (until_failure f qs)))"
  by (induction ps) (auto split: option.splits prod.splits)

definition outcome :: "exc_class option \<Rightarrow> unit or_raise" where
  "outcome x = (case x of None \<Rightarrow> Inr () | Some e \<Rightarrow> Inl e)"

lemma for_each_logging:
  "for_each (\<lambda>h. logging fails h event) hs w =
     (let (done1, x) = until_failure (\<lambda>(h, e). fails h e) (map (\<lambda>h. (h, event)) hs)
      in (outcome x, w\<lparr>pl_rest := pl_rest w @ done1\<rparr>))"
  by (induction hs arbitrary: w)
    (auto simp: logging_def seq_def ret_def outcome_def split: option.splits prod.splits)

lemma publish_logging:
  "for_each (publish is_a (logging fails)) events w =
     (let (done1, x) = until_failure (\<lambda>(h, e). fails h e) (deliveries is_a (pl_bus w) events)
      in (outcome x, w\<lparr>pl_rest := pl_rest w @ done1\<rparr>))"
proof (induction events arbitrary: w)
  case Nil
  then show ?case by (simp add: ret_def deliveries_def outcome_def)
next
  case (Cons event events)
  then show ?case
    by (auto simp: seq_def publish_def for_each_logging deliveries_def until_failure_append outcome_def Let_def
        split: prod.splits option.splits)
qed

text \<open>
  The outbox: nothing is published before the body has returned. If the body raises, no handler
  hears of any buffered event and the exception passes through. If it returns, the buffered events go
  to the subscribed handlers in the order they were added, and the body's value is returned. But when
  a handler raises, the exception replaces the value and everything after that call, the rest of the
  buffer included, is gone: commit empties the buffer before it publishes.
\<close>
theorem outbox_publishes_after_the_body:
  assumes "body ([], w) = (r, buffer, w1)"
  shows "with_uow (publish is_a (logging fails)) body w = (case r of
      Inl e \<Rightarrow> (Inl e, w1)
    | Inr a \<Rightarrow> let (made, x) = until_failure (\<lambda>(h, event). fails h event) (deliveries is_a (pl_bus w1) buffer)
        in (case x of None \<Rightarrow> Inr a | Some e \<Rightarrow> Inl e, w1\<lparr>pl_rest := pl_rest w1 @ made\<rparr>))"
  using assms
  by (auto simp: with_uow_def uow_rollback_def uow_commit_def publish_logging outcome_def Let_def
      split: sum.splits prod.splits option.splits)

definition demo_plane :: "(nat, (nat \<times> string) list) plane" where
  "demo_plane = \<lparr>pl_bus = subscribe ''E'' 2 (subscribe ''E'' 1 mk_bus), pl_rest = []\<rparr>"

definition demo_body :: "((string, (nat, (nat \<times> string) list) plane) uow, unit) eff" where
  "demo_body = for_each uow_add [''a'', ''b'', ''c'']"

text \<open>Handler 2 fails on b: c reaches nobody.\<close>
definition demo_fails :: "nat \<Rightarrow> string \<Rightarrow> exc_class option" where
  "demo_fails h event = (if h = 2 \<and> event = ''b'' then Some RuntimeError else None)"

theorem outbox_publishes_after_the_body_witness:
  "pl_rest (snd (with_uow (publish (\<lambda>event t. True) (logging demo_fails)) demo_body demo_plane))
     = [(1, ''a''), (2, ''a''), (1, ''b''), (2, ''b'')]"
proof -
  have b: "demo_body ([], demo_plane) = (Inr (), [''a'', ''b'', ''c''], demo_plane)"
    by (simp add: demo_body_def uow_add_def seq_def ret_def)
  have "until_failure (\<lambda>(h, event). demo_fails h event)
      (deliveries (\<lambda>event t. True) (pl_bus demo_plane) [''a'', ''b'', ''c''])
    = ([(1, ''a''), (2, ''a''), (1, ''b''), (2, ''b'')], Some RuntimeError)"
    by code_simp
  then show ?thesis
    unfolding outbox_publishes_after_the_body [where body = demo_body, OF b] by (simp add: demo_plane_def)
qed

section \<open>The container\<close>

datatype tracer_kind = Noop_Tracer | Otel_Tracer
datatype metrics_kind = Noop_Metrics | Prometheus_Metrics

definition build_tracer :: "bool \<Rightarrow> tracer_kind" where
  "build_tracer enabled = (if \<not> enabled then Noop_Tracer else Otel_Tracer)"

definition build_metrics :: "bool \<Rightarrow> metrics_kind" where
  "build_metrics enabled = (if \<not> enabled then Noop_Metrics else Prometheus_Metrics)"

record platform_selectors =
  sel_bus_backend :: string
  sel_workflow_backend :: string
  sel_otel_enabled :: bool
  sel_metrics_enabled :: bool
  sel_audit_enabled :: bool

text \<open>The container's own handler, and those of its host.\<close>
datatype 'h handler = On_Degraded | Host 'h
datatype 'e event = Degraded degraded_mode_entered | Event 'e

definition event_is_a :: "('e \<Rightarrow> string \<Rightarrow> bool) \<Rightarrow> 'e event \<Rightarrow> string \<Rightarrow> bool" where
  "event_is_a host_is_a e t = (case e of
       Degraded _ \<Rightarrow> t = ''DegradedModeEntered'' \<or> t = ''DomainEvent''
     | Event x \<Rightarrow> host_is_a x t)"

definition on_degraded :: "degraded_mode_entered \<Rightarrow> (('h, sinks) plane, unit) eff" where
  "on_degraded e w = (case fan_out e (pl_rest w) of (r, s) \<Rightarrow> (r, w\<lparr>pl_rest := s\<rparr>))"

text \<open>An event without the fields of a degradation makes the fan-out fail.\<close>
fun run_handler ::
  "('h \<Rightarrow> 'e event \<Rightarrow> (('h handler, sinks) plane, unit) eff) \<Rightarrow> 'h handler \<Rightarrow> 'e event
   \<Rightarrow> (('h handler, sinks) plane, unit) eff" where
  "run_handler host On_Degraded (Degraded e) = on_degraded e"
| "run_handler host On_Degraded (Event x) = raise_exc PyException"
| "run_handler host (Host h) e = host h e"

record ('h, 'wf) container =
  ct_tracer :: tracer_kind
  ct_metrics :: metrics_kind
  ct_audit :: audit_kind
  ct_workflow :: 'wf
  ct_plane :: "('h handler, sinks) plane"
  ct_subscriptions :: "(string \<times> 'h handler) list"
  ct_lifecycle :: lifecycle_manager

definition lifecycle_specs :: "lifecycle_spec list" where
  "lifecycle_specs = [\<lparr>ls_name = ''bus'', ls_required = True, ls_depends_on = []\<rparr>]"

definition mk_container ::
  "('s \<Rightarrow> 'h handler bus or_raise) registry \<Rightarrow> ('s \<Rightarrow> 'wf or_raise) registry \<Rightarrow> 's \<Rightarrow> platform_selectors
   \<Rightarrow> ('h, 'wf) container or_raise option" where
  "mk_container bus_registry workflow_registry settings sel =
     (case create bus_registry (sel_bus_backend sel) settings of Inl e \<Rightarrow> Some (Inl e) | Inr b \<Rightarrow>
     (case create workflow_registry (sel_workflow_backend sel) settings of Inl e \<Rightarrow> Some (Inl e) | Inr wfs \<Rightarrow>
     map_option (\<lambda>r. rbind r (\<lambda>lm. Inr
       \<lparr>ct_tracer = build_tracer (sel_otel_enabled sel), ct_metrics = build_metrics (sel_metrics_enabled sel),
        ct_audit = build_audit (sel_audit_enabled sel) False, ct_workflow = wfs,
        ct_plane = \<lparr>pl_bus = subscribe ''DegradedModeEntered'' On_Degraded b,
                    pl_rest = \<lparr>metric_log = [], sync_log = None\<rparr>\<rparr>,
        ct_subscriptions = [(''DegradedModeEntered'', On_Degraded)], ct_lifecycle = lm\<rparr>))
       (mk_manager lifecycle_specs)))"

definition set_sync_status :: "('h, 'wf) container \<Rightarrow> ('h, 'wf) container" where
  "set_sync_status c = c\<lparr>ct_plane := (ct_plane c)\<lparr>pl_rest := (pl_rest (ct_plane c))\<lparr>sync_log := Some []\<rparr>\<rparr>\<rparr>"

definition local_container ::
  "('s \<Rightarrow> 'h handler bus or_raise) registry \<Rightarrow> ('s \<Rightarrow> 'wf or_raise) registry \<Rightarrow> 's \<Rightarrow> platform_selectors
   \<Rightarrow> ('h, 'wf) container or_raise option" where
  "local_container bus_registry workflow_registry settings sel =
     map_option (\<lambda>r. rbind r (\<lambda>c. rbind (create workflow_registry ''inline'' settings)
        (\<lambda>wfs. Inr (c\<lparr>ct_workflow := wfs\<rparr>))))
       (mk_container bus_registry workflow_registry settings sel)"

definition assert_ready_to_start :: "('h, 'wf) container \<Rightarrow> unit or_raise" where
  "assert_ready_to_start c = assert_sync_status_wired (sync_log (pl_rest (ct_plane c)))"

text \<open>The lifecycle calls reach the bus: its state after a trace.\<close>
definition bus_call :: "call \<Rightarrow> 'h bus \<Rightarrow> 'h bus" where
  "bus_call c b = (case c of Start _ \<Rightarrow> bus_start b | Health _ \<Rightarrow> b | Close _ \<Rightarrow> bus_close b)"

definition bus_adapter :: "'h bus \<Rightarrow> adapters" where
  "bus_adapter b = \<lparr>ad_start = \<lambda>tr n. Inr (), ad_health = \<lambda>tr n. Inr (bus_health (fold bus_call tr b)),
     ad_close = \<lambda>tr n. Inr ()\<rparr>"

definition after_calls :: "call list \<Rightarrow> ('h, 'x) plane \<Rightarrow> ('h, 'x) plane" where
  "after_calls tr w = w\<lparr>pl_bus := fold bus_call tr (pl_bus w)\<rparr>"

definition startup :: "('h, 'wf) container \<Rightarrow> readiness_report or_raise \<times> ('h, 'wf) container" where
  "startup c = (case manager_start (bus_adapter (pl_bus (ct_plane c))) (ct_lifecycle c) [] of
     (r, lm, tr) \<Rightarrow> (r, c\<lparr>ct_lifecycle := lm, ct_plane := after_calls tr (ct_plane c)\<rparr>))"

definition shutdown :: "('h, 'wf) container \<Rightarrow> unit or_raise \<times> ('h, 'wf) container" where
  "shutdown c = (case manager_close (bus_adapter (pl_bus (ct_plane c))) (ct_lifecycle c) [] of
     (r, lm, tr) \<Rightarrow> (r, c\<lparr>ct_lifecycle := lm, ct_plane := after_calls tr (ct_plane c)\<rparr>))"

text \<open>What a host does to the bus between two events.\<close>
datatype 'h host_op = Subscribe string 'h | Unsubscribe string 'h

fun host_do :: "'h host_op \<Rightarrow> 'h handler bus \<Rightarrow> 'h handler bus" where
  "host_do (Subscribe t h) b = subscribe t (Host h) b"
| "host_do (Unsubscribe t h) b = unsubscribe t (Host h) b"

definition fan_out_first :: "'h handler bus \<Rightarrow> bool" where
  "fan_out_first b \<longleftrightarrow> (\<exists>hs rest. bus_handlers b = (''DegradedModeEntered'', On_Degraded # map Host hs) # rest
     \<and> (\<forall>(t, xs)\<in>set rest. \<exists>hs. xs = map Host hs))"

lemma fan_out_firstI:
  "\<lbrakk> bus_handlers b = (''DegradedModeEntered'', On_Degraded # map Host hs) # rest;
     \<forall>(t, xs)\<in>set rest. \<exists>hs. xs = map Host hs \<rbrakk> \<Longrightarrow> fan_out_first b"
  unfolding fan_out_first_def by blast

lemma remove1_map_Host: "remove1 (Host h) (map Host hs) = map Host (remove1 h hs)"
  by (induction hs) auto

lemma hosts_put:
  assumes "\<forall>(t, xs)\<in>set rest. \<exists>hs. xs = map Host hs"
  shows "\<forall>(t, xs)\<in>set (dict_put k (map Host ys) rest). \<exists>hs. xs = map Host hs"
  using assms by (auto dest!: dict_put_set)

lemma fan_out_first_do:
  assumes "fan_out_first b"
  shows "fan_out_first (host_do p b)"
proof -
  let ?T = "''DegradedModeEntered''"
  obtain hs rest where b: "bus_handlers b = (?T, On_Degraded # map Host hs) # rest"
    and r: "\<forall>(t, xs)\<in>set rest. \<exists>hs. xs = map Host hs"
    using assms unfolding fan_out_first_def by blast
  have found: "\<exists>ys. xs = map Host ys" if "map_of rest t = Some xs" for t xs
    using r map_of_SomeD [OF that] by auto
  show ?thesis
  proof (cases p)
    case (Subscribe t h)
    show ?thesis
    proof (cases "t = ?T")
      case True
      then have "bus_handlers (host_do p b) = (?T, On_Degraded # map Host (hs @ [h])) # rest"
        using b Subscribe by (simp add: subscribe_def Let_def dict_setdefault_def)
      then show ?thesis using r by (rule fan_out_firstI)
    next
      case False
      obtain ys where ys: "the (map_of (dict_setdefault t [] rest) t) = map Host ys"
        using that [of "[]"] found [of t] by (cases "map_of rest t") (auto simp: dict_setdefault_def)
      have "bus_handlers (host_do p b) = (?T, On_Degraded # map Host hs)
          # dict_put t (map Host (ys @ [h])) (dict_setdefault t [] rest)"
        using b Subscribe False ys by (auto simp: subscribe_def Let_def dict_setdefault_def split: option.splits)
      moreover have "\<forall>(t, xs)\<in>set (dict_setdefault t [] rest). \<exists>hs. xs = map Host hs"
        using r hosts_put [OF r, of t "[]"] by (auto simp: dict_setdefault_def split: option.splits)
      ultimately show ?thesis by (rule fan_out_firstI [OF _ hosts_put])
    qed
  next
    case (Unsubscribe t h)
    show ?thesis
    proof (cases "t = ?T")
      case True
      then have "bus_handlers (host_do p b) = (?T, On_Degraded # map Host (remove1 h hs)) # rest"
        using b Unsubscribe by (auto simp: unsubscribe_def remove1_map_Host [symmetric] remove1_idem)
      then show ?thesis using r by (rule fan_out_firstI)
    next
      case False
      have "bus_handlers (host_do p b) = bus_handlers b \<or> (\<exists>ys. bus_handlers (host_do p b)
          = (?T, On_Degraded # map Host hs) # dict_put t (map Host ys) rest)"
        using b Unsubscribe False found [of t] remove1_map_Host [of h]
        by (auto simp: unsubscribe_def split: option.splits) (metis remove1_map_Host)
      then show ?thesis
        using assms b hosts_put [OF r] unfolding fan_out_first_def by auto
    qed
  qed
qed

lemma fan_out_first_ops: "fan_out_first b \<Longrightarrow> fan_out_first (fold host_do ops b)"
  by (induction ops arbitrary: b) (auto intro: fan_out_first_do)

lemma fan_out_first_targets:
  assumes "fan_out_first b"
  shows "\<exists>hs. targets (event_is_a host_is_a) (Degraded e) b = On_Degraded # map Host hs"
proof -
  obtain hs rest where b: "bus_handlers b = (''DegradedModeEntered'', On_Degraded # map Host hs) # rest"
    and r: "\<forall>(t, xs)\<in>set rest. \<exists>hs. xs = map Host hs"
    using assms unfolding fan_out_first_def by blast
  have "\<exists>hs. concat (map snd (filter q rest)) = map Host hs" for q
    using r
  proof (induction rest)
    case (Cons p rest)
    then obtain as bs where "snd p = map Host as" "concat (map snd (filter q rest)) = map Host bs" by fastforce
    then show ?case by (cases "q p") (auto intro: exI [of _ "as @ bs"])
  qed simp
  then obtain ys where "concat (map snd (filter (\<lambda>(t, _). event_is_a host_is_a (Degraded e) t) rest)) = map Host ys"
    by blast
  then have "targets (event_is_a host_is_a) (Degraded e) b = On_Degraded # map Host (hs @ ys)"
    by (simp add: targets_def b event_is_a_def)
  then show ?thesis by blast
qed

lemma bus_manager:
  "mk_manager lifecycle_specs = Some (Inr \<lparr>lm_specs = [(''bus'', hd lifecycle_specs)], lm_order = [''bus''], lm_started = []\<rparr>)"
  by code_simp

text \<open>The container over a fresh in-process bus.\<close>
lemma container_starts:
  assumes "mk_container bus_registry workflow_registry settings sel = Some (Inr c)"
    and "create bus_registry (sel_bus_backend sel) settings = Inr mk_bus"
  shows "ct_plane c = \<lparr>pl_bus = subscribe ''DegradedModeEntered'' On_Degraded mk_bus,
        pl_rest = \<lparr>metric_log = [], sync_log = None\<rparr>\<rparr>
    \<and> ct_lifecycle c = \<lparr>lm_specs = [(''bus'', hd lifecycle_specs)], lm_order = [''bus''], lm_started = []\<rparr>"
  using assms by (auto simp: mk_container_def bus_manager split: sum.splits)

lemma startup_fresh:
  assumes "ct_lifecycle c = \<lparr>lm_specs = [(''bus'', hd lifecycle_specs)], lm_order = [''bus''], lm_started = []\<rparr>"
  shows "startup c = (Inr \<lparr>rr_started = [''bus''], rr_degraded_names = []\<rparr>,
    c\<lparr>ct_lifecycle := (ct_lifecycle c)\<lparr>lm_started := [''bus'']\<rparr>,
      ct_plane := (ct_plane c)\<lparr>pl_bus := bus_start (pl_bus (ct_plane c))\<rparr>\<rparr>)"
  using assms
  by (simp add: startup_def manager_start_def start_one_def Let_def bus_adapter_def bus_call_def
      bus_health_def bus_start_def after_calls_def)

lemma shutdown_started:
  assumes "lm_started (ct_lifecycle c) = [''bus'']"
  shows "shutdown c = (Inr (), c\<lparr>ct_lifecycle := (ct_lifecycle c)\<lparr>lm_started := []\<rparr>,
      ct_plane := (ct_plane c)\<lparr>pl_bus := bus_close (pl_bus (ct_plane c))\<rparr>\<rparr>)"
  using assms
  by (simp add: shutdown_def manager_close_def bus_adapter_def bus_call_def after_calls_def)

text \<open>
  C34. Degradation always surfaces while the container runs. Boot reports the bus as started, and from
  then on, whatever the host has subscribed or unsubscribed, publishing a degradation runs the
  container's fan-out before any host handler: the metric is counted first, and the sync-status sink
  is told or, when none is wired, the publisher gets the error.
\<close>
theorem container_surfaces_degradation:
  assumes "mk_container bus_registry workflow_registry settings sel = Some (Inr c)"
    and "create bus_registry (sel_bus_backend sel) settings = Inr mk_bus"
    and "w = (ct_plane (snd (startup c)))\<lparr>pl_bus := fold host_do ops (pl_bus (ct_plane (snd (startup c)))), pl_rest := s\<rparr>"
  shows "fst (startup c) = Inr \<lparr>rr_started = [''bus''], rr_degraded_names = []\<rparr>
    \<and> (\<exists>hs. publish (event_is_a host_is_a) (run_handler host) (Degraded e) w
        = (case fan_out e s of
             (Inl x, s') \<Rightarrow> (Inl x, w\<lparr>pl_rest := s'\<rparr>)
           | (Inr _, s') \<Rightarrow> for_each (\<lambda>h. host h (Degraded e)) hs (w\<lparr>pl_rest := s'\<rparr>)))"
proof -
  note c = container_starts [OF assms(1,2)]
  note st = startup_fresh [OF c [THEN conjunct2]]
  have "fan_out_first (pl_bus (ct_plane (snd (startup c))))"
    using c by (simp add: st subscribe_def mk_bus_def bus_start_def dict_setdefault_def fan_out_first_def)
  then have "fan_out_first (pl_bus w)" using assms(3) fan_out_first_ops by simp
  then obtain hs where hs: "targets (event_is_a host_is_a) (Degraded e) (pl_bus w) = On_Degraded # map Host hs"
    using fan_out_first_targets by blast
  have each: "for_each (\<lambda>h. run_handler host h (Degraded e)) (map Host hs) v = for_each (\<lambda>h. host h (Degraded e)) hs v" for v
    by (induction hs arbitrary: v) (auto simp: seq_def split: prod.splits sum.splits)
  have "pl_rest w = s" using assms(3) by simp
  then show ?thesis
    by (intro conjI exI [of _ hs])
      (auto simp: st publish_def hs seq_def on_degraded_def each split: prod.splits sum.splits)
qed

text \<open>
  After a shutdown and a second startup it does not. Closing the bus clears every subscription,
  and only the constructor subscribes the fan-out: the second boot still reports the bus as started
  and healthy, but a degradation published then reaches nobody, is not counted, and raises nothing.
\<close>
theorem restart_loses_the_degradation_fan_out:
  assumes "mk_container bus_registry workflow_registry settings sel = Some (Inr c)"
    and "create bus_registry (sel_bus_backend sel) settings = Inr mk_bus"
    and "c2 = snd (startup (snd (shutdown (snd (startup c)))))"
  shows "fst (startup (snd (shutdown (snd (startup c))))) = Inr \<lparr>rr_started = [''bus''], rr_degraded_names = []\<rparr>
    \<and> bus_health (pl_bus (ct_plane c2)) = \<lparr>hs_healthy = True, hs_degraded = False\<rparr>
    \<and> publish is_a run e (ct_plane c2) = (Inr (), ct_plane c2)"
proof -
  note c = container_starts [OF assms(1,2)]
  note st = startup_fresh [OF c [THEN conjunct2]]
  let ?c1 = "snd (startup c)"
  have sh: "shutdown ?c1 = (Inr (), ?c1\<lparr>ct_lifecycle := (ct_lifecycle ?c1)\<lparr>lm_started := []\<rparr>,
      ct_plane := (ct_plane ?c1)\<lparr>pl_bus := bus_close (pl_bus (ct_plane ?c1))\<rparr>\<rparr>)"
    by (intro shutdown_started) (simp add: st)
  have "ct_lifecycle (snd (shutdown ?c1)) = \<lparr>lm_specs = [(''bus'', hd lifecycle_specs)], lm_order = [''bus''], lm_started = []\<rparr>"
    unfolding sh using c by (simp add: st)
  note st2 = startup_fresh [OF this]
  show ?thesis
    unfolding assms(3) st2 by (simp add: sh publish_def targets_def bus_start_def bus_close_def bus_health_def)
qed

text \<open>A container over the two registered backends.\<close>
definition demo_selectors :: platform_selectors where
  "demo_selectors = \<lparr>sel_bus_backend = ''inproc'', sel_workflow_backend = ''inline'',
     sel_otel_enabled = False, sel_metrics_enabled = True, sel_audit_enabled = True\<rparr>"

definition bus_backends :: "(unit \<Rightarrow> 'h handler bus or_raise) registry" where
  "bus_backends = \<lparr>rg_name = ''bus'', rg_factories = [(''inproc'', \<lambda>s. Inr mk_bus)]\<rparr>"

definition workflow_backends :: "(unit \<Rightarrow> (unit, unit, unit) workflows or_raise) registry" where
  "workflow_backends = \<lparr>rg_name = ''workflow'', rg_factories = [(''inline'', \<lambda>s. Inr [])]\<rparr>"

definition demo_container :: "(nat, (unit, unit, unit) workflows) container" where
  "demo_container = (case mk_container bus_backends workflow_backends () demo_selectors of
       Some (Inr c) \<Rightarrow> c | _ \<Rightarrow> undefined)"

lemma demo_container_made:
  "mk_container bus_backends workflow_backends () demo_selectors = Some (Inr demo_container)"
  "create bus_backends (sel_bus_backend demo_selectors) () = Inr mk_bus"
  by (simp_all add: demo_container_def mk_container_def create_def bus_backends_def workflow_backends_def
      demo_selectors_def bus_manager)

definition demo_degraded :: degraded_mode_entered where
  "demo_degraded = to_event \<lparr>dd_mode = ''stm_only'', dd_reason = LTM_UNAVAILABLE\<rparr> ''ltm'' None"

definition demo_sinks :: sinks where
  "demo_sinks = \<lparr>metric_log = [], sync_log = Some []\<rparr>"

theorem container_surfaces_degradation_witness:
  "let w = (ct_plane (snd (startup demo_container)))\<lparr>pl_bus := fold host_do [Subscribe ''DomainEvent'' (7::nat)]
        (pl_bus (ct_plane (snd (startup demo_container)))), pl_rest := demo_sinks\<rparr>
   in pl_rest (snd (publish (event_is_a (\<lambda>(e::unit) t. True)) (run_handler (\<lambda>h e. ret ())) (Degraded demo_degraded) w))
     = snd (fan_out demo_degraded demo_sinks)"
proof -
  have f: "for_each (\<lambda>h. ret ()) hs v = (Inr (), v)" for hs :: "nat list" and v :: "(nat handler, sinks) plane"
    by (induction hs) (simp_all add: ret_def seq_def)
  show ?thesis
    unfolding Let_def
    using container_surfaces_degradation [OF demo_container_made refl, where ops = "[Subscribe ''DomainEvent'' 7]"
        and s = demo_sinks and host_is_a = "\<lambda>(e::unit) t. True" and host = "\<lambda>h e. ret ()" and e = demo_degraded]
    by (cases "fan_out demo_degraded demo_sinks"; cases "fst (fan_out demo_degraded demo_sinks)")
      (simp_all add: f)
qed

theorem restart_loses_the_degradation_fan_out_witness:
  "publish (event_is_a (\<lambda>(e::unit) t. True)) (run_handler (\<lambda>h e. ret ())) (Degraded demo_degraded)
     (ct_plane (snd (startup (snd (shutdown (snd (startup demo_container)))))))
   = (Inr (), ct_plane (snd (startup (snd (shutdown (snd (startup demo_container)))))))"
  by (rule restart_loses_the_degradation_fan_out [OF demo_container_made refl, THEN conjunct2, THEN conjunct2])

end
