(* ===== verification/Schema.thy ===== *)
theory Schema
  imports Errors
begin

text \<open>
  The relational schema, twice: the declarative models of storage/relational/schema.py and the initial
  Alembic migration (storage/relational/migrations/versions/46ae4bcc2472_initial_storage_schema.py).
  Each model class and each create step is one definition, column for column. create_all and the run
  of a list of migration steps are functions to a database, a dictionary of tables. What a database
  engine accepts is a parameter; that MySQL refuses a VARCHAR without a length and an index on a JSON
  column is the documented behaviour the module's own docstring records.
\<close>

section \<open>Types, models, databases\<close>

datatype dialect = Postgres | Sqlite | Mysql

datatype sql_type = String_Type "nat option" | Big_Integer | Integer_Type | Boolean_Type | Float_Type
  | Date_Time | JSON_Type | JSONB_Type

datatype orm_default = Def_Str string | Def_Int int | Def_Bool bool | Def_Dict

text \<open>A mapped_column: an annotation Mapped[... | None] is optional; nullable is what the call says.\<close>
record orm_column =
  ocol_name :: string
  ocol_type :: sql_type
  ocol_primary :: bool
  ocol_nullable :: "bool option"
  ocol_optional :: bool
  ocol_default :: "orm_default option"

definition mapped_column ::
  "string \<Rightarrow> sql_type \<Rightarrow> bool \<Rightarrow> bool option \<Rightarrow> bool \<Rightarrow> orm_default option \<Rightarrow> orm_column" where
  "mapped_column n ty prim nullable opt def = \<lparr>ocol_name = n, ocol_type = ty, ocol_primary = prim,
     ocol_nullable = nullable, ocol_optional = opt, ocol_default = def\<rparr>"

text \<open>The shapes of call the module uses.\<close>
definition pk_col :: "string \<Rightarrow> sql_type \<Rightarrow> orm_column" where
  "pk_col n ty = mapped_column n ty True None False None"

definition required_col :: "string \<Rightarrow> sql_type \<Rightarrow> orm_column" where
  "required_col n ty = mapped_column n ty False (Some False) False None"

definition optional_col :: "string \<Rightarrow> sql_type \<Rightarrow> orm_column" where
  "optional_col n ty = mapped_column n ty False None True None"

definition default_col :: "string \<Rightarrow> sql_type \<Rightarrow> bool \<Rightarrow> orm_default option \<Rightarrow> orm_column" where
  "default_col n ty opt def = mapped_column n ty False (if opt then None else Some False) opt def"

definition dt :: "string \<Rightarrow> orm_column" where
  "dt n = mapped_column n Date_Time False (Some False) False None"

definition dt_opt :: "string \<Rightarrow> orm_column" where
  "dt_opt n = mapped_column n Date_Time False None True None"

text \<open>Table arguments; an index has its columns, whether it is unique, and postgresql_where.\<close>
datatype table_arg = Primary_Key "string list" | Unique_Constraint string "string list"
  | Table_Index string "string list" bool "string option"

record orm_class =
  oc_tablename :: string
  oc_columns :: "orm_column list"
  oc_args :: "table_arg list"

record db_index =
  ix_columns :: "string list"
  ix_unique :: bool
  ix_where :: "string option"
  ix_using :: "string option"

record db_table =
  tb_columns :: "(string \<times> sql_type \<times> bool) list"
  tb_key :: "string list"
  tb_uniques :: "(string \<times> string list) list"
  tb_indexes :: "(string, db_index) dict"

type_synonym database = "(string, db_table) dict"

text \<open>Migration steps; a column says whether it is nullable.\<close>
datatype ddl_column = Column string sql_type bool

datatype ddl_op =
    Create_Table string "ddl_column list" "string list" "(string \<times> string list) list"
  | Create_Index string string "string list" bool "string option" "string option"
  | Drop_Index string string
  | Drop_Table string

text \<open>An engine: its dialect, the column types it can render, the types it can index.\<close>
record engine =
  en_dialect :: dialect
  en_renders :: "sql_type \<Rightarrow> bool"
  en_indexes :: "sql_type \<Rightarrow> bool"

section \<open>The models\<close>

definition tbl_orgs :: orm_class where
  "tbl_orgs = \<lparr>oc_tablename = ''orgs'',
     oc_columns = [
       pk_col ''id'' (String_Type (Some 128)),
       required_col ''slug'' (String_Type (Some 128)),
       default_col ''residency_region'' (String_Type (Some 128)) False (Some (Def_Str '''')),
       dt ''created_at''],
     oc_args = [
       Table_Index ''ux_orgs_slug'' [''slug''] True None]\<rparr>"

definition tbl_workspaces :: orm_class where
  "tbl_workspaces = \<lparr>oc_tablename = ''workspaces'',
     oc_columns = [
       pk_col ''id'' (String_Type (Some 128)),
       required_col ''org_id'' (String_Type (Some 128)),
       required_col ''slug'' (String_Type (Some 128)),
       dt ''created_at''],
     oc_args = [
       Table_Index ''ux_workspaces_org_slug'' [''org_id'', ''slug''] True None,
       Table_Index ''ix_workspaces_org'' [''org_id''] False None]\<rparr>"

definition tbl_workspace_memberships :: orm_class where
  "tbl_workspace_memberships = \<lparr>oc_tablename = ''workspace_memberships'',
     oc_columns = [
       required_col ''org_id'' (String_Type (Some 128)),
       required_col ''workspace_id'' (String_Type (Some 128)),
       required_col ''principal_id'' (String_Type (Some 128)),
       required_col ''role'' (String_Type (Some 128)),
       required_col ''status'' (String_Type (Some 128)),
       dt_opt ''expires_at'',
       dt ''created_at''],
     oc_args = [
       Primary_Key [''workspace_id'', ''principal_id''],
       Table_Index ''ix_ws_membership_org'' [''org_id'', ''principal_id''] False None]\<rparr>"

definition tbl_principals :: orm_class where
  "tbl_principals = \<lparr>oc_tablename = ''principals'',
     oc_columns = [
       pk_col ''id'' (String_Type (Some 128)),
       required_col ''kind'' (String_Type (Some 128))],
     oc_args = []\<rparr>"

definition tbl_namespaces :: orm_class where
  "tbl_namespaces = \<lparr>oc_tablename = ''namespaces'',
     oc_columns = [
       pk_col ''id'' (String_Type (Some 128)),
       required_col ''org_id'' (String_Type (Some 128)),
       required_col ''workspace_id'' (String_Type (Some 128)),
       required_col ''owner_principal_id'' (String_Type (Some 128)),
       required_col ''allowed_visibilities'' JSON_Type],
     oc_args = []\<rparr>"

definition tbl_sessions :: orm_class where
  "tbl_sessions = \<lparr>oc_tablename = ''sessions'',
     oc_columns = [
       pk_col ''id'' (String_Type (Some 128)),
       required_col ''org_id'' (String_Type (Some 128)),
       required_col ''workspace_id'' (String_Type (Some 128)),
       required_col ''namespace_id'' (String_Type (Some 128)),
       required_col ''state'' (String_Type (Some 128)),
       dt_opt ''expires_at'',
       dt ''created_at''],
     oc_args = []\<rparr>"

definition tbl_session_participants :: orm_class where
  "tbl_session_participants = \<lparr>oc_tablename = ''session_participants'',
     oc_columns = [
       required_col ''session_id'' (String_Type (Some 128)),
       required_col ''principal_id'' (String_Type (Some 128)),
       dt ''joined_at'',
       dt_opt ''left_at''],
     oc_args = [
       Primary_Key [''session_id'', ''principal_id'']]\<rparr>"

definition tbl_agent_bindings :: orm_class where
  "tbl_agent_bindings = \<lparr>oc_tablename = ''agent_bindings'',
     oc_columns = [
       required_col ''agent_principal_id'' (String_Type (Some 128)),
       required_col ''org_id'' (String_Type (Some 128)),
       required_col ''workspace_id'' (String_Type (Some 128)),
       default_col ''namespace_id'' (String_Type (Some 128)) True (Some (Def_Str '''')),
       default_col ''session_id'' (String_Type (Some 128)) True (Some (Def_Str '''')),
       required_col ''allowed_tools'' JSON_Type,
       required_col ''policy_cap'' (String_Type (Some 128))],
     oc_args = [
       Primary_Key [''agent_principal_id'', ''workspace_id'', ''namespace_id'', ''session_id'']]\<rparr>"

definition tbl_acl_entries :: orm_class where
  "tbl_acl_entries = \<lparr>oc_tablename = ''acl_entries'',
     oc_columns = [
       pk_col ''id'' (String_Type (Some 128)),
       required_col ''org_id'' (String_Type (Some 128)),
       required_col ''workspace_id'' (String_Type (Some 128)),
       required_col ''object_ref'' (String_Type (Some 512)),
       required_col ''subject_principal_id'' (String_Type (Some 128)),
       required_col ''grantee_kind'' (String_Type (Some 128)),
       required_col ''grant_id'' (String_Type (Some 128)),
       dt ''created_at'',
       dt_opt ''revoked_at''],
     oc_args = [
       Table_Index ''ix_acl_object_active'' [''workspace_id'', ''object_ref''] False (Some ''revoked_at IS NULL''),
       Table_Index ''ix_acl_subject_active'' [''subject_principal_id''] False (Some ''revoked_at IS NULL'')]\<rparr>"

definition tbl_grants :: orm_class where
  "tbl_grants = \<lparr>oc_tablename = ''grants'',
     oc_columns = [
       pk_col ''id'' (String_Type (Some 128)),
       required_col ''org_id'' (String_Type (Some 128)),
       required_col ''workspace_id'' (String_Type (Some 128)),
       required_col ''object_ref'' (String_Type (Some 512)),
       required_col ''grantor'' (String_Type (Some 128)),
       required_col ''grantee_principal_id'' (String_Type (Some 128)),
       required_col ''grantee_kind'' (String_Type (Some 128)),
       required_col ''direction'' (String_Type (Some 128)),
       optional_col ''parent_grant_id'' (String_Type (Some 128)),
       dt ''created_at'',
       dt_opt ''revoked_at''],
     oc_args = [
       Table_Index ''ix_grants_grantee_active'' [''grantee_principal_id''] False (Some ''revoked_at IS NULL''),
       Table_Index ''ix_grants_parent'' [''parent_grant_id''] False (Some ''revoked_at IS NULL''),
       Table_Index ''ix_grants_object'' [''workspace_id'', ''object_ref''] False (Some ''revoked_at IS NULL'')]\<rparr>"

definition tbl_memory_provenance :: orm_class where
  "tbl_memory_provenance = \<lparr>oc_tablename = ''memory_provenance'',
     oc_columns = [
       pk_col ''memory_id'' (String_Type (Some 128)),
       required_col ''org_id'' (String_Type (Some 128)),
       required_col ''workspace_id'' (String_Type (Some 128)),
       required_col ''namespace_prefix'' (String_Type (Some 384)),
       required_col ''owner_id'' (String_Type (Some 128)),
       required_col ''visibility'' (String_Type (Some 128)),
       required_col ''kind'' (String_Type (Some 128)),
       required_col ''content_hash'' (String_Type (Some 128)),
       required_col ''source'' (String_Type (Some 128)),
       required_col ''tier'' (String_Type (Some 128)),
       required_col ''state'' (String_Type (Some 128)),
       optional_col ''artifact_ref'' (String_Type (Some 128)),
       required_col ''provenance_id'' (String_Type (Some 128)),
       optional_col ''superseded_by'' (String_Type (Some 128)),
       dt ''synced_at'',
       default_col ''meta'' JSONB_Type False (Some Def_Dict)],
     oc_args = [
       Table_Index ''ux_prov_chash'' [''org_id'', ''workspace_id'', ''content_hash''] True None,
       Table_Index ''ix_prov_owner'' [''org_id'', ''workspace_id'', ''owner_id''] False None,
       Table_Index ''ix_prov_artifact'' [''workspace_id'', ''artifact_ref''] False (Some ''artifact_ref IS NOT NULL'')]\<rparr>"

definition tbl_fact_provenance :: orm_class where
  "tbl_fact_provenance = \<lparr>oc_tablename = ''fact_provenance'',
     oc_columns = [
       pk_col ''memory_id'' (String_Type (Some 128)),
       required_col ''org_id'' (String_Type (Some 128)),
       required_col ''workspace_id'' (String_Type (Some 128)),
       required_col ''namespace_prefix'' (String_Type (Some 384)),
       required_col ''subject_entity_uid'' (String_Type (Some 128)),
       required_col ''predicate'' (String_Type (Some 128)),
       optional_col ''object_entity_uid'' (String_Type (Some 128)),
       optional_col ''object_value_hash'' (String_Type (Some 128)),
       required_col ''polarity'' (String_Type (Some 128)),
       dt ''valid_at'',
       dt_opt ''invalid_at'',
       default_col ''valid_at_inferred'' Boolean_Type False (Some (Def_Bool False)),
       required_col ''state'' (String_Type (Some 128)),
       dt ''recorded_at''],
     oc_args = [
       Table_Index ''ix_fact_conflict'' [''namespace_prefix'', ''subject_entity_uid'', ''predicate''] False None,
       Table_Index ''ix_fact_active'' [''namespace_prefix'', ''state''] False (Some (''state = '' @ [CHR 0x27] @ ''active'' @ [CHR 0x27] @ ''''))]\<rparr>"

definition tbl_provenance_ledger :: orm_class where
  "tbl_provenance_ledger = \<lparr>oc_tablename = ''provenance_ledger'',
     oc_columns = [
       required_col ''stream_id'' (String_Type (Some 128)),
       required_col ''version'' Integer_Type,
       required_col ''action'' (String_Type (Some 128)),
       required_col ''memory_id'' (String_Type (Some 128)),
       required_col ''org_id'' (String_Type (Some 128)),
       required_col ''workspace_id'' (String_Type (Some 128)),
       required_col ''actor_id'' (String_Type (Some 128)),
       dt ''at'',
       default_col ''meta'' JSONB_Type False (Some Def_Dict)],
     oc_args = [
       Primary_Key [''stream_id'', ''version''],
       Table_Index ''ix_prov_ledger_memory'' [''org_id'', ''workspace_id'', ''memory_id''] False None]\<rparr>"

definition tbl_usage_event :: orm_class where
  "tbl_usage_event = \<lparr>oc_tablename = ''usage_event'',
     oc_columns = [
       pk_col ''event_id'' (String_Type (Some 128)),
       required_col ''seq'' Big_Integer,
       dt ''occurred_at'',
       required_col ''org_id'' (String_Type (Some 128)),
       required_col ''workspace_id'' (String_Type (Some 128)),
       required_col ''namespace'' (String_Type (Some 128)),
       required_col ''principal_id'' (String_Type (Some 128)),
       required_col ''to_prefix'' (String_Type (Some 128)),
       required_col ''visibility'' (String_Type (Some 128)),
       required_col ''product'' (String_Type (Some 128)),
       required_col ''deployment_mode'' (String_Type (Some 128)),
       required_col ''dimension'' (String_Type (Some 128)),
       required_col ''quantity'' Big_Integer,
       required_col ''unit'' (String_Type (Some 128)),
       optional_col ''op'' (String_Type (Some 128)),
       optional_col ''tier'' (String_Type (Some 128)),
       optional_col ''source'' (String_Type (Some 128)),
       optional_col ''model'' (String_Type (Some 128)),
       optional_col ''role'' (String_Type (Some 128)),
       optional_col ''engine'' (String_Type (Some 128)),
       optional_col ''device_id'' (String_Type (Some 128)),
       optional_col ''tokens_in'' Big_Integer,
       optional_col ''tokens_out'' Big_Integer,
       optional_col ''cached_input_tokens'' Big_Integer,
       optional_col ''reasoning_tokens'' Big_Integer,
       optional_col ''prev_hash'' (String_Type (Some 128)),
       required_col ''row_hash'' (String_Type (Some 128))],
     oc_args = [
       Table_Index ''ix_usage_ws_seq'' [''workspace_id'', ''seq''] False None,
       Table_Index ''ix_usage_ws_occurred'' [''workspace_id'', ''occurred_at''] False None,
       Table_Index ''ix_usage_org_occurred'' [''org_id'', ''occurred_at''] False None]\<rparr>"

definition tbl_usage_outbox :: orm_class where
  "tbl_usage_outbox = \<lparr>oc_tablename = ''usage_outbox'',
     oc_columns = [
       pk_col ''event_id'' (String_Type (Some 128)),
       required_col ''payload'' JSONB_Type,
       dt ''enqueued_at'',
       dt_opt ''drained_at''],
     oc_args = []\<rparr>"

definition tbl_usage_rollup :: orm_class where
  "tbl_usage_rollup = \<lparr>oc_tablename = ''usage_rollup'',
     oc_columns = [
       pk_col ''bucket_key'' (String_Type (Some 128)),
       required_col ''org_id'' (String_Type (Some 128)),
       required_col ''workspace_id'' (String_Type (Some 128)),
       required_col ''dimension'' (String_Type (Some 128)),
       dt ''hour_bucket'',
       required_col ''quantity'' Big_Integer,
       required_col ''qualifiers'' JSONB_Type,
       required_col ''source_high_water_seq'' Big_Integer],
     oc_args = []\<rparr>"

definition tbl_devices :: orm_class where
  "tbl_devices = \<lparr>oc_tablename = ''devices'',
     oc_columns = [
       pk_col ''device_id'' (String_Type (Some 128)),
       required_col ''org_id'' (String_Type (Some 128)),
       required_col ''workspace_id'' (String_Type (Some 128)),
       required_col ''principal_id'' (String_Type (Some 128)),
       required_col ''public_key'' (String_Type (Some 512)),
       required_col ''platform'' (String_Type (Some 128)),
       default_col ''label'' (String_Type (Some 255)) False (Some (Def_Str '''')),
       default_col ''app_build'' (String_Type (Some 128)) False (Some (Def_Str '''')),
       required_col ''client_mode'' (String_Type (Some 128)),
       required_col ''privacy_tier'' (String_Type (Some 128)),
       default_col ''state'' (String_Type (Some 128)) False (Some (Def_Str ''pending'')),
       dt ''enrolled_at'',
       dt_opt ''last_seen_at'',
       default_col ''last_synced_seq'' Big_Integer False (Some (Def_Int 0)),
       default_col ''last_lamport'' Big_Integer False (Some (Def_Int 0)),
       dt_opt ''revoked_at'',
       optional_col ''revoked_by'' (String_Type (Some 128))],
     oc_args = [
       Table_Index ''ix_devices_principal'' [''org_id'', ''principal_id''] False None]\<rparr>"

definition tbl_private_sync_log :: orm_class where
  "tbl_private_sync_log = \<lparr>oc_tablename = ''private_sync_log'',
     oc_columns = [
       required_col ''org_id'' (String_Type (Some 128)),
       required_col ''workspace_id'' (String_Type (Some 128)),
       required_col ''principal_id'' (String_Type (Some 128)),
       required_col ''seq'' Big_Integer,
       required_col ''origin_device_id'' (String_Type (Some 128)),
       required_col ''op'' (String_Type (Some 128)),
       required_col ''memory_id'' (String_Type (Some 128)),
       required_col ''content_hash'' (String_Type (Some 128)),
       required_col ''tier'' (String_Type (Some 128)),
       dt ''valid_at'',
       default_col ''valid_at_inferred'' Boolean_Type False (Some (Def_Bool False)),
       required_col ''lamport'' Big_Integer,
       dt ''occurred_at'',
       required_col ''provenance_id'' (String_Type (Some 128)),
       optional_col ''winner_id'' (String_Type (Some 128)),
       optional_col ''loser_id'' (String_Type (Some 128)),
       optional_col ''payload_ref'' (String_Type (Some 512))],
     oc_args = [
       Primary_Key [''org_id'', ''principal_id'', ''seq''],
       Unique_Constraint ''ux_synclog_occurrence'' [''org_id'', ''principal_id'', ''content_hash'', ''origin_device_id'', ''lamport''],
       Table_Index ''ix_synclog_stream_seq'' [''org_id'', ''principal_id'', ''seq''] False None]\<rparr>"

definition tbl_conflict_records :: orm_class where
  "tbl_conflict_records = \<lparr>oc_tablename = ''conflict_records'',
     oc_columns = [
       pk_col ''conflict_id'' (String_Type (Some 128)),
       required_col ''org_id'' (String_Type (Some 128)),
       required_col ''workspace_id'' (String_Type (Some 128)),
       required_col ''namespace_prefix'' (String_Type (Some 384)),
       required_col ''member_ids'' JSONB_Type,
       required_col ''predicate_key'' (String_Type (Some 128)),
       required_col ''method'' (String_Type (Some 128)),
       required_col ''detected_confidence'' Float_Type,
       optional_col ''proposed_winner_id'' (String_Type (Some 128)),
       required_col ''state'' (String_Type (Some 128)),
       optional_col ''resolution_kind'' (String_Type (Some 128)),
       optional_col ''resolved_winner_id'' (String_Type (Some 128)),
       optional_col ''resolution_origin'' (String_Type (Some 128)),
       optional_col ''resolved_by'' (String_Type (Some 128)),
       default_col ''policy_snapshot'' JSONB_Type False (Some Def_Dict),
       dt ''detected_at'',
       dt_opt ''resolved_at''],
     oc_args = [
       Table_Index ''ix_conflict_pending'' [''namespace_prefix'', ''state''] False None]\<rparr>"

definition tbl_audit_log :: orm_class where
  "tbl_audit_log = \<lparr>oc_tablename = ''audit_log'',
     oc_columns = [
       pk_col ''id'' Big_Integer,
       dt ''ts'',
       required_col ''org_id'' (String_Type (Some 128)),
       required_col ''workspace_id'' (String_Type (Some 128)),
       required_col ''actor_id'' (String_Type (Some 128)),
       required_col ''action'' (String_Type (Some 128)),
       optional_col ''target_id'' (String_Type (Some 128)),
       required_col ''success'' Boolean_Type,
       optional_col ''duration_ms'' Integer_Type,
       default_col ''payload'' JSONB_Type False (Some Def_Dict)],
     oc_args = [
       Table_Index ''ix_audit_ws_ts'' [''workspace_id'', ''ts''] False None,
       Table_Index ''ix_audit_org_ts'' [''org_id'', ''ts''] False None]\<rparr>"

definition tbl_trust_ledger_entries :: orm_class where
  "tbl_trust_ledger_entries = \<lparr>oc_tablename = ''trust_ledger_entries'',
     oc_columns = [
       required_col ''org_id'' (String_Type (Some 128)),
       required_col ''workspace_id'' (String_Type (Some 128)),
       required_col ''seq'' Big_Integer,
       required_col ''action'' (String_Type (Some 128)),
       required_col ''actor_principal_id'' (String_Type (Some 128)),
       optional_col ''subject_principal_id'' (String_Type (Some 128)),
       optional_col ''object_ref'' (String_Type (Some 512)),
       dt ''at'',
       default_col ''detail'' JSONB_Type False (Some Def_Dict),
       optional_col ''prev_hash'' (String_Type (Some 128)),
       required_col ''entry_hash'' (String_Type (Some 128))],
     oc_args = [
       Primary_Key [''workspace_id'', ''seq''],
       Table_Index ''ix_trust_object'' [''workspace_id'', ''object_ref''] False None,
       Table_Index ''ix_trust_principal'' [''workspace_id'', ''subject_principal_id''] False None]\<rparr>"

definition create_acl_entries :: "ddl_op list" where
  "create_acl_entries = [
     Create_Table ''acl_entries'' [
       Column ''id'' (String_Type None) False,
       Column ''org_id'' (String_Type None) False,
       Column ''workspace_id'' (String_Type None) False,
       Column ''object_ref'' (String_Type None) False,
       Column ''subject_principal_id'' (String_Type None) False,
       Column ''grantee_kind'' (String_Type None) False,
       Column ''grant_id'' (String_Type None) False,
       Column ''created_at'' Date_Time False,
       Column ''revoked_at'' Date_Time True]
      [''id''] [],
     Create_Index ''ix_acl_object_active'' ''acl_entries'' [''workspace_id'', ''object_ref''] False (Some ''revoked_at IS NULL'') None,
     Create_Index ''ix_acl_subject_active'' ''acl_entries'' [''subject_principal_id''] False (Some ''revoked_at IS NULL'') None]"

definition create_agent_bindings :: "ddl_op list" where
  "create_agent_bindings = [
     Create_Table ''agent_bindings'' [
       Column ''agent_principal_id'' (String_Type None) False,
       Column ''org_id'' (String_Type None) False,
       Column ''workspace_id'' (String_Type None) False,
       Column ''namespace_id'' (String_Type None) False,
       Column ''session_id'' (String_Type None) False,
       Column ''allowed_tools'' JSON_Type False,
       Column ''policy_cap'' (String_Type None) False]
      [''agent_principal_id'', ''workspace_id'', ''namespace_id'', ''session_id''] []]"

definition create_audit_log :: "ddl_op list" where
  "create_audit_log = [
     Create_Table ''audit_log'' [
       Column ''id'' Big_Integer False,
       Column ''ts'' Date_Time False,
       Column ''org_id'' (String_Type None) False,
       Column ''workspace_id'' (String_Type None) False,
       Column ''actor_id'' (String_Type None) False,
       Column ''action'' (String_Type None) False,
       Column ''target_id'' (String_Type None) True,
       Column ''success'' Boolean_Type False,
       Column ''duration_ms'' Integer_Type True,
       Column ''payload'' JSONB_Type False]
      [''id''] [],
     Create_Index ''ix_audit_org_ts'' ''audit_log'' [''org_id'', ''ts''] False None None,
     Create_Index ''ix_audit_ws_ts'' ''audit_log'' [''workspace_id'', ''ts''] False None None]"

definition create_conflict_records :: "ddl_op list" where
  "create_conflict_records = [
     Create_Table ''conflict_records'' [
       Column ''conflict_id'' (String_Type None) False,
       Column ''org_id'' (String_Type None) False,
       Column ''workspace_id'' (String_Type None) False,
       Column ''namespace_prefix'' (String_Type None) False,
       Column ''member_ids'' JSONB_Type False,
       Column ''predicate_key'' (String_Type None) False,
       Column ''method'' (String_Type None) False,
       Column ''detected_confidence'' Float_Type False,
       Column ''proposed_winner_id'' (String_Type None) True,
       Column ''state'' (String_Type None) False,
       Column ''resolution_kind'' (String_Type None) True,
       Column ''resolved_winner_id'' (String_Type None) True,
       Column ''resolution_origin'' (String_Type None) True,
       Column ''resolved_by'' (String_Type None) True,
       Column ''policy_snapshot'' JSONB_Type False,
       Column ''detected_at'' Date_Time False,
       Column ''resolved_at'' Date_Time True]
      [''conflict_id''] [],
     Create_Index ''gin_conflict_members'' ''conflict_records'' [''member_ids''] False None (Some ''gin''),
     Create_Index ''ix_conflict_pending'' ''conflict_records'' [''namespace_prefix'', ''state''] False None None]"

definition create_devices :: "ddl_op list" where
  "create_devices = [
     Create_Table ''devices'' [
       Column ''device_id'' (String_Type None) False,
       Column ''org_id'' (String_Type None) False,
       Column ''workspace_id'' (String_Type None) False,
       Column ''principal_id'' (String_Type None) False,
       Column ''public_key'' (String_Type None) False,
       Column ''platform'' (String_Type None) False,
       Column ''label'' (String_Type None) False,
       Column ''app_build'' (String_Type None) False,
       Column ''client_mode'' (String_Type None) False,
       Column ''privacy_tier'' (String_Type None) False,
       Column ''state'' (String_Type None) False,
       Column ''enrolled_at'' Date_Time False,
       Column ''last_seen_at'' Date_Time True,
       Column ''last_synced_seq'' Big_Integer False,
       Column ''last_lamport'' Big_Integer False,
       Column ''revoked_at'' Date_Time True,
       Column ''revoked_by'' (String_Type None) True]
      [''device_id''] [],
     Create_Index ''ix_devices_principal'' ''devices'' [''org_id'', ''principal_id''] False None None]"

definition create_fact_provenance :: "ddl_op list" where
  "create_fact_provenance = [
     Create_Table ''fact_provenance'' [
       Column ''memory_id'' (String_Type None) False,
       Column ''org_id'' (String_Type None) False,
       Column ''workspace_id'' (String_Type None) False,
       Column ''namespace_prefix'' (String_Type None) False,
       Column ''subject_entity_uid'' (String_Type None) False,
       Column ''predicate'' (String_Type None) False,
       Column ''object_entity_uid'' (String_Type None) True,
       Column ''object_value_hash'' (String_Type None) True,
       Column ''polarity'' (String_Type None) False,
       Column ''valid_at'' Date_Time False,
       Column ''invalid_at'' Date_Time True,
       Column ''valid_at_inferred'' Boolean_Type False,
       Column ''state'' (String_Type None) False,
       Column ''recorded_at'' Date_Time False]
      [''memory_id''] [],
     Create_Index ''ix_fact_active'' ''fact_provenance'' [''namespace_prefix'', ''state''] False (Some (''state = '' @ [CHR 0x27] @ ''active'' @ [CHR 0x27] @ '''')) None,
     Create_Index ''ix_fact_conflict'' ''fact_provenance'' [''namespace_prefix'', ''subject_entity_uid'', ''predicate''] False None None]"

definition create_grants :: "ddl_op list" where
  "create_grants = [
     Create_Table ''grants'' [
       Column ''id'' (String_Type None) False,
       Column ''org_id'' (String_Type None) False,
       Column ''workspace_id'' (String_Type None) False,
       Column ''object_ref'' (String_Type None) False,
       Column ''grantor'' (String_Type None) False,
       Column ''grantee_principal_id'' (String_Type None) False,
       Column ''grantee_kind'' (String_Type None) False,
       Column ''direction'' (String_Type None) False,
       Column ''parent_grant_id'' (String_Type None) True,
       Column ''created_at'' Date_Time False,
       Column ''revoked_at'' Date_Time True]
      [''id''] [],
     Create_Index ''ix_grants_grantee_active'' ''grants'' [''grantee_principal_id''] False (Some ''revoked_at IS NULL'') None,
     Create_Index ''ix_grants_object'' ''grants'' [''workspace_id'', ''object_ref''] False (Some ''revoked_at IS NULL'') None,
     Create_Index ''ix_grants_parent'' ''grants'' [''parent_grant_id''] False (Some ''revoked_at IS NULL'') None]"

definition create_memory_provenance :: "ddl_op list" where
  "create_memory_provenance = [
     Create_Table ''memory_provenance'' [
       Column ''memory_id'' (String_Type None) False,
       Column ''org_id'' (String_Type None) False,
       Column ''workspace_id'' (String_Type None) False,
       Column ''namespace_prefix'' (String_Type None) False,
       Column ''owner_id'' (String_Type None) False,
       Column ''visibility'' (String_Type None) False,
       Column ''kind'' (String_Type None) False,
       Column ''content_hash'' (String_Type None) False,
       Column ''source'' (String_Type None) False,
       Column ''tier'' (String_Type None) False,
       Column ''state'' (String_Type None) False,
       Column ''artifact_ref'' (String_Type None) True,
       Column ''provenance_id'' (String_Type None) False,
       Column ''superseded_by'' (String_Type None) True,
       Column ''synced_at'' Date_Time False,
       Column ''meta'' JSONB_Type False]
      [''memory_id''] [],
     Create_Index ''gin_prov_meta'' ''memory_provenance'' [''meta''] False None (Some ''gin''),
     Create_Index ''ix_prov_artifact'' ''memory_provenance'' [''workspace_id'', ''artifact_ref''] False (Some ''artifact_ref IS NOT NULL'') None,
     Create_Index ''ix_prov_owner'' ''memory_provenance'' [''org_id'', ''workspace_id'', ''owner_id''] False None None,
     Create_Index ''ux_prov_chash'' ''memory_provenance'' [''org_id'', ''workspace_id'', ''content_hash''] True None None]"

definition create_namespaces :: "ddl_op list" where
  "create_namespaces = [
     Create_Table ''namespaces'' [
       Column ''id'' (String_Type None) False,
       Column ''org_id'' (String_Type None) False,
       Column ''workspace_id'' (String_Type None) False,
       Column ''owner_principal_id'' (String_Type None) False,
       Column ''allowed_visibilities'' JSON_Type False]
      [''id''] []]"

definition create_orgs :: "ddl_op list" where
  "create_orgs = [
     Create_Table ''orgs'' [
       Column ''id'' (String_Type None) False,
       Column ''slug'' (String_Type None) False,
       Column ''residency_region'' (String_Type None) False,
       Column ''created_at'' Date_Time False]
      [''id''] [],
     Create_Index ''ux_orgs_slug'' ''orgs'' [''slug''] True None None]"

definition create_principals :: "ddl_op list" where
  "create_principals = [
     Create_Table ''principals'' [
       Column ''id'' (String_Type None) False,
       Column ''kind'' (String_Type None) False]
      [''id''] []]"

definition create_private_sync_log :: "ddl_op list" where
  "create_private_sync_log = [
     Create_Table ''private_sync_log'' [
       Column ''org_id'' (String_Type None) False,
       Column ''workspace_id'' (String_Type None) False,
       Column ''principal_id'' (String_Type None) False,
       Column ''seq'' Big_Integer False,
       Column ''origin_device_id'' (String_Type None) False,
       Column ''op'' (String_Type None) False,
       Column ''memory_id'' (String_Type None) False,
       Column ''content_hash'' (String_Type None) False,
       Column ''tier'' (String_Type None) False,
       Column ''valid_at'' Date_Time False,
       Column ''valid_at_inferred'' Boolean_Type False,
       Column ''lamport'' Big_Integer False,
       Column ''occurred_at'' Date_Time False,
       Column ''provenance_id'' (String_Type None) False,
       Column ''winner_id'' (String_Type None) True,
       Column ''loser_id'' (String_Type None) True,
       Column ''payload_ref'' (String_Type None) True]
      [''org_id'', ''principal_id'', ''seq''] [(''ux_synclog_occurrence'', [''org_id'', ''principal_id'', ''content_hash'', ''origin_device_id'', ''lamport''])],
     Create_Index ''ix_synclog_stream_seq'' ''private_sync_log'' [''org_id'', ''principal_id'', ''seq''] False None None]"

definition create_provenance_ledger :: "ddl_op list" where
  "create_provenance_ledger = [
     Create_Table ''provenance_ledger'' [
       Column ''stream_id'' (String_Type None) False,
       Column ''version'' Integer_Type False,
       Column ''action'' (String_Type None) False,
       Column ''memory_id'' (String_Type None) False,
       Column ''org_id'' (String_Type None) False,
       Column ''workspace_id'' (String_Type None) False,
       Column ''actor_id'' (String_Type None) False,
       Column ''at'' Date_Time False,
       Column ''meta'' JSONB_Type False]
      [''stream_id'', ''version''] [],
     Create_Index ''ix_prov_ledger_memory'' ''provenance_ledger'' [''org_id'', ''workspace_id'', ''memory_id''] False None None]"

definition create_session_participants :: "ddl_op list" where
  "create_session_participants = [
     Create_Table ''session_participants'' [
       Column ''session_id'' (String_Type None) False,
       Column ''principal_id'' (String_Type None) False,
       Column ''joined_at'' Date_Time False,
       Column ''left_at'' Date_Time True]
      [''session_id'', ''principal_id''] []]"

definition create_sessions :: "ddl_op list" where
  "create_sessions = [
     Create_Table ''sessions'' [
       Column ''id'' (String_Type None) False,
       Column ''org_id'' (String_Type None) False,
       Column ''workspace_id'' (String_Type None) False,
       Column ''namespace_id'' (String_Type None) False,
       Column ''state'' (String_Type None) False,
       Column ''expires_at'' Date_Time True,
       Column ''created_at'' Date_Time False]
      [''id''] []]"

definition create_trust_ledger_entries :: "ddl_op list" where
  "create_trust_ledger_entries = [
     Create_Table ''trust_ledger_entries'' [
       Column ''org_id'' (String_Type None) False,
       Column ''workspace_id'' (String_Type None) False,
       Column ''seq'' Big_Integer False,
       Column ''action'' (String_Type None) False,
       Column ''actor_principal_id'' (String_Type None) False,
       Column ''subject_principal_id'' (String_Type None) True,
       Column ''object_ref'' (String_Type None) True,
       Column ''at'' Date_Time False,
       Column ''detail'' JSONB_Type False,
       Column ''prev_hash'' (String_Type None) True,
       Column ''entry_hash'' (String_Type None) False]
      [''workspace_id'', ''seq''] [],
     Create_Index ''ix_trust_object'' ''trust_ledger_entries'' [''workspace_id'', ''object_ref''] False None None,
     Create_Index ''ix_trust_principal'' ''trust_ledger_entries'' [''workspace_id'', ''subject_principal_id''] False None None]"

definition create_usage_event :: "ddl_op list" where
  "create_usage_event = [
     Create_Table ''usage_event'' [
       Column ''event_id'' (String_Type None) False,
       Column ''seq'' Big_Integer False,
       Column ''occurred_at'' Date_Time False,
       Column ''org_id'' (String_Type None) False,
       Column ''workspace_id'' (String_Type None) False,
       Column ''namespace'' (String_Type None) False,
       Column ''principal_id'' (String_Type None) False,
       Column ''to_prefix'' (String_Type None) False,
       Column ''visibility'' (String_Type None) False,
       Column ''product'' (String_Type None) False,
       Column ''deployment_mode'' (String_Type None) False,
       Column ''dimension'' (String_Type None) False,
       Column ''quantity'' Big_Integer False,
       Column ''unit'' (String_Type None) False,
       Column ''op'' (String_Type None) True,
       Column ''tier'' (String_Type None) True,
       Column ''source'' (String_Type None) True,
       Column ''model'' (String_Type None) True,
       Column ''role'' (String_Type None) True,
       Column ''engine'' (String_Type None) True,
       Column ''device_id'' (String_Type None) True,
       Column ''tokens_in'' Big_Integer True,
       Column ''tokens_out'' Big_Integer True,
       Column ''cached_input_tokens'' Big_Integer True,
       Column ''reasoning_tokens'' Big_Integer True,
       Column ''prev_hash'' (String_Type None) True,
       Column ''row_hash'' (String_Type None) False]
      [''event_id''] [],
     Create_Index ''ix_usage_org_occurred'' ''usage_event'' [''org_id'', ''occurred_at''] False None None,
     Create_Index ''ix_usage_ws_occurred'' ''usage_event'' [''workspace_id'', ''occurred_at''] False None None,
     Create_Index ''ix_usage_ws_seq'' ''usage_event'' [''workspace_id'', ''seq''] False None None]"

definition create_usage_outbox :: "ddl_op list" where
  "create_usage_outbox = [
     Create_Table ''usage_outbox'' [
       Column ''event_id'' (String_Type None) False,
       Column ''payload'' JSONB_Type False,
       Column ''enqueued_at'' Date_Time False,
       Column ''drained_at'' Date_Time True]
      [''event_id''] []]"

definition create_usage_rollup :: "ddl_op list" where
  "create_usage_rollup = [
     Create_Table ''usage_rollup'' [
       Column ''bucket_key'' (String_Type None) False,
       Column ''org_id'' (String_Type None) False,
       Column ''workspace_id'' (String_Type None) False,
       Column ''dimension'' (String_Type None) False,
       Column ''hour_bucket'' Date_Time False,
       Column ''quantity'' Big_Integer False,
       Column ''qualifiers'' JSONB_Type False,
       Column ''source_high_water_seq'' Big_Integer False]
      [''bucket_key''] []]"

definition create_workspace_memberships :: "ddl_op list" where
  "create_workspace_memberships = [
     Create_Table ''workspace_memberships'' [
       Column ''org_id'' (String_Type None) False,
       Column ''workspace_id'' (String_Type None) False,
       Column ''principal_id'' (String_Type None) False,
       Column ''role'' (String_Type None) False,
       Column ''status'' (String_Type None) False,
       Column ''expires_at'' Date_Time True,
       Column ''created_at'' Date_Time False]
      [''workspace_id'', ''principal_id''] [],
     Create_Index ''ix_ws_membership_org'' ''workspace_memberships'' [''org_id'', ''principal_id''] False None None]"

definition create_workspaces :: "ddl_op list" where
  "create_workspaces = [
     Create_Table ''workspaces'' [
       Column ''id'' (String_Type None) False,
       Column ''org_id'' (String_Type None) False,
       Column ''slug'' (String_Type None) False,
       Column ''created_at'' Date_Time False]
      [''id''] [],
     Create_Index ''ix_workspaces_org'' ''workspaces'' [''org_id''] False None None,
     Create_Index ''ux_workspaces_org_slug'' ''workspaces'' [''org_id'', ''slug''] True None None]"

definition upgrade :: "ddl_op list" where
  "upgrade = create_acl_entries @ create_agent_bindings @ create_audit_log @ create_conflict_records @ create_devices @ create_fact_provenance @ create_grants @ create_memory_provenance @ create_namespaces @ create_orgs @ create_principals @ create_private_sync_log @ create_provenance_ledger @ create_session_participants @ create_sessions @ create_trust_ledger_entries @ create_usage_event @ create_usage_outbox @ create_usage_rollup @ create_workspace_memberships @ create_workspaces"

definition downgrade :: "ddl_op list" where
  "downgrade = [
     Drop_Index ''ux_workspaces_org_slug'' ''workspaces'',
     Drop_Index ''ix_workspaces_org'' ''workspaces'',
     Drop_Table ''workspaces'',
     Drop_Index ''ix_ws_membership_org'' ''workspace_memberships'',
     Drop_Table ''workspace_memberships'',
     Drop_Table ''usage_rollup'',
     Drop_Table ''usage_outbox'',
     Drop_Index ''ix_usage_ws_seq'' ''usage_event'',
     Drop_Index ''ix_usage_ws_occurred'' ''usage_event'',
     Drop_Index ''ix_usage_org_occurred'' ''usage_event'',
     Drop_Table ''usage_event'',
     Drop_Index ''ix_trust_principal'' ''trust_ledger_entries'',
     Drop_Index ''ix_trust_object'' ''trust_ledger_entries'',
     Drop_Table ''trust_ledger_entries'',
     Drop_Table ''sessions'',
     Drop_Table ''session_participants'',
     Drop_Index ''ix_prov_ledger_memory'' ''provenance_ledger'',
     Drop_Table ''provenance_ledger'',
     Drop_Index ''ix_synclog_stream_seq'' ''private_sync_log'',
     Drop_Table ''private_sync_log'',
     Drop_Table ''principals'',
     Drop_Index ''ux_orgs_slug'' ''orgs'',
     Drop_Table ''orgs'',
     Drop_Table ''namespaces'',
     Drop_Index ''ux_prov_chash'' ''memory_provenance'',
     Drop_Index ''ix_prov_owner'' ''memory_provenance'',
     Drop_Index ''ix_prov_artifact'' ''memory_provenance'',
     Drop_Index ''gin_prov_meta'' ''memory_provenance'',
     Drop_Table ''memory_provenance'',
     Drop_Index ''ix_grants_parent'' ''grants'',
     Drop_Index ''ix_grants_object'' ''grants'',
     Drop_Index ''ix_grants_grantee_active'' ''grants'',
     Drop_Table ''grants'',
     Drop_Index ''ix_fact_conflict'' ''fact_provenance'',
     Drop_Index ''ix_fact_active'' ''fact_provenance'',
     Drop_Table ''fact_provenance'',
     Drop_Index ''ix_devices_principal'' ''devices'',
     Drop_Table ''devices'',
     Drop_Index ''ix_conflict_pending'' ''conflict_records'',
     Drop_Index ''gin_conflict_members'' ''conflict_records'',
     Drop_Table ''conflict_records'',
     Drop_Index ''ix_audit_ws_ts'' ''audit_log'',
     Drop_Index ''ix_audit_org_ts'' ''audit_log'',
     Drop_Table ''audit_log'',
     Drop_Table ''agent_bindings'',
     Drop_Index ''ix_acl_subject_active'' ''acl_entries'',
     Drop_Index ''ix_acl_object_active'' ''acl_entries'',
     Drop_Table ''acl_entries'']"

definition metadata :: "orm_class list" where
  "metadata = [tbl_orgs, tbl_workspaces, tbl_workspace_memberships, tbl_principals, tbl_namespaces, tbl_sessions, tbl_session_participants, tbl_agent_bindings, tbl_acl_entries, tbl_grants, tbl_memory_provenance, tbl_fact_provenance, tbl_provenance_ledger, tbl_usage_event, tbl_usage_outbox, tbl_usage_rollup, tbl_devices, tbl_private_sync_log, tbl_conflict_records, tbl_audit_log, tbl_trust_ledger_entries]"
text \<open>The GIN indexes, registered for after_create and executed on Postgres only.\<close>
definition gin_ddl :: "(string \<times> string \<times> string list) list" where
  "gin_ddl = [(''memory_provenance'', ''gin_prov_meta'', [''meta'']),
     (''conflict_records'', ''gin_conflict_members'', [''member_ids''])]"

section \<open>create_all\<close>

definition on_dialect :: "dialect \<Rightarrow> sql_type \<Rightarrow> sql_type" where
  "on_dialect d ty = (if ty = JSONB_Type \<and> d \<noteq> Postgres then JSON_Type else ty)"

definition mk_index :: "dialect \<Rightarrow> string list \<Rightarrow> bool \<Rightarrow> string option \<Rightarrow> string option \<Rightarrow> db_index" where
  "mk_index d cols unique wh using_alg = \<lparr>ix_columns = cols, ix_unique = unique,
     ix_where = (if d = Postgres then wh else None), ix_using = (if d = Postgres then using_alg else None)\<rparr>"

definition orm_key :: "orm_class \<Rightarrow> string list" where
  "orm_key c = map ocol_name (filter ocol_primary (oc_columns c))
     @ concat (map (\<lambda>a. case a of Primary_Key cols \<Rightarrow> cols | _ \<Rightarrow> []) (oc_args c))"

text \<open>A primary-key column is NOT NULL; else nullable decides; else the annotation does.\<close>
definition orm_nullable :: "string list \<Rightarrow> orm_column \<Rightarrow> bool" where
  "orm_nullable key c = (if ocol_name c \<in> set key then False
     else (case ocol_nullable c of Some b \<Rightarrow> b | None \<Rightarrow> ocol_optional c))"

definition orm_indexes :: "dialect \<Rightarrow> orm_class \<Rightarrow> (string, db_index) dict" where
  "orm_indexes d c = concat (map (\<lambda>a. case a of
       Table_Index n cols unique wh \<Rightarrow> [(n, mk_index d cols unique wh None)] | _ \<Rightarrow> []) (oc_args c))
     @ (if d = Postgres then map (\<lambda>(t, n, cols). (n, mk_index d cols False None (Some ''gin'')))
          (filter (\<lambda>(t, n, cols). t = oc_tablename c) gin_ddl) else [])"

definition orm_table :: "dialect \<Rightarrow> orm_class \<Rightarrow> db_table" where
  "orm_table d c = \<lparr>tb_columns = map (\<lambda>k. (ocol_name k, on_dialect d (ocol_type k), orm_nullable (orm_key c) k)) (oc_columns c),
     tb_key = orm_key c,
     tb_uniques = concat (map (\<lambda>a. case a of Unique_Constraint n cols \<Rightarrow> [(n, cols)] | _ \<Rightarrow> []) (oc_args c)),
     tb_indexes = orm_indexes d c\<rparr>"

definition create_all :: "dialect \<Rightarrow> database" where
  "create_all d = map (\<lambda>c. (oc_tablename c, orm_table d c)) metadata"

section \<open>Running a migration\<close>

definition ddl_table :: "dialect \<Rightarrow> ddl_column list \<Rightarrow> string list \<Rightarrow> (string \<times> string list) list \<Rightarrow> db_table" where
  "ddl_table d cols key uniques = \<lparr>tb_columns = map (\<lambda>c. case c of Column n ty nullable \<Rightarrow> (n, on_dialect d ty, nullable)) cols,
     tb_key = key, tb_uniques = uniques, tb_indexes = []\<rparr>"

definition index_taken :: "dialect \<Rightarrow> string \<Rightarrow> string \<Rightarrow> database \<Rightarrow> bool" where
  "index_taken d n t db = (\<exists>(t', tb)\<in>set db. (d = Mysql \<longrightarrow> t' = t) \<and> n \<in> fst ` set (tb_indexes tb))"

definition can_index :: "engine \<Rightarrow> db_table \<Rightarrow> string list \<Rightarrow> bool" where
  "can_index en tb cols = (\<forall>c\<in>set cols. case map_of (tb_columns tb) c of
     None \<Rightarrow> False | Some (ty, _) \<Rightarrow> en_indexes en ty)"

definition run_op :: "engine \<Rightarrow> ddl_op \<Rightarrow> database \<Rightarrow> database or_raise" where
  "run_op en o1 db = (case o1 of
       Create_Table t cols key uniques \<Rightarrow>
         if dict_get db t \<noteq> None \<or> (\<exists>(n, ty, _)\<in>set (tb_columns (ddl_table (en_dialect en) cols key uniques)). \<not> en_renders en ty)
         then Inl PyException else Inr (dict_put t (ddl_table (en_dialect en) cols key uniques) db)
     | Create_Index n t cols unique wh using_alg \<Rightarrow> (case dict_get db t of
           None \<Rightarrow> Inl PyException
         | Some tb \<Rightarrow> if index_taken (en_dialect en) n t db \<or> \<not> can_index en tb cols then Inl PyException
             else Inr (dict_put t (tb\<lparr>tb_indexes := dict_put n
               (mk_index (en_dialect en) cols unique wh using_alg) (tb_indexes tb)\<rparr>) db))
     | Drop_Index n t \<Rightarrow> (case dict_get db t of
           None \<Rightarrow> Inl PyException
         | Some tb \<Rightarrow> if n \<notin> fst ` set (tb_indexes tb) then Inl PyException
             else Inr (dict_put t (tb\<lparr>tb_indexes := dict_pop n (tb_indexes tb)\<rparr>) db))
     | Drop_Table t \<Rightarrow> if dict_get db t = None then Inl PyException else Inr (dict_pop t db))"

definition run_ddl :: "engine \<Rightarrow> ddl_op list \<Rightarrow> database \<Rightarrow> database or_raise" where
  "run_ddl en ops db = rfold (\<lambda>db o1. run_op en o1 db) db ops"

section \<open>Undoing a migration\<close>

fun inverse_op :: "ddl_op \<Rightarrow> ddl_op" where
  "inverse_op (Create_Table t cols key uniques) = Drop_Table t"
| "inverse_op (Create_Index n t cols unique wh using_alg) = Drop_Index n t"
| "inverse_op o1 = o1"

definition creates :: "ddl_op \<Rightarrow> bool" where
  "creates o1 = (case o1 of Create_Table _ _ _ _ \<Rightarrow> True | Create_Index _ _ _ _ _ _ \<Rightarrow> True | _ \<Rightarrow> False)"

lemma pop_put_fresh: "map_of d k = None \<Longrightarrow> dict_pop k (dict_put k v d) = d"
proof (induction d)
  case (Cons p d)
  then show ?case by (cases p) (auto split: if_splits simp: delete_conv' delete_id)
qed simp

lemma put_put_same: "map_of d k = Some v \<Longrightarrow> dict_put k v (dict_put k w d) = d"
  by (induction d) (auto split: if_splits)

lemma put_put_id: "map_of d k = Some v \<Longrightarrow> dict_put k v d = d"
  by (induction d) (auto split: if_splits)

lemma undo_op:
  assumes "run_op en o1 db = Inr db'" "creates o1"
  shows "run_op en (inverse_op o1) db' = Inr db"
proof (cases o1)
  case (Create_Table t cols key uniques)
  then show ?thesis
    using assms(1) by (auto simp: run_op_def pop_put_fresh split: if_splits)
next
  case (Create_Index n t cols unique wh using_alg)
  obtain tb where tb: "dict_get db t = Some tb" "\<not> index_taken (en_dialect en) n t db"
    "db' = dict_put t (tb\<lparr>tb_indexes := dict_put n (mk_index (en_dialect en) cols unique wh using_alg) (tb_indexes tb)\<rparr>) db"
    using assms(1) Create_Index by (auto simp: run_op_def split: option.splits if_splits)
  have "map_of (tb_indexes tb) n = None"
    using tb(1,2) map_of_SomeD [OF tb(1)] by (auto simp: index_taken_def map_of_eq_None_iff)
  then show ?thesis
    using tb Create_Index by (simp add: run_op_def dict_put_keys pop_put_fresh put_put_same put_put_id)
qed (use assms(2) in \<open>simp_all add: creates_def\<close>)

lemma run_ddl_append:
  "run_ddl en (xs @ ys) db = rbind (run_ddl en xs db) (run_ddl en ys)"
  by (induction xs arbitrary: db) (auto simp: run_ddl_def rbind_def split: sum.splits)

lemma undo_all:
  assumes "run_ddl en ops db = Inr db'" "list_all creates ops"
  shows "run_ddl en (rev (map inverse_op ops)) db' = Inr db"
  using assms
proof (induction ops arbitrary: db)
  case (Cons o1 ops)
  obtain db1 where s: "run_op en o1 db = Inr db1" "run_ddl en ops db1 = Inr db'"
    using Cons.prems by (auto simp: run_ddl_def rbind_def split: sum.splits)
  then have "run_ddl en (rev (map inverse_op ops)) db' = Inr db1"
    using Cons by simp
  then show ?case
    using undo_op [OF s(1)] Cons.prems by (simp add: run_ddl_append) (simp add: run_ddl_def)
qed (simp add: run_ddl_def)


section \<open>The migration and the models\<close>

definition accepts_all :: "dialect \<Rightarrow> engine" where
  "accepts_all d = \<lparr>en_dialect = d, en_renders = \<lambda>ty. True, en_indexes = \<lambda>ty. True\<rparr>"

lemma accepts_all_eq:
  "(\<And>ty. en_renders en ty) \<Longrightarrow> (\<And>ty. en_indexes en ty) \<Longrightarrow> en = accepts_all (en_dialect en)"
  for en :: engine by (cases en) (simp add: accepts_all_def fun_eq_iff)

text \<open>Two databases with the same tables, columns in order, keys, constraints and indexes, up to the
  lengths of the VARCHAR columns.\<close>
definition no_length :: "sql_type \<Rightarrow> sql_type" where
  "no_length ty = (case ty of String_Type _ \<Rightarrow> String_Type None | _ \<Rightarrow> ty)"

definition same_dict :: "('v \<Rightarrow> 'v \<Rightarrow> bool) \<Rightarrow> (string, 'v) dict \<Rightarrow> (string, 'v) dict \<Rightarrow> bool" where
  "same_dict f d e = (length d = length e \<and> distinct (map fst e)
     \<and> list_all (\<lambda>(k, v). case map_of d k of None \<Rightarrow> False | Some w \<Rightarrow> f w v) e)"

definition same_table :: "db_table \<Rightarrow> db_table \<Rightarrow> bool" where
  "same_table t u = (map (\<lambda>(n, ty, nullable). (n, no_length ty, nullable)) (tb_columns t)
       = map (\<lambda>(n, ty, nullable). (n, no_length ty, nullable)) (tb_columns u)
     \<and> tb_key t = tb_key u \<and> tb_uniques t = tb_uniques u
     \<and> same_dict (=) (tb_indexes t) (tb_indexes u))"

definition same_schema :: "database \<Rightarrow> database \<Rightarrow> bool" where
  "same_schema d e = same_dict same_table d e"

definition migrated :: "dialect \<Rightarrow> database" where
  "migrated d = (case run_ddl (accepts_all d) upgrade [] of Inr db \<Rightarrow> db | Inl _ \<Rightarrow> [])"

text \<open>A type MySQL can render in CREATE TABLE.\<close>
definition bounded :: "sql_type \<Rightarrow> bool" where
  "bounded ty = (ty \<noteq> String_Type None)"

lemma migrated_Postgres: "run_ddl (accepts_all Postgres) upgrade [] = Inr (migrated Postgres)"
proof -
  have "\<not> isl (run_ddl (accepts_all Postgres) upgrade [])" by code_simp
  then show ?thesis by (cases "run_ddl (accepts_all Postgres) upgrade []") (simp_all add: migrated_def)
qed

lemma migrated_same: "same_schema (migrated Postgres) (create_all Postgres)"
  by code_simp


text \<open>The bytes a key column takes in MySQL: four per character at utf8mb4.\<close>
definition key_bytes :: "sql_type \<Rightarrow> nat" where
  "key_bytes ty = (case ty of String_Type (Some n) \<Rightarrow> 4 * n | String_Type None \<Rightarrow> 0
     | Integer_Type \<Rightarrow> 4 | Boolean_Type \<Rightarrow> 1 | _ \<Rightarrow> 8)"

definition keys_of :: "db_table \<Rightarrow> string list list" where
  "keys_of t = tb_key t # map snd (tb_uniques t) @ map (\<lambda>(n, i). ix_columns i) (tb_indexes t)"

definition key_types :: "db_table \<Rightarrow> string list \<Rightarrow> sql_type option list" where
  "key_types t cols = map (\<lambda>c. map_option fst (map_of (tb_columns t) c)) cols"

text \<open>What the module's docstring asks of a table for MySQL.\<close>
definition mysql_ready :: "db_table \<Rightarrow> bool" where
  "mysql_ready t = (list_all (\<lambda>(n, ty, _). bounded ty) (tb_columns t)
     \<and> list_all (\<lambda>cols. None \<notin> set (key_types t cols) \<and> Some JSON_Type \<notin> set (key_types t cols)
          \<and> sum_list (map (\<lambda>x. key_bytes (the x)) (key_types t cols)) \<le> 3072) (keys_of t))"

lemma models_mysql_ready: "list_all (\<lambda>(n, t). mysql_ready t) (create_all Mysql)"
  by code_simp

lemma downgrade_inverse: "downgrade = rev (map inverse_op upgrade)" "list_all creates upgrade"
  by code_simp+



text \<open>
  The downgrade is an exact inverse: whatever the engine accepts and whatever other tables the
  database holds, after an upgrade that went through the downgrade goes through as well and gives back
  the very database it started from.
\<close>
theorem downgrade_undoes_upgrade:
  assumes "run_ddl en upgrade db = Inr db'"
  shows "run_ddl en downgrade db' = Inr db"
  unfolding downgrade_inverse(1) by (rule undo_all [OF assms downgrade_inverse(2)])

theorem downgrade_undoes_upgrade_witness:
  "run_ddl (accepts_all Postgres) downgrade (migrated Postgres) = Inr []"
  by (rule downgrade_undoes_upgrade [OF migrated_Postgres])

text \<open>
  MySQL: the models meet what the dialect asks for (a length on every VARCHAR, no key over a JSON
  column, no key above 3072 bytes), but the migration that is to create them gives no length at all,
  so on an engine that refuses a VARCHAR without one it fails at its first step and creates nothing.
\<close>
theorem migration_fails_on_mysql:
  assumes "en_dialect en = Mysql" and "\<not> en_renders en (String_Type None)"
  shows "list_all (\<lambda>(n, t). mysql_ready t) (create_all Mysql) \<and> run_ddl en upgrade db = Inl PyException"
proof -
  obtain ops where ops: "upgrade = hd create_acl_entries # ops"
    by (simp add: upgrade_def create_acl_entries_def)
  have "run_op en (hd create_acl_entries) db = Inl PyException"
    using assms by (simp add: create_acl_entries_def run_op_def ddl_table_def on_dialect_def)
  then have "run_ddl en (hd create_acl_entries # ops) db = Inl PyException"
    by (simp add: run_ddl_def)
  then show ?thesis using models_mysql_ready ops by simp
qed

theorem migration_fails_on_mysql_witness:
  "run_ddl \<lparr>en_dialect = Mysql, en_renders = bounded, en_indexes = \<lambda>ty. ty \<noteq> JSON_Type\<rparr> upgrade [] = Inl PyException"
  using migration_fails_on_mysql [of "\<lparr>en_dialect = Mysql, en_renders = bounded, en_indexes = \<lambda>ty. ty \<noteq> JSON_Type\<rparr>" "[]"]
  by (simp add: bounded_def)

end
