(* ===== verification/Extract.thy ===== *)
theory Extract
  imports Distill
begin

text \<open>
  Fact extraction (services/extract.py): the deterministic decomposition of text into
  subject-predicate-object facts with its four patterns, the extractor that runs it, and the
  extractor that asks a model for fact strings first. Text is ASCII. Regular expressions are
  backtracking matchers: a matcher returns the ways it can match a prefix, in the order re tries
  them, each with its captured groups and the rest of the text. The model call and json.loads are
  parameters.
\<close>

section \<open>Strings\<close>

definition is_space :: "char \<Rightarrow> bool" where
  "is_space c = (char_range (CHR 0x09) (CHR 0x0D) c \<or> char_range (CHR 0x1C) (CHR 0x20) c)"

text \<open>A word character of re.\<close>
definition is_word :: "char \<Rightarrow> bool" where
  "is_word c = (is_lower c \<or> is_upper c \<or> is_digit c \<or> c = CHR ''_'')"

definition lstrip :: "string \<Rightarrow> string" where
  "lstrip s = dropWhile is_space s"

definition strip_by :: "(char \<Rightarrow> bool) \<Rightarrow> string \<Rightarrow> string" where
  "strip_by p s = rev (dropWhile p (rev (dropWhile p s)))"

definition strip :: "string \<Rightarrow> string" where
  "strip s = strip_by is_space s"

text \<open>str.split()\<close>
function words :: "string \<Rightarrow> string list" where
  "words s = (let t = dropWhile is_space s in if t = [] then []
     else takeWhile (\<lambda>c. \<not> is_space c) t # words (dropWhile (\<lambda>c. \<not> is_space c) t))"
  by pat_completeness auto
termination
proof (relation "measure length")
  fix s t assume t: "t = dropWhile is_space s" "t \<noteq> []"
  then have "\<not> is_space (hd t)" using hd_dropWhile by metis
  then have "length (dropWhile (\<lambda>c. \<not> is_space c) t) < length t"
    using t(2) by (cases t) (auto simp: length_dropWhile_le le_imp_less_Suc)
  also have "\<dots> \<le> length s" using t(1) length_dropWhile_le by metis
  finally show "(dropWhile (\<lambda>c. \<not> is_space c) t, s) \<in> measure length" by simp
qed simp

declare words.simps [simp del]

text \<open>re.split on one separator character of a set.\<close>
fun split_where :: "(char \<Rightarrow> bool) \<Rightarrow> string \<Rightarrow> string list" where
  "split_where p [] = [[]]"
| "split_where p (c # s) = (if p c then [] # split_where p s
     else (case split_where p s of [] \<Rightarrow> [[c]] | x # xs \<Rightarrow> (c # x) # xs))"

text \<open>str.find, without and with a start.\<close>
fun find_at :: "string \<Rightarrow> string \<Rightarrow> nat option" where
  "find_at sub s = (if take (length sub) s = sub then Some 0
     else (case s of [] \<Rightarrow> None | _ # t \<Rightarrow> map_option Suc (find_at sub t)))"

declare find_at.simps [simp del]

definition find_from :: "string \<Rightarrow> string \<Rightarrow> nat \<Rightarrow> nat option" where
  "find_from sub s start = (if start \<le> length s then map_option (\<lambda>i. start + i) (find_at sub (drop start s)) else None)"

section \<open>Backtracking matchers\<close>

type_synonym matcher = "string \<Rightarrow> (string list \<times> string) list"

definition rx_char :: "(char \<Rightarrow> bool) \<Rightarrow> matcher" where
  "rx_char p s = (case s of [] \<Rightarrow> [] | c # t \<Rightarrow> if p c then [([], t)] else [])"

text \<open>A literal under re.IGNORECASE; the literal is in lower case.\<close>
definition rx_lit :: "string \<Rightarrow> matcher" where
  "rx_lit l s = (if py_lower (take (length l) s) = l then [([], drop (length l) s)] else [])"

definition rx_seq :: "matcher \<Rightarrow> matcher \<Rightarrow> matcher" where
  "rx_seq m k s = concat (map (\<lambda>(g, t). map (\<lambda>(h, u). (g @ h, u)) (k t)) (m s))"

definition rx_alt :: "matcher list \<Rightarrow> matcher" where
  "rx_alt ms s = concat (map (\<lambda>m. m s) ms)"

definition rx_opt :: "matcher \<Rightarrow> matcher" where
  "rx_opt m s = m s @ [([], s)]"

text \<open>p* and p+, greedy: the longest run first.\<close>
fun rx_star :: "(char \<Rightarrow> bool) \<Rightarrow> matcher" where
  "rx_star p [] = [([], [])]"
| "rx_star p (c # s) = (if p c then rx_star p s else []) @ [([], c # s)]"

definition rx_plus :: "(char \<Rightarrow> bool) \<Rightarrow> matcher" where
  "rx_plus p = rx_seq (rx_char p) (rx_star p)"

text \<open>p+?, the shortest run first.\<close>
fun rx_lazy_star :: "(char \<Rightarrow> bool) \<Rightarrow> matcher" where
  "rx_lazy_star p [] = [([], [])]"
| "rx_lazy_star p (c # s) = ([], c # s) # (if p c then rx_lazy_star p s else [])"

definition rx_lazy :: "(char \<Rightarrow> bool) \<Rightarrow> matcher" where
  "rx_lazy p = rx_seq (rx_char p) (rx_lazy_star p)"

text \<open>A group captures what its matcher consumed.\<close>
definition rx_group :: "matcher \<Rightarrow> matcher" where
  "rx_group m s = map (\<lambda>(g, t). (take (length s - length t) s # g, t)) (m s)"

text \<open>The dollar sign: at the end, or before a final newline.\<close>
definition rx_end :: matcher where
  "rx_end s = (if s = [] \<or> s = [CHR 0x0A] then [([], s)] else [])"

definition rx_all :: "matcher list \<Rightarrow> matcher" where
  "rx_all ms = foldr rx_seq ms (\<lambda>s. [([], s)])"

text \<open>re.match and re.search; search gives the start as well.\<close>
definition rx_match :: "matcher \<Rightarrow> string \<Rightarrow> string list option" where
  "rx_match m s = (case m s of [] \<Rightarrow> None | (g, _) # _ \<Rightarrow> Some g)"

fun rx_search :: "matcher \<Rightarrow> string \<Rightarrow> (nat \<times> string list) option" where
  "rx_search m [] = (case rx_match m [] of None \<Rightarrow> None | Some g \<Rightarrow> Some (0, g))"
| "rx_search m (c # s) = (case rx_match m (c # s) of
       Some g \<Rightarrow> Some (0, g)
     | None \<Rightarrow> map_option (\<lambda>(i, g). (Suc i, g)) (rx_search m s))"

definition not_newline :: "char \<Rightarrow> bool" where
  "not_newline c = (c \<noteq> CHR 0x0A)"

section \<open>Patterns and vocabularies\<close>

text \<open>_TEMPORAL_TAIL\<close>
definition temporal_tail :: matcher where
  "temporal_tail = rx_all [rx_plus is_space,
     rx_alt (map rx_lit [''in'', ''on'', ''since'', ''from'', ''as of'']), rx_plus is_space,
     rx_group (rx_all [rx_alt [rx_lit ''19'', rx_lit ''20''], rx_char is_digit, rx_char is_digit,
       rx_opt (rx_all [rx_lit ''-'', rx_char is_digit, rx_char is_digit, rx_lit ''-'', rx_char is_digit, rx_char is_digit])]),
     rx_opt (rx_lit ''.''), rx_star is_space, rx_end]"

text \<open>The possessive attribute.\<close>
definition possessive :: matcher where
  "possessive = rx_all [rx_group (rx_lazy not_newline), rx_lit [CHR 0x27, CHR ''s''], rx_plus is_space,
     rx_group (rx_lazy not_newline), rx_plus is_space, rx_alt (map rx_lit [''is'', ''are'', ''was'', ''were'']),
     rx_plus is_space, rx_group (rx_plus not_newline), rx_end]"

definition contraction :: "string \<Rightarrow> string" where
  "contraction s = s @ [CHR ''n'', CHR 0x27, CHR ''t'']"

definition copulas :: "string list" where
  "copulas = [''is not'', ''are not'', ''was not'', ''were not''] @ map contraction [''is'', ''are'', ''was'', ''were'']"

definition copulas_pos :: "string list" where
  "copulas_pos = [''is'', ''are'', ''was'', ''were'']"

definition prep_verbs :: "string list" where
  "prep_verbs = [''lives'', ''live'', ''lived'', ''resides'', ''reside'', ''resided'', ''stays'', ''stay'',
     ''works'', ''work'', ''worked'', ''based'', ''located'', ''moved'', ''relocated'']"

definition preps :: "string list" where
  "preps = [''in'', ''at'', ''to'', ''for'', ''on'', ''with'', ''from'']"

definition trans_verbs :: "string list" where
  "trans_verbs = [''uses'', ''use'', ''used'', ''likes'', ''like'', ''liked'', ''prefers'', ''prefer'',
     ''preferred'', ''owns'', ''own'', ''owned'', ''has'', ''have'', ''had'', ''knows'', ''know'', ''speaks'',
     ''speak'', ''drives'', ''drive'', ''plays'', ''play'', ''loves'', ''love'', ''wants'', ''want'', ''needs'',
     ''need'', ''enjoys'', ''enjoy'', ''supports'', ''support'']"

definition noise_subjects :: "string list" where
  "noise_subjects = [''there'', ''it'', ''this'', ''that'', ''here'', ''they'', ''we'', ''you'', ''i'', ''he'', ''she'']"

definition articles :: "string list" where
  "articles = [''a'', ''an'', ''the'']"

definition negations :: "string list" where
  "negations = [''not'', ''never'', ''no'']"

section \<open>Dates\<close>

definition is_leap :: "int \<Rightarrow> bool" where
  "is_leap y = (4 dvd y \<and> (\<not> 100 dvd y \<or> 400 dvd y))"

definition days_in_month :: "int \<Rightarrow> nat \<Rightarrow> int" where
  "days_in_month y m = (if m = 2 then (if is_leap y then 29 else 28) else if m \<in> {4, 6, 9, 11} then 30 else 31)"

text \<open>datetime(y, m, d, tzinfo=UTC), in microseconds from the epoch; ValueError off the calendar.\<close>
definition utc_date :: "int \<Rightarrow> nat \<Rightarrow> int \<Rightarrow> int or_raise" where
  "utc_date y m d =
     (if y < 1 \<or> m < 1 \<or> 12 < m \<or> d < 1 \<or> days_in_month y m < d then Inl ValueError
      else Inr ((365 * (y - 1) + (y - 1) div 4 - (y - 1) div 100 + (y - 1) div 400
        + sum_list (map (days_in_month y) [1..<m]) + d - 719163) * 86400000000))"

definition number_of :: "string \<Rightarrow> nat" where
  "number_of s = foldl (\<lambda>n c. 10 * n + (of_char c - 48)) 0 s"

text \<open>_parse_temporal, on the text the tail pattern captured.\<close>
definition parse_temporal :: "string \<Rightarrow> int or_raise" where
  "parse_temporal raw = (if length raw = 4 then utc_date (int (number_of raw)) 1 1
     else utc_date (int (number_of (take 4 raw))) (number_of (take 2 (drop 5 raw))) (int (number_of (drop 8 raw))))"

section \<open>Decomposing a sentence\<close>

definition unwords :: "string list \<Rightarrow> string" where
  "unwords ws = join_with (CHR '' '') ws"

definition strip_article :: "string list \<Rightarrow> string" where
  "strip_article tokens = strip (unwords (dropWhile (\<lambda>t. py_lower t \<in> set articles) tokens))"

text \<open>_find_word: the phrase with no word character on either side.\<close>
fun find_word_after :: "bool \<Rightarrow> string \<Rightarrow> string \<Rightarrow> nat option" where
  "find_word_after prev_word phrase [] = None"
| "find_word_after prev_word phrase (c # s) =
     (if \<not> prev_word \<and> take (length phrase) (c # s) = phrase
         \<and> (case drop (length phrase) (c # s) of [] \<Rightarrow> True | d # _ \<Rightarrow> \<not> is_word d)
      then Some 0 else map_option Suc (find_word_after (is_word c) phrase s))"

definition find_word :: "string \<Rightarrow> string \<Rightarrow> nat option" where
  "find_word lowered phrase = find_word_after False phrase lowered"

definition emit ::
  "string \<Rightarrow> string \<Rightarrow> string \<Rightarrow> polarity \<Rightarrow> string \<Rightarrow> int option \<Rightarrow> (int \<times> int) option \<Rightarrow> extracted_fact option" where
  "emit subj pred objt pol content valid spn =
     (let s = strip subj; p = map (\<lambda>c. if c = CHR '' '' then CHR ''_'' else c) (py_lower (strip pred)); ob = strip objt
      in if s = [] \<or> p = [] \<or> ob = [] then None
         else if py_lower s \<in> set noise_subjects then None
         else Some \<lparr>ef_subject = s, ef_predicate = p, ef_object = ob, ef_polarity = pol, ef_object_kind = LITERAL,
           ef_content = content, ef_valid_at = valid, ef_valid_at_inferred = (valid = None), ef_source_span = spn\<rparr>)"

text \<open>The temporal tail off the sentence: the rest and the date.\<close>
definition take_temporal :: "string \<Rightarrow> string \<times> int option" where
  "take_temporal original = (case rx_search temporal_tail original of
       None \<Rightarrow> (original, None)
     | Some (start, g) \<Rightarrow> (case parse_temporal (hd g) of
           Inl _ \<Rightarrow> (original, None)
         | Inr t \<Rightarrow> (strip (take start original), Some t)))"

text \<open>The first phrase of a list that occurs, with its place.\<close>
fun first_phrase :: "string list \<Rightarrow> string \<Rightarrow> (nat \<times> string) option" where
  "first_phrase [] lowered = None"
| "first_phrase (cop # cops) lowered = (case find_word lowered cop of
       Some i \<Rightarrow> Some (i, cop)
     | None \<Rightarrow> first_phrase cops lowered)"

definition by_copula ::
  "string \<Rightarrow> nat \<times> string \<Rightarrow> polarity \<Rightarrow> string \<Rightarrow> int option \<Rightarrow> (int \<times> int) option \<Rightarrow> extracted_fact option" where
  "by_copula body hit pol content valid spn =
     emit (strip (take (fst hit) body)) ''is''
       (strip_article (words (drop (fst hit + length (snd hit)) body))) pol content valid spn"

text \<open>The first index that satisfies a test.\<close>
definition first_index :: "(nat \<Rightarrow> bool) \<Rightarrow> nat \<Rightarrow> nat option" where
  "first_index p n = List.find p [0..<n]"

definition ends_with_nt :: "string \<Rightarrow> bool" where
  "ends_with_nt t = (let suffix = [CHR ''n'', CHR 0x27, CHR ''t'']
     in 3 \<le> length t \<and> drop (length t - 3) t = suffix)"

definition punctuation :: "char \<Rightarrow> bool" where
  "punctuation c = (c \<in> set ''.,;:'')"

definition by_verb :: "string \<Rightarrow> string \<Rightarrow> int option \<Rightarrow> (int \<times> int) option \<Rightarrow> extracted_fact option" where
  "by_verb body content valid spn =
     (let tokens = words body;
          negated = (\<exists>t\<in>set tokens. py_lower t \<in> set negations \<or> ends_with_nt (py_lower t));
          pol = (if negated then NEGATIVE else POSITIVE);
          clean = filter (\<lambda>t. py_lower t \<notin> set negations) tokens;
          lowclean = map (\<lambda>t. strip_by punctuation (py_lower t)) clean
      in case first_index (\<lambda>i. lowclean ! i \<in> set prep_verbs \<and> i + 1 < length lowclean
             \<and> lowclean ! (i + 1) \<in> set preps) (length lowclean) of
           Some i \<Rightarrow> emit (unwords (take i clean)) (lowclean ! i @ ''_'' @ lowclean ! (i + 1))
             (strip_article (drop (i + 2) clean)) pol content valid spn
         | None \<Rightarrow> (case first_index (\<lambda>i. lowclean ! i \<in> set trans_verbs \<and> 0 < i \<and> i < length clean - 1)
               (length lowclean) of
             Some i \<Rightarrow> emit (unwords (take i clean)) (lowclean ! i) (strip_article (drop (i + 1) clean)) pol content valid spn
           | None \<Rightarrow> None))"

definition decompose_sentence :: "string \<Rightarrow> nat \<Rightarrow> string \<Rightarrow> extracted_fact option" where
  "decompose_sentence sentence base_offset full_text =
     (let original = strip sentence in
      if original = [] then None
      else
        let (body, valid) = take_temporal original;
            spn = map_option (\<lambda>start. (int start, int (start + length original))) (find_from original full_text base_offset);
            lowered = py_lower body
        in case rx_match possessive body of
             Some g \<Rightarrow> emit (g ! 0) (g ! 1) (strip_article (words (g ! 2))) POSITIVE original valid spn
           | None \<Rightarrow> (case first_phrase copulas lowered of
               Some hit \<Rightarrow> by_copula body hit NEGATIVE original valid spn
             | None \<Rightarrow> (case first_phrase copulas_pos lowered of
                 Some hit \<Rightarrow> by_copula body hit POSITIVE original valid spn
               | None \<Rightarrow> by_verb body original valid spn)))"

section \<open>The extractors\<close>

fun decompose_from :: "int \<Rightarrow> string \<Rightarrow> string list \<Rightarrow> nat \<Rightarrow> extracted_fact list" where
  "decompose_from min_tokens text [] offset = []"
| "decompose_from min_tokens text (raw # raws) offset =
     (let chunk = strip raw;
          found = (if chunk \<noteq> [] \<and> min_tokens \<le> int (length (words chunk))
            then (case decompose_sentence chunk offset text of None \<Rightarrow> [] | Some f \<Rightarrow> [f]) else [])
      in found @ decompose_from min_tokens text raws (offset + length raw + 1))"

definition sentence_break :: "char \<Rightarrow> bool" where
  "sentence_break c = (c = CHR ''.'' \<or> c = CHR '';'' \<or> c = CHR 0x0A)"

definition decompose_to_spo :: "string \<Rightarrow> int \<Rightarrow> int \<Rightarrow> extracted_fact list" where
  "decompose_to_spo text now min_tokens = decompose_from min_tokens text (split_where sentence_break text) 0"

record extraction_settings =
  xs_max_tokens :: int
  xs_temperature :: rat
  xs_min_tokens :: int

definition default_extraction :: extraction_settings where
  "default_extraction = \<lparr>xs_max_tokens = 1024, xs_temperature = 0, xs_min_tokens = 3\<rparr>"

text \<open>A JSON value, as far as the fact payload is looked at.\<close>
datatype json_value = JText string | JList "json_value list" | JObject "(string, json_value) dict" | JOther

definition fence :: string where
  "fence = ''```''"

definition is_letter :: "char \<Rightarrow> bool" where
  "is_letter c = (is_lower c \<or> is_upper c)"

text \<open>The substitution that takes code fences off.\<close>
definition open_fence :: "string \<Rightarrow> string" where
  "open_fence s = (if take 3 s = fence then
       (let t = dropWhile is_letter (drop 3 s) in case t of c # u \<Rightarrow> if c = CHR 0x0A then u else t | [] \<Rightarrow> t)
     else s)"

definition close_fence :: "string \<Rightarrow> string" where
  "close_fence s = (if 3 \<le> length s \<and> drop (length s - 3) s = fence
     then (let t = take (length s - 3) s in if t \<noteq> [] \<and> last t = CHR 0x0A then butlast t else t) else s)"

definition clean_answer :: "string \<Rightarrow> string" where
  "clean_answer raw = (let stripped = strip raw
     in if take 3 stripped = fence then strip (close_fence (open_fence stripped)) else stripped)"

text \<open>The comprehension over payload.get("facts", []): what iterating each kind of value gives.\<close>
definition fact_strings :: "json_value \<Rightarrow> string list or_raise" where
  "fact_strings v = (case v of
       JList xs \<Rightarrow> Inr (concat (map (\<lambda>f. case f of JText t \<Rightarrow> if strip t \<noteq> [] then [t] else [] | _ \<Rightarrow> []) xs))
     | JText t \<Rightarrow> Inr (map (\<lambda>c. [c]) (filter (\<lambda>c. \<not> is_space c) t))
     | JObject e \<Rightarrow> Inr (filter (\<lambda>k. strip k \<noteq> []) (map fst e))
     | JOther \<Rightarrow> Inl TypeError)"

text \<open>_parse_mem0_facts\<close>
definition parse_mem0_facts :: "(string \<Rightarrow> json_value option) \<Rightarrow> string \<Rightarrow> string list or_raise" where
  "parse_mem0_facts loads raw = (if clean_answer raw = [] then Inr []
     else (case loads (clean_answer raw) of
         Some (JObject d) \<Rightarrow> (case dict_get d ''facts'' of None \<Rightarrow> Inr [] | Some v \<Rightarrow> fact_strings v)
       | _ \<Rightarrow> Inr []))"

datatype 'm extractor = Heuristic_Spo extraction_settings | Llm_Mem0 'm string extraction_settings

definition extract_heuristic :: "extraction_settings \<Rightarrow> string \<Rightarrow> int \<Rightarrow> extracted_fact list or_raise" where
  "extract_heuristic st text now = Inr (decompose_to_spo text now (xs_min_tokens st))"

text \<open>LlmFactExtractor.extract; ask is the provider's answer to the prompt over the text.\<close>
definition extract_llm ::
  "(string \<Rightarrow> json_value option) \<Rightarrow> (string \<Rightarrow> string or_raise) \<Rightarrow> extraction_settings \<Rightarrow> string \<Rightarrow> int
   \<Rightarrow> extracted_fact list or_raise" where
  "extract_llm loads ask st text now =
     rbind (ask text) (\<lambda>answer. rbind (parse_mem0_facts loads answer) (\<lambda>facts.
       Inr (concat (map (\<lambda>fs. decompose_to_spo fs now (xs_min_tokens st)) facts))))"

definition build_extractor ::
  "bool \<Rightarrow> 'm option \<Rightarrow> string option \<Rightarrow> extraction_settings option \<Rightarrow> 'm extractor or_raise" where
  "build_extractor use_llm provider model_group settings =
     (let or_default = (case settings of None \<Rightarrow> default_extraction | Some s \<Rightarrow> s)
      in if \<not> use_llm then Inr (Heuristic_Spo default_extraction)
         else (case (provider, model_group) of
             (Some m, Some g) \<Rightarrow> Inr (Llm_Mem0 m g or_default)
           | _ \<Rightarrow> Inl ValueError))"

section \<open>Provenance spans\<close>

lemma strip_split:
  "\<exists>ws us. s = ws @ strip s @ us \<and> list_all is_space ws \<and> (strip s \<noteq> [] \<longrightarrow> \<not> is_space (hd (strip s)))"
proof -
  let ?t = "dropWhile is_space s"
  have t: "s = takeWhile is_space s @ ?t" by simp
  have r: "?t = strip s @ rev (takeWhile is_space (rev ?t))"
    by (metis strip_def strip_by_def rev_append rev_rev_ident takeWhile_dropWhile_id)
  have "\<not> is_space (hd (strip s))" if "strip s \<noteq> []"
  proof -
    have "hd ?t = hd (strip s)" using r that by (metis hd_append2)
    moreover have "?t \<noteq> []" using r that by (metis append_is_Nil_conv)
    ultimately show ?thesis using hd_dropWhile by metis
  qed
  then show ?thesis
    using t r by (intro exI [of _ "takeWhile is_space s"] exI [of _ "rev (takeWhile is_space (rev ?t))"])
      (auto simp: list_all_iff dest: set_takeWhileD)
qed

lemma strip_id:
  assumes "s \<noteq> [] \<Longrightarrow> \<not> is_space (hd s) \<and> \<not> is_space (last s)"
  shows "strip s = s"
proof (cases "s = []")
  case False
  then have "dropWhile is_space s = s" "dropWhile is_space (rev s) = rev s"
    using assms by (simp_all add: dropWhile_eq_self_iff hd_rev)
  then show ?thesis by (simp add: strip_def strip_by_def)
qed (simp add: strip_def strip_by_def)

lemma strip_last: "strip s \<noteq> [] \<Longrightarrow> \<not> is_space (last (strip s))"
  unfolding strip_def strip_by_def by (metis hd_dropWhile last_rev rev_is_Nil_conv)

lemma strip_strip [simp]: "strip (strip s) = strip s"
  using strip_split [of s] strip_last [of s] by (intro strip_id) blast

lemma find_at_strip:
  "\<lbrakk> list_all is_space ws; chunk \<noteq> []; \<not> is_space (hd chunk) \<rbrakk> \<Longrightarrow> find_at chunk (ws @ chunk @ rest) = Some (length ws)"
proof (induction ws)
  case Nil
  then show ?case by (subst find_at.simps) simp
next
  case (Cons w ws)
  have "take (length chunk) (w # ws @ chunk @ rest) \<noteq> chunk"
    using Cons.prems by (cases chunk) auto
  then show ?case using Cons by (subst find_at.simps) simp
qed

text \<open>The segments of a text, each followed by one separator, from an offset on.\<close>
fun laid_out :: "string \<Rightarrow> string list \<Rightarrow> nat \<Rightarrow> bool" where
  "laid_out text [] offset = True"
| "laid_out text (raw # raws) offset =
     (take (length raw) (drop offset text) = raw \<and> laid_out text raws (offset + length raw + 1))"

lemma laid_out_split: "laid_out (pre @ s) (split_where p s) (length pre)"
proof (induction s arbitrary: pre)
  case (Cons c s)
  have IH: "laid_out (pre @ c # s) (split_where p s) (Suc (length pre))"
    using Cons [of "pre @ [c]"] by simp
  show ?case
  proof (cases "p c")
    case False
    then show ?thesis
      using IH by (cases "split_where p s") (auto simp: drop_Suc_Cons Cons_nth_drop_Suc [symmetric] nth_append take_Suc_conv_app_nth split: list.splits)
  qed (use IH in simp)
qed simp

lemma emit_fields:
  "emit subj pred objt pol content valid sp = Some f \<Longrightarrow> ef_content f = content \<and> ef_source_span f = sp
    \<and> ef_valid_at f = valid \<and> ef_valid_at_inferred f = (valid = None) \<and> ef_polarity f = pol
    \<and> ef_object_kind f = LITERAL
    \<and> ef_subject f \<noteq> [] \<and> strip (ef_subject f) = ef_subject f \<and> py_lower (ef_subject f) \<notin> set noise_subjects
    \<and> ef_object f \<noteq> [] \<and> strip (ef_object f) = ef_object f
    \<and> ef_predicate f \<noteq> [] \<and> CHR '' '' \<notin> set (ef_predicate f)"
  by (auto simp: emit_def Let_def split: if_splits)

lemma decompose_sentence_emits:
  assumes "decompose_sentence sentence off text = Some f"
  shows "\<exists>subj pred objt pol. emit subj pred objt pol (strip sentence) (snd (take_temporal (strip sentence)))
    (map_option (\<lambda>start. (int start, int (start + length (strip sentence)))) (find_from (strip sentence) text off)) = Some f"
  using assms
  by (auto simp: decompose_sentence_def by_copula_def by_verb_def Let_def
      split: if_splits prod.splits option.splits)

text \<open>A span of the text that is the fact's content.\<close>
definition span_between :: "string \<Rightarrow> nat \<Rightarrow> nat \<Rightarrow> extracted_fact \<Rightarrow> bool" where
  "span_between text lo hi f \<longleftrightarrow> (\<exists>a b. ef_source_span f = Some (int a, int b) \<and> lo \<le> a \<and> a < b \<and> b \<le> hi
     \<and> b \<le> length text \<and> take (b - a) (drop a text) = ef_content f)"

lemma decompose_sentence_span:
  assumes f: "decompose_sentence chunk off text = Some f" and c: "chunk = strip raw"
    and raw: "take (length raw) (drop off text) = raw"
  shows "span_between text off (off + length raw) f"
proof -
  obtain ws us where w: "raw = ws @ chunk @ us" "list_all is_space ws" "chunk \<noteq> [] \<longrightarrow> \<not> is_space (hd chunk)"
    using strip_split [of raw] c by blast
  have s: "strip chunk = chunk" using c by simp
  have ne: "chunk \<noteq> []" using f s by (auto simp: decompose_sentence_def)
  obtain tail where d: "drop off text = ws @ chunk @ us @ tail"
    using raw w(1) by (metis append_assoc append_take_drop_id)
  have "off < length text" using d ne by (cases "off < length text") auto
  then have "find_from chunk text off = Some (off + length ws)"
    using find_at_strip [OF w(2) ne, of "us @ tail"] w(3) ne d by (simp add: find_from_def)
  then have sp: "ef_source_span f = Some (int (off + length ws), int (off + length ws + length chunk))"
    "ef_content f = chunk"
    using decompose_sentence_emits [OF f] s by (auto dest!: emit_fields)
  have here: "drop (off + length ws) text = chunk @ us @ tail"
    using d by (metis add.commute append_eq_conv_conj drop_drop)
  moreover have "length (drop (off + length ws) text) = length text - (off + length ws)" by simp
  ultimately have "length ws + length chunk \<le> length raw" "off + length ws + length chunk \<le> length text"
    using w(1) ne length_greater_0_conv [of chunk] by (auto simp del: length_greater_0_conv)
  then show ?thesis
    unfolding span_between_def
    using sp here ne by (intro exI [of _ "off + length ws"] exI [of _ "off + length ws + length chunk"]) simp
qed

definition span_start :: "extracted_fact \<Rightarrow> int" where
  "span_start f = (case ef_source_span f of None \<Rightarrow> 0 | Some p \<Rightarrow> fst p)"

definition span_end :: "extracted_fact \<Rightarrow> int" where
  "span_end f = (case ef_source_span f of None \<Rightarrow> 0 | Some p \<Rightarrow> snd p)"

lemma span_between_ends:
  "span_between text lo hi f \<Longrightarrow> int lo \<le> span_start f \<and> span_end f \<le> int hi"
  by (auto simp: span_between_def span_start_def span_end_def)

lemma set_optional: "f \<in> set (if b then (case x of None \<Rightarrow> [] | Some g \<Rightarrow> [g]) else []) \<longleftrightarrow> b \<and> x = Some f"
  by (cases b; cases x; simp only: if_True if_False option.case list.set option.inject; blast)

lemma length_optional: "length (if b then (case x of None \<Rightarrow> [] | Some g \<Rightarrow> [g]) else []) \<le> 1"
  by (cases b; cases x; simp only: if_True if_False option.case list.size; simp)

lemma decompose_from_spans:
  assumes "laid_out text raws off"
  shows "(\<forall>f\<in>set (decompose_from k text raws off). span_between text off (length text) f)
    \<and> sorted_wrt (\<lambda>f g. span_end f \<le> span_start g) (decompose_from k text raws off)"
  using assms
proof (induction raws arbitrary: off)
  case (Cons raw raws)
  let ?next = "off + length raw + 1"
  define one where "one = (if strip raw \<noteq> [] \<and> k \<le> int (length (words (strip raw)))
    then (case decompose_sentence (strip raw) off text of None \<Rightarrow> [] | Some f \<Rightarrow> [f]) else [])"
  have raw: "take (length raw) (drop off text) = raw" "laid_out text raws ?next"
    using Cons.prems by simp_all
  note IH = Cons.IH [OF raw(2)]
  have in_one: "span_between text off (off + length raw) f" if "f \<in> set one" for f
    using that decompose_sentence_span [OF _ refl raw(1)] unfolding one_def set_optional by blast
  have later: "span_between text ?next (length text) f" if "f \<in> set (decompose_from k text raws ?next)" for f
    using IH that by blast
  have len: "length one \<le> 1" unfolding one_def by (rule length_optional)
  have eq: "decompose_from k text (raw # raws) off = one @ decompose_from k text raws ?next"
    by (simp only: decompose_from.simps Let_def one_def)
  have "span_between text off (length text) f" if "f \<in> set one \<or> f \<in> set (decompose_from k text raws ?next)" for f
    using that in_one [of f] later [of f] unfolding span_between_def by fastforce
  moreover have "span_end f \<le> span_start g" if "f \<in> set one" "g \<in> set (decompose_from k text raws ?next)" for f g
    using span_between_ends [OF in_one [OF that(1)]] span_between_ends [OF later [OF that(2)]] by simp
  moreover have "sorted_wrt (\<lambda>f g. span_end f \<le> span_start g) one"
    using len by (cases one) auto
  ultimately show ?case
    unfolding eq sorted_wrt_append set_append using IH by blast
qed simp

lemma extracted_spans:
  "(\<forall>f\<in>set (decompose_to_spo text now k). span_between text 0 (length text) f)
   \<and> sorted_wrt (\<lambda>f g. span_end f \<le> span_start g) (decompose_to_spo text now k)"
  using decompose_from_spans [of "text" "split_where sentence_break text" 0] laid_out_split [of "[]" "text" sentence_break]
  by (simp add: decompose_to_spo_def)

text \<open>
  C16. Provenance spans are exact. Whatever the text, every fact the decomposition finds carries a span
  within the text, the text there is the fact's own sentence, character for character, and the spans
  of different facts are disjoint and in the order of the facts.
\<close>
theorem extracted_spans_are_exact:
  "(\<forall>f\<in>set (decompose_to_spo text now k). span_between text 0 (length text) f)
   \<and> sorted_wrt (\<lambda>f g. span_end f \<le> span_start g) (decompose_to_spo text now k)"
  by (rule extracted_spans)

text \<open>
  C18. Every extracted fact is well formed: subject, predicate and object are not blank, subject and
  object carry no outer white space, the predicate holds no blank, the subject is not a pronoun or
  expletive in any case, the inferred flag says exactly whether a date was found, and its sentence is
  not empty.
\<close>
theorem extracted_facts_are_well_formed:
  assumes "f \<in> set (decompose_to_spo text now k)"
  shows "ef_subject f \<noteq> [] \<and> strip (ef_subject f) = ef_subject f \<and> py_lower (ef_subject f) \<notin> set noise_subjects
    \<and> ef_predicate f \<noteq> [] \<and> CHR '' '' \<notin> set (ef_predicate f)
    \<and> ef_object f \<noteq> [] \<and> strip (ef_object f) = ef_object f \<and> ef_content f \<noteq> []
    \<and> (ef_valid_at_inferred f \<longleftrightarrow> ef_valid_at f = None)"
proof -
  have "\<exists>sentence off. decompose_sentence sentence off text = Some f" if "f \<in> set (decompose_from k text raws off)" for raws off
    using that
  proof (induction raws arbitrary: off)
    case (Cons raw raws)
    then show ?case unfolding decompose_from.simps Let_def set_append Un_iff set_optional by blast
  qed simp
  then obtain sentence off where s: "decompose_sentence sentence off text = Some f"
    using assms unfolding decompose_to_spo_def by blast
  then have "strip sentence \<noteq> []" by (auto simp: decompose_sentence_def)
  then show ?thesis using decompose_sentence_emits [OF s] by (auto dest!: emit_fields)
qed

section \<open>Extraction in the pipeline\<close>

lemma fact_item_fields:
  "mi_content (fact_item sha ns source f now mid created updated) = ef_content f"
  "dict_get (mi_metadata (fact_item sha ns source f now mid created updated)) ''derived_from'' = Some (MStr (mi_id source))"
  "dict_get (mi_metadata (fact_item sha ns source f now mid created updated)) ''extractor_span'' = Some (span_meta (ef_source_span f))"
  by (simp_all add: fact_item_def post_init_def default_item_def Let_def)

lemma fact_to_item_Inr:
  "fact_to_item p ns source now f w = (Inr m, w') \<Longrightarrow> \<exists>mid created updated.
    m = fact_item (dp_sha256 p) ns source f now mid created updated"
  by (auto simp: fact_to_item_def seq_Inr_iff)

text \<open>An item that points into the content of the item it came from.\<close>
definition points_into :: "memory_item \<Rightarrow> memory_item \<Rightarrow> bool" where
  "points_into source m \<longleftrightarrow> dict_get (mi_metadata m) ''derived_from'' = Some (MStr (mi_id source))
     \<and> (\<exists>a b. dict_get (mi_metadata m) ''extractor_span'' = Some (MSpan (int a) (int b)) \<and> a < b
          \<and> b \<le> length (mi_content source) \<and> take (b - a) (drop a (mi_content source)) = mi_content m)"

text \<open>
  C17. A distilled fact can be traced to its source, to the character: with the heuristic extractor,
  every item the consolidation mints from an unstructured item records that item's id and a span, and
  the source's content at that span is the new item's content.
\<close>
theorem distilled_facts_point_into_their_source:
  assumes "dp_extract p = extract_heuristic st" and "\<not> structured item"
    and "collect_one p ns now item w = (Inr ms, w')"
  shows "\<forall>m\<in>set ms. points_into item m"
proof -
  let ?fs = "decompose_to_spo (mi_content item) now (xs_min_tokens st)"
  have run: "map_eff (fact_to_item p ns item now) ?fs w = (Inr ms, w')"
    using assms by (simp add: collect_one_def extract_heuristic_def lift_result_def seq_def)
  have "points_into item m" if f: "f \<in> set ?fs" and m: "fact_to_item p ns item now f v = (Inr m, v')" for f v m v'
  proof -
    have "span_between (mi_content item) 0 (length (mi_content item)) f"
      using extracted_spans f by blast
    then show ?thesis
      using fact_to_item_Inr [OF m] by (auto simp: points_into_def span_between_def span_meta_def fact_item_fields)
  qed
  then show ?thesis by (rule map_eff_all [OF _ run])
qed

text \<open>
  The model extractor fails in two ways only: the model call raises, or the model answers with an
  object whose facts are null, a number or a boolean, and the loop over them raises TypeError. Every
  other answer, malformed JSON included, gives a list; each fact in it is a well-placed fact of one of
  the strings the model returned, so its span counts into that string and not into the source text.
\<close>
theorem llm_extraction_outcomes:
  "case extract_llm loads ask st source now of
     Inl e \<Rightarrow> ask source = Inl e \<or> (e = TypeError \<and> (\<exists>answer d. ask source = Inr answer
         \<and> loads (clean_answer answer) = Some (JObject d) \<and> dict_get d ''facts'' = Some JOther))
   | Inr facts \<Rightarrow> \<exists>answer strings. ask source = Inr answer \<and> parse_mem0_facts loads answer = Inr strings
       \<and> (\<forall>f\<in>set facts. \<exists>fs\<in>set strings. f \<in> set (decompose_to_spo fs now (xs_min_tokens st))
            \<and> span_between fs 0 (length fs) f)"
proof (cases "ask source")
  case (Inr answer)
  show ?thesis
  proof (cases "parse_mem0_facts loads answer")
    case (Inl e)
    then show ?thesis
      using Inr by (auto simp: extract_llm_def parse_mem0_facts_def fact_strings_def
          split: if_splits option.splits json_value.splits)
  next
    case r: (Inr strings)
    then show ?thesis
      using Inr extracted_spans by (auto simp: extract_llm_def)
  qed
qed (simp add: extract_llm_def)

definition possessive_text :: string where
  "possessive_text = ''Ada'' @ [CHR 0x27] @ ''s favorite color is not blue''"

text \<open>
  Negation is read off the wrong place. A verb negated with do or does keeps the auxiliary in the
  subject (and a contraction keeps the whole word), so the negated fact is about another subject than
  the one it denies, and the two never meet as conflict candidates. A negated possessive is recorded
  as positive, with not in its object.
\<close>
theorem negation_changes_the_subject:
  "map (\<lambda>f. (ef_subject f, ef_predicate f, ef_object f, ef_polarity f))
     (decompose_to_spo ''Ada uses Redis. Ada does not use Redis'' now 3)
   = [(''Ada'', ''uses'', ''Redis'', POSITIVE), (''Ada does'', ''use'', ''Redis'', NEGATIVE)]
   \<and> map (\<lambda>f. (ef_subject f, ef_predicate f, ef_object f, ef_polarity f)) (decompose_to_spo possessive_text now 3)
   = [(''Ada'', ''favorite_color'', ''not blue'', POSITIVE)]"
  by (simp only: decompose_to_spo_def) code_simp

section \<open>Witnesses\<close>

definition kind_fact :: extracted_fact where
  "kind_fact = \<lparr>ef_subject = ''Ada'', ef_predicate = ''is'', ef_object = ''kind'', ef_polarity = POSITIVE,
     ef_object_kind = LITERAL, ef_content = ''Ada is kind'', ef_valid_at = None, ef_valid_at_inferred = True,
     ef_source_span = Some (2, 13)\<rparr>"

lemma demo_decomposition: "decompose_to_spo ''; Ada is kind'' now 3 = [kind_fact]"
  by (simp only: decompose_to_spo_def) code_simp

theorem extracted_spans_are_exact_witness:
  "span_between ''; Ada is kind'' 0 13 kind_fact"
proof -
  have "kind_fact \<in> set (decompose_to_spo ''; Ada is kind'' 0 3)"
    by (simp add: demo_decomposition)
  moreover have "length ''; Ada is kind'' = 13" by simp
  ultimately show ?thesis using extracted_spans_are_exact [of "''; Ada is kind''" 0 3] by metis
qed

theorem extracted_facts_are_well_formed_witness:
  "ef_subject kind_fact \<noteq> [] \<and> strip (ef_subject kind_fact) = ef_subject kind_fact
   \<and> (ef_valid_at_inferred kind_fact \<longleftrightarrow> ef_valid_at kind_fact = None)"
proof -
  have "kind_fact \<in> set (decompose_to_spo ''; Ada is kind'' 0 3)"
    by (simp add: demo_decomposition)
  then show ?thesis using extracted_facts_are_well_formed by blast
qed

text \<open>A model that answers with one fact string, and a reader of its one answer.\<close>
theorem llm_extraction_outcomes_witness:
  "\<exists>strings. kind_fact \<in> set (decompose_to_spo ''; Ada is kind'' 5 3)
     \<and> extract_llm (\<lambda>_. Some (JObject [(''facts'', JList [JText ''; Ada is kind''])])) (\<lambda>_. Inr ''answer'')
          default_extraction ''q'' 5 = Inr [kind_fact]
     \<and> (\<exists>fs\<in>set strings. span_between fs 0 (length fs) kind_fact)"
proof -
  let ?loads = "\<lambda>_ :: string. Some (JObject [(''facts'', JList [JText ''; Ada is kind''])])"
  have c: "clean_answer ''answer'' = ''answer''" "strip ''; Ada is kind'' = ''; Ada is kind''" by code_simp+
  have r: "extract_llm ?loads (\<lambda>_. Inr ''answer'') default_extraction ''q'' 5 = Inr [kind_fact]"
    by (simp add: extract_llm_def parse_mem0_facts_def c fact_strings_def default_extraction_def demo_decomposition)
  show ?thesis
    using llm_extraction_outcomes [where loads = ?loads and ask = "\<lambda>_. Inr ''answer''" and st = default_extraction
      and source = "''q''" and now = 5] r
    by (auto simp: demo_decomposition)
qed

definition demo_source :: memory_item where
  "demo_source = default_item 0 ''m1'' ''; Ada is kind'' ltm_demo_ns ''u'' ''w'' ''s''"

definition demo_extract_ports :: "(memory_item falkor_state, unit, domain_event list, nat) distill_ports" where
  "demo_extract_ports = demo_distill_ports\<lparr>dp_extract := extract_heuristic default_extraction\<rparr>"

theorem distilled_facts_point_into_their_source_witness:
  "\<exists>m w'. collect_one demo_extract_ports ltm_demo_ns 5 demo_source demo_distill_world = (Inr [m], w')
     \<and> points_into demo_source m"
proof -
  have "\<exists>m w'. collect_one demo_extract_ports ltm_demo_ns 5 demo_source demo_distill_world = (Inr [m], w')"
    by (simp add: collect_one_def structured_def truthy_def demo_source_def default_item_def demo_extract_ports_def
        demo_distill_ports_def demo_distill_world_def extract_heuristic_def default_extraction_def
        demo_decomposition lift_result_def seq_def fact_to_item_def on_clock_def ret_def)
  then obtain m w' where r: "collect_one demo_extract_ports ltm_demo_ns 5 demo_source demo_distill_world = (Inr [m], w')"
    by blast
  have "dp_extract demo_extract_ports = extract_heuristic default_extraction" "\<not> structured demo_source"
    by (simp_all add: demo_extract_ports_def structured_def demo_source_def default_item_def truthy_def)
  from distilled_facts_point_into_their_source [OF this r] show ?thesis using r by auto
qed

end
