(* ===== verification/Mappers.thy ===== *)
theory Mappers
  imports Ltm_Graph
begin

text \<open>
  The wire form of a memory record (to_dict and from_dict of storage/domain/memory.py) and the row
  mappers (storage/mappers): the key-value blob, the vector point with its payload and the four
  collection names, and the content-free relational row. A payload is a JSON object; the ISO printer
  and reader of datetimes, sha256, uuid5, the clock and the id supply are the fields of a codec.
  Pydantic's coercions of numeric strings and timestamps, which no dump contains, are not modelled.
\<close>

section \<open>JSON payloads\<close>

datatype payload_value = PNull | PStr string | PNum rat | PStrs "string list" | PNums "rat list"
  | PMeta "(string, meta_value) dict"

type_synonym payload = "(string, payload_value) dict"

record codec =
  cd_iso :: "int \<Rightarrow> string"
  cd_read :: "string \<Rightarrow> int or_raise"
  cd_sha256 :: "string \<Rightarrow> string"
  cd_uuid5 :: "string \<Rightarrow> string"
  cd_now :: int
  cd_fresh :: string

text \<open>What the standard library documents: a printed datetime reads back.\<close>
definition codec_ok :: "codec \<Rightarrow> bool" where
  "codec_ok cd = (\<forall>t. cd_read cd (cd_iso cd t) = Inr t)"

definition p_opt :: "('a \<Rightarrow> payload_value) \<Rightarrow> 'a option \<Rightarrow> payload_value" where
  "p_opt f v = (case v of None \<Rightarrow> PNull | Some x \<Rightarrow> f x)"

definition p_time :: "codec \<Rightarrow> int \<Rightarrow> payload_value" where
  "p_time cd t = PStr (cd_iso cd t)"

definition p_namespace :: "namespace \<Rightarrow> payload_value" where
  "p_namespace ns = PStrs (ns_parts ns)"

text \<open>MemoryItem.to_dict\<close>
definition to_dict :: "codec \<Rightarrow> memory_item \<Rightarrow> payload" where
  "to_dict cd m = [(''id'', PStr (mi_id m)), (''content'', PStr (mi_content m)),
     (''kind'', PStr (kind_value (mi_kind m))), (''tier'', PStr (tier_value (mi_tier m))),
     (''state'', PStr (state_value (mi_state m))), (''namespace'', p_namespace (mi_namespace m)),
     (''owner_id'', PStr (mi_owner_id m)), (''workspace_id'', PStr (mi_workspace_id m)),
     (''session_id'', PStr (mi_session_id m)), (''created_at'', p_time cd (mi_created_at m)),
     (''updated_at'', p_time cd (mi_updated_at m)), (''valid_at'', p_opt (p_time cd) (mi_valid_at m)),
     (''invalid_at'', p_opt (p_time cd) (mi_invalid_at m)),
     (''importance_score'', PNum (mi_importance_score m)), (''relevance_score'', PNum (mi_relevance_score m)),
     (''access_count'', PNum (of_int (mi_access_count m))), (''source'', PStr (source_value (mi_source m))),
     (''subject'', p_opt PStr (mi_subject m)), (''predicate'', p_opt PStr (mi_predicate m)),
     (''object'', p_opt PStr (mi_object m)),
     (''object_kind'', p_opt (\<lambda>k. PStr (object_kind_value k)) (mi_object_kind m)),
     (''polarity'', PStr (polarity_value (mi_polarity m))), (''content_hash'', PStr (mi_content_hash m)),
     (''artifact_ref'', p_opt PStr (mi_artifact_ref m)), (''embedding_ref'', p_opt PStr (mi_embedding_ref m)),
     (''provenance_id'', PStr (mi_provenance_id m)), (''embedding'', p_opt PNums (mi_embedding m)),
     (''embedding_model'', p_opt PStr (mi_embedding_model m)), (''metadata'', PMeta (mi_metadata m))]"

section \<open>Reading a payload\<close>

text \<open>A field with its reader; a missing field takes its default, or is an error when it has none.\<close>
definition field :: "payload \<Rightarrow> string \<Rightarrow> 'a option \<Rightarrow> (payload_value \<Rightarrow> 'a or_raise) \<Rightarrow> 'a or_raise" where
  "field d k dflt parse = (case dict_get d k of
       Some v \<Rightarrow> parse v
     | None \<Rightarrow> (case dflt of None \<Rightarrow> Inl ValueError | Some a \<Rightarrow> Inr a))"

definition as_str :: "payload_value \<Rightarrow> string or_raise" where
  "as_str v = (case v of PStr s \<Rightarrow> Inr s | _ \<Rightarrow> Inl ValueError)"

definition as_num :: "payload_value \<Rightarrow> rat or_raise" where
  "as_num v = (case v of PNum q \<Rightarrow> Inr q | _ \<Rightarrow> Inl ValueError)"

definition as_int :: "payload_value \<Rightarrow> int or_raise" where
  "as_int v = rbind (as_num v) (\<lambda>q. if of_int \<lfloor>q\<rfloor> = q then Inr \<lfloor>q\<rfloor> else Inl ValueError)"

definition as_time :: "codec \<Rightarrow> payload_value \<Rightarrow> int or_raise" where
  "as_time cd v = rbind (as_str v) (cd_read cd)"

definition as_nums :: "payload_value \<Rightarrow> rat list or_raise" where
  "as_nums v = (case v of PNums xs \<Rightarrow> Inr xs | _ \<Rightarrow> Inl ValueError)"

definition as_meta :: "payload_value \<Rightarrow> (string, meta_value) dict or_raise" where
  "as_meta v = (case v of PMeta d \<Rightarrow> Inr d | _ \<Rightarrow> Inl ValueError)"

definition as_namespace :: "payload_value \<Rightarrow> namespace or_raise" where
  "as_namespace v = (case v of PStrs xs \<Rightarrow> ns_from_parts xs | _ \<Rightarrow> Inl ValueError)"

definition as_opt :: "(payload_value \<Rightarrow> 'a or_raise) \<Rightarrow> payload_value \<Rightarrow> 'a option or_raise" where
  "as_opt parse v = (if v = PNull then Inr None else rbind (parse v) (\<lambda>a. Inr (Some a)))"

definition as_enum :: "(string \<Rightarrow> 'a or_raise) \<Rightarrow> payload_value \<Rightarrow> 'a or_raise" where
  "as_enum of_value v = rbind (as_str v) of_value"

definition source_of :: "string \<Rightarrow> memory_source or_raise" where
  "source_of s = (if s = ''user'' then Inr Src_USER else if s = ''tool'' then Inr Src_TOOL
     else if s = ''agent'' then Inr Src_AGENT else if s = ''external'' then Inr Src_EXTERNAL
     else if s = ''inferred'' then Inr Src_INFERRED else Inl ValueError)"

definition object_kind_of :: "string \<Rightarrow> fact_object_kind or_raise" where
  "object_kind_of s = (if s = ''literal'' then Inr LITERAL else if s = ''entity'' then Inr ENTITY else Inl ValueError)"

definition polarity_of :: "string \<Rightarrow> polarity or_raise" where
  "polarity_of s = (if s = ''positive'' then Inr POSITIVE else if s = ''negative'' then Inr NEGATIVE else Inl ValueError)"

text \<open>MemoryItem.from_dict, validation and post-init included; keys that are no field are ignored.\<close>
definition from_dict :: "codec \<Rightarrow> payload \<Rightarrow> memory_item or_raise" where
  "from_dict cd d =
     rbind (field d ''id'' (Some (cd_fresh cd)) as_str) (\<lambda>mid.
     rbind (field d ''content'' None as_str) (\<lambda>content.
     rbind (field d ''kind'' (Some PROPOSITION) (as_enum kind_of)) (\<lambda>kind.
     rbind (field d ''tier'' (Some STM) (as_enum tier_of)) (\<lambda>tier.
     rbind (field d ''state'' (Some ACTIVE) (as_enum state_of)) (\<lambda>state.
     rbind (field d ''namespace'' None as_namespace) (\<lambda>ns.
     rbind (field d ''owner_id'' None as_str) (\<lambda>owner.
     rbind (field d ''workspace_id'' None as_str) (\<lambda>workspace.
     rbind (field d ''session_id'' None as_str) (\<lambda>session.
     rbind (field d ''created_at'' (Some (cd_now cd)) (as_time cd)) (\<lambda>created.
     rbind (field d ''updated_at'' (Some (cd_now cd)) (as_time cd)) (\<lambda>updated.
     rbind (field d ''valid_at'' (Some None) (as_opt (as_time cd))) (\<lambda>valid.
     rbind (field d ''invalid_at'' (Some None) (as_opt (as_time cd))) (\<lambda>invalid.
     rbind (field d ''importance_score'' (Some (1 / 2)) as_num) (\<lambda>importance.
     rbind (field d ''relevance_score'' (Some 0) as_num) (\<lambda>relevance.
     rbind (field d ''access_count'' (Some 0) as_int) (\<lambda>count.
     rbind (field d ''source'' (Some Src_USER) (as_enum source_of)) (\<lambda>source.
     rbind (field d ''subject'' (Some None) (as_opt as_str)) (\<lambda>subj.
     rbind (field d ''predicate'' (Some None) (as_opt as_str)) (\<lambda>pred.
     rbind (field d ''object'' (Some None) (as_opt as_str)) (\<lambda>objt.
     rbind (field d ''object_kind'' (Some None) (as_opt (as_enum object_kind_of))) (\<lambda>okind.
     rbind (field d ''polarity'' (Some POSITIVE) (as_enum polarity_of)) (\<lambda>pol.
     rbind (field d ''content_hash'' (Some '''') as_str) (\<lambda>hash.
     rbind (field d ''artifact_ref'' (Some None) (as_opt as_str)) (\<lambda>artifact.
     rbind (field d ''embedding_ref'' (Some None) (as_opt as_str)) (\<lambda>eref.
     rbind (field d ''provenance_id'' (Some '''') as_str) (\<lambda>prov.
     rbind (field d ''embedding'' (Some None) (as_opt as_nums)) (\<lambda>emb.
     rbind (field d ''embedding_model'' (Some None) (as_opt as_str)) (\<lambda>model.
     rbind (field d ''metadata'' (Some []) as_meta) (\<lambda>meta.
       Inr (post_init (cd_sha256 cd)
         \<lparr>mi_id = mid, mi_content = content, mi_kind = kind, mi_tier = tier, mi_state = state,
          mi_namespace = ns, mi_owner_id = owner, mi_workspace_id = workspace, mi_session_id = session,
          mi_created_at = created, mi_updated_at = updated, mi_valid_at = valid, mi_invalid_at = invalid,
          mi_importance_score = importance, mi_relevance_score = relevance, mi_access_count = count,
          mi_source = source, mi_subject = subj, mi_predicate = pred, mi_object = objt,
          mi_object_kind = okind, mi_polarity = pol, mi_content_hash = hash, mi_artifact_ref = artifact,
          mi_embedding_ref = eref, mi_provenance_id = prov, mi_embedding = emb,
          mi_embedding_model = model, mi_metadata = meta\<rparr>))))))))))))))))))))))))))))))"

section \<open>Round trip of the wire form\<close>

text \<open>What post-init leaves: a record as the constructor makes it.\<close>
definition well_formed_item :: "memory_item \<Rightarrow> bool" where
  "well_formed_item m = (valid_ns (mi_namespace m) \<and> mi_content_hash m \<noteq> '''' \<and> mi_provenance_id m \<noteq> '''')"

lemma post_init_id [simp]: "well_formed_item m \<Longrightarrow> post_init sha m = m"
  by (simp add: post_init_def well_formed_item_def)

lemma source_roundtrip [simp]: "source_of (source_value s) = Inr s"
  by (cases s) (simp_all add: source_of_def)

lemma object_kind_roundtrip [simp]: "object_kind_of (object_kind_value s) = Inr s"
  by (cases s) (simp_all add: object_kind_of_def)

lemma polarity_roundtrip [simp]: "polarity_of (polarity_value s) = Inr s"
  by (cases s) (simp_all add: polarity_of_def)

lemma readers [simp]:
  "as_str (PStr s) = Inr s" "as_num (PNum q) = Inr q" "as_int (PNum (of_int i)) = Inr i"
  "as_nums (PNums xs) = Inr xs" "as_meta (PMeta e) = Inr e" "as_enum f (PStr s) = f s"
  "as_opt as_str (p_opt PStr v) = Inr v" "as_opt as_nums (p_opt PNums w) = Inr w"
  "as_opt (as_enum object_kind_of) (p_opt (\<lambda>k. PStr (object_kind_value k)) x) = Inr x"
  by (simp_all add: as_str_def as_num_def as_int_def as_nums_def as_meta_def as_enum_def as_opt_def p_opt_def
      split: option.split)

lemma time_readers:
  assumes "codec_ok cd"
  shows "as_time cd (p_time cd t) = Inr t" "as_opt (as_time cd) (p_opt (p_time cd) v) = Inr v"
  using assms by (simp_all add: codec_ok_def as_time_def p_time_def as_opt_def p_opt_def split: option.split)

lemma namespace_reader: "valid_ns ns \<Longrightarrow> as_namespace (p_namespace ns) = Inr ns"
  by (simp add: as_namespace_def p_namespace_def ns_parts_def mk_namespace_valid)

lemma field_Some [simp]: "dict_get d k = Some v \<Longrightarrow> field d k dflt parse = parse v"
  by (simp add: field_def)

lemma field_None [simp]: "dict_get d k = None \<Longrightarrow> field d k (Some a) parse = Inr a"
  by (simp add: field_def)

text \<open>A payload that agrees with the dump of a record on every field; a record without an embedding
  may lack the key.\<close>
definition carries :: "codec \<Rightarrow> payload \<Rightarrow> memory_item \<Rightarrow> bool" where
  "carries cd d m = (\<forall>(k, v)\<in>set (to_dict cd m). dict_get d k = Some v
     \<or> (k = ''embedding'' \<and> mi_embedding m = None \<and> dict_get d k = None))"

lemma carries_get: "carries cd d m \<Longrightarrow> (k, v) \<in> set (to_dict cd m) \<Longrightarrow> k \<noteq> ''embedding'' \<Longrightarrow> dict_get d k = Some v"
  unfolding carries_def by fastforce

lemma carries_fields:
  assumes "carries cd d m"
  shows
    "dict_get d ''id'' = Some (PStr (mi_id m))"
    "dict_get d ''content'' = Some (PStr (mi_content m))"
    "dict_get d ''kind'' = Some (PStr (kind_value (mi_kind m)))"
    "dict_get d ''tier'' = Some (PStr (tier_value (mi_tier m)))"
    "dict_get d ''state'' = Some (PStr (state_value (mi_state m)))"
    "dict_get d ''namespace'' = Some (p_namespace (mi_namespace m))"
    "dict_get d ''owner_id'' = Some (PStr (mi_owner_id m))"
    "dict_get d ''workspace_id'' = Some (PStr (mi_workspace_id m))"
    "dict_get d ''session_id'' = Some (PStr (mi_session_id m))"
    "dict_get d ''created_at'' = Some (p_time cd (mi_created_at m))"
    "dict_get d ''updated_at'' = Some (p_time cd (mi_updated_at m))"
    "dict_get d ''valid_at'' = Some (p_opt (p_time cd) (mi_valid_at m))"
    "dict_get d ''invalid_at'' = Some (p_opt (p_time cd) (mi_invalid_at m))"
    "dict_get d ''importance_score'' = Some (PNum (mi_importance_score m))"
    "dict_get d ''relevance_score'' = Some (PNum (mi_relevance_score m))"
    "dict_get d ''access_count'' = Some (PNum (of_int (mi_access_count m)))"
    "dict_get d ''source'' = Some (PStr (source_value (mi_source m)))"
    "dict_get d ''subject'' = Some (p_opt PStr (mi_subject m))"
    "dict_get d ''predicate'' = Some (p_opt PStr (mi_predicate m))"
    "dict_get d ''object'' = Some (p_opt PStr (mi_object m))"
    "dict_get d ''object_kind'' = Some (p_opt (\<lambda>k. PStr (object_kind_value k)) (mi_object_kind m))"
    "dict_get d ''polarity'' = Some (PStr (polarity_value (mi_polarity m)))"
    "dict_get d ''content_hash'' = Some (PStr (mi_content_hash m))"
    "dict_get d ''artifact_ref'' = Some (p_opt PStr (mi_artifact_ref m))"
    "dict_get d ''embedding_ref'' = Some (p_opt PStr (mi_embedding_ref m))"
    "dict_get d ''provenance_id'' = Some (PStr (mi_provenance_id m))"
    "dict_get d ''embedding_model'' = Some (p_opt PStr (mi_embedding_model m))"
    "dict_get d ''metadata'' = Some (PMeta (mi_metadata m))"
  by (rule carries_get [OF assms]; simp add: to_dict_def)+

lemma carries_embedding:
  assumes "carries cd d m"
  shows "field d ''embedding'' (Some None) (as_opt as_nums) = Inr (mi_embedding m)"
proof -
  have "(''embedding'', p_opt PNums (mi_embedding m)) \<in> set (to_dict cd m)"
    by (simp add: to_dict_def)
  then have "dict_get d ''embedding'' = Some (p_opt PNums (mi_embedding m))
      \<or> (mi_embedding m = None \<and> dict_get d ''embedding'' = None)"
    using assms unfolding carries_def by fastforce
  then show ?thesis by (auto simp: field_def)
qed

lemma carries_reads:
  assumes "carries cd d m" and cd: "codec_ok cd" and wf: "well_formed_item m"
  shows "from_dict cd d = Inr m"
proof -
  have ns: "as_namespace (p_namespace (mi_namespace m)) = Inr (mi_namespace m)"
    using wf by (simp add: namespace_reader well_formed_item_def)
  show ?thesis
    by (simp add: from_dict_def carries_fields [OF assms(1)] carries_embedding [OF assms(1)] ns
        time_readers [OF cd]) (use wf in \<open>cases m; simp add: post_init_def well_formed_item_def\<close>)
qed

lemma dump_carries: "carries cd (to_dict cd m) m"
  by (simp add: carries_def to_dict_def)

section \<open>Redis\<close>

record redis_record =
  rd_key :: string
  rd_ttl_s :: int
  rd_blob :: payload

text \<open>RedisMapper; the key families are in the namespace theory.\<close>
definition redis_to_store :: "codec \<Rightarrow> int \<Rightarrow> memory_item \<Rightarrow> redis_record" where
  "redis_to_store cd default_ttl m = \<lparr>rd_key = memory_key (mi_namespace m) (mi_id m),
     rd_ttl_s = default_ttl, rd_blob = to_dict cd m\<rparr>"

definition redis_from_store :: "codec \<Rightarrow> redis_record \<Rightarrow> memory_item or_raise" where
  "redis_from_store cd row = from_dict cd (rd_blob row)"

section \<open>Vector points\<close>

text \<open>QdrantPoint; sparse is always None.\<close>
record vector_point =
  pt_id :: string
  pt_vector :: "rat list"
  pt_payload :: payload
  pt_collection :: string

fun show_nat :: "nat \<Rightarrow> string" where
  "show_nat n = (if n < 10 then [char_of (48 + n)] else show_nat (n div 10) @ [char_of (48 + n mod 10)])"

declare show_nat.simps [simp del]

definition qdrant_collection :: "nat \<Rightarrow> namespace \<Rightarrow> string" where
  "qdrant_collection dims ns = ''mu_mtm__'' @ ns_workspace ns @ ''__'' @ visibility_value (ns_visibility ns)
     @ ''__'' @ show_nat dims"

definition workspace_digest :: "codec \<Rightarrow> namespace \<Rightarrow> string" where
  "workspace_digest cd ns = take 16 (cd_sha256 cd (ns_workspace ns))"

definition pgvector_table :: "codec \<Rightarrow> nat \<Rightarrow> namespace \<Rightarrow> string" where
  "pgvector_table cd dims ns = ''mu_mtm_pgv__'' @ workspace_digest cd ns @ ''__''
     @ visibility_value (ns_visibility ns) @ ''__'' @ show_nat dims"

definition chroma_collection :: "codec \<Rightarrow> nat \<Rightarrow> namespace \<Rightarrow> string" where
  "chroma_collection cd dims ns = ''mu-mtm-chroma-'' @ workspace_digest cd ns @ ''-''
     @ visibility_value (ns_visibility ns) @ ''-'' @ show_nat dims"

definition faiss_collection :: "codec \<Rightarrow> nat \<Rightarrow> namespace \<Rightarrow> string" where
  "faiss_collection cd dims ns = ''mu_mtm_faiss__'' @ workspace_digest cd ns @ ''__''
     @ visibility_value (ns_visibility ns) @ ''__'' @ show_nat dims"

text \<open>The payload of a point: the dump without its vector, with the filter keys on top.\<close>
definition point_payload :: "codec \<Rightarrow> memory_item \<Rightarrow> string list option \<Rightarrow> payload" where
  "point_payload cd m authorized =
     (let ns = mi_namespace m;
          base = dict_pop ''embedding'' (to_dict cd m);
          keyed = fold (\<lambda>(k, v). dict_put k v)
            [(''namespace'', PStr (to_prefix ns)), (''namespace_parts'', PStrs (ns_parts ns)),
             (''state'', PStr (state_value (mi_state m))),
             (''visibility'', PStr (visibility_value (ns_visibility ns))),
             (''current_tier'', PStr (tier_value (mi_tier m))), (''owner_id'', PStr (mi_owner_id m)),
             (''content_hash'', PStr (mi_content_hash m)), (''session_id'', PStr (mi_session_id m))] base;
          linked = (case mi_artifact_ref m of None \<Rightarrow> keyed | Some a \<Rightarrow> dict_put ''artifact_ref'' (PStr a) keyed)
      in (case authorized of None \<Rightarrow> linked | Some ids \<Rightarrow> dict_put ''authorized_ids'' (PStrs ids) linked))"

definition point_authorized :: "memory_item \<Rightarrow> string list option or_raise" where
  "point_authorized m = (if ns_visibility (mi_namespace m) = SHARED
     then rbind (authorized_list (dict_get (mi_metadata m) ''authorized_ids'')) (\<lambda>ids. Inr (Some ids))
     else Inr None)"

definition point_vector :: "nat \<Rightarrow> memory_item \<Rightarrow> rat list" where
  "point_vector dims m = (case mi_embedding m of Some v \<Rightarrow> v | None \<Rightarrow> replicate dims 0)"

text \<open>QdrantMapper.to_store\<close>
definition vector_to_store :: "codec \<Rightarrow> nat \<Rightarrow> memory_item \<Rightarrow> vector_point or_raise" where
  "vector_to_store cd dims m = rbind (point_authorized m) (\<lambda>authorized.
     Inr \<lparr>pt_id = cd_uuid5 cd (mi_id m), pt_vector = point_vector dims m,
       pt_payload = point_payload cd m authorized, pt_collection = qdrant_collection dims (mi_namespace m)\<rparr>)"

text \<open>The mappers of the other three engines: the same point in another collection.\<close>
definition in_collection :: "string \<Rightarrow> vector_point or_raise \<Rightarrow> vector_point or_raise" where
  "in_collection name r = rbind r (\<lambda>row. Inr (row\<lparr>pt_collection := name\<rparr>))"

definition pgvector_to_store :: "codec \<Rightarrow> nat \<Rightarrow> memory_item \<Rightarrow> vector_point or_raise" where
  "pgvector_to_store cd dims m = in_collection (pgvector_table cd dims (mi_namespace m)) (vector_to_store cd dims m)"

definition chroma_to_store :: "codec \<Rightarrow> nat \<Rightarrow> memory_item \<Rightarrow> vector_point or_raise" where
  "chroma_to_store cd dims m = in_collection (chroma_collection cd dims (mi_namespace m)) (vector_to_store cd dims m)"

definition faiss_to_store :: "codec \<Rightarrow> nat \<Rightarrow> memory_item \<Rightarrow> vector_point or_raise" where
  "faiss_to_store cd dims m = in_collection (faiss_collection cd dims (mi_namespace m)) (vector_to_store cd dims m)"

text \<open>QdrantMapper.from_store\<close>
definition item_payload :: "payload \<Rightarrow> payload" where
  "item_payload d =
     (let rest = dict_pop ''namespace_parts'' d;
          based = (case dict_get d ''namespace_parts'' of
              None \<Rightarrow> rest
            | Some parts \<Rightarrow> if parts = PNull then rest else dict_put ''namespace'' parts rest)
      in dict_pop ''authorized_ids'' (dict_pop ''current_tier'' based))"

definition with_vector :: "rat list \<Rightarrow> memory_item \<Rightarrow> memory_item" where
  "with_vector v m = (if \<exists>x\<in>set v. x \<noteq> 0 then m\<lparr>mi_embedding := Some v\<rparr> else m)"

definition vector_from_store :: "codec \<Rightarrow> payload \<Rightarrow> rat list \<Rightarrow> memory_item or_raise" where
  "vector_from_store cd d v = rbind (from_dict cd (item_payload d)) (\<lambda>m. Inr (with_vector v m))"

section \<open>The relational mirror\<close>

text \<open>The columns of a memory_provenance row; the dictionary has exactly these keys.\<close>
record provenance_row =
  pv_memory_id :: string
  pv_org_id :: string
  pv_workspace_id :: string
  pv_namespace_prefix :: string
  pv_owner_id :: string
  pv_visibility :: string
  pv_kind :: string
  pv_content_hash :: string
  pv_source :: string
  pv_tier :: string
  pv_state :: string
  pv_artifact_ref :: "string option"
  pv_provenance_id :: string
  pv_superseded_by :: "meta_value option"
  pv_synced_at :: int
  pv_access_count :: int

text \<open>RelationalMapper.to_store\<close>
definition relational_to_store :: "int \<Rightarrow> memory_item \<Rightarrow> provenance_row" where
  "relational_to_store now m = \<lparr>pv_memory_id = mi_id m, pv_org_id = ns_org (mi_namespace m),
     pv_workspace_id = mi_workspace_id m, pv_namespace_prefix = to_prefix (mi_namespace m),
     pv_owner_id = mi_owner_id m, pv_visibility = visibility_value (ns_visibility (mi_namespace m)),
     pv_kind = kind_value (mi_kind m), pv_content_hash = mi_content_hash m,
     pv_source = source_value (mi_source m), pv_tier = tier_value (mi_tier m),
     pv_state = state_value (mi_state m), pv_artifact_ref = mi_artifact_ref m,
     pv_provenance_id = mi_provenance_id m, pv_superseded_by = dict_get (mi_metadata m) ''superseded_by'',
     pv_synced_at = now, pv_access_count = mi_access_count m\<rparr>"

text \<open>The namespace of a prefix: exactly six parts, the first of which is not looked at.\<close>
definition prefix_namespace :: "string \<Rightarrow> namespace or_raise" where
  "prefix_namespace prefix = (case split_on (CHR ''/'') prefix of
       [_, org, workspace, vis, user, session] \<Rightarrow>
         rbind (visibility_of vis) (\<lambda>v. if v = SHARED then shared_namespace org workspace session
           else mk_namespace org workspace user session v)
     | _ \<Rightarrow> Inl ValueError)"

text \<open>RelationalMapper.from_store: the shell, with the defaults of every column it does not read.\<close>
definition relational_from_store :: "codec \<Rightarrow> provenance_row \<Rightarrow> memory_item or_raise" where
  "relational_from_store cd row =
     rbind (prefix_namespace (pv_namespace_prefix row)) (\<lambda>ns.
     rbind (kind_of (pv_kind row)) (\<lambda>kind.
     rbind (tier_of (pv_tier row)) (\<lambda>tier.
     rbind (state_of (pv_state row)) (\<lambda>state.
       Inr (post_init (cd_sha256 cd)
         ((default_item (cd_now cd) (pv_memory_id row) [] ns (pv_owner_id row) (pv_workspace_id row) (ns_session ns))
           \<lparr>mi_kind := kind, mi_tier := tier, mi_state := state, mi_content_hash := pv_content_hash row,
            mi_artifact_ref := pv_artifact_ref row, mi_provenance_id := pv_provenance_id row\<rparr>))))))"

section \<open>What a point gives back\<close>

lemma item_payload_get:
  "dict_get (item_payload d) k =
     (if k = ''namespace_parts'' \<or> k = ''current_tier'' \<or> k = ''authorized_ids'' then None
      else if k = ''namespace'' \<and> dict_get d ''namespace_parts'' \<notin> {None, Some PNull} then dict_get d ''namespace_parts''
      else dict_get d k)"
  by (simp add: item_payload_def Let_def split: option.split)

lemma point_payload_get:
  "dict_get (point_payload cd m a) k =
     (if k = ''authorized_ids'' \<and> a \<noteq> None then map_option PStrs a
      else if k = ''artifact_ref'' \<and> mi_artifact_ref m \<noteq> None then map_option PStr (mi_artifact_ref m)
      else if k = ''session_id'' then Some (PStr (mi_session_id m))
      else if k = ''content_hash'' then Some (PStr (mi_content_hash m))
      else if k = ''owner_id'' then Some (PStr (mi_owner_id m))
      else if k = ''current_tier'' then Some (PStr (tier_value (mi_tier m)))
      else if k = ''visibility'' then Some (PStr (visibility_value (ns_visibility (mi_namespace m))))
      else if k = ''state'' then Some (PStr (state_value (mi_state m)))
      else if k = ''namespace_parts'' then Some (PStrs (ns_parts (mi_namespace m)))
      else if k = ''namespace'' then Some (PStr (to_prefix (mi_namespace m)))
      else if k = ''embedding'' then None
      else dict_get (to_dict cd m) k)"
  by (simp add: point_payload_def Let_def split: option.split)

lemmas dump_fields = carries_fields [OF dump_carries]

lemma point_carries: "carries cd (item_payload (point_payload cd m a)) (m\<lparr>mi_embedding := None\<rparr>)"
  unfolding carries_def to_dict_def list.set ball_simps prod.case
  by (simp add: item_payload_get point_payload_get dump_fields p_namespace_def p_opt_def split: option.split)

text \<open>The payload update of every engine's invalidate.\<close>
definition superseded_payload :: "codec \<Rightarrow> int \<Rightarrow> string \<Rightarrow> string \<Rightarrow> payload \<Rightarrow> payload" where
  "superseded_payload cd at_time winner reason d = fold (\<lambda>(k, v). dict_put k v)
     [(''state'', PStr (state_value SUPERSEDED)), (''invalid_at'', p_time cd at_time),
      (''superseded_by'', PStr winner), (''supersede_reason'', PStr reason)] d"

lemma superseded_carries:
  "carries cd (item_payload (superseded_payload cd t winner reason (point_payload cd m a)))
     (m\<lparr>mi_embedding := None, mi_state := SUPERSEDED, mi_invalid_at := Some t\<rparr>)"
  unfolding carries_def to_dict_def list.set ball_simps prod.case
  by (simp add: superseded_payload_def item_payload_get point_payload_get dump_fields p_namespace_def p_opt_def
      split: option.split)

lemma point_reads:
  assumes "codec_ok cd" "well_formed_item m"
  shows "vector_from_store cd (point_payload cd m a) v = Inr (with_vector v (m\<lparr>mi_embedding := None\<rparr>))"
proof -
  have "well_formed_item (m\<lparr>mi_embedding := None\<rparr>)"
    using assms(2) by (simp add: well_formed_item_def)
  from carries_reads [OF point_carries assms(1) this] show ?thesis
    by (simp add: vector_from_store_def)
qed

text \<open>The correlation shell: identity and life cycle of the record, everything else at its default.\<close>
definition relational_shell :: "int \<Rightarrow> memory_item \<Rightarrow> memory_item" where
  "relational_shell now m = (default_item now (mi_id m) [] (mi_namespace m) (mi_owner_id m) (mi_workspace_id m)
       (ns_session (mi_namespace m)))
     \<lparr>mi_kind := mi_kind m, mi_tier := mi_tier m, mi_state := mi_state m, mi_content_hash := mi_content_hash m,
      mi_artifact_ref := mi_artifact_ref m, mi_provenance_id := mi_provenance_id m\<rparr>"

lemma prefix_namespace_back:
  assumes "valid_ns ns" shows "prefix_namespace (to_prefix ns) = Inr ns"
proof -
  note parts = split_to_prefix [OF assms]
  show ?thesis
  proof (cases "ns_visibility ns")
    case PRIVATE
    then show ?thesis using assms mk_namespace_valid [of ns] by (simp add: prefix_namespace_def parts visibility_of_def)
  next
    case SHARED
    then have "ns_user ns = ''*''"
      using assms by (simp add: valid_ns_def shared_sentinel_ok_def)
    then show ?thesis using SHARED assms mk_namespace_valid [of ns]
      by (simp add: prefix_namespace_def parts shared_namespace_def visibility_of_def)
  qed
qed

section \<open>Properties\<close>


text \<open>
  A vector point gives its record back up to the vector: the row read with a vector is the
  written record with that vector as embedding, or with no embedding when the vector is all zeros.
  So a record with an embedding that is not zero survives the write and the read unchanged, and a
  zero embedding comes back as none at all.
\<close>
theorem vector_point_roundtrip:
  assumes "codec_ok cd" and "well_formed_item m" and "vector_to_store cd dims m = Inr row"
  shows "vector_from_store cd (pt_payload row) (pt_vector row) =
    Inr (if \<exists>x\<in>set (point_vector dims m). x \<noteq> 0 then m else m\<lparr>mi_embedding := None\<rparr>)"
proof -
  obtain a where row: "pt_payload row = point_payload cd m a" "pt_vector row = point_vector dims m"
    using assms(3) by (auto simp: vector_to_store_def rbind_Inr_iff)
  have "mi_embedding m = Some (point_vector dims m)" if "x \<in> set (point_vector dims m)" "x \<noteq> 0" for x
    using that by (auto simp: point_vector_def split: option.splits)
  then have "with_vector (point_vector dims m) (m\<lparr>mi_embedding := None\<rparr>) =
      (if \<exists>x\<in>set (point_vector dims m). x \<noteq> 0 then m else m\<lparr>mi_embedding := None\<rparr>)"
    by (cases m) (auto simp: with_vector_def)
  then show ?thesis using point_reads [OF assms(1,2)] row by simp
qed

text \<open>
  The relational mirror is free of content: the row does not depend on the text, the triple, the
  vector or any metadata but superseded_by, and what it reads back as is the shell with the record's
  identity and life cycle and every other field at its default; the source and the access count are
  written but not read.
\<close>
theorem relational_mirror_is_content_free:
  assumes "well_formed_item m"
  shows "relational_to_store now (m\<lparr>mi_content := c, mi_subject := s, mi_predicate := p, mi_object := b,
      mi_embedding := v, mi_metadata := [(''superseded_by'', MStr w), (k, x)]\<rparr>)
    = (relational_to_store now m)\<lparr>pv_superseded_by := Some (MStr w)\<rparr>
    \<and> relational_from_store cd (relational_to_store now m) = Inr (relational_shell (cd_now cd) m)"
proof -
  have "valid_ns (mi_namespace m)" using assms by (simp add: well_formed_item_def)
  moreover have "well_formed_item (relational_shell (cd_now cd) m)"
    using assms by (simp add: well_formed_item_def relational_shell_def default_item_def)
  ultimately show ?thesis
    using post_init_id [of "relational_shell (cd_now cd) m" "cd_sha256 cd"]
    by (simp add: relational_to_store_def relational_from_store_def prefix_namespace_back relational_shell_def)
qed

section \<open>Witnesses\<close>

definition demo_codec :: codec where
  "demo_codec = \<lparr>cd_iso = unary_iso,
     cd_read = (\<lambda>s. Inr (if hd s = CHR ''b'' then int (length s) - 1 else 1 - int (length s))),
     cd_sha256 = (\<lambda>s. CHR ''#'' # s), cd_uuid5 = (\<lambda>s. s), cd_now = 0, cd_fresh = ''new''\<rparr>"

lemma demo_codec_ok: "codec_ok demo_codec"
  by (auto simp: codec_ok_def demo_codec_def unary_iso_def hd_append)

definition demo_record :: memory_item where
  "demo_record = (default_item 3 ''m1'' ''text'' ltm_demo_ns ''u'' ''w'' ''s'')
     \<lparr>mi_content_hash := ''h'', mi_provenance_id := ''p'', mi_embedding := Some [1, 0]\<rparr>"

lemma demo_record_wf: "well_formed_item demo_record"
  by (simp add: well_formed_item_def demo_record_def default_item_def)


theorem vector_point_roundtrip_witness:
  "\<exists>row. vector_to_store demo_codec 2 demo_record = Inr row
     \<and> vector_from_store demo_codec (pt_payload row) (pt_vector row) = Inr demo_record"
proof -
  have p: "point_authorized demo_record = Inr None" "point_vector 2 demo_record = [1, 0]"
    by (simp_all add: point_authorized_def point_vector_def demo_record_def default_item_def ltm_demo_ns_def)
  then obtain row where "vector_to_store demo_codec 2 demo_record = Inr row"
    by (simp add: vector_to_store_def)
  with vector_point_roundtrip [OF demo_codec_ok demo_record_wf this] p show ?thesis by auto
qed

theorem relational_mirror_is_content_free_witness:
  "relational_from_store demo_codec (relational_to_store 5 demo_record) = Inr (relational_shell 0 demo_record)"
  using relational_mirror_is_content_free [OF demo_record_wf, of 5 _ _ _ _ _ _ _ _ demo_codec]
  by (simp add: demo_codec_def)

end
