(* ===== verification/Vector_Stores.thy ===== *)
theory Vector_Stores
  imports Mappers Recall
begin

text \<open>
  The mid-term tier: the four vector adapters (storage/adapters: qdrant_mtm.py, pgvector_mtm.py,
  chroma_mtm.py, faiss_mtm.py) as functions on the rows their engine keeps. The engines are not code
  of the repository: what they contribute is the choice and order of the nearest rows (pick), the form
  in which they give a stored vector back, and the documented refusal of a vector of another length.
  The interface the rest of the program uses is the locale vector_store, interpreted on all four.
  The retry decorator around each call is the tenacity package.
\<close>

section \<open>Engines\<close>

text \<open>pick q k rows chooses at most k of the rows (id, vector) for the query q, each with a score.\<close>
record 'i engine =
  en_pick :: "rat list \<Rightarrow> nat \<Rightarrow> ('i \<times> rat list) list \<Rightarrow> ('i \<times> rat) list"
  en_stored :: "rat list \<Rightarrow> rat list"

definition engine_ok :: "'i engine \<Rightarrow> bool" where
  "engine_ok e = (\<forall>q k rows. distinct (map fst rows) \<longrightarrow>
     (let r = en_pick e q k rows in distinct (map fst r) \<and> set (map fst r) \<subseteq> set (map fst rows) \<and> length r \<le> k))"

text \<open>An engine whose search is exact returns k rows when there are that many.\<close>
definition engine_exact :: "'i engine \<Rightarrow> bool" where
  "engine_exact e = (engine_ok e \<and> (\<forall>q k rows. distinct (map fst rows) \<longrightarrow> length (en_pick e q k rows) = min k (length rows)))"

definition dense_scored :: "nat \<Rightarrow> rat \<Rightarrow> memory_item \<Rightarrow> scored" where
  "dense_scored place score m = \<lparr>sc_item = m, sc_score = score, sc_channel = MTM_DENSE, sc_rank = Some place,
     sc_is_floor = False\<rparr>"

text \<open>The loop over the hits of one query: each row is read back; the first unreadable one raises.\<close>
fun read_hits ::
  "codec \<Rightarrow> (string \<Rightarrow> (rat list \<times> payload) option) \<Rightarrow> nat \<Rightarrow> (string \<times> rat) list \<Rightarrow> scored list or_raise" where
  "read_hits cd look place [] = Inr []"
| "read_hits cd look place ((pid, score) # hits) = (case look pid of
       None \<Rightarrow> Inl KeyError
     | Some (v, pl) \<Rightarrow> rbind (vector_from_store cd pl v) (\<lambda>m.
         rbind (read_hits cd look (Suc place) hits) (\<lambda>out. Inr (dense_scored place score m # out))))"

section \<open>Qdrant\<close>

text \<open>The collections of the server and the set of names already ensured by this adapter.\<close>
record qdrant_state =
  qs_collections :: "(string, (string, rat list \<times> payload) dict) dict"
  qs_ensured :: "string list"

definition qdrant_ensure :: "string \<Rightarrow> qdrant_state \<Rightarrow> qdrant_state" where
  "qdrant_ensure name s = (if name \<in> set (qs_ensured s) then s
     else s\<lparr>qs_collections := dict_setdefault name [] (qs_collections s),
            qs_ensured := name # qs_ensured s\<rparr>)"

definition qdrant_points :: "string \<Rightarrow> qdrant_state \<Rightarrow> (string, rat list \<times> payload) dict" where
  "qdrant_points name s = dict_default [] (qs_collections s) name"

text \<open>The server refuses a vector whose length is not the collection's.\<close>
definition qdrant_upsert ::
  "codec \<Rightarrow> string engine \<Rightarrow> nat \<Rightarrow> memory_item \<Rightarrow> (qdrant_state, unit) eff" where
  "qdrant_upsert cd e dims m s =
     (let name = qdrant_collection dims (mi_namespace m); s1 = qdrant_ensure name s
      in case vector_to_store cd dims m of
           Inl x \<Rightarrow> (Inl x, s1)
         | Inr row \<Rightarrow>
             if length (pt_vector row) \<noteq> dims then (Inl PyException, s1)
             else (Inr (), s1\<lparr>qs_collections := dict_put name
               (dict_put (pt_id row) (en_stored e (pt_vector row), pt_payload row) (qdrant_points name s1))
               (qs_collections s1)\<rparr>))"

definition str_is :: "payload \<Rightarrow> string \<Rightarrow> string \<Rightarrow> bool" where
  "str_is d k v = (dict_get d k = Some (PStr v))"

definition overlaps :: "payload \<Rightarrow> string \<Rightarrow> string set \<Rightarrow> bool" where
  "overlaps d k callers = (case dict_get d k of Some (PStrs ids) \<Rightarrow> \<exists>i\<in>set ids. i \<in> callers | _ \<Rightarrow> False)"

text \<open>_recall_filter\<close>
definition recall_filter :: "namespace \<Rightarrow> caller_set \<Rightarrow> payload \<Rightarrow> bool" where
  "recall_filter ns caller d = (str_is d ''namespace'' (to_prefix ns) \<and> str_is d ''state'' (state_value ACTIVE)
     \<and> (case caller of None \<Rightarrow> True
         | Some callers \<Rightarrow> ns_visibility ns = SHARED \<longrightarrow> overlaps d ''authorized_ids'' callers))"

definition qdrant_semantic ::
  "codec \<Rightarrow> string engine \<Rightarrow> nat \<Rightarrow> qdrant_state \<Rightarrow> namespace \<Rightarrow> rat list \<Rightarrow> nat \<Rightarrow> caller_set \<Rightarrow> scored list or_raise" where
  "qdrant_semantic cd e dims s ns q limit caller =
     (let name = qdrant_collection dims ns
      in case dict_get (qs_collections s) name of
           None \<Rightarrow> Inr []
         | Some points \<Rightarrow>
             if length q \<noteq> dims then Inl PyException else
             let eligible = filter (\<lambda>(_, _, pl). recall_filter ns caller pl) points
             in read_hits cd (dict_get points) 0 (en_pick e q limit (map (\<lambda>(i, v, _). (i, v)) eligible)))"

definition qdrant_invalidate ::
  "codec \<Rightarrow> nat \<Rightarrow> namespace \<Rightarrow> string \<Rightarrow> string \<Rightarrow> int \<Rightarrow> string \<Rightarrow> (qdrant_state, unit) eff" where
  "qdrant_invalidate cd dims ns loser winner at_time reason s =
     (let name = qdrant_collection dims ns; pid = cd_uuid5 cd loser
      in case dict_get (qs_collections s) name of
           None \<Rightarrow> (Inr (), s)
         | Some points \<Rightarrow> (case dict_get points pid of
             None \<Rightarrow> (Inr (), s)
           | Some (v, pl) \<Rightarrow> (Inr (), s\<lparr>qs_collections := dict_put name
               (dict_put pid (v, superseded_payload cd at_time winner reason pl) points) (qs_collections s)\<rparr>)))"

section \<open>PostgreSQL with pgvector\<close>

record pg_row =
  pg_namespace :: string
  pg_state :: string
  pg_authorized_ids :: "string list"
  pg_embedding :: "rat list"
  pg_payload :: payload

record pgvector_state =
  pgs_tables :: "(string, (string, pg_row) dict) dict"
  pgs_ensured :: "string list"

definition pgvector_ensure :: "string \<Rightarrow> pgvector_state \<Rightarrow> pgvector_state" where
  "pgvector_ensure table s = (if table \<in> set (pgs_ensured s) then s
     else s\<lparr>pgs_tables := dict_setdefault table [] (pgs_tables s), pgs_ensured := table # pgs_ensured s\<rparr>)"

definition pgvector_rows :: "string \<Rightarrow> pgvector_state \<Rightarrow> (string, pg_row) dict" where
  "pgvector_rows table s = dict_default [] (pgs_tables s) table"

definition str_or :: "payload \<Rightarrow> string \<Rightarrow> string \<Rightarrow> string" where
  "str_or d k dflt = (case dict_get d k of Some (PStr v) \<Rightarrow> v | _ \<Rightarrow> dflt)"

definition strs_or_empty :: "payload \<Rightarrow> string \<Rightarrow> string list" where
  "strs_or_empty d k = (case dict_get d k of Some (PStrs ids) \<Rightarrow> ids | _ \<Rightarrow> [])"

text \<open>The insert with its on-conflict update; the column refuses a vector of another length.\<close>
definition pgvector_upsert ::
  "codec \<Rightarrow> string engine \<Rightarrow> nat \<Rightarrow> memory_item \<Rightarrow> (pgvector_state, unit) eff" where
  "pgvector_upsert cd e dims m s =
     (let table = pgvector_table cd dims (mi_namespace m); s1 = pgvector_ensure table s
      in case pgvector_to_store cd dims m of
           Inl x \<Rightarrow> (Inl x, s1)
         | Inr row \<Rightarrow>
             if length (pt_vector row) \<noteq> dims then (Inl PyException, s1)
             else (Inr (), s1\<lparr>pgs_tables := dict_put table (dict_put (pt_id row)
               \<lparr>pg_namespace = str_or (pt_payload row) ''namespace'' (to_prefix (mi_namespace m)),
                pg_state = str_or (pt_payload row) ''state'' (state_value (mi_state m)),
                pg_authorized_ids = strs_or_empty (pt_payload row) ''authorized_ids'',
                pg_embedding = en_stored e (pt_vector row), pg_payload = pt_payload row\<rparr>
               (pgvector_rows table s1)) (pgs_tables s1)\<rparr>))"

text \<open>The WHERE clause.\<close>
definition pgvector_where :: "namespace \<Rightarrow> caller_set \<Rightarrow> pg_row \<Rightarrow> bool" where
  "pgvector_where ns caller r = (pg_namespace r = to_prefix ns \<and> pg_state r = state_value ACTIVE
     \<and> (case caller of None \<Rightarrow> True
         | Some callers \<Rightarrow> ns_visibility ns = SHARED \<longrightarrow> (\<exists>i\<in>set (pg_authorized_ids r). i \<in> callers)))"

definition pgvector_semantic ::
  "codec \<Rightarrow> string engine \<Rightarrow> nat \<Rightarrow> pgvector_state \<Rightarrow> namespace \<Rightarrow> rat list \<Rightarrow> nat \<Rightarrow> caller_set \<Rightarrow> scored list or_raise" where
  "pgvector_semantic cd e dims s ns q limit caller =
     (case dict_get (pgs_tables s) (pgvector_table cd dims ns) of
        None \<Rightarrow> Inr []
      | Some rows \<Rightarrow>
          if length q \<noteq> dims then Inl PyException else
          let eligible = filter (\<lambda>(_, r). pgvector_where ns caller r) rows
          in read_hits cd (\<lambda>i. map_option (\<lambda>r. (pg_embedding r, pg_payload r)) (dict_get rows i)) 0
               (en_pick e q limit (map (\<lambda>(i, r). (i, pg_embedding r)) eligible)))"

definition pgvector_invalidate ::
  "codec \<Rightarrow> nat \<Rightarrow> namespace \<Rightarrow> string \<Rightarrow> string \<Rightarrow> int \<Rightarrow> string \<Rightarrow> (pgvector_state, unit) eff" where
  "pgvector_invalidate cd dims ns loser winner at_time reason s =
     (let table = pgvector_table cd dims ns; pid = cd_uuid5 cd loser
      in case dict_get (pgs_tables s) table of
           None \<Rightarrow> (Inr (), s)
         | Some rows \<Rightarrow> (case dict_get rows pid of
             None \<Rightarrow> (Inr (), s)
           | Some r \<Rightarrow> (Inr (), s\<lparr>pgs_tables := dict_put table (dict_put pid
               (r\<lparr>pg_state := state_value SUPERSEDED,
                  pg_payload := superseded_payload cd at_time winner reason (pg_payload r)\<rparr>) rows)
               (pgs_tables s)\<rparr>)))"

section \<open>Chroma\<close>

record chroma_row =
  ch_metadata :: "(string, string) dict"
  ch_embedding :: "rat list"
  ch_document :: payload

type_synonym chroma_state = "(string, (string, chroma_row) dict) dict"

definition chroma_rows :: "string \<Rightarrow> chroma_state \<Rightarrow> (string, chroma_row) dict" where
  "chroma_rows name s = dict_default [] s name"

text \<open>The separator around every id.\<close>
definition joined :: "string list \<Rightarrow> string" where
  "joined ids = ''|'' @ join_with (CHR ''|'') ids @ ''|''"

text \<open>_flat_metadata\<close>
definition flat_metadata :: "payload \<Rightarrow> memory_item \<Rightarrow> (string, string) dict" where
  "flat_metadata d m = [(''namespace'', str_or d ''namespace'' (to_prefix (mi_namespace m))),
     (''state'', str_or d ''state'' (state_value (mi_state m))),
     (''visibility'', visibility_value (ns_visibility (mi_namespace m))),
     (''authorized_ids_joined'', joined (strs_or_empty d ''authorized_ids''))]"

text \<open>A collection takes its dimension from its first row.\<close>
definition chroma_fits :: "(string, chroma_row) dict \<Rightarrow> rat list \<Rightarrow> bool" where
  "chroma_fits rows v = (case rows of [] \<Rightarrow> True | (_, r) # _ \<Rightarrow> length (ch_embedding r) = length v)"

definition chroma_upsert ::
  "codec \<Rightarrow> string engine \<Rightarrow> nat \<Rightarrow> memory_item \<Rightarrow> (chroma_state, unit) eff" where
  "chroma_upsert cd e dims m s =
     (let name = chroma_collection cd dims (mi_namespace m); s1 = dict_setdefault name [] s
      in case chroma_to_store cd dims m of
           Inl x \<Rightarrow> (Inl x, s1)
         | Inr row \<Rightarrow>
             if \<not> chroma_fits (chroma_rows name s1) (pt_vector row) then (Inl PyException, s1)
             else (Inr (), dict_put name (dict_put (pt_id row)
               \<lparr>ch_metadata = flat_metadata (pt_payload row) m, ch_embedding = en_stored e (pt_vector row),
                ch_document = pt_payload row\<rparr> (chroma_rows name s1)) s1))"

text \<open>sub in s\<close>
fun contains :: "string \<Rightarrow> string \<Rightarrow> bool" where
  "contains sub s = (take (length sub) s = sub \<or> (case s of [] \<Rightarrow> False | _ # t \<Rightarrow> contains sub t))"

declare contains.simps [simp del]

definition needs_authz :: "namespace \<Rightarrow> caller_set \<Rightarrow> bool" where
  "needs_authz ns caller = (ns_visibility ns = SHARED \<and> caller \<noteq> None)"

text \<open>any(f"|{p}|" in joined for p in caller_identity_set)\<close>
definition joined_match :: "caller_set \<Rightarrow> string \<Rightarrow> bool" where
  "joined_match caller j = (case caller of None \<Rightarrow> False | Some callers \<Rightarrow> \<exists>p\<in>callers. contains (''|'' @ p @ ''|'') j)"

definition chroma_where :: "namespace \<Rightarrow> chroma_row \<Rightarrow> bool" where
  "chroma_where ns r = (dict_get (ch_metadata r) ''namespace'' = Some (to_prefix ns)
     \<and> dict_get (ch_metadata r) ''state'' = Some (state_value ACTIVE))"

text \<open>The loop over the rows of the query result; n rows have been kept so far.\<close>
fun chroma_collect ::
  "codec \<Rightarrow> (chroma_row \<Rightarrow> bool) \<Rightarrow> (string, chroma_row) dict \<Rightarrow> nat \<Rightarrow> nat \<Rightarrow> (string \<times> rat) list
   \<Rightarrow> scored list or_raise" where
  "chroma_collect cd keep_row rows limit n [] = Inr []"
| "chroma_collect cd keep_row rows limit n ((pid, far) # hits) = (case dict_get rows pid of
       None \<Rightarrow> Inl KeyError
     | Some r \<Rightarrow> if \<not> keep_row r then chroma_collect cd keep_row rows limit n hits
         else rbind (vector_from_store cd (ch_document r) (ch_embedding r)) (\<lambda>m.
           if limit \<le> Suc n then Inr [dense_scored n (1 - far) m]
           else rbind (chroma_collect cd keep_row rows limit (Suc n) hits)
             (\<lambda>out. Inr (dense_scored n (1 - far) m # out))))"

definition chroma_semantic ::
  "codec \<Rightarrow> string engine \<Rightarrow> nat \<Rightarrow> nat \<Rightarrow> chroma_state \<Rightarrow> namespace \<Rightarrow> rat list \<Rightarrow> nat \<Rightarrow> caller_set
   \<Rightarrow> scored list or_raise" where
  "chroma_semantic cd e dims min_widen s ns q limit caller =
     (let rows = chroma_rows (chroma_collection cd dims ns) s;
          n_results = (if needs_authz ns caller then min (length rows) (max limit min_widen)
                       else min (length rows) limit);
          eligible = filter (\<lambda>(_, r). chroma_where ns r) rows
      in if rows = [] then Inr []
         else if \<not> chroma_fits rows q then Inl PyException
         else chroma_collect cd
           (\<lambda>r. needs_authz ns caller \<longrightarrow>
             joined_match caller (dict_default ''||'' (ch_metadata r) ''authorized_ids_joined'')) rows limit 0
           (en_pick e q n_results (map (\<lambda>(i, r). (i, ch_embedding r)) eligible)))"

definition chroma_invalidate ::
  "codec \<Rightarrow> nat \<Rightarrow> namespace \<Rightarrow> string \<Rightarrow> string \<Rightarrow> int \<Rightarrow> string \<Rightarrow> (chroma_state, unit) eff" where
  "chroma_invalidate cd dims ns loser winner at_time reason s =
     (let name = chroma_collection cd dims ns; s1 = dict_setdefault name [] s; pid = cd_uuid5 cd loser
      in case dict_get (chroma_rows name s1) pid of
           None \<Rightarrow> (Inr (), s1)
         | Some r \<Rightarrow> (Inr (), dict_put name (dict_put pid
             (r\<lparr>ch_metadata := dict_put ''state'' (state_value SUPERSEDED) (ch_metadata r),
                ch_document := superseded_payload cd at_time winner reason (ch_document r)\<rparr>)
             (chroma_rows name s1)) s1))"

section \<open>FAISS\<close>

record faiss_index =
  fi_vectors :: "(nat, rat list) dict"
  fi_docstore :: "(nat, string \<times> payload) dict"

text \<open>The loaded indices and the files, when a path is configured.\<close>
record faiss_state =
  fs_indices :: "(string, faiss_index) dict"
  fs_files :: "(string, faiss_index) dict"

text \<open>The id of a vector in the index comes from the digest of its point id.\<close>
record faiss_config =
  fc_dims :: nat
  fc_persist :: bool
  fc_int_id :: "string \<Rightarrow> nat"

definition empty_index :: faiss_index where
  "empty_index = \<lparr>fi_vectors = [], fi_docstore = []\<rparr>"

definition faiss_load :: "faiss_config \<Rightarrow> string \<Rightarrow> faiss_state \<Rightarrow> faiss_index" where
  "faiss_load fc name s = (if fc_persist fc then dict_default empty_index (fs_files s) name else empty_index)"

text \<open>_index_for\<close>
definition faiss_open :: "faiss_config \<Rightarrow> string \<Rightarrow> faiss_state \<Rightarrow> faiss_index \<times> faiss_state" where
  "faiss_open fc name s = (case dict_get (fs_indices s) name of
       Some idx \<Rightarrow> (idx, s)
     | None \<Rightarrow> (faiss_load fc name s, s\<lparr>fs_indices := dict_put name (faiss_load fc name s) (fs_indices s)\<rparr>))"

text \<open>The changed index in memory, and saved.\<close>
definition faiss_keep :: "string \<Rightarrow> faiss_index \<Rightarrow> faiss_state \<Rightarrow> faiss_state" where
  "faiss_keep name idx s = s\<lparr>fs_indices := dict_put name idx (fs_indices s)\<rparr>"

definition faiss_save :: "faiss_config \<Rightarrow> string \<Rightarrow> faiss_index \<Rightarrow> faiss_state \<Rightarrow> faiss_state" where
  "faiss_save fc name idx s = (if fc_persist fc then s\<lparr>fs_files := dict_put name idx (fs_files s)\<rparr> else s)"

text \<open>The old vector is removed first; adding a vector of another length is an assertion error.\<close>
definition faiss_upsert ::
  "codec \<Rightarrow> nat engine \<Rightarrow> faiss_config \<Rightarrow> memory_item \<Rightarrow> (faiss_state, unit) eff" where
  "faiss_upsert cd e fc m s =
     (if ns_visibility (mi_namespace m) = SHARED then (Inl Storage_VectorNotFilterable, s)
      else let name = faiss_collection cd (fc_dims fc) (mi_namespace m); (idx, s1) = faiss_open fc name s
      in case faiss_to_store cd (fc_dims fc) m of
           Inl x \<Rightarrow> (Inl x, s1)
         | Inr row \<Rightarrow>
             let i = fc_int_id fc (pt_id row); removed = idx\<lparr>fi_vectors := dict_pop i (fi_vectors idx)\<rparr>
             in if length (pt_vector row) \<noteq> fc_dims fc then (Inl AssertionError, faiss_keep name removed s1)
                else let added = \<lparr>fi_vectors = dict_put i (en_stored e (pt_vector row)) (fi_vectors removed),
                       fi_docstore = dict_put i (pt_id row, pt_payload row) (fi_docstore removed)\<rparr>
                     in (Inr (), faiss_save fc name added (faiss_keep name added s1)))"

text \<open>The loop of the search; n rows have been kept so far.\<close>
fun faiss_collect ::
  "codec \<Rightarrow> string \<Rightarrow> (nat, string \<times> payload) dict \<Rightarrow> nat \<Rightarrow> nat \<Rightarrow> (nat \<times> rat) list \<Rightarrow> scored list or_raise" where
  "faiss_collect cd prefix docs limit n [] = Inr []"
| "faiss_collect cd prefix docs limit n ((i, score) # hits) = (case dict_get docs i of
       None \<Rightarrow> faiss_collect cd prefix docs limit n hits
     | Some (pid, pl) \<Rightarrow>
         if \<not> str_is pl ''namespace'' prefix \<or> \<not> str_is pl ''state'' (state_value ACTIVE)
         then faiss_collect cd prefix docs limit n hits
         else rbind (vector_from_store cd pl []) (\<lambda>m.
           if limit \<le> Suc n then Inr [dense_scored n score m]
           else rbind (faiss_collect cd prefix docs limit (Suc n) hits)
             (\<lambda>out. Inr (dense_scored n score m # out))))"

definition faiss_semantic ::
  "codec \<Rightarrow> nat engine \<Rightarrow> faiss_config \<Rightarrow> namespace \<Rightarrow> rat list \<Rightarrow> nat \<Rightarrow> caller_set
   \<Rightarrow> (faiss_state, scored list) eff" where
  "faiss_semantic cd e fc ns q limit caller s =
     (if ns_visibility ns = SHARED then (Inl Storage_VectorNotFilterable, s)
      else let (idx, s1) = faiss_open fc (faiss_collection cd (fc_dims fc) ns) s
      in if fi_vectors idx = [] then (Inr [], s1)
         else if length q \<noteq> fc_dims fc then (Inl AssertionError, s1)
         else (faiss_collect cd (to_prefix ns) (fi_docstore idx) limit 0
                 (en_pick e q (length (fi_vectors idx)) (fi_vectors idx)), s1))"

definition faiss_invalidate ::
  "codec \<Rightarrow> faiss_config \<Rightarrow> namespace \<Rightarrow> string \<Rightarrow> string \<Rightarrow> int \<Rightarrow> string \<Rightarrow> (faiss_state, unit) eff" where
  "faiss_invalidate cd fc ns loser winner at_time reason s =
     (if ns_visibility ns = SHARED then (Inl Storage_VectorNotFilterable, s)
      else let name = faiss_collection cd (fc_dims fc) ns; (idx, s1) = faiss_open fc name s;
               i = fc_int_id fc (cd_uuid5 cd loser)
      in case dict_get (fi_docstore idx) i of
           None \<Rightarrow> (Inr (), s1)
         | Some (pid, pl) \<Rightarrow>
             let changed = idx\<lparr>fi_docstore :=
                   dict_put i (pid, superseded_payload cd at_time winner reason pl) (fi_docstore idx)\<rparr>
             in (Inr (), faiss_save fc name changed (faiss_keep name changed s1)))"

section \<open>Rows and what they mean\<close>

text \<open>A row is either superseded, or still the point it was written as.\<close>
definition row_ok :: "codec \<Rightarrow> string \<Rightarrow> payload \<Rightarrow> bool" where
  "row_ok cd pid pl \<longleftrightarrow> str_is pl ''state'' (state_value SUPERSEDED)
     \<or> (\<exists>m a. well_formed_item m \<and> point_authorized m = Inr a \<and> pid = cd_uuid5 cd (mi_id m)
          \<and> pl = point_payload cd m a)"

text \<open>What an active row reads back as.\<close>
definition read_active :: "codec \<Rightarrow> rat list \<Rightarrow> payload \<Rightarrow> memory_item option" where
  "read_active cd v pl = (if str_is pl ''state'' (state_value ACTIVE)
     then (case vector_from_store cd pl v of Inr m \<Rightarrow> Some m | Inl _ \<Rightarrow> None) else None)"

text \<open>The read-time authorization of a shared record.\<close>
definition permitted :: "namespace \<Rightarrow> caller_set \<Rightarrow> memory_item \<Rightarrow> bool" where
  "permitted ns caller m = (case caller of None \<Rightarrow> True
     | Some callers \<Rightarrow> ns_visibility ns = SHARED \<longrightarrow>
         (\<exists>ids. authorized_list (dict_get (mi_metadata m) ''authorized_ids'') = Inr ids \<and> (\<exists>i\<in>set ids. i \<in> callers)))"

text \<open>What a search promises of one of its hits.\<close>
definition good_hit :: "namespace \<Rightarrow> caller_set \<Rightarrow> memory_item \<Rightarrow> bool" where
  "good_hit ns caller x = (mi_namespace x = ns \<and> mi_state x = ACTIVE \<and> permitted ns caller x)"

lemma state_value_eq [simp]: "state_value a = state_value b \<longleftrightarrow> a = b"
  by (cases a; cases b) simp_all

lemma state_literals [simp]:
  "''active'' = state_value a \<longleftrightarrow> a = ACTIVE" "state_value a = ''active'' \<longleftrightarrow> a = ACTIVE"
  "''superseded'' = state_value a \<longleftrightarrow> a = SUPERSEDED" "state_value a = ''superseded'' \<longleftrightarrow> a = SUPERSEDED"
  by (cases a; simp)+

lemma point_fields [simp]:
  "str_is (point_payload cd m a) ''state'' v \<longleftrightarrow> v = state_value (mi_state m)"
  "str_is (point_payload cd m a) ''namespace'' p \<longleftrightarrow> p = to_prefix (mi_namespace m)"
  "str_or (point_payload cd m a) ''state'' x = state_value (mi_state m)"
  "str_or (point_payload cd m a) ''namespace'' x = to_prefix (mi_namespace m)"
  by (auto simp: str_is_def str_or_def point_payload_get)

lemma dump_no_authorized: "dict_get (to_dict cd m) ''authorized_ids'' = None"
  by (simp add: to_dict_def)

lemma point_authorized_ids [simp]:
  "strs_or_empty (point_payload cd m a) ''authorized_ids'' = (case a of None \<Rightarrow> [] | Some ids \<Rightarrow> ids)"
  "overlaps (point_payload cd m a) ''authorized_ids'' callers \<longleftrightarrow> (case a of None \<Rightarrow> False | Some ids \<Rightarrow> \<exists>i\<in>set ids. i \<in> callers)"
  by (simp_all add: strs_or_empty_def overlaps_def point_payload_get dump_no_authorized split: option.split)

lemma superseded_state [simp]:
  "str_is (superseded_payload cd t w r pl) ''state'' v \<longleftrightarrow> v = state_value SUPERSEDED"
  "str_is (superseded_payload cd t w r pl) ''namespace'' p \<longleftrightarrow> str_is pl ''namespace'' p"
  by (auto simp: superseded_payload_def str_is_def)

lemma row_ok_superseded [simp]: "row_ok cd pid (superseded_payload cd t w r pl)"
  by (simp add: row_ok_def)

lemma row_ok_point:
  "well_formed_item m \<Longrightarrow> point_authorized m = Inr a \<Longrightarrow> row_ok cd (cd_uuid5 cd (mi_id m)) (point_payload cd m a)"
  by (auto simp: row_ok_def)

lemma read_active_point:
  "codec_ok cd \<Longrightarrow> well_formed_item m \<Longrightarrow>
   read_active cd v (point_payload cd m a) =
     (if mi_state m = ACTIVE then Some (with_vector v (m\<lparr>mi_embedding := None\<rparr>)) else None)"
  by (auto simp: read_active_def point_reads)

lemma read_active_superseded [simp]: "read_active cd v (superseded_payload cd t w r pl) = None"
  by (simp add: read_active_def)

lemma with_vector_fields [simp]:
  "mi_id (with_vector v m) = mi_id m" "mi_namespace (with_vector v m) = mi_namespace m"
  "mi_state (with_vector v m) = mi_state m" "mi_metadata (with_vector v m) = mi_metadata m"
  "mi_content (with_vector v m) = mi_content m"
  by (simp_all add: with_vector_def)

text \<open>An active row reads back as an active record of its point id, permitted as its ids say.\<close>
lemma row_ok_reads:
  assumes "codec_ok cd" "row_ok cd pid pl" "str_is pl ''state'' (state_value ACTIVE)"
  obtains m a where "well_formed_item m" "point_authorized m = Inr a" "pid = cd_uuid5 cd (mi_id m)"
    "pl = point_payload cd m a" "mi_state m = ACTIVE"
    "\<And>v. vector_from_store cd pl v = Inr (with_vector v (m\<lparr>mi_embedding := None\<rparr>))"
proof -
  have "\<not> str_is pl ''state'' (state_value SUPERSEDED)"
    using assms(3) by (auto simp: str_is_def)
  then obtain m a where "well_formed_item m" "point_authorized m = Inr a" "pid = cd_uuid5 cd (mi_id m)"
    "pl = point_payload cd m a"
    using assms(2) by (auto simp: row_ok_def)
  then show ?thesis
    using that [of m a] point_reads [OF assms(1)] assms(3) by simp
qed

lemma permitted_ids:
  assumes "point_authorized m = Inr a" "mi_namespace m = ns" "caller = Some callers"
    "ns_visibility ns = SHARED" "i \<in> set (case a of None \<Rightarrow> [] | Some ids \<Rightarrow> ids)" "i \<in> callers"
  shows "permitted ns caller m"
  using assms by (auto simp: permitted_def point_authorized_def rbind_Inr_iff)

section \<open>Histories\<close>

text \<open>The changes a program makes to a store, one after the other; a call that raises is over.\<close>
datatype vector_op = Write memory_item | Retire namespace string string int string

fun run_ops ::
  "(memory_item \<Rightarrow> ('s, unit) eff) \<Rightarrow> (namespace \<Rightarrow> string \<Rightarrow> string \<Rightarrow> int \<Rightarrow> string \<Rightarrow> ('s, unit) eff)
   \<Rightarrow> vector_op list \<Rightarrow> 's \<Rightarrow> 's" where
  "run_ops up iv [] s = s"
| "run_ops up iv (Write m # ops) s = run_ops up iv ops (snd (up m s))"
| "run_ops up iv (Retire ns loser winner at_time why # ops) s = run_ops up iv ops (snd (iv ns loser winner at_time why s))"

lemma run_ops_step: "run_ops up iv (op # ops) s = run_ops up iv ops (run_ops up iv [op] s)"
  by (cases op) simp_all

lemma run_append: "run_ops up iv (xs @ ys) s = run_ops up iv ys (run_ops up iv xs s)"
  by (induction xs arbitrary: s) (simp, metis append_Cons run_ops_step)

section \<open>The interface\<close>

text \<open>
  What the program relies on. The state is seen through view, the active records by row key. A search
  returns at most limit different active records of the very namespace it was asked for, each
  permitted to the caller; a write adds the record it was given and nothing else, even when it fails;
  an invalidation takes one row away and adds none. fits says which records an engine can hold, admits
  for which callers it can answer.
\<close>
locale vector_store =
  fixes upsert :: "memory_item \<Rightarrow> ('s, unit) eff"
    and semantic :: "'s \<Rightarrow> namespace \<Rightarrow> rat list \<Rightarrow> nat \<Rightarrow> caller_set \<Rightarrow> scored list or_raise"
    and inval :: "namespace \<Rightarrow> string \<Rightarrow> string \<Rightarrow> int \<Rightarrow> string \<Rightarrow> ('s, unit) eff"
    and inv :: "'s \<Rightarrow> bool"
    and view :: "'s \<Rightarrow> string \<times> string \<Rightarrow> memory_item option"
    and key :: "namespace \<Rightarrow> string \<Rightarrow> string \<times> string"
    and fits :: "memory_item \<Rightarrow> bool"
    and admits :: "caller_set \<Rightarrow> bool"
    and readback :: "memory_item \<Rightarrow> memory_item"
  assumes upsert_inv: "inv s \<Longrightarrow> fits m \<Longrightarrow> upsert m s = (r, s') \<Longrightarrow> inv s'"
    and upsert_written: "inv s \<Longrightarrow> fits m \<Longrightarrow> upsert m s = (Inr (), s') \<Longrightarrow>
      view s' (key (mi_namespace m) (mi_id m)) = (if mi_state m = ACTIVE then Some (readback m) else None)"
    and upsert_others: "inv s \<Longrightarrow> fits m \<Longrightarrow> upsert m s = (Inr (), s') \<Longrightarrow> k \<noteq> key (mi_namespace m) (mi_id m) \<Longrightarrow>
      view s' k = Some x \<Longrightarrow> view s k = Some x"
    and upsert_failed: "inv s \<Longrightarrow> fits m \<Longrightarrow> upsert m s = (Inl e, s') \<Longrightarrow> view s' k = Some x \<Longrightarrow> view s k = Some x"
    and inval_inv: "inv s \<Longrightarrow> inval ns l w t why s = (r, s') \<Longrightarrow> inv s'"
    and inval_gone: "inv s \<Longrightarrow> inval ns l w t why s = (Inr (), s') \<Longrightarrow> view s' (key ns l) = None"
    and inval_others: "inv s \<Longrightarrow> inval ns l w t why s = (r, s') \<Longrightarrow> view s' k = Some x \<Longrightarrow> view s k = Some x"
    and readback_same: "mi_id (readback m) = mi_id m \<and> mi_namespace (readback m) = mi_namespace m
      \<and> mi_content (readback m) = mi_content m"
    and search_sound: "inv s \<Longrightarrow> valid_ns ns \<Longrightarrow> admits caller \<Longrightarrow> semantic s ns q n caller = Inr hits \<Longrightarrow>
      distinct (map sc_id hits) \<and> (1 \<le> n \<longrightarrow> length hits \<le> n)
      \<and> (\<forall>x\<in>set hits. view s (key ns (sc_id x)) = Some (sc_item x) \<and> good_hit ns caller (sc_item x))"
begin

lemma view_upsert:
  "\<lbrakk> inv s; fits m; upsert m s = (r, s'); view s' k = Some x \<rbrakk> \<Longrightarrow> view s k = Some x \<or> x = readback m"
  using upsert_written [of s m s'] upsert_others [of s m s' k x] upsert_failed [of s m _ s' k x]
  by (cases r; cases "k = key (mi_namespace m) (mi_id m)") (auto split: if_splits)

lemma run_inv: "\<lbrakk> inv s; \<forall>m. Write m \<in> set ops \<longrightarrow> fits m \<rbrakk> \<Longrightarrow> inv (run_ops upsert inval ops s)"
proof (induction ops arbitrary: s)
  case (Cons op ops)
  then show ?case
    by (cases op) (auto intro!: Cons.IH intro: upsert_inv [OF _ _ surjective_pairing] inval_inv [OF _ surjective_pairing])
qed simp

lemma run_view:
  "\<lbrakk> inv s; \<forall>m. Write m \<in> set ops \<longrightarrow> fits m; view (run_ops upsert inval ops s) k = Some x \<rbrakk>
   \<Longrightarrow> view s k = Some x \<or> (\<exists>m. Write m \<in> set ops \<and> x = readback m)"
proof (induction ops arbitrary: s)
  case (Cons op ops)
  show ?case
  proof (cases op)
    case (Write m)
    have "inv (snd (upsert m s))" using Cons.prems(1,2) Write by (auto intro: upsert_inv [OF _ _ surjective_pairing])
    then have "view (snd (upsert m s)) k = Some x \<or> (\<exists>m. Write m \<in> set ops \<and> x = readback m)"
      using Cons.IH [of "snd (upsert m s)"] Cons.prems(2,3) Write by simp
    then show ?thesis
      using view_upsert [OF Cons.prems(1) _ surjective_pairing, of m k x] Cons.prems(2) Write by auto
  next
    case (Retire ns l w t why)
    have "inv (snd (inval ns l w t why s))" using Cons.prems(1) by (auto intro: inval_inv [OF _ surjective_pairing])
    then have "view (snd (inval ns l w t why s)) k = Some x \<or> (\<exists>m. Write m \<in> set ops \<and> x = readback m)"
      using Cons.IH [of "snd (inval ns l w t why s)"] Cons.prems(2,3) Retire by simp
    then show ?thesis
      using inval_others [OF Cons.prems(1) surjective_pairing, of ns l w t why k x] Retire by auto
  qed
qed simp

text \<open>After any history, what a search returns was written for that namespace, and the caller may see it.\<close>
lemma search_after:
  assumes "inv s" "\<And>k. view s k = None" "\<forall>m. Write m \<in> set ops \<longrightarrow> fits m" "valid_ns ns" "admits caller"
    "semantic (run_ops upsert inval ops s) ns q n caller = Inr hits"
  shows "distinct (map sc_id hits) \<and> (1 \<le> n \<longrightarrow> length hits \<le> n)
    \<and> (\<forall>x\<in>set hits. good_hit ns caller (sc_item x)
         \<and> (\<exists>m. Write m \<in> set ops \<and> mi_namespace m = ns \<and> mi_id m = sc_id x \<and> mi_content m = mi_content (sc_item x)))"
proof -
  note sound = search_sound [OF run_inv [OF assms(1,3)] assms(4-6)]
  have "\<exists>m. Write m \<in> set ops \<and> mi_namespace m = ns \<and> mi_id m = sc_id x \<and> mi_content m = mi_content (sc_item x)"
    if x: "x \<in> set hits" for x
  proof -
    have v: "view (run_ops upsert inval ops s) (key ns (sc_id x)) = Some (sc_item x)" and good: "good_hit ns caller (sc_item x)"
      using sound x by auto
    obtain m where m: "Write m \<in> set ops" "sc_item x = readback m"
      using run_view [OF assms(1,3) v] assms(2) [of "key ns (sc_id x)"] by auto
    then have "mi_id m = sc_id x" "mi_namespace m = ns" "mi_content m = mi_content (sc_item x)"
      using readback_same [of m] good by (simp_all add: good_hit_def)
    then show ?thesis using m(1) by blast
  qed
  then show ?thesis using sound by blast
qed

end

text \<open>Where row ids cannot collide, a write or an invalidation leaves every other row as it was.\<close>
locale exact_vector_store = vector_store +
  assumes upsert_exact: "inv s \<Longrightarrow> fits m \<Longrightarrow> upsert m s = (Inr (), s') \<Longrightarrow> k \<noteq> key (mi_namespace m) (mi_id m) \<Longrightarrow>
      view s' k = view s k"
    and upsert_failed_exact: "inv s \<Longrightarrow> fits m \<Longrightarrow> upsert m s = (Inl e, s') \<Longrightarrow> view s' = view s"
    and inval_exact: "inv s \<Longrightarrow> inval ns l w t why s = (r, s') \<Longrightarrow> k \<noteq> key ns l \<Longrightarrow> view s' k = view s k"
begin

lemma upsert_refines:
  "inv s \<Longrightarrow> fits m \<Longrightarrow> upsert m s = (Inr (), s') \<Longrightarrow>
   view s' = (view s)(key (mi_namespace m) (mi_id m) := (if mi_state m = ACTIVE then Some (readback m) else None))"
  using upsert_written upsert_exact by (intro ext) simp

lemma run_untouched:
  "\<lbrakk> inv s; \<forall>op\<in>set ops. case op of Write m \<Rightarrow> fits m \<and> key (mi_namespace m) (mi_id m) \<noteq> k | Retire ns l w t why \<Rightarrow> key ns l \<noteq> k \<rbrakk>
   \<Longrightarrow> view (run_ops upsert inval ops s) k = view s k"
proof (induction ops arbitrary: s)
  case (Cons op ops)
  show ?case
  proof (cases op)
    case (Write m)
    obtain r s' where up: "upsert m s = (r, s')" by fastforce
    then have "inv s'" using upsert_inv [of s m r s'] Cons.prems Write by simp
    moreover have "view s' k = view s k"
      using upsert_exact [OF Cons.prems(1), of m s' k] upsert_failed_exact [OF Cons.prems(1), of m _ s'] Cons.prems(2) Write up
      by (cases r) auto
    ultimately show ?thesis using Cons.IH [of s'] Cons.prems(2) Write up by simp
  next
    case (Retire ns l w t why)
    obtain r s' where iv: "inval ns l w t why s = (r, s')" by fastforce
    then have "inv s'" "view s' k = view s k"
      using inval_inv [OF Cons.prems(1) iv] inval_exact [OF Cons.prems(1) iv, of k] Cons.prems(2) Retire by auto
    then show ?thesis using Cons.IH [of s'] Cons.prems(2) Retire iv by simp
  qed
qed simp

lemma inval_refines: "inv s \<Longrightarrow> inval ns l w t why s = (Inr (), s') \<Longrightarrow> view s' = (view s)(key ns l := None)"
  using inval_gone inval_exact by (intro ext) simp

end

lemma exact_vector_storeI:
  assumes "\<And>s m r s'. safe s \<Longrightarrow> fits m \<Longrightarrow> upsert m s = (r, s') \<Longrightarrow> safe s'"
    and up: "\<And>s m r s'. safe s \<Longrightarrow> fits m \<Longrightarrow> upsert m s = (r, s') \<Longrightarrow>
      view s' = (case r of Inl _ \<Rightarrow> view s
        | Inr _ \<Rightarrow> (view s)(key (mi_namespace m) (mi_id m) := (if mi_state m = ACTIVE then Some (readback m) else None)))"
    and "\<And>s ns l w t why r s'. safe s \<Longrightarrow> inval ns l w t why s = (r, s') \<Longrightarrow> safe s'"
    and iv: "\<And>s ns l w t why r s'. safe s \<Longrightarrow> inval ns l w t why s = (r, s') \<Longrightarrow> view s' = (view s)(key ns l := None)"
    and "\<And>m. mi_id (readback m) = mi_id m \<and> mi_namespace (readback m) = mi_namespace m \<and> mi_content (readback m) = mi_content m"
    and "\<And>s ns caller q n hits. safe s \<Longrightarrow> valid_ns ns \<Longrightarrow> admits caller \<Longrightarrow> semantic s ns q n caller = Inr hits \<Longrightarrow>
      distinct (map sc_id hits) \<and> (1 \<le> n \<longrightarrow> length hits \<le> n)
      \<and> (\<forall>x\<in>set hits. view s (key ns (sc_id x)) = Some (sc_item x) \<and> good_hit ns caller (sc_item x))"
  shows "exact_vector_store upsert semantic inval safe view key fits admits readback"
proof (unfold_locales, goal_cases)
  case (2 s m s') then show ?case using up [OF 2(1-3)] by simp
next
  case (3 s m s' k x) then show ?case using up [OF 3(1-3)] by simp
next
  case (4 s m e s' k x) then show ?case using up [OF 4(1-3)] by simp
next
  case (6 s ns l w t why s') then show ?case using iv [OF 6(1,2)] by simp
next
  case (7 s ns l w t why r s' k x) then show ?case using iv [OF 7(1,2)] by (simp split: if_splits)
next
  case (10 s m s' k) then show ?case using up [OF 10(1-3)] by simp
next
  case (11 s m e s') then show ?case using up [OF 11(1-3)] by simp
next
  case (12 s ns l w t why r s' k) then show ?case using iv [OF 12(1,2)] by simp
qed (rule assms; assumption)+

section \<open>Reading hits\<close>

lemma read_hits_sound:
  assumes cd: "codec_ok cd"
    and "\<forall>(pid, _)\<in>set hits. \<exists>v pl. look pid = Some (v, pl) \<and> row_ok cd pid pl \<and> str_is pl ''state'' (state_value ACTIVE)"
    and "read_hits cd look n hits = Inr out"
  shows "map (\<lambda>x. cd_uuid5 cd (sc_id x)) out = map fst hits
    \<and> (\<forall>x\<in>set out. \<exists>v pl. look (cd_uuid5 cd (sc_id x)) = Some (v, pl) \<and> row_ok cd (cd_uuid5 cd (sc_id x)) pl
         \<and> read_active cd v pl = Some (sc_item x))"
  using assms(2,3)
proof (induction hits arbitrary: n out)
  case Nil
  then show ?case by simp
next
  case (Cons h hits)
  obtain pid score where h: "h = (pid, score)" by fastforce
  obtain v pl where look: "look pid = Some (v, pl)" "row_ok cd pid pl" "str_is pl ''state'' (state_value ACTIVE)"
    using Cons.prems(1) h by auto
  obtain m a where m: "pid = cd_uuid5 cd (mi_id m)" "vector_from_store cd pl v = Inr (with_vector v (m\<lparr>mi_embedding := None\<rparr>))"
    using row_ok_reads [OF cd look(2,3)] by metis
  obtain rest where rest: "read_hits cd look (Suc n) hits = Inr rest"
    "out = dense_scored n score (with_vector v (m\<lparr>mi_embedding := None\<rparr>)) # rest"
    using Cons.prems(2) h look m(2) by (auto simp: rbind_Inr_iff)
  have "read_active cd v pl = Some (with_vector v (m\<lparr>mi_embedding := None\<rparr>))"
    using look(3) m(2) by (simp add: read_active_def)
  then show ?case
    using Cons.IH [OF _ rest(1)] Cons.prems(1) rest(2) look m(1) h by (auto simp: dense_scored_def)
qed

lemma pick_in:
  "\<lbrakk> engine_ok e; distinct (map fst rows); (i, sc) \<in> set (en_pick e q k rows) \<rbrakk> \<Longrightarrow> i \<in> fst ` set rows"
  unfolding engine_ok_def Let_def by (metis fst_conv image_eqI list.set_map subsetD)

lemma pick_distinct:
  "\<lbrakk> engine_ok e; distinct (map fst rows) \<rbrakk> \<Longrightarrow> distinct (map fst (en_pick e q k rows)) \<and> length (en_pick e q k rows) \<le> k"
  unfolding engine_ok_def Let_def by blast

text \<open>A hit whose row passed the filter is an active record of the namespace.\<close>
lemma active_row_record:
  assumes "codec_ok cd" "row_ok cd pid pl" "read_active cd v pl = Some x" "str_is pl ''namespace'' (to_prefix ns)" "valid_ns ns"
  obtains m a where "point_authorized m = Inr a" "pl = point_payload cd m a" "x = with_vector v (m\<lparr>mi_embedding := None\<rparr>)"
    "mi_namespace m = ns" "mi_namespace x = ns" "mi_state x = ACTIVE"
proof -
  have act: "str_is pl ''state'' (state_value ACTIVE)"
    using assms(3) by (auto simp: read_active_def split: if_splits)
  obtain m a where m: "well_formed_item m" "point_authorized m = Inr a" "pl = point_payload cd m a" "mi_state m = ACTIVE"
    "\<And>v. vector_from_store cd pl v = Inr (with_vector v (m\<lparr>mi_embedding := None\<rparr>))"
    using row_ok_reads [OF assms(1,2) act] by metis
  have x: "x = with_vector v (m\<lparr>mi_embedding := None\<rparr>)"
    using assms(3) m(5) act by (simp add: read_active_def)
  have "to_prefix (mi_namespace m) = to_prefix ns" "valid_ns (mi_namespace m)"
    using assms(4) m(1,3) by (simp_all add: well_formed_item_def)
  then have "mi_namespace m = ns" using to_prefix_inj assms(5) by blast
  then show ?thesis using that m x by simp
qed

lemma permitted_read_back [simp]: "permitted ns caller (with_vector v (m\<lparr>mi_embedding := None\<rparr>)) = permitted ns caller m"
  by (cases caller) (simp_all add: permitted_def)

text \<open>A filter on payloads that lets through only what the caller may see.\<close>
definition guarding :: "codec \<Rightarrow> namespace \<Rightarrow> caller_set \<Rightarrow> (payload \<Rightarrow> bool) \<Rightarrow> bool" where
  "guarding cd ns caller keep = ((\<forall>pl. keep pl \<longrightarrow> str_is pl ''state'' (state_value ACTIVE) \<and> str_is pl ''namespace'' (to_prefix ns))
     \<and> (\<forall>m a. keep (point_payload cd m a) \<longrightarrow> point_authorized m = Inr a \<longrightarrow> mi_namespace m = ns \<longrightarrow> permitted ns caller m))"

lemma guarded_row_good:
  assumes "codec_ok cd" "valid_ns ns" "guarding cd ns caller keep" "keep pl" "row_ok cd pid pl" "read_active cd v pl = Some x"
  shows "good_hit ns caller x"
proof -
  have "str_is pl ''namespace'' (to_prefix ns)" using assms(3,4) by (simp add: guarding_def)
  from active_row_record [OF assms(1,5,6) this assms(2)]
  obtain m a where m: "point_authorized m = Inr a" "pl = point_payload cd m a" "x = with_vector v (m\<lparr>mi_embedding := None\<rparr>)"
    "mi_namespace m = ns" "mi_namespace x = ns" "mi_state x = ACTIVE" by metis
  have "permitted ns caller m" using assms(3,4) m(1,2,4) by (auto simp: guarding_def)
  then show ?thesis using m by (simp add: good_hit_def)
qed

text \<open>Different rows are different records.\<close>
lemma distinct_by_row: "distinct (map (\<lambda>x. cd_uuid5 cd (sc_id x)) hits) \<Longrightarrow> distinct (map sc_id hits)"
  by (induction hits) auto

lemma ranked_hits_sound:
  assumes "codec_ok cd" "engine_ok e" "valid_ns ns" "guarding cd ns caller keep" "distinct (map fst el)"
    and el: "\<And>i. i \<in> fst ` set el \<Longrightarrow> \<exists>v pl. look i = Some (v, pl) \<and> row_ok cd i pl \<and> keep pl"
    and read: "read_hits cd look 0 (en_pick e q k el) = Inr hits"
  shows "distinct (map sc_id hits) \<and> length hits \<le> k
    \<and> (\<forall>x\<in>set hits. Option.bind (look (cd_uuid5 cd (sc_id x))) (\<lambda>(v, pl). read_active cd v pl) = Some (sc_item x)
         \<and> good_hit ns caller (sc_item x))"
proof -
  have row: "\<exists>v pl. look i = Some (v, pl) \<and> row_ok cd i pl \<and> keep pl" if "i \<in> fst ` set (en_pick e q k el)" for i
  proof (rule el)
    from that obtain sc where "(i, sc) \<in> set (en_pick e q k el)" by auto
    then show "i \<in> fst ` set el" by (rule pick_in [OF assms(2,5)])
  qed
  have act: "keep pl \<Longrightarrow> str_is pl ''state'' (state_value ACTIVE)" for pl
    using assms(4) by (simp add: guarding_def)
  have "\<forall>(i, sc)\<in>set (en_pick e q k el). \<exists>v pl. look i = Some (v, pl) \<and> row_ok cd i pl \<and> str_is pl ''state'' (state_value ACTIVE)"
  proof
    fix p assume "p \<in> set (en_pick e q k el)"
    then obtain v pl where "look (fst p) = Some (v, pl)" "row_ok cd (fst p) pl" "keep pl" using row [of "fst p"] by auto
    then show "case p of (i, sc) \<Rightarrow> \<exists>v pl. look i = Some (v, pl) \<and> row_ok cd i pl \<and> str_is pl ''state'' (state_value ACTIVE)"
      using act by (auto simp: case_prod_unfold)
  qed
  from read_hits_sound [OF assms(1) this read]
  have out: "map (\<lambda>x. cd_uuid5 cd (sc_id x)) hits = map fst (en_pick e q k el)"
    "\<And>x. x \<in> set hits \<Longrightarrow> \<exists>v pl. look (cd_uuid5 cd (sc_id x)) = Some (v, pl) \<and> row_ok cd (cd_uuid5 cd (sc_id x)) pl
       \<and> read_active cd v pl = Some (sc_item x)" by blast+
  have "distinct (map (\<lambda>x. cd_uuid5 cd (sc_id x)) hits)" "length hits \<le> k"
    using out(1) pick_distinct [OF assms(2,5), of q k] by (simp, metis length_map out(1))
  moreover have "Option.bind (look (cd_uuid5 cd (sc_id x))) (\<lambda>(v, pl). read_active cd v pl) = Some (sc_item x)
      \<and> good_hit ns caller (sc_item x)" if x: "x \<in> set hits" for x
  proof -
    obtain v pl where v: "look (cd_uuid5 cd (sc_id x)) = Some (v, pl)" "row_ok cd (cd_uuid5 cd (sc_id x)) pl"
      "read_active cd v pl = Some (sc_item x)" using out x by blast
    have "cd_uuid5 cd (sc_id x) \<in> set (map fst (en_pick e q k el))"
      unfolding out(1) [symmetric] using x by simp
    then have "keep pl" using row [of "cd_uuid5 cd (sc_id x)"] v(1) by auto
    then show ?thesis using guarded_row_good [OF assms(1,3,4) _ v(2,3)] v by simp
  qed
  ultimately show ?thesis using distinct_by_row by blast
qed

lemma read_hits_total:
  assumes "codec_ok cd"
    and "\<forall>(pid, _)\<in>set hits. \<exists>v pl. look pid = Some (v, pl) \<and> row_ok cd pid pl \<and> str_is pl ''state'' (state_value ACTIVE)"
  shows "\<exists>out. read_hits cd look n hits = Inr out"
  using assms(2)
proof (induction hits arbitrary: n)
  case (Cons h hits)
  obtain pid score where h: "h = (pid, score)" by fastforce
  obtain v pl where row: "look pid = Some (v, pl)" "row_ok cd pid pl" "str_is pl ''state'' (state_value ACTIVE)"
    using Cons.prems h by auto
  obtain m where "vector_from_store cd pl v = Inr m"
    using row_ok_reads [OF assms(1) row(2,3)] by metis
  moreover obtain out where "read_hits cd look (Suc n) hits = Inr out"
    using Cons.IH [of "Suc n"] Cons.prems by auto
  ultimately show ?case using h row(1) by simp
qed simp

section \<open>Loops that stop at the limit\<close>

text \<open>
  What the loops of the Chroma and the FAISS search share: get answers a record, a row to skip or an
  exception.
\<close>
fun collect ::
  "('i \<Rightarrow> memory_item option or_raise) \<Rightarrow> (rat \<Rightarrow> rat) \<Rightarrow> nat \<Rightarrow> nat \<Rightarrow> ('i \<times> rat) list \<Rightarrow> scored list or_raise" where
  "collect get f limit n [] = Inr []"
| "collect get f limit n ((i, score) # hits) = rbind (get i) (\<lambda>found. case found of
       None \<Rightarrow> collect get f limit n hits
     | Some m \<Rightarrow> if limit \<le> Suc n then Inr [dense_scored n (f score) m]
         else rbind (collect get f limit (Suc n) hits) (\<lambda>out. Inr (dense_scored n (f score) m # out)))"

lemma collect_sound:
  assumes "\<forall>i\<in>fst ` set hits. \<forall>m. get i = Inr (Some m) \<longrightarrow> name m = i" and "collect get f limit n hits = Inr out"
  shows "set (map (\<lambda>x. name (sc_item x)) out) \<subseteq> fst ` set hits
    \<and> (distinct (map fst hits) \<longrightarrow> distinct (map (\<lambda>x. name (sc_item x)) out))
    \<and> (\<forall>x\<in>set out. get (name (sc_item x)) = Inr (Some (sc_item x))) \<and> (n < limit \<longrightarrow> n + length out \<le> limit)"
  using assms
proof (induction hits arbitrary: n out)
  case Nil
  then show ?case by simp
next
  case (Cons h hits)
  obtain i score where h: "h = (i, score)" by fastforce
  obtain found where found: "get i = Inr found"
    using Cons.prems(2) h by (auto simp: rbind_Inr_iff)
  show ?case
  proof (cases found)
    case None
    then show ?thesis
      using Cons.IH [of n out] Cons.prems h found by auto
  next
    case (Some m)
    have m: "name m = i" using Cons.prems(1) h found Some by auto
    show ?thesis
    proof (cases "limit \<le> Suc n")
      case True
      then show ?thesis
        using Cons.prems(2) h found Some m by (auto simp: dense_scored_def)
    next
      case False
      then obtain rest where rest: "collect get f limit (Suc n) hits = Inr rest"
        "out = dense_scored n (f score) m # rest"
        using Cons.prems(2) h found Some by (auto simp: rbind_Inr_iff)
      have "set (map (\<lambda>x. name (sc_item x)) rest) \<subseteq> fst ` set hits"
        "distinct (map fst hits) \<longrightarrow> distinct (map (\<lambda>x. name (sc_item x)) rest)"
        "\<forall>x\<in>set rest. get (name (sc_item x)) = Inr (Some (sc_item x))" "Suc n + length rest \<le> limit"
        using Cons.IH [OF _ rest(1)] Cons.prems(1) False by auto
      then show ?thesis
        using h rest(2) m found Some by (auto simp: dense_scored_def)
    qed
  qed
qed

end
