(* ===== verification/Vector_Laws.thy ===== *)
theory Vector_Laws
  imports Vector_Stores
begin

text \<open>
  The four vector adapters implement the interface vector_store: Qdrant, PostgreSQL and Chroma as an
  exact store, FAISS up to collisions of its integer ids. The invariant of each says that every row is
  superseded or still the point it was written as, and that the columns an engine filters on repeat it.
\<close>

section \<open>Qdrant implements the interface\<close>

definition qdrant_inv :: "codec \<Rightarrow> string engine \<Rightarrow> qdrant_state \<Rightarrow> bool" where
  "qdrant_inv cd e s = (codec_ok cd \<and> engine_ok e \<and> (\<forall>c points. dict_get (qs_collections s) c = Some points \<longrightarrow>
     distinct (map fst points) \<and> (\<forall>(pid, _, pl)\<in>set points. row_ok cd pid pl)))"

definition qdrant_view :: "codec \<Rightarrow> qdrant_state \<Rightarrow> string \<times> string \<Rightarrow> memory_item option" where
  "qdrant_view cd s k = Option.bind (dict_get (qdrant_points (fst k) s) (snd k)) (\<lambda>(v, pl). read_active cd v pl)"

definition qdrant_key :: "codec \<Rightarrow> nat \<Rightarrow> namespace \<Rightarrow> string \<Rightarrow> string \<times> string" where
  "qdrant_key cd dims ns mid = (qdrant_collection dims ns, cd_uuid5 cd mid)"

text \<open>The record a write leaves, with the vector in the form the engine keeps.\<close>
definition stored_record :: "string engine \<Rightarrow> nat \<Rightarrow> memory_item \<Rightarrow> memory_item" where
  "stored_record e dims m = with_vector (en_stored e (point_vector dims m)) (m\<lparr>mi_embedding := None\<rparr>)"

lemma stored_record_fields [simp]:
  "mi_id (stored_record e dims m) = mi_id m" "mi_namespace (stored_record e dims m) = mi_namespace m"
  "mi_content (stored_record e dims m) = mi_content m"
  by (simp_all add: stored_record_def)

lemma stored_record_same:
  "mi_id (stored_record e dims m) = mi_id m \<and> mi_namespace (stored_record e dims m) = mi_namespace m
   \<and> mi_content (stored_record e dims m) = mi_content m"
  by simp

lemma dict_default_points: "qdrant_points c (qdrant_ensure name s) = qdrant_points c s"
  by (auto simp: qdrant_points_def qdrant_ensure_def dict_default_def dict_setdefault_def split: option.split)

lemma qdrant_ensure_view [simp]: "qdrant_view cd (qdrant_ensure name s) = qdrant_view cd s"
  by (rule ext) (simp add: qdrant_view_def dict_default_points)

lemma qdrant_ensure_inv [intro]: "qdrant_inv cd e s \<Longrightarrow> qdrant_inv cd e (qdrant_ensure name s)"
  unfolding qdrant_inv_def qdrant_ensure_def dict_setdefault_def
  by (cases "dict_get (qs_collections s) name") auto

lemma qdrant_points_ok:
  assumes "qdrant_inv cd e s"
  shows "distinct (map fst (qdrant_points c s))" "(pid, v, pl) \<in> set (qdrant_points c s) \<Longrightarrow> row_ok cd pid pl"
proof -
  have "distinct (map fst (qdrant_points c s)) \<and> (\<forall>(pid, _, pl)\<in>set (qdrant_points c s). row_ok cd pid pl)"
    using assms by (cases "dict_get (qs_collections s) c") (auto simp: qdrant_inv_def qdrant_points_def dict_default_def)
  then show "distinct (map fst (qdrant_points c s))" "(pid, v, pl) \<in> set (qdrant_points c s) \<Longrightarrow> row_ok cd pid pl"
    by auto
qed

lemma qdrant_put:
  fixes v :: "rat list" and name :: string
  assumes "qdrant_inv cd e s" "row_ok cd pid pl"
  defines "s' \<equiv> s\<lparr>qs_collections := dict_put name (dict_put pid (v, pl) (qdrant_points name s)) (qs_collections s)\<rparr>"
  shows "qdrant_inv cd e s'" "qdrant_view cd s' = (qdrant_view cd s)((name, pid) := read_active cd v pl)"
proof -
  have "distinct (map fst (dict_put pid (v, pl) (qdrant_points name s)))"
    by (rule distinct_update) (rule qdrant_points_ok [OF assms(1)])
  moreover have "row_ok cd i p" if "(i, w, p) \<in> set (dict_put pid (v, pl) (qdrant_points name s))" for i w p
    using dict_put_set [OF that] qdrant_points_ok(2) [OF assms(1)] assms(2) by blast
  ultimately show "qdrant_inv cd e s'"
    using assms(1) unfolding qdrant_inv_def s'_def by auto
  show "qdrant_view cd s' = (qdrant_view cd s)((name, pid) := read_active cd v pl)"
    by (rule ext) (auto simp: qdrant_view_def qdrant_points_def s'_def dict_default_def)
qed

lemma qdrant_upsert_cases:
  assumes "qdrant_upsert cd e dims m s = (r, s')"
  obtains x where "r = Inl x" "s' = qdrant_ensure (qdrant_collection dims (mi_namespace m)) s"
  | a where "r = Inr ()" "point_authorized m = Inr a"
    "s' = (let s1 = qdrant_ensure (qdrant_collection dims (mi_namespace m)) s
       in s1\<lparr>qs_collections := dict_put (qdrant_collection dims (mi_namespace m))
         (dict_put (cd_uuid5 cd (mi_id m)) (en_stored e (point_vector dims m), point_payload cd m a)
           (qdrant_points (qdrant_collection dims (mi_namespace m)) s1)) (qs_collections s1)\<rparr>)"
  using assms by (auto simp: qdrant_upsert_def vector_to_store_def Let_def rbind_def split: sum.splits if_splits)

lemma qdrant_invalidate_cases:
  assumes "qdrant_invalidate cd dims ns l w t why s = (r, s')"
  obtains "r = Inr ()" "s' = s" "qdrant_view cd s (qdrant_key cd dims ns l) = None"
  | v pl where "r = Inr ()"
    "s' = s\<lparr>qs_collections := dict_put (qdrant_collection dims ns)
      (dict_put (cd_uuid5 cd l) (v, superseded_payload cd t w why pl) (qdrant_points (qdrant_collection dims ns) s))
      (qs_collections s)\<rparr>"
  using assms
  by (auto simp: qdrant_invalidate_def Let_def qdrant_points_def dict_default_def qdrant_view_def qdrant_key_def
      split: option.splits)

lemma recall_filter_guarding: "guarding cd ns caller (recall_filter ns caller)"
  by (auto simp: guarding_def recall_filter_def permitted_def point_authorized_def rbind_Inr_iff
      split: option.splits)

lemma qdrant_search:
  assumes inv: "qdrant_inv cd e s" and ns: "valid_ns ns" and search: "qdrant_semantic cd e dims s ns q k caller = Inr hits"
  shows "distinct (map sc_id hits) \<and> (1 \<le> k \<longrightarrow> length hits \<le> k)
    \<and> (\<forall>x\<in>set hits. qdrant_view cd s (qdrant_key cd dims ns (sc_id x)) = Some (sc_item x) \<and> good_hit ns caller (sc_item x))"
proof (cases "hits = []")
  case False
  let ?points = "qdrant_points (qdrant_collection dims ns) s"
  let ?el = "filter (\<lambda>(_, _, pl). recall_filter ns caller pl) ?points"
  let ?rows = "map (\<lambda>(i, v, _). (i, v)) ?el"
  have read: "read_hits cd (dict_get ?points) 0 (en_pick e q k ?rows) = Inr hits"
    using search False by (auto simp: qdrant_semantic_def Let_def qdrant_points_def dict_default_def split: option.splits if_splits)
  have fsts: "map fst ?rows = map fst ?el" by (simp add: case_prod_unfold o_def)
  have d: "distinct (map fst ?rows)"
    unfolding fsts using qdrant_points_ok(1) [OF inv] by (simp add: distinct_map_filter)
  have el: "\<exists>v pl. dict_get ?points i = Some (v, pl) \<and> row_ok cd i pl \<and> recall_filter ns caller pl"
    if i: "i \<in> fst ` set ?rows" for i
  proof -
    obtain v pl where "(i, v, pl) \<in> set ?points" "recall_filter ns caller pl"
      using i fsts by (force simp: case_prod_unfold)
    then show ?thesis
      using qdrant_points_ok [OF inv] by (metis map_of_is_SomeI)
  qed
  have "codec_ok cd" "engine_ok e" using inv by (simp_all add: qdrant_inv_def)
  from ranked_hits_sound [OF this ns recall_filter_guarding d el read] show ?thesis
    by (simp add: qdrant_view_def qdrant_key_def)
qed simp

lemma qdrant_upsert_inv:
  assumes "qdrant_inv cd e s" "well_formed_item m" "qdrant_upsert cd e dims m s = (r, s')"
  shows "qdrant_inv cd e s'"
  using assms(3)
proof (cases rule: qdrant_upsert_cases)
  case (2 a)
  then show ?thesis
    using qdrant_put(1) [OF qdrant_ensure_inv [OF assms(1)] row_ok_point [OF assms(2) 2(2)]] by (simp add: Let_def)
qed (use assms(1) in auto)

lemma qdrant_upsert_view:
  assumes "qdrant_inv cd e s" "well_formed_item m" "qdrant_upsert cd e dims m s = (r, s')"
  shows "qdrant_view cd s' = (case r of Inl _ \<Rightarrow> qdrant_view cd s
    | Inr _ \<Rightarrow> (qdrant_view cd s)(qdrant_key cd dims (mi_namespace m) (mi_id m) :=
        (if mi_state m = ACTIVE then Some (stored_record e dims m) else None)))"
  using assms(3)
proof (cases rule: qdrant_upsert_cases)
  case (2 a)
  have "codec_ok cd" using assms(1) by (simp add: qdrant_inv_def)
  then show ?thesis
    using 2 qdrant_put(2) [OF qdrant_ensure_inv [OF assms(1)] row_ok_point [OF assms(2) 2(2)]]
    by (simp add: Let_def read_active_point [OF _ assms(2)] qdrant_key_def stored_record_def)
qed simp

lemma qdrant_inval:
  assumes "qdrant_inv cd e s" "qdrant_invalidate cd dims ns l w t why s = (r, s')"
  shows "qdrant_inv cd e s'" "qdrant_view cd s' = (qdrant_view cd s)(qdrant_key cd dims ns l := None)"
  using assms(2)
  by (cases rule: qdrant_invalidate_cases;
      use assms(1) qdrant_put [OF assms(1) row_ok_superseded] in \<open>auto simp: qdrant_key_def\<close>)+

interpretation qdrant: exact_vector_store "qdrant_upsert cd e dims" "qdrant_semantic cd e dims" "qdrant_invalidate cd dims"
  "qdrant_inv cd e" "qdrant_view cd" "qdrant_key cd dims" well_formed_item "\<lambda>_. True" "stored_record e dims" for cd e dims
  by (rule exact_vector_storeI; rule qdrant_upsert_inv qdrant_upsert_view qdrant_inval qdrant_search stored_record_same; assumption)

text \<open>A record the caller may see passes the filter, and an exact engine asked for enough rows returns it.\<close>
lemma good_row_filter:
  assumes "codec_ok cd" "row_ok cd pid pl" "read_active cd v pl = Some x" "good_hit ns caller x"
  shows "recall_filter ns caller pl"
proof -
  have act: "str_is pl ''state'' (state_value ACTIVE)"
    using assms(3) by (auto simp: read_active_def split: if_splits)
  obtain m a where m: "point_authorized m = Inr a" "pl = point_payload cd m a" "mi_state m = ACTIVE"
    "\<And>v. vector_from_store cd pl v = Inr (with_vector v (m\<lparr>mi_embedding := None\<rparr>))"
    using row_ok_reads [OF assms(1,2) act] by metis
  have x: "x = with_vector v (m\<lparr>mi_embedding := None\<rparr>)" using assms(3) m(4) act by (simp add: read_active_def)
  then have ns: "mi_namespace m = ns" "permitted ns caller m" using assms(4) by (simp_all add: good_hit_def)
  have "overlaps pl ''authorized_ids'' callers" if caller: "caller = Some callers" "ns_visibility ns = SHARED" for callers
  proof -
    obtain ids i where ids: "authorized_list (dict_get (mi_metadata m) ''authorized_ids'') = Inr ids" "i \<in> set ids" "i \<in> callers"
      using ns(2) caller by (auto simp: permitted_def)
    then have "a = Some ids" using m(1) ns(1) caller(2) by (simp add: point_authorized_def)
    then show ?thesis using ids m(2) by auto
  qed
  then show ?thesis using ns(1) m(2,3) by (auto simp: recall_filter_def split: option.split)
qed

lemma exact_pick_all:
  assumes "engine_exact e" "distinct (map fst rows)" "length rows \<le> k"
  shows "fst ` set (en_pick e q k rows) = fst ` set rows"
proof -
  have "set (map fst (en_pick e q k rows)) \<subseteq> set (map fst rows)" "distinct (map fst (en_pick e q k rows))"
    "length (en_pick e q k rows) = length rows"
    using assms by (auto simp: engine_exact_def engine_ok_def Let_def)
  then have "set (map fst (en_pick e q k rows)) = set (map fst rows)"
    using assms(2) by (intro card_subset_eq) (simp_all only: distinct_card List.finite_set length_map)
  then show ?thesis by simp
qed

lemma qdrant_finds:
  assumes inv: "qdrant_inv cd e s" and ex: "engine_exact e" and q: "length q = dims"
    and k: "length (qdrant_points (qdrant_collection dims ns) s) \<le> k"
    and view: "qdrant_view cd s (qdrant_key cd dims ns mid) = Some x" and good: "good_hit ns caller x"
  shows "\<exists>hits. qdrant_semantic cd e dims s ns q k caller = Inr hits \<and> x \<in> sc_item ` set hits"
proof -
  let ?points = "qdrant_points (qdrant_collection dims ns) s"
  let ?el = "filter (\<lambda>(_, _, pl). recall_filter ns caller pl) ?points"
  let ?rows = "map (\<lambda>(i, v, _). (i, v)) ?el"
  let ?picked = "en_pick e q k ?rows"
  have cd: "codec_ok cd" using inv by (simp add: qdrant_inv_def)
  have fsts: "map fst ?rows = map fst ?el" by (simp add: case_prod_unfold o_def)
  have d: "distinct (map fst ?rows)"
    unfolding fsts using qdrant_points_ok(1) [OF inv] by (simp add: distinct_map_filter)
  have "length ?rows \<le> k" using order_trans [OF length_filter_le k] by simp
  note all = exact_pick_all [OF ex d this, of q]
  have rows: "\<forall>(i, _)\<in>set ?picked. \<exists>v pl. dict_get ?points i = Some (v, pl) \<and> row_ok cd i pl \<and> str_is pl ''state'' (state_value ACTIVE)"
  proof
    fix p assume "p \<in> set ?picked"
    then have "fst p \<in> fst ` set ?rows" using all by blast
    then obtain v pl where "(fst p, v, pl) \<in> set ?points" "recall_filter ns caller pl"
      using fsts by (force simp: case_prod_unfold)
    then show "case p of (i, _) \<Rightarrow> \<exists>v pl. dict_get ?points i = Some (v, pl) \<and> row_ok cd i pl \<and> str_is pl ''state'' (state_value ACTIVE)"
      using qdrant_points_ok(1) [OF inv] qdrant_points_ok(2) [OF inv, of "fst p" v pl] map_of_is_SomeI [of ?points "fst p" "(v, pl)"]
      by (auto simp: case_prod_unfold recall_filter_def)
  qed
  obtain hits where hits: "read_hits cd (dict_get ?points) 0 ?picked = Inr hits"
    using read_hits_total [OF cd rows] by blast
  obtain v pl where row: "dict_get ?points (cd_uuid5 cd mid) = Some (v, pl)" "read_active cd v pl = Some x"
    using view by (auto simp: qdrant_view_def qdrant_key_def bind_eq_Some_conv)
  have ok: "row_ok cd (cd_uuid5 cd mid) pl" using qdrant_points_ok(2) [OF inv] map_of_SomeD [OF row(1)] by blast
  have "(cd_uuid5 cd mid, v) \<in> set ?rows"
    using map_of_SomeD [OF row(1)] good_row_filter [OF cd ok row(2) good] by force
  then have "cd_uuid5 cd mid \<in> set (map fst ?picked)" using all by force
  moreover from read_hits_sound [OF cd rows hits]
  have out: "map (\<lambda>x. cd_uuid5 cd (sc_id x)) hits = map fst ?picked"
    "\<And>y. y \<in> set hits \<Longrightarrow> \<exists>v pl. dict_get ?points (cd_uuid5 cd (sc_id y)) = Some (v, pl) \<and> read_active cd v pl = Some (sc_item y)"
    by blast+
  ultimately have "cd_uuid5 cd mid \<in> set (map (\<lambda>x. cd_uuid5 cd (sc_id x)) hits)" by simp
  then obtain y where y: "y \<in> set hits" "cd_uuid5 cd (sc_id y) = cd_uuid5 cd mid" by auto
  then have "sc_item y = x" using out(2) [OF y(1)] row by simp
  moreover have "qdrant_semantic cd e dims s ns q k caller = Inr hits"
    using hits q row(1) by (auto simp: qdrant_semantic_def Let_def qdrant_points_def dict_default_def split: option.splits)
  ultimately show ?thesis using y(1) by blast
qed

section \<open>PostgreSQL implements the interface\<close>

text \<open>The filter columns repeat the payload.\<close>
definition pg_row_ok :: "codec \<Rightarrow> string \<Rightarrow> pg_row \<Rightarrow> bool" where
  "pg_row_ok cd pid r = (row_ok cd pid (pg_payload r) \<and> str_is (pg_payload r) ''state'' (pg_state r)
     \<and> str_is (pg_payload r) ''namespace'' (pg_namespace r)
     \<and> strs_or_empty (pg_payload r) ''authorized_ids'' = pg_authorized_ids r)"

definition pgvector_inv :: "codec \<Rightarrow> string engine \<Rightarrow> pgvector_state \<Rightarrow> bool" where
  "pgvector_inv cd e s = (codec_ok cd \<and> engine_ok e \<and> (\<forall>c rows. dict_get (pgs_tables s) c = Some rows \<longrightarrow>
     distinct (map fst rows) \<and> (\<forall>(pid, r)\<in>set rows. pg_row_ok cd pid r)))"

definition pgvector_view :: "codec \<Rightarrow> pgvector_state \<Rightarrow> string \<times> string \<Rightarrow> memory_item option" where
  "pgvector_view cd s k = Option.bind (dict_get (pgvector_rows (fst k) s) (snd k)) (\<lambda>r. read_active cd (pg_embedding r) (pg_payload r))"

definition pgvector_key :: "codec \<Rightarrow> nat \<Rightarrow> namespace \<Rightarrow> string \<Rightarrow> string \<times> string" where
  "pgvector_key cd dims ns mid = (pgvector_table cd dims ns, cd_uuid5 cd mid)"

lemma str_is_unique: "str_is d k v \<Longrightarrow> str_is d k w \<longleftrightarrow> w = v"
  by (auto simp: str_is_def)

lemma overlaps_strs: "overlaps d k callers \<longleftrightarrow> (\<exists>i\<in>set (strs_or_empty d k). i \<in> callers)"
  by (auto simp: overlaps_def strs_or_empty_def split: option.split payload_value.split)

lemma superseded_strs [simp]:
  "strs_or_empty (superseded_payload cd t w why pl) ''authorized_ids'' = strs_or_empty pl ''authorized_ids''"
  by (simp add: strs_or_empty_def superseded_payload_def)

text \<open>On such rows the WHERE clause is the payload filter.\<close>
lemma pgvector_where_filter: "pg_row_ok cd pid r \<Longrightarrow> pgvector_where ns caller r = recall_filter ns caller (pg_payload r)"
  by (auto simp: pg_row_ok_def pgvector_where_def recall_filter_def overlaps_strs str_is_unique split: option.split)

lemma pgvector_rows_ensure: "pgvector_rows c (pgvector_ensure name s) = pgvector_rows c s"
  by (auto simp: pgvector_rows_def pgvector_ensure_def dict_default_def dict_setdefault_def split: option.split)

lemma pgvector_ensure_view [simp]: "pgvector_view cd (pgvector_ensure name s) = pgvector_view cd s"
  by (rule ext) (simp add: pgvector_view_def pgvector_rows_ensure)

lemma pgvector_ensure_inv [intro]: "pgvector_inv cd e s \<Longrightarrow> pgvector_inv cd e (pgvector_ensure name s)"
  unfolding pgvector_inv_def pgvector_ensure_def dict_setdefault_def
  by (cases "dict_get (pgs_tables s) name") auto

lemma pgvector_rows_ok:
  assumes "pgvector_inv cd e s"
  shows "distinct (map fst (pgvector_rows c s))" "(pid, r) \<in> set (pgvector_rows c s) \<Longrightarrow> pg_row_ok cd pid r"
proof -
  have "distinct (map fst (pgvector_rows c s)) \<and> (\<forall>(pid, r)\<in>set (pgvector_rows c s). pg_row_ok cd pid r)"
    using assms by (cases "dict_get (pgs_tables s) c") (auto simp: pgvector_inv_def pgvector_rows_def dict_default_def)
  then show "distinct (map fst (pgvector_rows c s))" "(pid, r) \<in> set (pgvector_rows c s) \<Longrightarrow> pg_row_ok cd pid r"
    by auto
qed

lemma pgvector_put:
  fixes r :: pg_row and name :: string
  assumes "pgvector_inv cd e s" "pg_row_ok cd pid r"
  defines "s' \<equiv> s\<lparr>pgs_tables := dict_put name (dict_put pid r (pgvector_rows name s)) (pgs_tables s)\<rparr>"
  shows "pgvector_inv cd e s'" "pgvector_view cd s' = (pgvector_view cd s)((name, pid) := read_active cd (pg_embedding r) (pg_payload r))"
proof -
  have "distinct (map fst (dict_put pid r (pgvector_rows name s)))"
    by (rule distinct_update) (rule pgvector_rows_ok [OF assms(1)])
  moreover have "pg_row_ok cd i p" if "(i, p) \<in> set (dict_put pid r (pgvector_rows name s))" for i p
    using dict_put_set [OF that] pgvector_rows_ok(2) [OF assms(1)] assms(2) by blast
  ultimately show "pgvector_inv cd e s'"
    using assms(1) unfolding pgvector_inv_def s'_def by auto
  show "pgvector_view cd s' = (pgvector_view cd s)((name, pid) := read_active cd (pg_embedding r) (pg_payload r))"
    by (rule ext) (auto simp: pgvector_view_def pgvector_rows_def s'_def dict_default_def)
qed

definition pg_written :: "codec \<Rightarrow> string engine \<Rightarrow> nat \<Rightarrow> memory_item \<Rightarrow> string list option \<Rightarrow> pg_row" where
  "pg_written cd e dims m a = \<lparr>pg_namespace = to_prefix (mi_namespace m), pg_state = state_value (mi_state m),
     pg_authorized_ids = (case a of None \<Rightarrow> [] | Some ids \<Rightarrow> ids), pg_embedding = en_stored e (point_vector dims m),
     pg_payload = point_payload cd m a\<rparr>"

lemma pgvector_upsert_cases:
  assumes "pgvector_upsert cd e dims m s = (r, s')"
  obtains x where "r = Inl x" "s' = pgvector_ensure (pgvector_table cd dims (mi_namespace m)) s"
  | a where "r = Inr ()" "point_authorized m = Inr a"
    "s' = (let s1 = pgvector_ensure (pgvector_table cd dims (mi_namespace m)) s
       in s1\<lparr>pgs_tables := dict_put (pgvector_table cd dims (mi_namespace m))
         (dict_put (cd_uuid5 cd (mi_id m)) (pg_written cd e dims m a)
           (pgvector_rows (pgvector_table cd dims (mi_namespace m)) s1)) (pgs_tables s1)\<rparr>)"
proof (cases "point_authorized m")
  case (Inl x)
  then show ?thesis
    using assms that(1) by (auto simp: pgvector_upsert_def pgvector_to_store_def in_collection_def vector_to_store_def Let_def)
next
  case (Inr a)
  then show ?thesis
    using assms that by (cases "length (point_vector dims m) = dims")
      (auto simp: pgvector_upsert_def pgvector_to_store_def in_collection_def vector_to_store_def Let_def pg_written_def)
qed

lemma pgvector_invalidate_cases:
  assumes "pgvector_invalidate cd dims ns l w t why s = (r, s')"
  obtains "r = Inr ()" "s' = s" "pgvector_view cd s (pgvector_key cd dims ns l) = None"
  | row where "r = Inr ()" "(cd_uuid5 cd l, row) \<in> set (pgvector_rows (pgvector_table cd dims ns) s)"
    "s' = s\<lparr>pgs_tables := dict_put (pgvector_table cd dims ns)
      (dict_put (cd_uuid5 cd l) (row\<lparr>pg_state := state_value SUPERSEDED,
         pg_payload := superseded_payload cd t w why (pg_payload row)\<rparr>) (pgvector_rows (pgvector_table cd dims ns) s))
      (pgs_tables s)\<rparr>"
  using assms
  by (auto simp: pgvector_invalidate_def Let_def pgvector_rows_def dict_default_def pgvector_view_def pgvector_key_def
      dest: map_of_SomeD split: option.splits)

lemma pg_row_ok_point:
  "well_formed_item m \<Longrightarrow> point_authorized m = Inr a \<Longrightarrow> pg_row_ok cd (cd_uuid5 cd (mi_id m)) (pg_written cd e dims m a)"
  by (simp add: pg_row_ok_def row_ok_point pg_written_def)

lemma pgvector_upsert_law:
  assumes "pgvector_inv cd e s" "well_formed_item m" "pgvector_upsert cd e dims m s = (r, s')"
  shows "pgvector_inv cd e s'" "pgvector_view cd s' = (case r of Inl _ \<Rightarrow> pgvector_view cd s
    | Inr _ \<Rightarrow> (pgvector_view cd s)(pgvector_key cd dims (mi_namespace m) (mi_id m) :=
        (if mi_state m = ACTIVE then Some (stored_record e dims m) else None)))"
proof -
  have cd: "codec_ok cd" using assms(1) by (simp add: pgvector_inv_def)
  have "pgvector_inv cd e s' \<and> pgvector_view cd s' = (case r of Inl _ \<Rightarrow> pgvector_view cd s
    | Inr _ \<Rightarrow> (pgvector_view cd s)(pgvector_key cd dims (mi_namespace m) (mi_id m) :=
        (if mi_state m = ACTIVE then Some (stored_record e dims m) else None)))"
    using assms(3)
  proof (cases rule: pgvector_upsert_cases)
    case (2 a)
    from pgvector_put [OF pgvector_ensure_inv [OF assms(1)] pg_row_ok_point [OF assms(2) 2(2)]] show ?thesis
      using 2(1,3) by (simp add: Let_def read_active_point [OF cd assms(2)] pgvector_key_def stored_record_def pg_written_def)
  qed (use assms(1) in auto)
  then show "pgvector_inv cd e s'" "pgvector_view cd s' = (case r of Inl _ \<Rightarrow> pgvector_view cd s
    | Inr _ \<Rightarrow> (pgvector_view cd s)(pgvector_key cd dims (mi_namespace m) (mi_id m) :=
        (if mi_state m = ACTIVE then Some (stored_record e dims m) else None)))" by blast+
qed

lemma pg_row_ok_superseded:
  "pg_row_ok cd i row \<Longrightarrow> pg_row_ok cd pid (row\<lparr>pg_state := state_value SUPERSEDED,
     pg_payload := superseded_payload cd t w why (pg_payload row)\<rparr>)"
  by (simp add: pg_row_ok_def)

lemma pgvector_inval:
  assumes "pgvector_inv cd e s" "pgvector_invalidate cd dims ns l w t why s = (r, s')"
  shows "pgvector_inv cd e s'" "pgvector_view cd s' = (pgvector_view cd s)(pgvector_key cd dims ns l := None)"
proof -
  have "pgvector_inv cd e s' \<and> pgvector_view cd s' = (pgvector_view cd s)(pgvector_key cd dims ns l := None)"
    using assms(2)
  proof (cases rule: pgvector_invalidate_cases)
    case (2 row)
    from pgvector_put [OF assms(1) pg_row_ok_superseded [OF pgvector_rows_ok(2) [OF assms(1) 2(2)]]] 2(3) show ?thesis
      by (simp add: pgvector_key_def)
  qed (use assms(1) in auto)
  then show "pgvector_inv cd e s'" "pgvector_view cd s' = (pgvector_view cd s)(pgvector_key cd dims ns l := None)" by blast+
qed

lemma pgvector_search:
  assumes inv: "pgvector_inv cd e s" and ns: "valid_ns ns" and search: "pgvector_semantic cd e dims s ns q k caller = Inr hits"
  shows "distinct (map sc_id hits) \<and> (1 \<le> k \<longrightarrow> length hits \<le> k)
    \<and> (\<forall>x\<in>set hits. pgvector_view cd s (pgvector_key cd dims ns (sc_id x)) = Some (sc_item x) \<and> good_hit ns caller (sc_item x))"
proof (cases "hits = []")
  case False
  let ?t = "pgvector_rows (pgvector_table cd dims ns) s"
  let ?look = "\<lambda>i. map_option (\<lambda>r. (pg_embedding r, pg_payload r)) (dict_get ?t i)"
  let ?el = "filter (\<lambda>(_, r). pgvector_where ns caller r) ?t"
  let ?rows = "map (\<lambda>(i, r). (i, pg_embedding r)) ?el"
  have read: "read_hits cd ?look 0 (en_pick e q k ?rows) = Inr hits"
    using search False by (auto simp: pgvector_semantic_def Let_def pgvector_rows_def dict_default_def split: option.splits if_splits)
  have fsts: "map fst ?rows = map fst ?el" by (simp add: case_prod_unfold o_def)
  have d: "distinct (map fst ?rows)"
    unfolding fsts using pgvector_rows_ok(1) [OF inv] by (simp add: distinct_map_filter)
  have el: "\<exists>v pl. ?look i = Some (v, pl) \<and> row_ok cd i pl \<and> recall_filter ns caller pl"
    if i: "i \<in> fst ` set ?rows" for i
  proof -
    obtain r where r: "(i, r) \<in> set ?t" "pgvector_where ns caller r"
      using i fsts by (force simp: case_prod_unfold)
    then show ?thesis
      using pgvector_rows_ok [OF inv] pgvector_where_filter [of cd i r ns caller] by (simp add: pg_row_ok_def)
  qed
  have "codec_ok cd" "engine_ok e" using inv by (simp_all add: pgvector_inv_def)
  from ranked_hits_sound [OF this ns recall_filter_guarding d el read] show ?thesis
    by (simp add: pgvector_view_def pgvector_key_def option.case_eq_if bind_map_option o_def)
qed simp

interpretation pgvector: exact_vector_store "pgvector_upsert cd e dims" "pgvector_semantic cd e dims" "pgvector_invalidate cd dims"
  "pgvector_inv cd e" "pgvector_view cd" "pgvector_key cd dims" well_formed_item "\<lambda>_. True" "stored_record e dims" for cd e dims
  by (rule exact_vector_storeI; rule pgvector_upsert_law pgvector_inval pgvector_search stored_record_same; assumption)

section \<open>Chroma implements the interface\<close>

lemma contains_split: "contains sub s \<Longrightarrow> \<exists>a b. s = a @ sub @ b"
proof (induction s)
  case Nil
  then show ?case by (auto simp: contains.simps [of sub "[]"])
next
  case (Cons c s)
  show ?case
  proof (cases "take (length sub) (c # s) = sub")
    case True
    then have "c # s = [] @ sub @ drop (length sub) (c # s)" by (metis append_Nil append_take_drop_id)
    then show ?thesis by blast
  next
    case False
    then have "contains sub s" using Cons.prems contains.simps [of sub "c # s"] by simp
    then obtain a b where "s = a @ sub @ b" using Cons.IH by blast
    then have "c # s = (c # a) @ sub @ b" by simp
    then show ?thesis by blast
  qed
qed

lemma contains_append: "contains sub (a @ sub @ b)"
  by (induction a) (auto simp: contains.simps [of sub])

lemma first_separator:
  "\<lbrakk> c \<notin> set p; c \<notin> set q; p @ c # u = q @ c # v \<rbrakk> \<Longrightarrow> p = q \<and> u = v"
proof (induction p arbitrary: q)
  case Nil
  then show ?case by (cases q) auto
next
  case (Cons x p)
  then show ?case by (cases q) auto
qed

lemma skip_prefix: "\<lbrakk> c \<notin> set i; i @ u = a @ c # v \<rbrakk> \<Longrightarrow> \<exists>a'. u = a' @ c # v"
proof (induction i arbitrary: a)
  case (Cons x i)
  then show ?case by (cases a) auto
qed simp

lemma separated_member:
  assumes "\<forall>i\<in>set ids. c \<notin> set i" "c \<notin> set p" "c # concat (map (\<lambda>i. i @ [c]) ids) = a @ c # p @ c # b"
  shows "p \<in> set ids"
  using assms
proof (induction ids arbitrary: a)
  case Nil
  then show ?case by (cases a) auto
next
  case (Cons i ids)
  show ?case
  proof (cases a)
    case Nil
    then have "i @ c # concat (map (\<lambda>i. i @ [c]) ids) = p @ c # b" using Cons.prems(3) by simp
    with first_separator Cons.prems(1,2) have "i = p" by (metis list.set_intros(1))
    then show ?thesis by simp
  next
    case (Cons x a')
    have "c # i @ c # concat (map (\<lambda>i. i @ [c]) ids) = (x # a') @ c # p @ c # b"
    proof -
      have "concat (map (\<lambda>i. i @ [c]) (i # ids)) = i @ c # concat (map (\<lambda>i. i @ [c]) ids)" by simp
      then show ?thesis using Cons.prems(3) unfolding Cons by (simp only:)
    qed
    then have rest: "i @ c # concat (map (\<lambda>i. i @ [c]) ids) = a' @ c # p @ c # b" by (metis append_Cons list.inject)
    have "c \<notin> set i" using Cons.prems(1) by simp
    from skip_prefix [OF this rest] obtain a'' where "c # concat (map (\<lambda>i. i @ [c]) ids) = a'' @ c # p @ c # b"
      by (rule exE)
    then have "p \<in> set ids" using Cons.prems(1) by (intro Cons.IH [OF _ Cons.prems(2)]) simp_all
    then show ?thesis by simp
  qed
qed

definition pipe_free :: "string \<Rightarrow> bool" where
  "pipe_free i = (CHR ''|'' \<notin> set i)"

lemma joined_concat: "ids \<noteq> [] \<Longrightarrow> joined ids = CHR ''|'' # concat (map (\<lambda>i. i @ [CHR ''|'']) ids)"
  unfolding joined_def by (induction "CHR ''|''" ids rule: join_with.induct) auto

text \<open>Where no id holds the separator, the substring test is membership.\<close>
lemma contains_joined:
  assumes "\<forall>i\<in>set ids. pipe_free i" "pipe_free p" "p \<noteq> []"
  shows "contains (''|'' @ p @ ''|'') (joined ids) \<longleftrightarrow> p \<in> set ids"
proof (cases "ids = []")
  case True
  have "\<not> contains (''|'' @ p @ ''|'') ''||''"
  proof
    assume "contains (''|'' @ p @ ''|'') ''||''"
    then obtain a b where "''||'' = a @ (''|'' @ p @ ''|'') @ b" using contains_split by blast
    then have "length ''||'' = length (a @ (''|'' @ p @ ''|'') @ b)" by (rule arg_cong)
    then show False using assms(3) by simp
  qed
  then show ?thesis using True by (simp add: joined_def)
next
  case False
  show ?thesis
  proof
    assume "contains (''|'' @ p @ ''|'') (joined ids)"
    then obtain a b where "joined ids = a @ (''|'' @ p @ ''|'') @ b" using contains_split by blast
    then show "p \<in> set ids"
      using separated_member [of ids "CHR ''|''" p a b] assms joined_concat [OF False] by (auto simp: pipe_free_def)
  next
    assume "p \<in> set ids"
    then obtain xs ys where ids: "ids = xs @ p # ys" by (meson split_list)
    show "contains (''|'' @ p @ ''|'') (joined ids)"
    proof (cases xs rule: rev_cases)
      case Nil
      then show ?thesis
        using contains_append [of "''|'' @ p @ ''|''" "[]"] joined_concat [OF False] ids by simp
    next
      case (snoc zs z)
      have "joined ids = (CHR ''|'' # concat (map (\<lambda>i. i @ ''|'') zs) @ z) @ (''|'' @ p @ ''|'') @ concat (map (\<lambda>i. i @ ''|'') ys)"
        using joined_concat [OF False] ids snoc by simp
      then show ?thesis by (metis contains_append)
    qed
  qed
qed

text \<open>The metadata repeats the document, and no id holds the separator.\<close>
definition chroma_row_ok :: "codec \<Rightarrow> string \<Rightarrow> chroma_row \<Rightarrow> bool" where
  "chroma_row_ok cd pid r = (row_ok cd pid (ch_document r)
     \<and> (\<forall>v. dict_get (ch_metadata r) ''state'' = Some v \<longrightarrow> str_is (ch_document r) ''state'' v)
     \<and> (\<forall>v. dict_get (ch_metadata r) ''namespace'' = Some v \<longrightarrow> str_is (ch_document r) ''namespace'' v)
     \<and> dict_get (ch_metadata r) ''authorized_ids_joined'' = Some (joined (strs_or_empty (ch_document r) ''authorized_ids''))
     \<and> (\<forall>i\<in>set (strs_or_empty (ch_document r) ''authorized_ids''). pipe_free i))"

definition chroma_inv :: "codec \<Rightarrow> string engine \<Rightarrow> chroma_state \<Rightarrow> bool" where
  "chroma_inv cd e s = (codec_ok cd \<and> engine_ok e \<and> (\<forall>c rows. dict_get s c = Some rows \<longrightarrow>
     distinct (map fst rows) \<and> (\<forall>(pid, r)\<in>set rows. chroma_row_ok cd pid r)))"

definition read_chroma :: "codec \<Rightarrow> chroma_row \<Rightarrow> memory_item option" where
  "read_chroma cd r = read_active cd (ch_embedding r) (ch_document r)"

definition chroma_view :: "codec \<Rightarrow> chroma_state \<Rightarrow> string \<times> string \<Rightarrow> memory_item option" where
  "chroma_view cd s k = Option.bind (dict_get (chroma_rows (fst k) s) (snd k)) (\<lambda>r. read_chroma cd r)"

definition chroma_key :: "codec \<Rightarrow> nat \<Rightarrow> namespace \<Rightarrow> string \<Rightarrow> string \<times> string" where
  "chroma_key cd dims ns mid = (chroma_collection cd dims ns, cd_uuid5 cd mid)"

text \<open>The records whose ids are free of the separator, and the callers that can be matched with them.\<close>
definition chroma_admits_item :: "memory_item \<Rightarrow> bool" where
  "chroma_admits_item m = (well_formed_item m
     \<and> (\<forall>ids. point_authorized m = Inr (Some ids) \<longrightarrow> (\<forall>i\<in>set ids. pipe_free i)))"

definition chroma_admits :: "caller_set \<Rightarrow> bool" where
  "chroma_admits caller = (\<forall>callers. caller = Some callers \<longrightarrow> (\<forall>p\<in>callers. p \<noteq> [] \<and> pipe_free p))"

lemma chroma_rows_setdefault [simp]: "chroma_rows c (dict_setdefault name [] s) = chroma_rows c s"
  by (auto simp: chroma_rows_def dict_default_def dict_setdefault_def split: option.split)

lemma chroma_setdefault_view [simp]: "chroma_view cd (dict_setdefault name [] s) = chroma_view cd s"
  by (rule ext) (simp add: chroma_view_def)

lemma chroma_setdefault_inv [intro]: "chroma_inv cd e s \<Longrightarrow> chroma_inv cd e (dict_setdefault name [] s)"
  unfolding chroma_inv_def dict_setdefault_def by (cases "dict_get s name") auto

lemma chroma_rows_ok:
  assumes "chroma_inv cd e s"
  shows "distinct (map fst (chroma_rows c s))" "(pid, r) \<in> set (chroma_rows c s) \<Longrightarrow> chroma_row_ok cd pid r"
proof -
  have "distinct (map fst (chroma_rows c s)) \<and> (\<forall>(pid, r)\<in>set (chroma_rows c s). chroma_row_ok cd pid r)"
    using assms by (cases "dict_get s c") (auto simp: chroma_inv_def chroma_rows_def dict_default_def)
  then show "distinct (map fst (chroma_rows c s))" "(pid, r) \<in> set (chroma_rows c s) \<Longrightarrow> chroma_row_ok cd pid r"
    by auto
qed

lemma chroma_put:
  fixes r :: chroma_row and name :: string
  assumes "chroma_inv cd e s" "chroma_row_ok cd pid r"
  defines "s' \<equiv> dict_put name (dict_put pid r (chroma_rows name s)) s"
  shows "chroma_inv cd e s'" "chroma_view cd s' = (chroma_view cd s)((name, pid) := read_chroma cd r)"
proof -
  have "distinct (map fst (dict_put pid r (chroma_rows name s)))"
    by (rule distinct_update) (rule chroma_rows_ok [OF assms(1)])
  moreover have "chroma_row_ok cd i p" if "(i, p) \<in> set (dict_put pid r (chroma_rows name s))" for i p
    using dict_put_set [OF that] chroma_rows_ok(2) [OF assms(1)] assms(2) by blast
  ultimately show "chroma_inv cd e s'"
    using assms(1) unfolding chroma_inv_def s'_def by auto
  show "chroma_view cd s' = (chroma_view cd s)((name, pid) := read_chroma cd r)"
    by (rule ext) (auto simp: chroma_view_def chroma_rows_def s'_def dict_default_def)
qed

definition chroma_written :: "codec \<Rightarrow> string engine \<Rightarrow> nat \<Rightarrow> memory_item \<Rightarrow> string list option \<Rightarrow> chroma_row" where
  "chroma_written cd e dims m a = \<lparr>ch_metadata = flat_metadata (point_payload cd m a) m,
     ch_embedding = en_stored e (point_vector dims m), ch_document = point_payload cd m a\<rparr>"

lemma chroma_upsert_cases:
  assumes "chroma_upsert cd e dims m s = (r, s')"
  obtains x where "r = Inl x" "s' = dict_setdefault (chroma_collection cd dims (mi_namespace m)) [] s"
  | a where "r = Inr ()" "point_authorized m = Inr a"
    "s' = (let s1 = dict_setdefault (chroma_collection cd dims (mi_namespace m)) [] s
       in dict_put (chroma_collection cd dims (mi_namespace m)) (dict_put (cd_uuid5 cd (mi_id m)) (chroma_written cd e dims m a)
           (chroma_rows (chroma_collection cd dims (mi_namespace m)) s1)) s1)"
proof (cases "point_authorized m")
  case (Inl x)
  then show ?thesis
    using assms that(1) by (auto simp: chroma_upsert_def chroma_to_store_def in_collection_def vector_to_store_def Let_def)
next
  case (Inr a)
  then show ?thesis
    using assms that by (cases "chroma_fits (chroma_rows (chroma_collection cd dims (mi_namespace m)) s) (point_vector dims m)")
      (auto simp: chroma_upsert_def chroma_to_store_def in_collection_def vector_to_store_def Let_def chroma_written_def)
qed

lemma chroma_row_ok_point:
  "chroma_admits_item m \<Longrightarrow> point_authorized m = Inr a \<Longrightarrow> chroma_row_ok cd (cd_uuid5 cd (mi_id m)) (chroma_written cd e dims m a)"
  by (auto simp: chroma_row_ok_def row_ok_point chroma_written_def flat_metadata_def chroma_admits_item_def split: option.splits)

lemma chroma_upsert_law:
  assumes "chroma_inv cd e s" "chroma_admits_item m" "chroma_upsert cd e dims m s = (r, s')"
  shows "chroma_inv cd e s'" "chroma_view cd s' = (case r of Inl _ \<Rightarrow> chroma_view cd s
    | Inr _ \<Rightarrow> (chroma_view cd s)(chroma_key cd dims (mi_namespace m) (mi_id m) :=
        (if mi_state m = ACTIVE then Some (stored_record e dims m) else None)))"
proof -
  have cd: "codec_ok cd" and wf: "well_formed_item m"
    using assms(1,2) by (simp_all add: chroma_inv_def chroma_admits_item_def)
  have "chroma_inv cd e s' \<and> chroma_view cd s' = (case r of Inl _ \<Rightarrow> chroma_view cd s
    | Inr _ \<Rightarrow> (chroma_view cd s)(chroma_key cd dims (mi_namespace m) (mi_id m) :=
        (if mi_state m = ACTIVE then Some (stored_record e dims m) else None)))"
    using assms(3)
  proof (cases rule: chroma_upsert_cases)
    case (2 a)
    from chroma_put [OF chroma_setdefault_inv [OF assms(1)] chroma_row_ok_point [OF assms(2) 2(2)]] show ?thesis
      using 2(1,3) by (simp add: Let_def read_chroma_def read_active_point [OF cd wf] chroma_key_def stored_record_def chroma_written_def)
  qed (use assms(1) in auto)
  then show "chroma_inv cd e s'" "chroma_view cd s' = (case r of Inl _ \<Rightarrow> chroma_view cd s
    | Inr _ \<Rightarrow> (chroma_view cd s)(chroma_key cd dims (mi_namespace m) (mi_id m) :=
        (if mi_state m = ACTIVE then Some (stored_record e dims m) else None)))" by blast+
qed

definition chroma_superseded :: "codec \<Rightarrow> int \<Rightarrow> string \<Rightarrow> string \<Rightarrow> chroma_row \<Rightarrow> chroma_row" where
  "chroma_superseded cd t w why r = r\<lparr>ch_metadata := dict_put ''state'' (state_value SUPERSEDED) (ch_metadata r),
     ch_document := superseded_payload cd t w why (ch_document r)\<rparr>"

lemma chroma_row_ok_superseded: "chroma_row_ok cd i r \<Longrightarrow> chroma_row_ok cd pid (chroma_superseded cd t w why r)"
  by (simp add: chroma_row_ok_def chroma_superseded_def)

lemma chroma_inval:
  assumes "chroma_inv cd e s" "chroma_invalidate cd dims ns l w t why s = (r, s')"
  shows "chroma_inv cd e s'" "chroma_view cd s' = (chroma_view cd s)(chroma_key cd dims ns l := None)"
proof -
  let ?c = "chroma_collection cd dims ns"
  let ?s1 = "dict_setdefault ?c [] s"
  have inv: "chroma_inv cd e ?s1" using assms(1) by auto
  have "chroma_inv cd e s' \<and> chroma_view cd s' = (chroma_view cd s)(chroma_key cd dims ns l := None)"
  proof (cases "dict_get (chroma_rows ?c s) (cd_uuid5 cd l)")
    case None
    then show ?thesis
      using assms(2) inv by (auto simp: chroma_invalidate_def Let_def chroma_key_def chroma_view_def)
  next
    case (Some row)
    have "chroma_row_ok cd (cd_uuid5 cd l) row"
      using chroma_rows_ok(2) [OF assms(1)] map_of_SomeD [OF Some] by blast
    from chroma_put [OF inv chroma_row_ok_superseded [OF this], of ?c "cd_uuid5 cd l" t w why] show ?thesis
      using assms(2) Some
      by (auto simp: chroma_invalidate_def Let_def chroma_key_def chroma_superseded_def read_chroma_def)
  qed
  then show "chroma_inv cd e s'" "chroma_view cd s' = (chroma_view cd s)(chroma_key cd dims ns l := None)" by blast+
qed

text \<open>What the loop of the search reads of one row.\<close>
definition chroma_get :: "codec \<Rightarrow> (chroma_row \<Rightarrow> bool) \<Rightarrow> (string, chroma_row) dict \<Rightarrow> string \<Rightarrow> memory_item option or_raise" where
  "chroma_get cd keep_row rows pid = (case dict_get rows pid of
       None \<Rightarrow> Inl KeyError
     | Some r \<Rightarrow> if \<not> keep_row r then Inr None
         else rbind (vector_from_store cd (ch_document r) (ch_embedding r)) (\<lambda>m. Inr (Some m)))"

lemma chroma_collect_loop:
  "chroma_collect cd keep_row rows limit n hits = collect (chroma_get cd keep_row rows) (\<lambda>far. 1 - far) limit n hits"
proof (induction hits arbitrary: n)
  case (Cons h hits)
  obtain pid far where h: "h = (pid, far)" by fastforce
  show ?case
  proof (cases "dict_get rows pid")
    case (Some r)
    then show ?thesis
      using Cons.IH h by (cases "vector_from_store cd (ch_document r) (ch_embedding r)") (simp_all add: chroma_get_def)
  qed (simp add: h chroma_get_def)
qed simp

text \<open>The filter a row has passed when it is kept.\<close>
definition chroma_keep :: "namespace \<Rightarrow> caller_set \<Rightarrow> chroma_row \<Rightarrow> bool" where
  "chroma_keep ns caller r = (needs_authz ns caller \<longrightarrow>
     joined_match caller (dict_default ''||'' (ch_metadata r) ''authorized_ids_joined''))"

lemma chroma_kept_filter:
  assumes "chroma_row_ok cd pid r" "chroma_admits caller" "chroma_where ns r" "chroma_keep ns caller r"
  shows "recall_filter ns caller (ch_document r)"
proof -
  have "\<exists>i\<in>set (strs_or_empty (ch_document r) ''authorized_ids''). i \<in> callers"
    if caller: "caller = Some callers" "ns_visibility ns = SHARED" for callers
  proof -
    obtain p where p: "p \<in> callers" "contains (''|'' @ p @ ''|'') (joined (strs_or_empty (ch_document r) ''authorized_ids''))"
      using assms(1,4) caller by (auto simp: chroma_keep_def needs_authz_def joined_match_def dict_default_def chroma_row_ok_def)
    moreover have "p \<noteq> []" "pipe_free p" using assms(2) caller(1) p(1) by (auto simp: chroma_admits_def)
    ultimately show ?thesis
      using contains_joined assms(1) by (auto simp: chroma_row_ok_def)
  qed
  then show ?thesis
    using assms(1,3) by (auto simp: recall_filter_def chroma_where_def chroma_row_ok_def overlaps_strs simp del: state_literals split: option.split)
qed

lemma chroma_search:
  assumes inv: "chroma_inv cd e s" and ns: "valid_ns ns" and admits: "chroma_admits caller"
    and search: "chroma_semantic cd e dims min_widen s ns q k caller = Inr hits"
  shows "distinct (map sc_id hits) \<and> (1 \<le> k \<longrightarrow> length hits \<le> k)
    \<and> (\<forall>x\<in>set hits. chroma_view cd s (chroma_key cd dims ns (sc_id x)) = Some (sc_item x) \<and> good_hit ns caller (sc_item x))"
proof (cases "hits = []")
  case False
  let ?t = "chroma_rows (chroma_collection cd dims ns) s"
  let ?el = "filter (\<lambda>(_, r). chroma_where ns r) ?t"
  let ?rows = "map (\<lambda>(i, r). (i, ch_embedding r)) ?el"
  let ?get = "chroma_get cd (chroma_keep ns caller) ?t"
  obtain n where read: "collect ?get (\<lambda>far. 1 - far) k 0 (en_pick e q n ?rows) = Inr hits"
    using search False by (auto simp: chroma_semantic_def chroma_collect_loop chroma_keep_def [abs_def] Let_def split: if_splits)
  have cd: "codec_ok cd" and e: "engine_ok e" using inv by (simp_all add: chroma_inv_def)
  have fsts: "map fst ?rows = map fst ?el" by (simp add: case_prod_unfold o_def)
  have d: "distinct (map fst ?rows)"
    unfolding fsts using chroma_rows_ok(1) [OF inv] by (simp add: distinct_map_filter)
  have row: "\<exists>r. dict_get ?t i = Some r \<and> chroma_row_ok cd i r \<and> chroma_where ns r"
    if i: "i \<in> fst ` set (en_pick e q n ?rows)" for i
  proof -
    have "i \<in> fst ` set ?rows" using i pick_in [OF e d] by auto
    then obtain r where "(i, r) \<in> set ?t" "chroma_where ns r"
      using fsts by (force simp: case_prod_unfold)
    then show ?thesis using chroma_rows_ok [OF inv] by simp
  qed
  have got: "cd_uuid5 cd (mi_id m) = i \<and> (\<exists>r. dict_get ?t i = Some r \<and> read_chroma cd r = Some m) \<and> good_hit ns caller m"
    if i: "i \<in> fst ` set (en_pick e q n ?rows)" and m: "?get i = Inr (Some m)" for i m
  proof -
    obtain r where r: "dict_get ?t i = Some r" "chroma_row_ok cd i r" "chroma_where ns r" using row [OF i] by blast
    then have kept: "chroma_keep ns caller r" "vector_from_store cd (ch_document r) (ch_embedding r) = Inr m"
      using m by (auto simp: chroma_get_def rbind_Inr_iff split: if_splits)
    then have f: "recall_filter ns caller (ch_document r)" using chroma_kept_filter [OF r(2) admits r(3)] by simp
    then have act: "str_is (ch_document r) ''state'' (state_value ACTIVE)" by (simp add: recall_filter_def)
    then have read: "read_chroma cd r = Some m" using kept(2) by (simp add: read_chroma_def read_active_def)
    have ok: "row_ok cd i (ch_document r)" using r(2) by (simp add: chroma_row_ok_def)
    obtain m0 where "i = cd_uuid5 cd (mi_id m0)"
      "vector_from_store cd (ch_document r) (ch_embedding r) = Inr (with_vector (ch_embedding r) (m0\<lparr>mi_embedding := None\<rparr>))"
      using row_ok_reads [OF cd ok act] by metis
    then have "cd_uuid5 cd (mi_id m) = i" using kept(2) by auto
    then show ?thesis
      using guarded_row_good [OF cd ns recall_filter_guarding f ok] read r(1) by (auto simp: read_chroma_def)
  qed
  have all: "\<forall>i\<in>fst ` set (en_pick e q n ?rows). \<forall>m. ?get i = Inr (Some m) \<longrightarrow> (\<lambda>m. cd_uuid5 cd (mi_id m)) m = i"
    using got by blast
  note out = collect_sound [OF all read]
  have "distinct (map sc_id hits)"
    using out pick_distinct [OF e d, of q n] by (intro distinct_by_row [of cd]) simp
  moreover have "chroma_view cd s (chroma_key cd dims ns (sc_id x)) = Some (sc_item x) \<and> good_hit ns caller (sc_item x)"
    if "x \<in> set hits" for x
  proof -
    have "cd_uuid5 cd (sc_id x) \<in> fst ` set (en_pick e q n ?rows)" "?get (cd_uuid5 cd (sc_id x)) = Inr (Some (sc_item x))"
      using out that by auto
    from got [OF this] obtain r where "dict_get ?t (cd_uuid5 cd (sc_id x)) = Some r" "read_chroma cd r = Some (sc_item x)"
      "good_hit ns caller (sc_item x)" by blast
    then show ?thesis by (simp add: chroma_view_def chroma_key_def)
  qed
  moreover have "1 \<le> k \<longrightarrow> length hits \<le> k" using out by auto
  ultimately show ?thesis by blast
qed simp

interpretation chroma: exact_vector_store "chroma_upsert cd e dims" "chroma_semantic cd e dims min_widen" "chroma_invalidate cd dims"
  "chroma_inv cd e" "chroma_view cd" "chroma_key cd dims" chroma_admits_item chroma_admits "stored_record e dims"
  for cd e dims min_widen
  by (rule exact_vector_storeI; rule chroma_upsert_law chroma_inval chroma_search stored_record_same; assumption)

section \<open>FAISS implements the interface\<close>

text \<open>The index a name stands for: the loaded one, or what a load would find.\<close>
definition faiss_current :: "faiss_config \<Rightarrow> faiss_state \<Rightarrow> string \<Rightarrow> faiss_index" where
  "faiss_current fc s name = fst (faiss_open fc name s)"

definition faiss_index_ok :: "codec \<Rightarrow> faiss_config \<Rightarrow> faiss_index \<Rightarrow> bool" where
  "faiss_index_ok cd fc idx = (distinct (map fst (fi_vectors idx))
     \<and> (\<forall>i pid pl. dict_get (fi_docstore idx) i = Some (pid, pl) \<longrightarrow> i = fc_int_id fc pid \<and> row_ok cd pid pl))"

definition faiss_inv :: "codec \<Rightarrow> nat engine \<Rightarrow> faiss_config \<Rightarrow> faiss_state \<Rightarrow> bool" where
  "faiss_inv cd e fc s = (codec_ok cd \<and> engine_ok e
     \<and> (\<forall>c idx. dict_get (fs_indices s) c = Some idx \<longrightarrow> faiss_index_ok cd fc idx)
     \<and> (\<forall>c idx. dict_get (fs_files s) c = Some idx \<longrightarrow> faiss_index_ok cd fc idx))"

definition faiss_doc :: "codec \<Rightarrow> faiss_config \<Rightarrow> faiss_index \<Rightarrow> string \<Rightarrow> memory_item option" where
  "faiss_doc cd fc idx pid = (let i = fc_int_id fc pid in case dict_get (fi_docstore idx) i of
       Some (p, pl) \<Rightarrow> if p = pid \<and> i \<in> fst ` set (fi_vectors idx) then read_active cd [] pl else None
     | None \<Rightarrow> None)"

definition faiss_view :: "codec \<Rightarrow> faiss_config \<Rightarrow> faiss_state \<Rightarrow> string \<times> string \<Rightarrow> memory_item option" where
  "faiss_view cd fc s k = faiss_doc cd fc (faiss_current fc s (fst k)) (snd k)"

definition faiss_key :: "codec \<Rightarrow> faiss_config \<Rightarrow> namespace \<Rightarrow> string \<Rightarrow> string \<times> string" where
  "faiss_key cd fc ns mid = (faiss_collection cd (fc_dims fc) ns, cd_uuid5 cd mid)"

definition faiss_readback :: "memory_item \<Rightarrow> memory_item" where
  "faiss_readback m = with_vector [] (m\<lparr>mi_embedding := None\<rparr>)"

lemma faiss_current_keep [simp]:
  "faiss_current fc (faiss_keep name idx s) = (faiss_current fc s)(name := idx)"
  by (rule ext) (auto simp: faiss_current_def faiss_open_def faiss_keep_def faiss_load_def split: option.split)

text \<open>Saving is only seen once the index is dropped from memory.\<close>
lemma faiss_current_save [simp]:
  "faiss_current fc (faiss_save fc name idx (faiss_keep name idx s)) = (faiss_current fc s)(name := idx)"
  by (rule ext) (auto simp: faiss_current_def faiss_open_def faiss_keep_def faiss_save_def faiss_load_def dict_default_def
      split: option.split)

lemma faiss_current_open [simp]: "faiss_current fc (snd (faiss_open fc name s)) = faiss_current fc s"
  by (rule ext) (auto simp: faiss_current_def faiss_open_def faiss_load_def split: option.split)

lemma faiss_current_ok: "faiss_inv cd e fc s \<Longrightarrow> faiss_index_ok cd fc (faiss_current fc s name)"
  by (auto simp: faiss_inv_def faiss_current_def faiss_open_def faiss_load_def dict_default_def faiss_index_ok_def
      empty_index_def split: option.split)

lemma faiss_keep_inv: "faiss_inv cd e fc s \<Longrightarrow> faiss_index_ok cd fc idx \<Longrightarrow> faiss_inv cd e fc (faiss_keep name idx s)"
  by (auto simp: faiss_inv_def faiss_keep_def)

lemma faiss_save_inv: "faiss_inv cd e fc s \<Longrightarrow> faiss_index_ok cd fc idx \<Longrightarrow> faiss_inv cd e fc (faiss_save fc name idx s)"
  by (auto simp: faiss_inv_def faiss_save_def)

lemma faiss_open_inv: "faiss_inv cd e fc s \<Longrightarrow> faiss_inv cd e fc (snd (faiss_open fc name s))"
  using faiss_current_ok [of cd e fc s name]
  by (auto simp: faiss_inv_def faiss_open_def faiss_current_def split: option.split)

text \<open>The index with one vector taken out, and with one row written.\<close>
definition without_vector :: "nat \<Rightarrow> faiss_index \<Rightarrow> faiss_index" where
  "without_vector i idx = idx\<lparr>fi_vectors := dict_pop i (fi_vectors idx)\<rparr>"

definition with_row :: "nat \<Rightarrow> rat list \<Rightarrow> string \<times> payload \<Rightarrow> faiss_index \<Rightarrow> faiss_index" where
  "with_row i v d idx = \<lparr>fi_vectors = dict_put i v (fi_vectors (without_vector i idx)),
     fi_docstore = dict_put i d (fi_docstore (without_vector i idx))\<rparr>"

definition with_doc :: "nat \<Rightarrow> string \<times> payload \<Rightarrow> faiss_index \<Rightarrow> faiss_index" where
  "with_doc i d idx = idx\<lparr>fi_docstore := dict_put i d (fi_docstore idx)\<rparr>"

lemma dict_pop_keys: "fst ` set (dict_pop i d) = fst ` set d - {i}"
  using arg_cong [OF delete_keys [of i d], of set] by simp

lemma faiss_index_ok_changes:
  assumes "faiss_index_ok cd fc idx"
  shows "faiss_index_ok cd fc (without_vector i idx)"
    and "row_ok cd pid pl \<Longrightarrow> faiss_index_ok cd fc (with_row (fc_int_id fc pid) v (pid, pl) idx)"
    and "row_ok cd pid pl \<Longrightarrow> faiss_index_ok cd fc (with_doc (fc_int_id fc pid) (pid, pl) idx)"
  using assms
  by (auto simp: faiss_index_ok_def without_vector_def with_row_def with_doc_def intro!: distinct_update distinct_delete split: if_splits)

lemma faiss_doc_changes:
  "faiss_doc cd fc (without_vector i idx) pid = Some x \<Longrightarrow> faiss_doc cd fc idx pid = Some x"
  "faiss_doc cd fc (with_row (fc_int_id fc pid) v (pid, pl) idx) pid = read_active cd [] pl"
  "pid' \<noteq> pid \<Longrightarrow> faiss_doc cd fc (with_row (fc_int_id fc pid) v (pid, pl) idx) pid' = Some x \<Longrightarrow> faiss_doc cd fc idx pid' = Some x"
  "faiss_doc cd fc (with_doc i (pid, superseded_payload cd t w why pl) idx) p = Some x \<Longrightarrow> faiss_doc cd fc idx p = Some x"
  by (auto simp: faiss_doc_def without_vector_def with_row_def with_doc_def Let_def dict_pop_keys dict_put_keys
      split: option.splits if_splits)

lemma faiss_upsert_cases:
  assumes "faiss_upsert cd e fc m s = (r, s')"
  defines "c \<equiv> faiss_collection cd (fc_dims fc) (mi_namespace m)" and "i \<equiv> fc_int_id fc (cd_uuid5 cd (mi_id m))"
  obtains x where "r = Inl x" "s' = s"
  | x where "r = Inl x" "s' = snd (faiss_open fc c s)"
  | x where "r = Inl x" "s' = faiss_keep c (without_vector i (faiss_current fc s c)) (snd (faiss_open fc c s))"
    "length (point_vector (fc_dims fc) m) \<noteq> fc_dims fc"
  | a idx where "r = Inr ()" "point_authorized m = Inr a"
    "idx = with_row i (en_stored e (point_vector (fc_dims fc) m)) (cd_uuid5 cd (mi_id m), point_payload cd m a) (faiss_current fc s c)"
    "s' = faiss_save fc c idx (faiss_keep c idx (snd (faiss_open fc c s)))"
proof (cases "ns_visibility (mi_namespace m) = SHARED")
  case True
  then show ?thesis using assms(1) that(1) by (auto simp: faiss_upsert_def)
next
  case False
  obtain idx s1 where op: "faiss_open fc c s = (idx, s1)" by fastforce
  then have cur: "faiss_current fc s c = idx" by (simp add: faiss_current_def)
  show ?thesis
  proof (cases "point_authorized m")
    case (Inl x)
    then show ?thesis
      using assms(1) that(2) False op
      by (auto simp: faiss_upsert_def faiss_to_store_def in_collection_def vector_to_store_def Let_def c_def)
  next
    case (Inr a)
    then show ?thesis
      using assms(1) that(3,4) False op cur
      by (cases "length (point_vector (fc_dims fc) m) = fc_dims fc")
        (auto simp: faiss_upsert_def faiss_to_store_def in_collection_def vector_to_store_def Let_def c_def i_def
          without_vector_def with_row_def)
  qed
qed

lemma faiss_upsert_inv:
  assumes "faiss_inv cd e fc s" "well_formed_item m" "faiss_upsert cd e fc m s = (r, s')"
  shows "faiss_inv cd e fc s'"
  using assms(3)
proof (cases rule: faiss_upsert_cases)
  case (3 x)
  then show ?thesis
    using faiss_index_ok_changes(1) [OF faiss_current_ok [OF assms(1)]] by (auto intro!: faiss_keep_inv faiss_open_inv assms(1))
next
  case (4 a idx)
  then have "faiss_index_ok cd fc idx"
    using faiss_index_ok_changes(2) [OF faiss_current_ok [OF assms(1)] row_ok_point [OF assms(2) 4(2)]] by simp
  then show ?thesis
    using 4(4) by (auto intro!: faiss_keep_inv faiss_open_inv faiss_save_inv assms(1))
qed (use assms(1) faiss_open_inv in auto)

lemma faiss_upsert_view:
  assumes "faiss_inv cd e fc s" "well_formed_item m" "faiss_upsert cd e fc m s = (r, s')"
  shows "r = Inr () \<Longrightarrow> faiss_view cd fc s' (faiss_key cd fc (mi_namespace m) (mi_id m)) =
      (if mi_state m = ACTIVE then Some (faiss_readback m) else None)"
    and "(r = Inr () \<Longrightarrow> k \<noteq> faiss_key cd fc (mi_namespace m) (mi_id m)) \<Longrightarrow> faiss_view cd fc s' k = Some x \<Longrightarrow> faiss_view cd fc s k = Some x"
proof -
  have cd: "codec_ok cd" using assms(1) by (simp add: faiss_inv_def)
  have "(r = Inr () \<longrightarrow> faiss_view cd fc s' (faiss_key cd fc (mi_namespace m) (mi_id m)) =
      (if mi_state m = ACTIVE then Some (faiss_readback m) else None))
    \<and> ((r = Inr () \<longrightarrow> k \<noteq> faiss_key cd fc (mi_namespace m) (mi_id m)) \<longrightarrow> faiss_view cd fc s' k = Some x \<longrightarrow> faiss_view cd fc s k = Some x)"
    using assms(3)
  proof (cases rule: faiss_upsert_cases)
    case (4 a idx)
    have view: "faiss_view cd fc s' (c, pid) =
        (if c = faiss_collection cd (fc_dims fc) (mi_namespace m) then faiss_doc cd fc idx pid else faiss_view cd fc s (c, pid))" for c pid
      by (simp add: faiss_view_def 4(4))
    show ?thesis
    proof (intro conjI impI)
      show "faiss_view cd fc s' (faiss_key cd fc (mi_namespace m) (mi_id m)) = (if mi_state m = ACTIVE then Some (faiss_readback m) else None)"
        by (simp add: faiss_key_def view 4(3) faiss_doc_changes(2) read_active_point [OF cd assms(2)] faiss_readback_def)
      assume other: "r = Inr () \<longrightarrow> k \<noteq> faiss_key cd fc (mi_namespace m) (mi_id m)" "faiss_view cd fc s' k = Some x"
      obtain c pid where k: "k = (c, pid)" by fastforce
      show "faiss_view cd fc s k = Some x"
      proof (cases "c = faiss_collection cd (fc_dims fc) (mi_namespace m)")
        case True
        then have "pid \<noteq> cd_uuid5 cd (mi_id m)" using other(1) 4(1) k by (simp add: faiss_key_def)
        moreover have "faiss_doc cd fc idx pid = Some x" using other(2) True k by (simp add: view)
        ultimately have "faiss_doc cd fc (faiss_current fc s (faiss_collection cd (fc_dims fc) (mi_namespace m))) pid = Some x"
          unfolding 4(3) by (rule faiss_doc_changes(3))
        then show ?thesis using True k by (simp add: faiss_view_def)
      qed (use other(2) k view in simp)
    qed
  qed (auto simp: faiss_view_def dest: faiss_doc_changes(1) split: if_splits)
  then show "r = Inr () \<Longrightarrow> faiss_view cd fc s' (faiss_key cd fc (mi_namespace m) (mi_id m)) =
      (if mi_state m = ACTIVE then Some (faiss_readback m) else None)"
    and "(r = Inr () \<Longrightarrow> k \<noteq> faiss_key cd fc (mi_namespace m) (mi_id m)) \<Longrightarrow> faiss_view cd fc s' k = Some x \<Longrightarrow> faiss_view cd fc s k = Some x"
    by blast+
qed

lemma faiss_invalidate_cases:
  assumes "faiss_invalidate cd fc ns l w t why s = (r, s')"
  defines "c \<equiv> faiss_collection cd (fc_dims fc) ns" and "i \<equiv> fc_int_id fc (cd_uuid5 cd l)"
  obtains x where "r = Inl x" "s' = s"
  | "r = Inr ()" "s' = snd (faiss_open fc c s)" "dict_get (fi_docstore (faiss_current fc s c)) i = None"
  | pid pl idx where "r = Inr ()" "dict_get (fi_docstore (faiss_current fc s c)) i = Some (pid, pl)"
    "idx = with_doc i (pid, superseded_payload cd t w why pl) (faiss_current fc s c)"
    "s' = faiss_save fc c idx (faiss_keep c idx (snd (faiss_open fc c s)))"
proof (cases "ns_visibility ns = SHARED")
  case True
  then show ?thesis using assms(1) that(1) by (auto simp: faiss_invalidate_def)
next
  case False
  obtain idx s1 where op: "faiss_open fc c s = (idx, s1)" by fastforce
  then have cur: "faiss_current fc s c = idx" by (simp add: faiss_current_def)
  show ?thesis
  proof (cases "dict_get (fi_docstore idx) i")
    case None
    then show ?thesis
      using assms(1) that(2) False op cur by (auto simp: faiss_invalidate_def Let_def c_def i_def)
  next
    case (Some d)
    obtain pid pl where "d = (pid, pl)" by fastforce
    then show ?thesis
      using assms(1) that(3) False op cur Some by (auto simp: faiss_invalidate_def Let_def c_def i_def with_doc_def)
  qed
qed

lemma faiss_doc_superseded:
  "faiss_doc cd fc (with_doc (fc_int_id fc pid) (p, superseded_payload cd t w why pl) idx) pid = None"
  by (simp add: faiss_doc_def with_doc_def Let_def)

lemma faiss_inval:
  assumes inv: "faiss_inv cd e fc s" and iv: "faiss_invalidate cd fc ns l w t why s = (r, s')"
  shows "faiss_inv cd e fc s'"
    and "r = Inr () \<Longrightarrow> faiss_view cd fc s' (faiss_key cd fc ns l) = None"
    and "faiss_view cd fc s' k = Some x \<Longrightarrow> faiss_view cd fc s k = Some x"
proof -
  have "faiss_inv cd e fc s' \<and> (r = Inr () \<longrightarrow> faiss_view cd fc s' (faiss_key cd fc ns l) = None)
    \<and> (faiss_view cd fc s' k = Some x \<longrightarrow> faiss_view cd fc s k = Some x)"
    using iv
  proof (cases rule: faiss_invalidate_cases)
    case (1 x)
    then show ?thesis using inv by simp
  next
    case 2
    then show ?thesis
      using faiss_open_inv [OF inv] by (simp add: faiss_view_def faiss_key_def faiss_doc_def Let_def)
  next
    case (3 pid pl idx)
    have i: "fc_int_id fc (cd_uuid5 cd l) = fc_int_id fc pid"
      using faiss_current_ok [OF inv] 3(2) by (auto simp: faiss_index_ok_def)
    have "faiss_index_ok cd fc idx"
      unfolding 3(3) i by (rule faiss_index_ok_changes(3) [OF faiss_current_ok [OF inv]]) simp
    then have "faiss_inv cd e fc s'"
      unfolding 3(4) by (intro faiss_save_inv faiss_keep_inv faiss_open_inv inv)
    moreover have "faiss_view cd fc s' (faiss_key cd fc ns l) = None"
      by (simp add: faiss_view_def faiss_key_def 3(3,4) faiss_doc_superseded)
    moreover have "faiss_view cd fc s' k = Some x \<longrightarrow> faiss_view cd fc s k = Some x"
      by (simp add: faiss_view_def 3(3,4)) (blast dest: faiss_doc_changes(4))
    ultimately show ?thesis by blast
  qed
  then show "faiss_inv cd e fc s'"
    and "r = Inr () \<Longrightarrow> faiss_view cd fc s' (faiss_key cd fc ns l) = None"
    and "faiss_view cd fc s' k = Some x \<Longrightarrow> faiss_view cd fc s k = Some x" by blast+
qed

text \<open>A search leaves the contents as they are.\<close>
lemma faiss_semantic_state:
  assumes "faiss_inv cd e fc s" "faiss_semantic cd e fc ns q k caller s = (r, s')"
  shows "faiss_inv cd e fc s'" "faiss_view cd fc s' = faiss_view cd fc s"
proof -
  have "s' = s \<or> s' = snd (faiss_open fc (faiss_collection cd (fc_dims fc) ns) s)"
    using assms(2) by (auto simp: faiss_semantic_def split: if_splits prod.splits)
  then show "faiss_inv cd e fc s'" "faiss_view cd fc s' = faiss_view cd fc s"
    using faiss_open_inv [OF assms(1)] assms(1) by (auto simp: faiss_view_def)
qed

definition faiss_get :: "codec \<Rightarrow> string \<Rightarrow> (nat, string \<times> payload) dict \<Rightarrow> nat \<Rightarrow> memory_item option or_raise" where
  "faiss_get cd prefix docs i = (case dict_get docs i of
       None \<Rightarrow> Inr None
     | Some (pid, pl) \<Rightarrow> if \<not> str_is pl ''namespace'' prefix \<or> \<not> str_is pl ''state'' (state_value ACTIVE) then Inr None
         else rbind (vector_from_store cd pl []) (\<lambda>m. Inr (Some m)))"

lemma faiss_collect_loop: "faiss_collect cd prefix docs limit n hits = collect (faiss_get cd prefix docs) (\<lambda>x. x) limit n hits"
proof (induction hits arbitrary: n)
  case (Cons h hits)
  obtain i score where h: "h = (i, score)" by fastforce
  show ?case
  proof (cases "dict_get docs i")
    case (Some d)
    obtain pid pl where "d = (pid, pl)" by fastforce
    then show ?thesis
      using Cons.IH h Some by (cases "vector_from_store cd pl []") (simp_all add: faiss_get_def)
  qed (simp add: h faiss_get_def Cons.IH)
qed simp

lemma faiss_search:
  assumes inv: "faiss_inv cd e fc s" and ns: "valid_ns ns" and search: "fst (faiss_semantic cd e fc ns q k caller s) = Inr hits"
  shows "distinct (map sc_id hits) \<and> (1 \<le> k \<longrightarrow> length hits \<le> k)
    \<and> (\<forall>x\<in>set hits. faiss_view cd fc s (faiss_key cd fc ns (sc_id x)) = Some (sc_item x) \<and> good_hit ns caller (sc_item x))"
proof (cases "hits = []")
  case False
  let ?idx = "faiss_current fc s (faiss_collection cd (fc_dims fc) ns)"
  let ?hits = "en_pick e q (length (fi_vectors ?idx)) (fi_vectors ?idx)"
  let ?get = "faiss_get cd (to_prefix ns) (fi_docstore ?idx)"
  let ?name = "\<lambda>m. fc_int_id fc (cd_uuid5 cd (mi_id m))"
  have private_ns: "ns_visibility ns \<noteq> SHARED" using search by (auto simp: faiss_semantic_def)
  have read: "collect ?get (\<lambda>x. x) k 0 ?hits = Inr hits"
    using search False
    by (auto simp: faiss_semantic_def faiss_collect_loop faiss_current_def case_prod_unfold Let_def split: if_splits)
  have cd: "codec_ok cd" and e: "engine_ok e" using inv by (simp_all add: faiss_inv_def)
  have ok: "faiss_index_ok cd fc ?idx" using faiss_current_ok inv by blast
  then have d: "distinct (map fst (fi_vectors ?idx))" by (simp add: faiss_index_ok_def)
  have got: "?name m = i \<and> faiss_doc cd fc ?idx (cd_uuid5 cd (mi_id m)) = Some m \<and> good_hit ns caller m"
    if i: "i \<in> fst ` set ?hits" and m: "?get i = Inr (Some m)" for i m
  proof -
    obtain pid pl where doc: "dict_get (fi_docstore ?idx) i = Some (pid, pl)" "str_is pl ''namespace'' (to_prefix ns)"
      "str_is pl ''state'' (state_value ACTIVE)" "vector_from_store cd pl [] = Inr m"
      using m by (auto simp: faiss_get_def rbind_Inr_iff simp del: state_value.simps split: option.splits if_splits)
    have row: "i = fc_int_id fc pid" "row_ok cd pid pl" using ok doc(1) by (auto simp: faiss_index_ok_def)
    obtain m0 where "pid = cd_uuid5 cd (mi_id m0)" "vector_from_store cd pl [] = Inr (with_vector [] (m0\<lparr>mi_embedding := None\<rparr>))"
      using row_ok_reads [OF cd row(2) doc(3)] by metis
    then have pid: "pid = cd_uuid5 cd (mi_id m)" using doc(4) by auto
    have act: "read_active cd [] pl = Some m" using doc(3,4) by (simp add: read_active_def)
    have "i \<in> fst ` set (fi_vectors ?idx)" using i pick_in [OF e d] by auto
    then have "faiss_doc cd fc ?idx (cd_uuid5 cd (mi_id m)) = Some m"
      using doc(1) row(1) pid act by (simp add: faiss_doc_def Let_def)
    moreover have "good_hit ns caller m"
      using guarded_row_good [OF cd ns recall_filter_guarding [of cd ns None] _ row(2) act] doc(2,3) private_ns
      by (cases caller) (simp_all add: recall_filter_def good_hit_def permitted_def)
    ultimately show ?thesis using pid row(1) by simp
  qed
  have all: "\<forall>i\<in>fst ` set ?hits. \<forall>m. ?get i = Inr (Some m) \<longrightarrow> ?name m = i" using got by blast
  note out = collect_sound [OF all read]
  have "distinct (map (\<lambda>x. ?name (sc_item x)) hits)"
    using out pick_distinct [OF e d] by blast
  then have "distinct (map sc_id hits)" by (induction hits) auto
  moreover have "faiss_view cd fc s (faiss_key cd fc ns (sc_id x)) = Some (sc_item x) \<and> good_hit ns caller (sc_item x)"
    if "x \<in> set hits" for x
  proof -
    have "?name (sc_item x) \<in> fst ` set ?hits" "?get (?name (sc_item x)) = Inr (Some (sc_item x))"
      using out that by auto
    from got [OF this] show ?thesis by (simp add: faiss_view_def faiss_key_def)
  qed
  moreover have "1 \<le> k \<longrightarrow> length hits \<le> k" using out by auto
  ultimately show ?thesis by blast
qed simp

lemma faiss_readback_same:
  "mi_id (faiss_readback m) = mi_id m \<and> mi_namespace (faiss_readback m) = mi_namespace m \<and> mi_content (faiss_readback m) = mi_content m"
  by (simp add: faiss_readback_def)

interpretation faiss: vector_store "faiss_upsert cd e fc" "\<lambda>s ns q k caller. fst (faiss_semantic cd e fc ns q k caller s)"
  "faiss_invalidate cd fc" "faiss_inv cd e fc" "faiss_view cd fc" "faiss_key cd fc" well_formed_item "\<lambda>_. True" faiss_readback
  for cd e fc
proof (unfold_locales, goal_cases)
  case (2 s m s') then show ?case using faiss_upsert_view(1) by blast
next
  case (3 s m s' k x) then show ?case using faiss_upsert_view(2) by blast
next
  case (4 s m x s' k y) then show ?case using faiss_upsert_view(2) by blast
next
  case (6 s ns l w t why s') then show ?case using faiss_inval(2) by blast
next
  case (9 s ns caller q n hits) then show ?case by (intro faiss_search)
qed (fact faiss_upsert_inv faiss_inval(1,3) faiss_readback_same | rule faiss_upsert_inv faiss_inval(1,3) faiss_readback_same; assumption)+

section \<open>Properties\<close>

definition no_qdrant :: qdrant_state where
  "no_qdrant = \<lparr>qs_collections = [], qs_ensured = []\<rparr>"

definition no_pgvector :: pgvector_state where
  "no_pgvector = \<lparr>pgs_tables = [], pgs_ensured = []\<rparr>"

definition no_faiss :: faiss_state where
  "no_faiss = \<lparr>fs_indices = [], fs_files = []\<rparr>"

lemma no_store:
  "codec_ok cd \<Longrightarrow> engine_ok e \<Longrightarrow> qdrant_inv cd e no_qdrant" "qdrant_view cd no_qdrant k = None"
  "codec_ok cd \<Longrightarrow> engine_ok e \<Longrightarrow> pgvector_inv cd e no_pgvector" "pgvector_view cd no_pgvector k = None"
  "codec_ok cd \<Longrightarrow> engine_ok e \<Longrightarrow> chroma_inv cd e []" "chroma_view cd [] k = None"
  "codec_ok cd \<Longrightarrow> engine_ok e' \<Longrightarrow> faiss_inv cd e' fc no_faiss" "faiss_view cd fc no_faiss k = None"
  by (simp_all add: no_qdrant_def no_pgvector_def no_faiss_def qdrant_inv_def pgvector_inv_def chroma_inv_def faiss_inv_def
      qdrant_view_def qdrant_points_def pgvector_view_def pgvector_rows_def chroma_view_def chroma_rows_def
      faiss_view_def faiss_current_def faiss_open_def faiss_load_def dict_default_def faiss_doc_def empty_index_def Let_def)

text \<open>What a search promises after a history.\<close>
definition only_written :: "vector_op list \<Rightarrow> namespace \<Rightarrow> caller_set \<Rightarrow> nat \<Rightarrow> scored list \<Rightarrow> bool" where
  "only_written ops ns caller limit hits = (distinct (map sc_id hits) \<and> (1 \<le> limit \<longrightarrow> length hits \<le> limit)
     \<and> (\<forall>x\<in>set hits. good_hit ns caller (sc_item x)
          \<and> (\<exists>m. Write m \<in> set ops \<and> mi_namespace m = ns \<and> mi_id m = sc_id x \<and> mi_content m = mi_content (sc_item x))))"

text \<open>
  C6. A search of the server-side mid-term stores is safe for tenants: after any history of writes and
  invalidations, by any users in any namespaces and with calls that fail in between, a search of Qdrant
  or of PostgreSQL returns at most limit different records, each active, each written earlier for the
  very namespace the search names, with its content unchanged, and, in a shared namespace, each
  authorized for one of the caller's identities.
\<close>
theorem server_search_is_tenant_safe:
  assumes "codec_ok cd" "engine_ok e" "\<forall>m. Write m \<in> set ops \<longrightarrow> well_formed_item m" "valid_ns ns"
  shows "(qdrant_semantic cd e dims (run_ops (qdrant_upsert cd e dims) (qdrant_invalidate cd dims) ops no_qdrant) ns q limit caller
      = Inr hits \<longrightarrow> only_written ops ns caller limit hits)
    \<and> (pgvector_semantic cd e dims (run_ops (pgvector_upsert cd e dims) (pgvector_invalidate cd dims) ops no_pgvector) ns q limit caller
      = Inr hits \<longrightarrow> only_written ops ns caller limit hits)"
  unfolding only_written_def
  using qdrant.search_after [OF no_store(1,2) assms(3,4)] pgvector.search_after [OF no_store(3,4) assms(3,4)] assms(1,2)
  by blast+

text \<open>
  C8. The embedded mid-term stores are as safe: FAISS after any history, also with the index files of
  earlier runs and ids that collide, and Chroma where neither the ids of a record nor the caller's
  identities hold the separator it joins them with.
\<close>
theorem embedded_search_is_tenant_safe:
  assumes "codec_ok cd" "engine_ok e" "engine_ok e'" "\<forall>m. Write m \<in> set ops \<longrightarrow> well_formed_item m" "valid_ns ns"
  shows "(fst (faiss_semantic cd e' fc ns q limit caller (run_ops (faiss_upsert cd e' fc) (faiss_invalidate cd fc) ops no_faiss))
      = Inr hits \<longrightarrow> only_written ops ns caller limit hits)
    \<and> ((\<forall>m. Write m \<in> set ops \<longrightarrow> chroma_admits_item m) \<longrightarrow> chroma_admits caller \<longrightarrow>
      chroma_semantic cd e dims min_widen (run_ops (chroma_upsert cd e dims) (chroma_invalidate cd dims) ops []) ns q limit caller
      = Inr hits \<longrightarrow> only_written ops ns caller limit hits)"
  unfolding only_written_def
  using faiss.search_after [OF no_store(7,8) assms(4,5)] chroma.search_after [OF no_store(5,6) _ assms(5)] assms(1-3)
  by blast+

text \<open>
  C22. A write to Qdrant is found: whatever was done before, and whatever is done afterwards to other
  rows, an active record with a vector of the right length is returned to a caller who may see it, by
  an exact search that asks for at least as many rows as the collection has.
\<close>
theorem qdrant_written_is_found:
  assumes "codec_ok cd" "engine_exact e" "\<forall>m'. Write m' \<in> set before \<longrightarrow> well_formed_item m'"
    and m: "well_formed_item m" "mi_state m = ACTIVE" "point_authorized m = Inr a" "length (point_vector dims m) = dims"
      "permitted (mi_namespace m) caller m"
    and since: "\<forall>op\<in>set since. case op of
        Write m' \<Rightarrow> well_formed_item m' \<and> qdrant_key cd dims (mi_namespace m') (mi_id m') \<noteq> qdrant_key cd dims (mi_namespace m) (mi_id m)
      | Retire ns' l w t why \<Rightarrow> qdrant_key cd dims ns' l \<noteq> qdrant_key cd dims (mi_namespace m) (mi_id m)"
    and s: "s = run_ops (qdrant_upsert cd e dims) (qdrant_invalidate cd dims) (before @ Write m # since) no_qdrant"
    and "length q = dims" "length (qdrant_points (qdrant_collection dims (mi_namespace m)) s) \<le> limit"
  shows "\<exists>hits. qdrant_semantic cd e dims s (mi_namespace m) q limit caller = Inr hits \<and> stored_record e dims m \<in> sc_item ` set hits"
proof -
  let ?run = "run_ops (qdrant_upsert cd e dims) (qdrant_invalidate cd dims)"
  let ?k = "qdrant_key cd dims (mi_namespace m) (mi_id m)"
  have "engine_ok e" using assms(2) by (simp add: engine_exact_def)
  then have inv: "qdrant_inv cd e (?run before no_qdrant)"
    using qdrant.run_inv [OF no_store(1) assms(3)] assms(1) by simp
  obtain s1 where up: "qdrant_upsert cd e dims m (?run before no_qdrant) = (Inr (), s1)"
    using m(3,4) by (simp add: qdrant_upsert_def vector_to_store_def Let_def)
  have s1: "qdrant_inv cd e s1" "qdrant_view cd s1 ?k = Some (stored_record e dims m)"
    using qdrant.upsert_inv [OF inv m(1) up] qdrant.upsert_written [OF inv m(1) up] m(2) by simp_all
  have writes: "\<forall>m'. Write m' \<in> set since \<longrightarrow> well_formed_item m'"
  proof (intro allI impI)
    fix m' assume "Write m' \<in> set since"
    from bspec [OF since this] show "well_formed_item m'" by simp
  qed
  have s_eq: "s = ?run since s1" using s up by (simp add: run_append)
  have "qdrant_inv cd e s" unfolding s_eq by (rule qdrant.run_inv [OF s1(1) writes])
  moreover have "qdrant_view cd s ?k = Some (stored_record e dims m)"
    unfolding s_eq using qdrant.run_untouched [OF s1(1) since] s1(2) by (simp only:)
  moreover have "good_hit (mi_namespace m) caller (stored_record e dims m)"
    using m(2,5) by (simp add: good_hit_def stored_record_def)
  ultimately show ?thesis by (intro qdrant_finds [OF _ assms(2)] assms(11,12))
qed

text \<open>A restart drops the loaded indices; the files stay.\<close>
definition faiss_restart :: "faiss_state \<Rightarrow> faiss_state" where
  "faiss_restart s = s\<lparr>fs_indices := []\<rparr>"

definition faiss_saved :: "faiss_config \<Rightarrow> faiss_state \<Rightarrow> bool" where
  "faiss_saved fc s = (\<forall>c idx. dict_get (fs_indices s) c = Some idx \<longrightarrow> faiss_load fc c s = idx)"

lemma faiss_saved_restart: "faiss_saved fc s \<Longrightarrow> faiss_current fc (faiss_restart s) = faiss_current fc s"
  by (rule ext) (auto simp: faiss_saved_def faiss_restart_def faiss_current_def faiss_open_def faiss_load_def split: option.split)

lemma faiss_saved_open: "faiss_saved fc s \<Longrightarrow> faiss_saved fc (snd (faiss_open fc c s))"
  by (auto simp: faiss_saved_def faiss_open_def faiss_load_def split: option.split)

lemma faiss_saved_save: "fc_persist fc \<Longrightarrow> faiss_saved fc s \<Longrightarrow> faiss_saved fc (faiss_save fc c idx (faiss_keep c idx s))"
  by (auto simp: faiss_saved_def faiss_save_def faiss_keep_def faiss_load_def dict_default_def)

lemma faiss_saved_run:
  assumes "fc_persist fc" "\<forall>m. Write m \<in> set ops \<longrightarrow> length (point_vector (fc_dims fc) m) = fc_dims fc" "faiss_saved fc s"
  shows "faiss_saved fc (run_ops (faiss_upsert cd e fc) (faiss_invalidate cd fc) ops s)"
  using assms(2,3)
proof (induction ops arbitrary: s)
  case (Cons op ops)
  have "faiss_saved fc (run_ops (faiss_upsert cd e fc) (faiss_invalidate cd fc) [op] s)"
  proof (cases op)
    case (Write m)
    obtain r s' where up: "faiss_upsert cd e fc m s = (r, s')" by fastforce
    have fits: "length (point_vector (fc_dims fc) m) = fc_dims fc" using Cons.prems(1) Write by simp
    from up have "faiss_saved fc s'"
      by (cases rule: faiss_upsert_cases) (use Cons.prems(2) assms(1) fits in \<open>auto intro: faiss_saved_open faiss_saved_save\<close>)
    then show ?thesis using Write up by simp
  next
    case (Retire ns l w t why)
    obtain r s' where iv: "faiss_invalidate cd fc ns l w t why s = (r, s')" by fastforce
    from iv have "faiss_saved fc s'"
      by (cases rule: faiss_invalidate_cases) (use Cons.prems(2) assms(1) in \<open>auto intro: faiss_saved_open faiss_saved_save\<close>)
    then show ?thesis using Retire iv by simp
  qed
  then show ?case using Cons.IH Cons.prems(1) by (subst run_ops_step) simp
qed simp

lemma faiss_semantic_current:
  assumes "faiss_current fc s = faiss_current fc s'"
  shows "fst (faiss_semantic cd e fc ns q limit caller s) = fst (faiss_semantic cd e fc ns q limit caller s')"
proof -
  have "fst (faiss_open fc c s) = fst (faiss_open fc c s')" for c
    using fun_cong [OF assms, of c] by (simp add: faiss_current_def)
  then show ?thesis
    by (cases "ns_visibility ns = SHARED") (simp_all add: faiss_semantic_def case_prod_unfold Let_def)
qed

text \<open>
  C28. The index files keep everything: with a path configured, after any history of writes of vectors
  of the right length and of invalidations, a process that starts again on the files answers every
  search as the running one does.
\<close>
theorem faiss_restart_answers_the_same:
  assumes "fc_persist fc" "\<forall>m. Write m \<in> set ops \<longrightarrow> length (point_vector (fc_dims fc) m) = fc_dims fc"
  shows "fst (faiss_semantic cd e fc ns q limit caller
      (faiss_restart (run_ops (faiss_upsert cd e fc) (faiss_invalidate cd fc) ops no_faiss)))
    = fst (faiss_semantic cd e fc ns q limit caller (run_ops (faiss_upsert cd e fc) (faiss_invalidate cd fc) ops no_faiss))"
  by (rule faiss_semantic_current)
    (simp add: faiss_saved_restart [OF faiss_saved_run [OF assms]] faiss_saved_def no_faiss_def)

text \<open>A vector of another length is refused only after the old one is gone.\<close>
lemma faiss_refused_write_forgets:
  assumes "ns_visibility (mi_namespace m) = PRIVATE" "point_authorized m = Inr a"
    "length (point_vector (fc_dims fc) m) \<noteq> fc_dims fc"
  shows "\<exists>s'. faiss_upsert cd e fc m s = (Inl AssertionError, s')
    \<and> faiss_view cd fc s' (faiss_key cd fc (mi_namespace m) (mi_id m)) = None"
proof -
  obtain s' where up: "faiss_upsert cd e fc m s = (Inl AssertionError, s')"
    "s' = faiss_keep (faiss_collection cd (fc_dims fc) (mi_namespace m))
       (without_vector (fc_int_id fc (cd_uuid5 cd (mi_id m))) (faiss_current fc s (faiss_collection cd (fc_dims fc) (mi_namespace m))))
       (snd (faiss_open fc (faiss_collection cd (fc_dims fc) (mi_namespace m)) s))"
    using assms by (simp add: faiss_upsert_def faiss_to_store_def in_collection_def vector_to_store_def Let_def
        case_prod_unfold faiss_current_def without_vector_def)
  then show ?thesis
    by (auto simp: faiss_view_def faiss_key_def faiss_doc_def without_vector_def Let_def dict_pop_keys split: option.split)
qed

text \<open>An id that holds the separator authorizes the callers named by its parts.\<close>
lemma separator_in_id_authorizes:
  assumes "u @ ''|'' @ p \<in> set ids" shows "joined_match (Some {p}) (joined ids)"
proof -
  obtain xs ys where ids: "ids = xs @ (u @ ''|'' @ p) # ys" using split_list [OF assms] by blast
  have "joined ids = (CHR ''|'' # concat (map (\<lambda>i. i @ ''|'') xs) @ u) @ (''|'' @ p @ ''|'') @ concat (map (\<lambda>i. i @ ''|'') ys)"
    using joined_concat [of ids] ids by simp
  then have "contains (''|'' @ p @ ''|'') (joined ids)" by (simp only: contains_append)
  then show ?thesis by (simp add: joined_match_def)
qed

text \<open>The rows are cut to max limit min_widen before the identities are compared.\<close>
lemma chroma_truncates_before_authz:
  assumes rows: "rows = chroma_rows (chroma_collection cd dims ns) s" and "ns_visibility ns = SHARED" "rows \<noteq> []" "chroma_fits rows q"
    and "\<forall>i\<in>fst ` set (en_pick e q (min (length rows) (max limit min_widen))
        (map (\<lambda>(i, r). (i, ch_embedding r)) (filter (\<lambda>(_, r). chroma_where ns r) rows))).
      \<exists>r. dict_get rows i = Some r \<and> \<not> chroma_keep ns (Some callers) r"
  shows "chroma_semantic cd e dims min_widen s ns q limit (Some callers) = Inr []"
proof -
  have skip: "collect (chroma_get cd (chroma_keep ns (Some callers)) rows) f limit n hits = Inr []"
    if "\<forall>i\<in>fst ` set hits. \<exists>r. dict_get rows i = Some r \<and> \<not> chroma_keep ns (Some callers) r" for f n hits
    using that by (induction hits) (auto simp: chroma_get_def)
  show ?thesis
    using assms(2-4) skip [OF assms(5)]
    by (simp add: chroma_semantic_def chroma_collect_loop chroma_keep_def [abs_def] needs_authz_def Let_def flip: rows)
qed

section \<open>Witnesses\<close>

text \<open>An engine that takes the rows in the order they have.\<close>
definition demo_engine :: "'i engine" where
  "demo_engine = \<lparr>en_pick = (\<lambda>q k rows. take k (map (\<lambda>(i, v). (i, 1)) rows)), en_stored = (\<lambda>v. v)\<rparr>"

lemma demo_pick_ids: "map fst (en_pick demo_engine q k rows) = take k (map fst rows)"
  by (simp add: demo_engine_def take_map [symmetric] case_prod_unfold o_def)

lemma demo_engine_exact: "engine_exact (demo_engine :: 'i engine)"
proof -
  have "set (map fst (en_pick demo_engine q k rows)) \<subseteq> set (map fst rows)" for q k and rows :: "('i \<times> rat list) list"
    unfolding demo_pick_ids by (rule set_take_subset)
  moreover have "length (en_pick demo_engine q k rows) = min k (length rows)" for q k and rows :: "('i \<times> rat list) list"
    by (simp add: demo_engine_def)
  ultimately show ?thesis
    unfolding engine_exact_def engine_ok_def Let_def by (simp add: demo_pick_ids)
qed

lemmas demo_engine_ok = conjunct1 [OF demo_engine_exact [unfolded engine_exact_def]]

lemma demo_record_fields [simp]:
  "mi_namespace demo_record = ltm_demo_ns" "mi_state demo_record = ACTIVE" "mi_id demo_record = ''m1''"
  "point_authorized demo_record = Inr None" "point_vector 2 demo_record = [1, 0]" "ns_visibility ltm_demo_ns = PRIVATE"
  by (simp_all add: point_authorized_def point_vector_def demo_record_def default_item_def ltm_demo_ns_def)

definition demo_faiss :: faiss_config where
  "demo_faiss = \<lparr>fc_dims = 2, fc_persist = True, fc_int_id = length\<rparr>"

lemma demo_searches:
  "\<exists>hits. qdrant_semantic demo_codec demo_engine 2
     (run_ops (qdrant_upsert demo_codec demo_engine 2) (qdrant_invalidate demo_codec 2) [Write demo_record] no_qdrant)
     ltm_demo_ns [1, 0] 3 None = Inr hits \<and> hits \<noteq> []"
  "\<exists>hits. pgvector_semantic demo_codec demo_engine 2
     (run_ops (pgvector_upsert demo_codec demo_engine 2) (pgvector_invalidate demo_codec 2) [Write demo_record] no_pgvector)
     ltm_demo_ns [1, 0] 3 None = Inr hits \<and> hits \<noteq> []"
  "\<exists>hits. chroma_semantic demo_codec demo_engine 2 50
     (run_ops (chroma_upsert demo_codec demo_engine 2) (chroma_invalidate demo_codec 2) [Write demo_record] [])
     ltm_demo_ns [1, 0] 3 None = Inr hits \<and> hits \<noteq> []"
  "\<exists>hits. fst (faiss_semantic demo_codec demo_engine demo_faiss ltm_demo_ns [1, 0] 3 None
     (run_ops (faiss_upsert demo_codec demo_engine demo_faiss) (faiss_invalidate demo_codec demo_faiss) [Write demo_record] no_faiss))
     = Inr hits \<and> hits \<noteq> []"
proof -
  note defs = vector_to_store_def Let_def demo_engine_def dict_default_def dict_setdefault_def in_collection_def
    point_reads [OF demo_codec_ok demo_record_wf]
  show "\<exists>hits. qdrant_semantic demo_codec demo_engine 2
     (run_ops (qdrant_upsert demo_codec demo_engine 2) (qdrant_invalidate demo_codec 2) [Write demo_record] no_qdrant)
     ltm_demo_ns [1, 0] 3 None = Inr hits \<and> hits \<noteq> []"
    by (simp add: defs qdrant_semantic_def qdrant_upsert_def qdrant_ensure_def no_qdrant_def qdrant_points_def recall_filter_def)
  show "\<exists>hits. pgvector_semantic demo_codec demo_engine 2
     (run_ops (pgvector_upsert demo_codec demo_engine 2) (pgvector_invalidate demo_codec 2) [Write demo_record] no_pgvector)
     ltm_demo_ns [1, 0] 3 None = Inr hits \<and> hits \<noteq> []"
    by (simp add: defs pgvector_semantic_def pgvector_upsert_def pgvector_to_store_def pgvector_ensure_def no_pgvector_def
        pgvector_rows_def pgvector_where_def)
  show "\<exists>hits. chroma_semantic demo_codec demo_engine 2 50
     (run_ops (chroma_upsert demo_codec demo_engine 2) (chroma_invalidate demo_codec 2) [Write demo_record] [])
     ltm_demo_ns [1, 0] 3 None = Inr hits \<and> hits \<noteq> []"
    by (simp add: defs chroma_semantic_def chroma_upsert_def chroma_to_store_def chroma_rows_def chroma_fits_def chroma_where_def
        needs_authz_def flat_metadata_def)
  show "\<exists>hits. fst (faiss_semantic demo_codec demo_engine demo_faiss ltm_demo_ns [1, 0] 3 None
     (run_ops (faiss_upsert demo_codec demo_engine demo_faiss) (faiss_invalidate demo_codec demo_faiss) [Write demo_record] no_faiss))
     = Inr hits \<and> hits \<noteq> []"
    by (simp add: defs faiss_semantic_def faiss_upsert_def faiss_to_store_def faiss_open_def faiss_load_def faiss_keep_def
        faiss_save_def demo_faiss_def no_faiss_def empty_index_def)
qed

lemma demo_writes: "\<forall>m. Write m \<in> set [Write demo_record] \<longrightarrow> well_formed_item m"
  using demo_record_wf by simp

theorem server_search_is_tenant_safe_witness:
  "\<exists>hits. qdrant_semantic demo_codec demo_engine 2
     (run_ops (qdrant_upsert demo_codec demo_engine 2) (qdrant_invalidate demo_codec 2) [Write demo_record] no_qdrant)
     ltm_demo_ns [1, 0] 3 None = Inr hits \<and> hits \<noteq> [] \<and> only_written [Write demo_record] ltm_demo_ns None 3 hits"
  using demo_searches(1)
    server_search_is_tenant_safe [OF demo_codec_ok demo_engine_ok demo_writes ltm_demo_ns_valid, of 2 "[1, 0]" 3 None]
  by blast

theorem embedded_search_is_tenant_safe_witness:
  "\<exists>hits. chroma_semantic demo_codec demo_engine 2 50
     (run_ops (chroma_upsert demo_codec demo_engine 2) (chroma_invalidate demo_codec 2) [Write demo_record] [])
     ltm_demo_ns [1, 0] 3 None = Inr hits \<and> hits \<noteq> [] \<and> only_written [Write demo_record] ltm_demo_ns None 3 hits"
proof -
  have "\<forall>m. Write m \<in> set [Write demo_record] \<longrightarrow> chroma_admits_item m" "chroma_admits None"
    using demo_record_wf by (simp_all add: chroma_admits_item_def chroma_admits_def)
  then show ?thesis
    using demo_searches(3) embedded_search_is_tenant_safe [OF demo_codec_ok demo_engine_ok demo_engine_ok demo_writes ltm_demo_ns_valid]
    by blast
qed

theorem qdrant_written_is_found_witness:
  "\<exists>hits. qdrant_semantic demo_codec demo_engine 2
     (run_ops (qdrant_upsert demo_codec demo_engine 2) (qdrant_invalidate demo_codec 2) ([] @ Write demo_record # []) no_qdrant)
     ltm_demo_ns [1, 0] 3 None = Inr hits \<and> stored_record demo_engine 2 demo_record \<in> sc_item ` set hits"
proof -
  have "length (qdrant_points (qdrant_collection 2 (mi_namespace demo_record))
      (run_ops (qdrant_upsert demo_codec demo_engine 2) (qdrant_invalidate demo_codec 2) ([] @ Write demo_record # []) no_qdrant)) \<le> 3"
    by (simp add: qdrant_upsert_def vector_to_store_def qdrant_ensure_def no_qdrant_def qdrant_points_def
      Let_def dict_default_def dict_setdefault_def)
  with qdrant_written_is_found [OF demo_codec_ok demo_engine_exact _ demo_record_wf, where a = None and caller = None
      and before = "[]" and since = "[]" and q = "[1, 0]"]
  show ?thesis by (simp add: permitted_def del: append_Nil)
qed

theorem faiss_restart_answers_the_same_witness:
  "\<exists>hits. fst (faiss_semantic demo_codec demo_engine demo_faiss ltm_demo_ns [1, 0] 3 None (faiss_restart
     (run_ops (faiss_upsert demo_codec demo_engine demo_faiss) (faiss_invalidate demo_codec demo_faiss) [Write demo_record] no_faiss)))
     = Inr hits \<and> hits \<noteq> []"
proof -
  have "fc_persist demo_faiss" "\<forall>m. Write m \<in> set [Write demo_record] \<longrightarrow> length (point_vector (fc_dims demo_faiss) m) = fc_dims demo_faiss"
    by (simp_all add: demo_faiss_def)
  then show ?thesis using demo_searches(4) by (simp only: faiss_restart_answers_the_same)
qed

end
