(* ===== verification/Local_Memory.thy ===== *)
theory Local_Memory
  imports Stm_Store Recall Extract Vector_Laws
begin

text \<open>
  The embedded facade (mu-local: local_memory.py, views.py, shared_null.py) and the wiring of its
  services (composition.py, step 8). A verb validates its namespace and delegates to one service; the
  services, the id supply and the model are the fields of a record. The wiring instantiates that
  record with the in-process short-term store, the graph adapter, the ingest and distill pipelines
  and the recall service of the other theories; the vector store, the embedder and the clock stay
  parameters. Reads through recall are taken without their effect on the stores (the recency read
  prunes rows that are already expired, which no later read returns).
\<close>

section \<open>Data\<close>

text \<open>LocalMemory: what is fixed at construction.\<close>
record local_memory =
  lm_org :: string
  lm_workspace :: string

record memory_write_result =
  wr_memory_id :: string
  wr_content_hash :: string
  wr_promoted :: bool
  wr_tiers_written :: "string list"

record memory_record_view =
  rec_memory_id :: string
  rec_content :: string
  rec_tier :: string
  rec_channel :: string
  rec_score :: rat
  rec_is_floor :: bool

record memory_list_view =
  lv_items :: "memory_record_view list"
  lv_degraded :: "string option"

record context_view =
  cv_text :: string
  cv_items :: "memory_record_view list"
  cv_degraded :: "string option"

record consolidate_view =
  cn_facts_extracted :: nat
  cn_added :: nat
  cn_superseded :: nat

type_synonym message = "(string, json_value) dict"

datatype add_content = Text string | Message message | Messages "message list" | Other_Content

text \<open>DegradeReason (values)\<close>
fun degrade_value :: "degrade_reason \<Rightarrow> string" where
  "degrade_value LTM_UNAVAILABLE = ''ltm_unavailable''"
| "degrade_value DATE_EXTRACTION_FALLBACK = ''date_extraction_fallback''"
| "degrade_value LTM_GRAPH_LATENCY_CAP = ''ltm_graph_latency_cap''"
| "degrade_value DAEMON_UNREACHABLE_SPOOLED = ''daemon_unreachable_spooled''"
| "degrade_value SERVER_UNREACHABLE = ''server_unreachable''"
| "degrade_value RECALL_CORE_DOWN = ''recall_core_down''"
| "degrade_value STALE_INJECTION = ''stale_injection''"
| "degrade_value LTM_EXTRACTION_DEFERRED = ''ltm_extraction_deferred''"
| "degrade_value UNSUPPORTED_HOST_FORMAT = ''unsupported_host_format''"
| "degrade_value CAPTURE_SCHEMA_DRIFT = ''capture_schema_drift''"
| "degrade_value TEMPORAL_UNAVAILABLE = ''temporal_unavailable''"
| "degrade_value NOTE_LINK_SKIPPED = ''note_link_skipped''"
| "degrade_value FACT_DROPPED = ''fact_dropped''"
| "degrade_value BACKPRESSURE_SHED = ''backpressure_shed''"
| "degrade_value DURABLE_SUBSTRATE_DOWN = ''durable_substrate_down''"
| "degrade_value REVOKE_CASCADE_DISABLED = ''revoke_cascade_disabled''"
| "degrade_value REVOKE_ACK_PENDING = ''revoke_ack_pending''"
| "degrade_value ROOM_LOG_UNAVAILABLE = ''room_log_unavailable''"
| "degrade_value ROOM_SUBSCRIBER_LAGGED = ''room_subscriber_lagged''"
| "degrade_value ROOM_TRANSPORT_DEGRADED = ''room_transport_degraded''"
| "degrade_value BOUND_AGENT_UNAVAILABLE = ''bound_agent_unavailable''"
| "degrade_value PRESENCE_STORE_DOWN = ''presence_store_down''"
| "degrade_value SURFACE_COMPONENT_DOWN = ''surface_component_down''"
| "degrade_value SHARED_RECALL_UNAVAILABLE = ''shared_recall_unavailable''"
| "degrade_value ARTIFACT_HYDRATION_BUDGET = ''artifact_hydration_budget''"
| "degrade_value E2E_CLIENT_SIDE_RECALL = ''e2e_client_side_recall''"
| "degrade_value E2E_NO_SERVER_EMBED = ''e2e_no_server_embed''"
| "degrade_value E2E_NO_SERVER_CONSOLIDATION = ''e2e_no_server_consolidation''"
| "degrade_value HOSTED_E2E_STORAGE_ONLY = ''hosted_e2e_storage_only''"
| "degrade_value SYNC_BACKFILL_WINDOW_EXCEEDED = ''sync_backfill_window_exceeded''"
| "degrade_value DEVICE_WIPE_ACK_PENDING = ''device_wipe_ack_pending''"
| "degrade_value KEY_ROTATION_PENDING = ''key_rotation_pending''"
| "degrade_value SYNC_STALLED = ''sync_stalled''"
| "degrade_value SYNC_DELTA_DEAD_LETTERED = ''sync_delta_dead_lettered''"
| "degrade_value PRIMARY_SYNC_LAG = ''primary_sync_lag''"
| "degrade_value GATEWAY_UPSTREAM_UNAVAILABLE = ''gateway_upstream_unavailable''"
| "degrade_value GATEWAY_REGION_UNAVAILABLE = ''gateway_region_unavailable''"
| "degrade_value HOST_WIRING_ABSENT = ''host_wiring_absent''"
| "degrade_value KV_NONDURABLE = ''kv_nondurable''"
| "degrade_value RECENCY_ZSET_UNAVAILABLE = ''recency_zset_unavailable''"
| "degrade_value LLM_UNAVAILABLE_HEURISTIC = ''llm_unavailable_heuristic''"
| "degrade_value VECTOR_SINGLE_NODE = ''vector_single_node''"
| "degrade_value RELATIONAL_INDEX_REDUCED = ''relational_index_reduced''"
| "degrade_value MODEL_GROUP_UNAVAILABLE = ''model_group_unavailable''"
| "degrade_value MODEL_LOCAL_UNAVAILABLE_FELL_BACK = ''model_local_unavailable_fell_back''"
| "degrade_value CONFLICT_ADJUDICATION_DEGRADED = ''conflict_adjudication_degraded''"
| "degrade_value CONFLICT_PENDING_SUPPRESSED = ''conflict_pending_suppressed''"
| "degrade_value CONFLICT_MANUAL_BACKLOG = ''conflict_manual_backlog''"
| "degrade_value TRUST_LEDGER_UNAVAILABLE = ''trust_ledger_unavailable''"

text \<open>The container as the facade uses it.\<close>
record ('s, 'b) local_services =
  sv_ingest :: "('s, 'b) ingest_ports"
  sv_new_offset :: "('s, string) eff"
  sv_stm_recent :: "namespace \<Rightarrow> int \<Rightarrow> ('s, scored list) eff"
  sv_distill :: "namespace \<Rightarrow> memory_item list \<Rightarrow> ('s, distill_report) eff"
  sv_recall :: "client_scope \<Rightarrow> recall_query \<Rightarrow> 's \<Rightarrow> recall_result outcome"
  sv_llm :: "(string \<Rightarrow> string \<Rightarrow> ('s, string) eff) option"

record ('s, 'b) local_state =
  lo_world :: "('s, 'b) world"
  lo_obs :: ingest_obs

definition lo_stores :: "('s, 'b) local_state \<Rightarrow> 's" where
  "lo_stores st = w_stores (lo_world st)"

definition on_local :: "('s, 'a) eff \<Rightarrow> (('s, 'b) local_state, 'a) eff" where
  "on_local f st = (case on_stores f (lo_world st) of (r, w) \<Rightarrow> (r, st\<lparr>lo_world := w\<rparr>))"

section \<open>Namespace and scope\<close>

text \<open>session or _DEFAULT_SESSION\<close>
definition or_default :: "string option \<Rightarrow> string" where
  "or_default session = (case session of None \<Rightarrow> ''default'' | Some s \<Rightarrow> if s = '''' then ''default'' else s)"

definition local_ns :: "local_memory \<Rightarrow> string \<Rightarrow> string option \<Rightarrow> namespace or_raise" where
  "local_ns lm user session = mk_namespace (lm_org lm) (lm_workspace lm) user (or_default session) PRIVATE"

definition local_scope :: "local_memory \<Rightarrow> string \<Rightarrow> string option \<Rightarrow> client_scope" where
  "local_scope lm user session = \<lparr>cs_principal_id = user, cs_org_id = lm_org lm,
     cs_workspace_id = lm_workspace lm, cs_session_id = or_default session, cs_agent_principal_id = user,
     cs_agent_kind = HUMAN_PROXY, cs_agent_path = ''''\<rparr>"

section \<open>Writing\<close>

definition normalize_messages :: "add_content \<Rightarrow> message list or_raise" where
  "normalize_messages content = (case content of
       Text t \<Rightarrow> Inr [[(''role'', JText ''user''), (''content'', JText t)]]
     | Message m \<Rightarrow> Inr [m]
     | Messages ms \<Rightarrow> Inr ms
     | Other_Content \<Rightarrow> Inl ValueError)"

text \<open>message["content"], validated as the text of an activity.\<close>
definition message_text :: "message \<Rightarrow> string or_raise" where
  "message_text m = (case dict_get m ''content'' of
       None \<Rightarrow> Inl KeyError
     | Some (JText t) \<Rightarrow> if t = '''' then Inl ValueError else Inr t
     | Some _ \<Rightarrow> Inl ValueError)"

definition local_activity :: "namespace \<Rightarrow> string \<Rightarrow> string \<Rightarrow> ingest_activity" where
  "local_activity ns offset t = \<lparr>ia_namespace = ns, ia_host = ''mu-local'', ia_session_offset = offset,
     ia_kind = ''user_message'', ia_text = t, ia_importance = 1 / 2, ia_promote = True,
     ia_source = Src_USER, ia_subject = None, ia_predicate = None, ia_object = None,
     ia_object_kind = None, ia_polarity = POSITIVE, ia_owner_id = None\<rparr>"

definition local_remember ::
  "('s, 'b) local_services \<Rightarrow> ingest_activity \<Rightarrow> (('s, 'b) local_state, ingest_result) eff" where
  "local_remember sv a st = (case remember (sv_ingest sv) a (lo_obs st) (lo_world st) of
     (r, obs, w) \<Rightarrow> (r, \<lparr>lo_world = w, lo_obs = obs\<rparr>))"

text \<open>The loop of add: the offset is drawn before the message is looked at.\<close>
fun add_messages ::
  "('s, 'b) local_services \<Rightarrow> namespace \<Rightarrow> ingest_result option \<Rightarrow> message list
   \<Rightarrow> (('s, 'b) local_state, ingest_result option) eff" where
  "add_messages sv ns latest [] = ret latest"
| "add_messages sv ns latest (m # ms) =
     seq (on_local (sv_new_offset sv)) (\<lambda>offset.
     seq (\<lambda>st. (message_text m, st)) (\<lambda>t.
     seq (local_remember sv (local_activity ns offset t)) (\<lambda>r.
       add_messages sv ns (Some r) ms)))"

definition write_result :: "ingest_result \<Rightarrow> memory_write_result" where
  "write_result r = \<lparr>wr_memory_id = ir_memory_id r, wr_content_hash = ir_content_hash r,
     wr_promoted = ir_promoted r, wr_tiers_written = ir_tiers_written r\<rparr>"

definition local_add ::
  "local_memory \<Rightarrow> ('s, 'b) local_services \<Rightarrow> add_content \<Rightarrow> string \<Rightarrow> string option
   \<Rightarrow> (('s, 'b) local_state, memory_write_result) eff" where
  "local_add lm sv content user session =
     seq (\<lambda>st. (local_ns lm user session, st)) (\<lambda>ns.
     seq (\<lambda>st. (normalize_messages content, st)) (\<lambda>ms.
     seq (add_messages sv ns None ms) (\<lambda>latest. case latest of
         None \<Rightarrow> raise_exc ValueError
       | Some r \<Rightarrow> ret (write_result r))))"

definition local_consolidate ::
  "local_memory \<Rightarrow> ('s, 'b) local_services \<Rightarrow> string \<Rightarrow> string option \<Rightarrow> int
   \<Rightarrow> (('s, 'b) local_state, consolidate_view) eff" where
  "local_consolidate lm sv user session limit =
     seq (\<lambda>st. (local_ns lm user session, st)) (\<lambda>ns.
     seq (on_local (sv_stm_recent sv ns limit)) (\<lambda>hits.
     seq (on_local (sv_distill sv ns (map sc_item hits))) (\<lambda>report.
       ret \<lparr>cn_facts_extracted = dr_facts_extracted report, cn_added = report_added report,
            cn_superseded = report_superseded report\<rparr>)))"

section \<open>Reading\<close>

definition channels_for_tier :: "memory_tier option \<Rightarrow> recall_channels" where
  "channels_for_tier tier = (case tier of
       None \<Rightarrow> \<lparr>ch_stm = True, ch_mtm = True, ch_ltm = True\<rparr>
     | Some t \<Rightarrow> \<lparr>ch_stm = (t = STM), ch_mtm = (t = MTM), ch_ltm = (t = LTM)\<rparr>)"

text \<open>The query that recall builds for a tier, in the ranked mode, without persona, token budget or
  correlation id.\<close>
definition ranked_query :: "namespace \<Rightarrow> string \<Rightarrow> memory_tier option \<Rightarrow> int \<Rightarrow> recall_query" where
  "ranked_query ns q tier limit = \<lparr>rq_namespace = ns, rq_text = q, rq_limit = limit, rq_channels = channels_for_tier tier,
     rq_mode = RANKED, rq_persona = None, rq_max_tokens = None, rq_correlation_id = None\<rparr>"

text \<open>RecallQuery with the field constraints of its text and limit.\<close>
definition local_query :: "namespace \<Rightarrow> string \<Rightarrow> memory_tier option \<Rightarrow> int \<Rightarrow> recall_query or_raise" where
  "local_query ns q tier limit = (if q = [] \<or> limit < 1 then Inl ValueError else Inr (ranked_query ns q tier limit))"

lemma ranked_query_fields [simp]:
  "rq_namespace (ranked_query ns q tier limit) = ns" "rq_text (ranked_query ns q tier limit) = q"
  "rq_limit (ranked_query ns q tier limit) = limit" "rq_channels (ranked_query ns q tier limit) = channels_for_tier tier"
  "rq_mode (ranked_query ns q tier limit) = RANKED"
  by (simp_all add: ranked_query_def)

definition to_record_view :: "recall_item_view \<Rightarrow> memory_record_view" where
  "to_record_view v = \<lparr>rec_memory_id = rv_memory_id v, rec_content = rv_content v,
     rec_tier = tier_value (rv_tier v), rec_channel = rv_channel v, rec_score = rv_fused_score v,
     rec_is_floor = rv_is_floor v\<rparr>"

definition to_list_view :: "recall_result \<Rightarrow> memory_list_view" where
  "to_list_view r = \<lparr>lv_items = map to_record_view (rr_items r),
     lv_degraded = map_option degrade_value (rr_degraded r)\<rparr>"

definition local_recall ::
  "local_memory \<Rightarrow> ('s, 'b) local_services \<Rightarrow> string \<Rightarrow> string \<Rightarrow> string option \<Rightarrow> memory_tier option \<Rightarrow> int
   \<Rightarrow> 's \<Rightarrow> memory_list_view outcome" where
  "local_recall lm sv q user session tier limit s =
     (case rbind (local_ns lm user session) (\<lambda>ns. local_query ns q tier limit) of
        Inl e \<Rightarrow> Inl (Naked e)
      | Inr query \<Rightarrow> (case sv_recall sv (local_scope lm user session) query s of
            Inl e \<Rightarrow> Inl e
          | Inr r \<Rightarrow> Inr (to_list_view r)))"

definition local_search ::
  "local_memory \<Rightarrow> ('s, 'b) local_services \<Rightarrow> string \<Rightarrow> string \<Rightarrow> string option \<Rightarrow> memory_tier option \<Rightarrow> int
   \<Rightarrow> 's \<Rightarrow> memory_list_view outcome" where
  "local_search = local_recall"

definition local_get ::
  "local_memory \<Rightarrow> ('s, 'b) local_services \<Rightarrow> string \<Rightarrow> string \<Rightarrow> string option
   \<Rightarrow> (('s, 'b) local_state, memory_record_view option) eff" where
  "local_get lm sv memory_id user session =
     seq (\<lambda>st. (local_ns lm user session, st)) (\<lambda>ns.
     seq (on_local (ip_stm_get (sv_ingest sv) ns memory_id)) (\<lambda>found.
       ret (map_option (\<lambda>item. \<lparr>rec_memory_id = mi_id item, rec_content = mi_content item,
          rec_tier = tier_value (mi_tier item), rec_channel = ''stm'', rec_score = 0,
          rec_is_floor = True\<rparr>) found)))"

definition bullet :: "memory_record_view \<Rightarrow> string" where
  "bullet v = ''- '' @ rec_content v"

definition render_context :: "memory_record_view list \<Rightarrow> int option \<Rightarrow> string" where
  "render_context items max_chars =
     (let t = join_with (CHR 0x0A) (map bullet items)
      in case max_chars of
           None \<Rightarrow> t
         | Some n \<Rightarrow> if n < int (length t) then py_take n t else t)"

definition local_context ::
  "local_memory \<Rightarrow> ('s, 'b) local_services \<Rightarrow> string \<Rightarrow> string \<Rightarrow> string option \<Rightarrow> int \<Rightarrow> int option
   \<Rightarrow> 's \<Rightarrow> context_view outcome" where
  "local_context lm sv q user session limit max_chars s =
     (case local_recall lm sv q user session None limit s of
        Inl e \<Rightarrow> Inl e
      | Inr listing \<Rightarrow> Inr \<lparr>cv_text = render_context (lv_items listing) max_chars,
          cv_items = lv_items listing, cv_degraded = lv_degraded listing\<rparr>)"

definition ask_system_prompt :: string where
  "ask_system_prompt = ''Answer the question using ONLY the given facts. Be concise.''"

definition ask_prompt :: "string \<Rightarrow> string \<Rightarrow> string" where
  "ask_prompt facts question = ''Facts:'' @ [CHR 0x0A] @ facts @ [CHR 0x0A, CHR 0x0A] @ ''Question: '' @ question"

definition local_ask ::
  "local_memory \<Rightarrow> ('s, 'b) local_services \<Rightarrow> string \<Rightarrow> string \<Rightarrow> string option \<Rightarrow> int \<Rightarrow> 's
   \<Rightarrow> string outcome \<times> 's" where
  "local_ask lm sv question user session limit s = (case sv_llm sv of
       None \<Rightarrow> (Inl (Naked LlmNotConfiguredError), s)
     | Some generate \<Rightarrow> (case local_context lm sv question user session limit None s of
           Inl e \<Rightarrow> (Inl e, s)
         | Inr assembled \<Rightarrow>
             (case generate ask_system_prompt (ask_prompt (cv_text assembled) question) s of
                (r, s') \<Rightarrow> (naked r, s'))))"

section \<open>The wiring\<close>

text \<open>LocalNullSharedRecall.recall\<close>
definition null_shared_recall :: "int \<Rightarrow> recall_query \<Rightarrow> caller_set \<Rightarrow> recall_result outcome" where
  "null_shared_recall now q caller = Inr \<lparr>rr_namespace = rq_namespace q, rr_items = [],
     rr_channels_run = \<lparr>ch_stm = False, ch_mtm = False, ch_ltm = False\<rparr>, rr_degraded = None,
     rr_generated_at = now\<rparr>"

text \<open>The stores of one container; the environment carries the clock and the id supply of distill.\<close>
record ('m, 'j, 'c) local_stores =
  ls_stm :: stm_store
  ls_mtm :: 'm
  ls_ltm :: "'j falkor_state"
  ls_env :: 'c

text \<open>
  What is not code of the repository, or not read here: the sorted list package, the clock, the id
  supplies, the vector store, the graph server, the embedder, the hash, the scheduler of a task group,
  and the model (its settings, its answers, the JSON reader of its answers).
\<close>
record ('m, 'j, 'c) container_parts =
  ct_sorted :: sorted_list_ops
  ct_stm :: stm_config
  ct_falkor :: "'j falkor"
  ct_now :: "('m, 'j, 'c) local_stores \<Rightarrow> int"
  ct_new_id :: "('m, 'j, 'c) local_stores \<Rightarrow> string"
  ct_new_offset :: "('m, 'j, 'c) local_stores \<Rightarrow> string"
  ct_tick :: "('c, int) eff"
  ct_fact_id :: "('c, string) eff"
  ct_mtm_upsert :: "memory_item \<Rightarrow> ('m, unit) eff"
  ct_mtm_semantic :: "'m \<Rightarrow> namespace \<Rightarrow> rat list \<Rightarrow> int \<Rightarrow> caller_set \<Rightarrow> scored list or_raise"
  ct_mtm_invalidate :: "namespace \<Rightarrow> string \<Rightarrow> string \<Rightarrow> int \<Rightarrow> string \<Rightarrow> ('m, unit) eff"
  ct_embed :: "string list \<Rightarrow> rat list list or_raise"
  ct_model_name :: string
  ct_sha256 :: "string \<Rightarrow> string"
  ct_str :: "meta_value \<Rightarrow> string"
  ct_sched :: "exc_class list \<Rightarrow> exc_class list"
  ct_llm :: "(int \<times> rat) option"
  ct_loads :: "string \<Rightarrow> json_value option"
  ct_complete :: "extraction_settings \<Rightarrow> string \<Rightarrow> string or_raise"
  ct_generate :: "string \<Rightarrow> string \<Rightarrow> (('m, 'j, 'c) local_stores, string) eff"

text \<open>The short-term store behind its port; a put always ends (see the lemmas of that store).\<close>
definition local_stm_put ::
  "('m, 'j, 'c) container_parts \<Rightarrow> memory_item \<Rightarrow> (('m, 'j, 'c) local_stores, unit) eff" where
  "local_stm_put c m s = (case the (stm_put (ct_sorted c) (ct_stm c) (ct_now c s) m (ls_stm s)) of
       Inl e \<Rightarrow> (Inl e, s)
     | Inr t \<Rightarrow> (Inr (), s\<lparr>ls_stm := t\<rparr>))"

definition local_stm_get ::
  "('m, 'j, 'c) container_parts \<Rightarrow> namespace \<Rightarrow> string
   \<Rightarrow> (('m, 'j, 'c) local_stores, memory_item option) eff" where
  "local_stm_get c ns i s = (case stm_get (ct_sorted c) (ct_now c s) ns i (ls_stm s) of
     (r, t) \<Rightarrow> (Inr r, s\<lparr>ls_stm := t\<rparr>))"

definition local_stm_recent ::
  "('m, 'j, 'c) container_parts \<Rightarrow> namespace \<Rightarrow> int \<Rightarrow> (('m, 'j, 'c) local_stores, scored list) eff" where
  "local_stm_recent c ns limit s = (case stm_recent (ct_sorted c) (ct_now c s) ns limit (ls_stm s) of
     (r, t) \<Rightarrow> (r, s\<lparr>ls_stm := t\<rparr>))"

text \<open>The ingest service; nobody subscribes to the bus of the container.\<close>
definition local_ingest :: "('m, 'j, 'c) container_parts \<Rightarrow> (('m, 'j, 'c) local_stores, unit) ingest_ports" where
  "local_ingest c = \<lparr>
     ip_now = (\<lambda>s. (Inr (ct_now c s), s)),
     ip_new_id = (\<lambda>s. (Inr (ct_new_id c s), s)),
     ip_stm_put = local_stm_put c,
     ip_stm_get = local_stm_get c,
     ip_mtm_upsert = (\<lambda>m s. case ct_mtm_upsert c m (ls_mtm s) of (r, t) \<Rightarrow> (r, s\<lparr>ls_mtm := t\<rparr>)),
     ip_embed = (\<lambda>ts s. (ct_embed c ts, s)),
     ip_model_name = ct_model_name c,
     ip_publish = (\<lambda>e b. (Inr (), b)),
     ip_sha256 = ct_sha256 c,
     ip_importance_promote = 3 / 5\<rparr>"

text \<open>The extractor: heuristic, or the model's when a profile is configured.\<close>
definition local_extract ::
  "('m, 'j, 'c) container_parts \<Rightarrow> string \<Rightarrow> int \<Rightarrow> extracted_fact list or_raise" where
  "local_extract c = (case ct_llm c of
       None \<Rightarrow> extract_heuristic default_extraction
     | Some (max_tokens, temperature) \<Rightarrow>
         (let st = default_extraction\<lparr>xs_max_tokens := max_tokens, xs_temperature := temperature\<rparr>
          in extract_llm (ct_loads c) (ct_complete c st) st))"

text \<open>The distill pipeline: it is given no bus.\<close>
definition local_distill_ports ::
  "('m, 'j, 'c) container_parts \<Rightarrow> ('j falkor_state, 'm, unit, 'c) distill_ports" where
  "local_distill_ports c = \<lparr>
     dp_upsert = upsert_fact (ct_falkor c), dp_find = find_conflicts (ct_falkor c),
     dp_invalidate = invalidate (ct_falkor c), dp_mtm_invalidate = Some (ct_mtm_invalidate c),
     dp_publish = None, dp_now = ct_tick c, dp_utcnow = ct_tick c, dp_new_id = ct_fact_id c,
     dp_extract = local_extract c, dp_sha256 = ct_sha256 c, dp_str = ct_str c,
     dp_settings = default_distill_settings\<rparr>"

definition local_distill ::
  "('m, 'j, 'c) container_parts \<Rightarrow> namespace \<Rightarrow> memory_item list
   \<Rightarrow> (('m, 'j, 'c) local_stores, distill_report) eff" where
  "local_distill c ns window s =
     (case distill_inner (local_distill_ports c) ns window
         \<lparr>dw_ltm = ls_ltm s, dw_mtm = ls_mtm s, dw_bus = (), dw_clock = ls_env s\<rparr> of
        (r, w) \<Rightarrow> (r, s\<lparr>ls_ltm := dw_ltm w, ls_mtm := dw_mtm w, ls_env := dw_clock w\<rparr>))"

text \<open>The ranker over the three stores and the recall service with the null shared arm.\<close>
definition local_repos ::
  "('m, 'j, 'c) container_parts \<Rightarrow> ('m, 'j, 'c) local_stores \<Rightarrow> tier_repos" where
  "local_repos c s = \<lparr>
     tr_stm_recent = (\<lambda>ns limit. fst (stm_recent (ct_sorted c) (ct_now c s) ns limit (ls_stm s))),
     tr_mtm_semantic = ct_mtm_semantic c (ls_mtm s),
     tr_ltm_graph = (\<lambda>ns limit caller.
        fst (graph_recall (ct_falkor c) ns None None (nat limit) caller (ls_ltm s)))\<rparr>"

definition local_recall_deps ::
  "('m, 'j, 'c) container_parts \<Rightarrow> ('m, 'j, 'c) local_stores \<Rightarrow> recall_deps" where
  "local_recall_deps c s = \<lparr>rd_embed = ct_embed c,
     rd_private_rank = rank (ct_sched c) (local_repos c s) default_recall_settings (ct_now c s),
     rd_shared_recall = null_shared_recall (ct_now c s), rd_settings = default_recall_settings\<rparr>"

text \<open>LocalContainer.__init__, step 8.\<close>
definition container_services ::
  "('m, 'j, 'c) container_parts \<Rightarrow> (('m, 'j, 'c) local_stores, unit) local_services" where
  "container_services c = \<lparr>
     sv_ingest = local_ingest c,
     sv_new_offset = (\<lambda>s. (Inr (ct_new_offset c s), s)),
     sv_stm_recent = local_stm_recent c,
     sv_distill = local_distill c,
     sv_recall = (\<lambda>scope q s. fst (recall (local_recall_deps c s) (ct_now c s) scope q)),
     sv_llm = (if ct_llm c = None then None else Some (ct_generate c))\<rparr>"

end
