(* ===== verification/Local_Laws.thy ===== *)
theory Local_Laws
  imports Local_Memory
begin

text \<open>
  What the embedded facade shows a user: invariants of the container that every verb keeps, whatever
  the vector store behind the interface, and from them what recall, get and context return.
\<close>

section \<open>Effects that keep an invariant\<close>

definition safe :: "('w \<Rightarrow> bool) \<Rightarrow> ('w, 'a) eff \<Rightarrow> ('a \<Rightarrow> bool) \<Rightarrow> bool" where
  "safe J m P = (\<forall>w r w'. J w \<longrightarrow> m w = (r, w') \<longrightarrow> J w' \<and> (\<forall>a. r = Inr a \<longrightarrow> P a))"

named_theorems safe_intros "effects that keep an invariant, by their shape"

lemma safeI: "(\<And>w r w'. J w \<Longrightarrow> m w = (r, w') \<Longrightarrow> J w' \<and> (\<forall>a. r = Inr a \<longrightarrow> P a)) \<Longrightarrow> safe J m P"
  by (simp add: safe_def)

lemma safeD: "safe J m P \<Longrightarrow> J w \<Longrightarrow> m w = (r, w') \<Longrightarrow> J w' \<and> (\<forall>a. r = Inr a \<longrightarrow> P a)"
  by (simp add: safe_def)

lemma safe_ret [safe_intros]: "P a \<Longrightarrow> safe J (ret a) P"
  by (simp add: safe_def ret_def)

lemma safe_Pair [safe_intros]: "P a \<Longrightarrow> safe J (Pair (Inr a)) P"
  by (simp add: safe_def)

lemma safe_raise [safe_intros]: "safe J (raise_exc e) P"
  by (simp add: safe_def raise_exc_def)

lemma safe_lift [safe_intros]: "(\<And>a. r = Inr a \<Longrightarrow> P a) \<Longrightarrow> safe J (lift_result r) P"
  by (simp add: safe_def lift_result_def)

lemma safe_pair [safe_intros]: "(\<And>w a. f w = Inr a \<Longrightarrow> P a) \<Longrightarrow> safe J (\<lambda>w. (f w, w)) P"
  by (simp add: safe_def)

lemma safe_seq: "\<lbrakk> safe J m Q; \<And>a. Q a \<Longrightarrow> safe J (f a) P \<rbrakk> \<Longrightarrow> safe J (seq m f) P"
proof (rule safeI)
  fix w r w' assume m: "safe J m Q" and f: "\<And>a. Q a \<Longrightarrow> safe J (f a) P" and "J w" "seq m f w = (r, w')"
  obtain x u where x: "m w = (x, u)" by fastforce
  then have u: "J u" "\<And>a. x = Inr a \<Longrightarrow> Q a" using safeD [OF m \<open>J w\<close>] by auto
  show "J w' \<and> (\<forall>a. r = Inr a \<longrightarrow> P a)"
  proof (cases x)
    case (Inl e)
    then show ?thesis using \<open>seq m f w = (r, w')\<close> x u(1) by (auto simp: seq_def)
  next
    case (Inr a)
    then have "f a u = (r, w')" using \<open>seq m f w = (r, w')\<close> x by (simp add: seq_def)
    then show ?thesis using safeD [OF f [OF u(2) [OF Inr]] u(1)] by blast
  qed
qed

lemma safe_then [safe_intros]: "\<lbrakk> safe J m (\<lambda>_. True); \<And>a. safe J (f a) P \<rbrakk> \<Longrightarrow> safe J (seq m f) P"
  by (rule safe_seq) auto

lemma safe_weaken: "safe J m P \<Longrightarrow> (\<And>a. P a \<Longrightarrow> Q a) \<Longrightarrow> safe J m Q"
  by (auto simp: safe_def)

lemma safe_for_each [safe_intros]: "(\<And>x. x \<in> set xs \<Longrightarrow> safe J (f x) (\<lambda>_. True)) \<Longrightarrow> safe J (for_each f xs) (\<lambda>_. True)"
  by (induction xs) (auto intro!: safe_intros)

lemma safe_map_eff [safe_intros]: "(\<And>x. safe J (f x) (\<lambda>_. True)) \<Longrightarrow> safe J (map_eff f xs) (\<lambda>_. True)"
  by (induction xs) (auto intro!: safe_intros)

lemma safe_on_stores: "safe K f P \<Longrightarrow> safe (\<lambda>w. K (w_stores w)) (on_stores f) P"
  by (fastforce simp: safe_def on_stores_def split: prod.splits)

lemma safe_on_bus [safe_intros]: "safe (\<lambda>w. K (w_stores w)) (on_bus f) (\<lambda>_. True)"
  by (auto simp: safe_def on_bus_def split: prod.splits)

lemma safe_ledger [safe_intros]:
  "safe (\<lambda>w. K (w_stores w)) (lookup_key k) (\<lambda>_. True)" "safe (\<lambda>w. K (w_stores w)) (mark_key k es) (\<lambda>_. True)"
  by (auto simp: safe_def lookup_key_def mark_key_def)

section \<open>The ingest pipeline keeps what its ports keep\<close>

text \<open>What the ports promise of the stores, and of the items that go in and come out.\<close>
definition ports_safe :: "('s \<Rightarrow> bool) \<Rightarrow> (memory_item \<Rightarrow> bool) \<Rightarrow> ('s, 'b) ingest_ports \<Rightarrow> bool" where
  "ports_safe K Q p = (safe K (ip_now p) (\<lambda>_. True) \<and> safe K (ip_new_id p) (\<lambda>_. True)
     \<and> (\<forall>m. Q m \<longrightarrow> safe K (ip_stm_put p m) (\<lambda>_. True))
     \<and> (\<forall>ns i. safe K (ip_stm_get p ns i) (\<lambda>r. \<forall>m. r = Some m \<longrightarrow> Q m))
     \<and> (\<forall>m v model now. Q m \<longrightarrow> safe K (ip_mtm_upsert p (promoted_copy m v model now)) (\<lambda>_. True))
     \<and> (\<forall>ts. safe K (ip_embed p ts) (\<lambda>_. True)))"

lemma ports_safeD:
  assumes "ports_safe K Q p"
  shows "safe K (ip_now p) (\<lambda>_. True)" "safe K (ip_new_id p) (\<lambda>_. True)" "safe K (ip_embed p ts) (\<lambda>_. True)"
    "Q m \<Longrightarrow> safe K (ip_stm_put p m) (\<lambda>_. True)" "safe K (ip_stm_get p ns i) (\<lambda>r. \<forall>m. r = Some m \<longrightarrow> Q m)"
    "Q m \<Longrightarrow> safe K (ip_mtm_upsert p (promoted_copy m v model now)) (\<lambda>_. True)"
  using assms by (simp_all add: ports_safe_def)

definition activity_ok :: "(memory_item \<Rightarrow> bool) \<Rightarrow> ('s, 'b) ingest_ports \<Rightarrow> ingest_activity \<Rightarrow> bool" where
  "activity_ok Q p a = (\<forall>t i. Q (minted_item (ip_sha256 p) a t i))"

fun value_ok :: "(memory_item \<Rightarrow> bool) \<Rightarrow> ('s, 'b) ingest_ports \<Rightarrow> ingest_activity state_value \<Rightarrow> bool" where
  "value_ok Q p (SvItem m) = Q m"
| "value_ok Q p (SvActivity a) = activity_ok Q p a"
| "value_ok Q p _ = True"

definition ctx_ok :: "(memory_item \<Rightarrow> bool) \<Rightarrow> ('s, 'b) ingest_ports \<Rightarrow> ctx \<Rightarrow> bool" where
  "ctx_ok Q p c = (\<forall>k v. dict_get (pc_state c) k = Some v \<longrightarrow> value_ok Q p v)"

definition outcome_ok :: "(memory_item \<Rightarrow> bool) \<Rightarrow> ('s, 'b) ingest_ports \<Rightarrow> ingest_activity stage_outcome \<Rightarrow> bool" where
  "outcome_ok Q p o' = (\<forall>(k, v)\<in>set (so_produced o'). value_ok Q p v)"

abbreviation keeps_K :: "('s \<Rightarrow> bool) \<Rightarrow> (('s, 'b) world, 'a) eff \<Rightarrow> ('a \<Rightarrow> bool) \<Rightarrow> bool" where
  "keeps_K K \<equiv> safe (\<lambda>w. K (w_stores w))"

lemma activity_of_ok: "ctx_ok Q p c \<Longrightarrow> keeps_K K (lift_result (activity_of c)) (activity_ok Q p)"
  by (rule safe_lift) (force simp: activity_of_def ctx_ok_def split: option.splits state_value.splits)

lemma build_safe: "ports_safe K Q p \<Longrightarrow> activity_ok Q p a \<Longrightarrow> keeps_K K (build_memory_item p a) Q"
  unfolding build_memory_item_def
  by (intro safe_then safe_ret safe_on_stores ports_safeD) (simp_all add: activity_ok_def)

lemma mk_outcome_ok: "mk_outcome OK produced es why k = Inr o' \<Longrightarrow> \<forall>(k, v)\<in>set produced. value_ok Q p v \<Longrightarrow> outcome_ok Q p o'"
  by (auto simp: mk_outcome_OK outcome_ok_def)

lemma write_stm_safe:
  assumes p: "ports_safe K Q p" and c: "ctx_ok Q p c"
  shows "keeps_K K (st_execute (write_stm_stage p) c) (outcome_ok Q p)"
proof -
  have "keeps_K K (write_stm_execute p c) (outcome_ok Q p)"
    unfolding write_stm_execute_def
  proof (rule safe_seq [OF activity_of_ok [OF c]])
    fix a assume a: "activity_ok Q p a"
    show "keeps_K K (seq (build_memory_item p a) (\<lambda>item. seq (on_stores (ip_stm_put p item)) (\<lambda>_.
       lift_result (mk_outcome OK
         [(''stm_item'', SvItem item), (''memory_ids'', SvIds [mi_id item]), (''content_hash'', SvStr (mi_content_hash item))]
         [MemoryCaptured (ia_namespace a) [mi_id item] STM] None (Some (activity_id_for (ip_sha256 p) a)))))) (outcome_ok Q p)"
      by (rule safe_seq [OF build_safe [OF p a]], rule safe_then)
        (auto intro!: safe_on_stores safe_lift ports_safeD [OF p] simp: mk_outcome_OK outcome_ok_def)
  qed
  then show ?thesis by (simp add: write_stm_stage_def)
qed

lemma content_hash_safe:
  "ports_safe K Q p \<Longrightarrow> activity_ok Q p a \<Longrightarrow> keeps_K K (content_hash_or_build p c a) (\<lambda>_. True)"
  unfolding content_hash_or_build_def
  by (auto intro!: safe_intros safe_weaken [OF build_safe] split: option.split state_value.split)

lemma promote_key_safe: "ports_safe K Q p \<Longrightarrow> ctx_ok Q p c \<Longrightarrow> keeps_K K (promote_key p c) (\<lambda>_. True)"
  unfolding promote_key_def
  by (rule safe_seq [OF activity_of_ok]) (auto intro!: safe_intros content_hash_safe)

lemma resolve_safe:
  assumes p: "ports_safe K Q p" and c: "ctx_ok Q p c"
  shows "keeps_K K (resolve_item p c a) Q"
proof -
  have stored: "keeps_K K (seq (on_stores (ip_stm_get p ns i)) (\<lambda>recovered. case recovered of
      Some item \<Rightarrow> ret item | None \<Rightarrow> raise_exc StageExecutionError)) Q" for ns i
    by (rule safe_seq [OF safe_on_stores [OF ports_safeD(5) [OF p]]]) (auto intro!: safe_intros split: option.split)
  have "Q m" if "dict_get (pc_state c) ''stm_item'' = Some (SvItem m)" for m
    using c that by (force simp: ctx_ok_def)
  then show ?thesis
    unfolding resolve_item_def
    by (auto intro!: safe_intros stored split: option.split state_value.split list.split)
qed

lemma promote_safe:
  assumes p: "ports_safe K Q p" "\<And>m v model now. Q m \<Longrightarrow> Q (promoted_copy m v model now)" and c: "ctx_ok Q p c"
  shows "keeps_K K (st_execute (promote_stage p) c) (outcome_ok Q p)"
proof -
  have up: "keeps_K K (seq (on_stores (ip_mtm_upsert p (promoted_copy m v model now))) (\<lambda>_. seq (promote_key p c) (\<lambda>key.
      lift_result (mk_outcome OK [(''promoted'', SvBool True), (''mtm_item'', SvItem (promoted_copy m v model now))] es None (Some key)))))
      (outcome_ok Q p)" if "Q m" for m v model now es
    using that
    by (auto intro!: safe_then safe_on_stores ports_safeD [OF p(1)] promote_key_safe [OF p(1) c] safe_lift
        simp: mk_outcome_OK outcome_ok_def p(2))
  have "keeps_K K (promote_execute p c) (outcome_ok Q p)"
    unfolding promote_execute_def Let_def
  proof (rule safe_seq [OF activity_of_ok [OF c]], goal_cases)
    case (1 a)
    have run: "keeps_K K (seq (resolve_item p c a) (\<lambda>item. seq (on_stores (ip_embed p [atomic_fact_text a])) (\<lambda>vectors. case vectors of
        [] \<Rightarrow> raise_exc IndexError
      | v # _ \<Rightarrow> seq (on_stores (ip_now p)) (\<lambda>_. seq (on_stores (ip_now p)) (\<lambda>now.
          seq (on_stores (ip_mtm_upsert p (promoted_copy item v (ip_model_name p) now))) (\<lambda>_. seq (promote_key p c) (\<lambda>key.
            lift_result (mk_outcome OK [(''promoted'', SvBool True), (''mtm_item'', SvItem (promoted_copy item v (ip_model_name p) now))]
              [MemoryPromoted (ia_namespace a) (mi_id (promoted_copy item v (ip_model_name p) now)) STM MTM reason] None (Some key)))))))))
        (outcome_ok Q p)" for reason
      by (rule safe_seq [OF resolve_safe [OF p(1) c]], rule safe_then)
        (auto intro!: safe_then safe_on_stores ports_safeD [OF p(1)] safe_raise up split: list.split)
    show ?case
    proof (cases "promotion_reason (ip_importance_promote p) a")
      case None
      then show ?thesis by (auto intro!: safe_lift simp: mk_outcome_OK outcome_ok_def)
    next
      case (Some reason)
      show ?thesis unfolding Some option.case by (rule run)
    qed
  qed
  then show ?thesis by (simp add: promote_stage_def)
qed

lemma emit_safe: "keeps_K K (st_execute emit_stage c) (outcome_ok Q p)"
  by (auto intro!: safe_lift simp: emit_stage_def emit_execute_def Let_def mk_outcome_OK outcome_ok_def)

lemma run_gated_safe:
  assumes "keeps_K K (st_key st c) (\<lambda>_. True)" "keeps_K K (st_execute st c) (outcome_ok Q p)"
  shows "keeps_K K (run_gated st c) (outcome_ok Q p)"
proof -
  have run: "keeps_K K (execute_and_mark st key c) (outcome_ok Q p)" for key
    unfolding execute_and_mark_def
    by (rule safe_seq [OF assms(2)]) (auto intro!: safe_then safe_ledger safe_ret)
  show ?thesis
    unfolding run_gated_def
    by (rule safe_then [OF assms(1)])
      (auto intro!: safe_then safe_ledger safe_lift run simp: mk_outcome_def outcome_ok_def split: option.split)
qed

lemma update_state_ok:
  assumes "ctx_ok Q p c" "\<forall>(k, v)\<in>set produced. value_ok Q p v"
  shows "ctx_ok Q p (update_state c produced)"
proof -
  have "\<forall>k v. dict_get (fold (\<lambda>(k, v). dict_put k v) produced d) k = Some v \<longrightarrow> value_ok Q p v"
    if "\<forall>k v. dict_get d k = Some v \<longrightarrow> value_ok Q p v" "\<forall>(k, v)\<in>set produced. value_ok Q p v" for d
    using that
  proof (induction produced arbitrary: d)
    case (Cons kv produced)
    obtain k v where kv: "kv = (k, v)" by fastforce
    have "\<forall>k' v'. dict_get (dict_put k v d) k' = Some v' \<longrightarrow> value_ok Q p v'" using Cons.prems kv by auto
    from Cons.IH [OF this] Cons.prems(2) kv show ?case by simp
  qed simp
  note fold_ok = this [OF assms(1) [unfolded ctx_ok_def] assms(2)]
  have st: "pc_state (update_state c produced) = fold (\<lambda>(k, v). dict_put k v) produced (pc_state c)"
    by (simp add: update_state_def)
  show ?thesis unfolding ctx_ok_def st by (rule fold_ok)
qed

lemma run_stage_safe:
  assumes "keeps_K K (st_key st c) (\<lambda>_. True)" "keeps_K K (st_execute st c) (outcome_ok Q p)" "ctx_ok Q p c"
  shows "keeps_K K (run_stage p st c) (\<lambda>(c', es). ctx_ok Q p c')"
proof -
  have "keeps_K K (wrap_stage_error (run_gated st c)) (outcome_ok Q p)"
    using run_gated_safe [OF assms(1,2)] unfolding safe_def wrap_stage_error_def
    by (fastforce split: prod.splits sum.splits)
  then show ?thesis
    unfolding run_stage_def
    by (rule safe_seq)
      (auto intro!: safe_raise safe_then safe_for_each safe_on_bus safe_ret update_state_ok [OF assms(3)] simp: outcome_ok_def)
qed

lemma remember_safe:
  assumes p: "ports_safe K Q p" "\<And>m v model now. Q m \<Longrightarrow> Q (promoted_copy m v model now)" and a: "activity_ok Q p a"
  shows "keeps_K K (remember_inner p a cid) (\<lambda>_. True)"
proof -
  have key1: "keeps_K K (st_key (write_stm_stage p) c) (\<lambda>_. True)" if "ctx_ok Q p c" for c
    by (auto intro!: safe_intros simp: write_stm_stage_def)
  have key2: "keeps_K K (st_key (promote_stage p) c) (\<lambda>_. True)" if "ctx_ok Q p c" for c
    using promote_key_safe [OF p(1) that] by (simp add: promote_stage_def)
  have key3: "keeps_K K (st_key emit_stage c) (\<lambda>_. True)" for c
    by (auto intro!: safe_intros simp: emit_stage_def)
  have c0: "ctx_ok Q p (initial_ctx a cid)" using a by (auto simp: ctx_ok_def initial_ctx_def split: if_splits)
  have stages: "keeps_K K (run_stages p [write_stm_stage p, promote_stage p, emit_stage] (initial_ctx a cid) []) (\<lambda>_. True)"
    unfolding run_stages.simps
    by (rule safe_seq [OF run_stage_safe [OF key1 [OF c0] write_stm_safe [OF p(1) c0] c0]], clarify,
        rule safe_seq [OF run_stage_safe [OF key2 promote_safe [OF p]]], assumption+, clarify,
        rule safe_seq [OF run_stage_safe [OF key3 emit_safe]], assumption+) (auto intro!: safe_ret)
  show ?thesis
    unfolding remember_inner_def
    by (rule safe_then [OF safe_on_stores [OF ports_safeD(1) [OF p(1)]]], rule safe_then [OF stages])
      (auto intro!: safe_intros content_hash_safe [OF p(1) a] simp: Let_def split: list.split)
qed

section \<open>Consolidation and the mid-term store\<close>

lemma safe_on_ltm [safe_intros]: "safe (\<lambda>w. K (dw_mtm w)) (on_ltm f) (\<lambda>_. True)"
  by (auto simp: safe_def on_ltm_def split: prod.splits)

lemma safe_on_dbus [safe_intros]: "safe (\<lambda>w. K (dw_mtm w)) (on_dbus f) (\<lambda>_. True)"
  by (auto simp: safe_def on_dbus_def split: prod.splits)

lemma safe_on_clock [safe_intros]: "safe (\<lambda>w. K (dw_mtm w)) (on_clock f) (\<lambda>_. True)"
  by (auto simp: safe_def on_clock_def split: prod.splits)

lemma safe_on_mtm: "safe K f P \<Longrightarrow> safe (\<lambda>w. K (dw_mtm w)) (on_mtm f) P"
  by (fastforce simp: safe_def on_mtm_def split: prod.splits)

lemma distill_mtm_safe:
  assumes "\<And>f ns l w t why. dp_mtm_invalidate p = Some f \<Longrightarrow> safe K (f ns l w t why) (\<lambda>_. True)"
  shows "safe (\<lambda>w. K (dw_mtm w)) (distill_inner p ns window) (\<lambda>_. True)"
proof -
  have inval: "safe (\<lambda>w. K (dw_mtm w)) (mtm_invalidate_if p ns l w) (\<lambda>_. True)" for ns l w
    unfolding mtm_invalidate_if_def
    by (cases "dp_mtm_invalidate p") (auto intro!: safe_ret safe_on_mtm assms)
  have publish: "safe (\<lambda>w. K (dw_mtm w)) (publish_if p e) (\<lambda>_. True)" for e
    by (auto simp: publish_if_def intro!: safe_intros split: option.split)
  have collect: "safe (\<lambda>w. K (dw_mtm w)) (collect_facts p ns window) (\<lambda>_. True)"
    unfolding collect_facts_def collect_one_def fact_to_item_def
    by (intro safe_intros) (auto intro!: safe_intros)
  have reconcile: "safe (\<lambda>w. K (dw_mtm w)) (reconcile_and_apply p ns winner) (\<lambda>_. True)" for winner
    unfolding reconcile_and_apply_def apply_noop_def apply_add_def apply_self_expire_def apply_supersede_def
      supersede_one_def maybe_promote_event_def Let_def
    by (auto intro!: safe_intros inval publish split: option.split list.split)
  show ?thesis
    unfolding distill_inner_def Let_def by (intro safe_intros collect publish reconcile) simp
qed

section \<open>What the stores of a container hold\<close>

definition stm_holds :: "namespace \<Rightarrow> stm_store \<Rightarrow> memory_item \<Rightarrow> bool" where
  "stm_holds ns s m = (\<exists>k e. (k, m, e) \<in> set (p_items (partition_of ns s)))"

lemma stm_holds_put:
  assumes "sorted_list_pkg sl" "stm_inv s" "stm_put sl cfg now item s = Some (Inr s')" "stm_holds ns s' m"
  shows "stm_holds ns s m \<or> m = item"
proof (cases "0 \<le> stm_max_items cfg")
  case True
  let ?p = "inserted now (ttl_expiry cfg now) item (partition_of (mi_namespace item) s)"
  let ?k = "keep (\<lambda>i. i \<in> snd ` set (take (nat (stm_max_items cfg)) (p_recency ?p))) ?p"
  have "s' = dict_put (to_prefix (mi_namespace item)) ?k s"
    using stm_put_eq [OF assms(1,2) True] assms(3) by (simp add: Let_def)
  then obtain k e where "(k, m, e) \<in> set (p_items (if to_prefix ns = to_prefix (mi_namespace item) then ?k else partition_of ns s))"
    using assms(4) by (auto simp: stm_holds_def dict_put_partition)
  then have "(k, m, e) \<in> set (p_items ?p) \<and> to_prefix ns = to_prefix (mi_namespace item) \<or> stm_holds ns s m"
    using keep_items_subset [of _ ?p] by (auto simp: stm_holds_def split: if_splits)
  moreover have "(k, m, e) \<in> set (p_items ?p) \<Longrightarrow> to_prefix ns = to_prefix (mi_namespace item) \<Longrightarrow> stm_holds ns s m \<or> m = item"
    using keep_items_subset by (fastforce simp: inserted_def Let_def stm_holds_def partition_of_def)
  ultimately show ?thesis by blast
next
  case False
  then have "stm_put sl cfg now item s = Some (Inl IndexError)"
    using shrink_negative [OF assms(1) inserted_inv [OF partition_of_inv [OF assms(2)]]]
    by (simp add: stm_put_shrink [OF assms(1,2)])
  then show ?thesis using assms(3) by simp
qed

lemma partition_of_prefix: "to_prefix ns = to_prefix ns' \<Longrightarrow> partition_of ns s = partition_of ns' s"
  by (simp add: partition_of_def)

lemma stm_holds_part:
  assumes "stm_holds ns' (dict_put (to_prefix ns) p s) m" "set (p_items p) \<subseteq> set (p_items (partition_of ns s))"
  shows "stm_holds ns' s m"
proof (cases "to_prefix ns' = to_prefix ns")
  case True
  then show ?thesis
    using assms partition_of_prefix [OF True, of s] unfolding stm_holds_def dict_put_partition by auto
next
  case False
  then show ?thesis using assms(1) unfolding stm_holds_def dict_put_partition by simp
qed

lemma stm_holds_keep: "stm_holds ns' (dict_put (to_prefix ns) (keep Q (partition_of ns s)) s) m \<Longrightarrow> stm_holds ns' s m"
  by (erule stm_holds_part) (rule keep_items_subset)

lemma stm_holds_same: "stm_holds ns' (dict_put (to_prefix ns) (partition_of ns s) s) m \<Longrightarrow> stm_holds ns' s m"
  by (erule stm_holds_part) simp

lemma stm_holds_get:
  "\<lbrakk> sorted_list_pkg sl; stm_inv s; stm_holds ns' (snd (stm_get sl now ns mid s)) m \<rbrakk> \<Longrightarrow> stm_holds ns' s m"
  by (auto simp: stm_get_def Let_def evict_keep partition_of_inv split: option.splits if_splits
      dest: stm_holds_keep stm_holds_same)

lemma stm_holds_recent:
  "\<lbrakk> sorted_list_pkg sl; stm_inv s; stm_holds ns' (snd (stm_recent sl now ns limit s)) m \<rbrakk> \<Longrightarrow> stm_holds ns' s m"
  by (auto simp: stm_recent_def Let_def prune_keep partition_of_inv dest: stm_holds_keep)

lemma stm_get_holds: "fst (stm_get sl now ns mid s) = Some m \<Longrightarrow> stm_holds ns s m"
  by (fastforce simp: stm_get_result stm_holds_def dest!: map_of_SomeD split: option.splits if_splits)

lemma stm_recent_holds:
  assumes "sorted_list_pkg sl" "stm_inv s" "fst (stm_recent sl now ns limit s) = Inr fl" "x \<in> set fl"
  shows "stm_holds ns s (sc_item x)"
  using stm_recent_spec [OF assms(1,2), of now ns limit] assms(3,4) keep_items_subset
  unfolding live_part_def stm_holds_def by fastforce

section \<open>Verbs\<close>

datatype verb =
    Add_Verb add_content string "string option"
  | Consolidate_Verb string "string option" int
  | Get_Verb string string "string option"

text \<open>One call of the facade; what it raises is the caller's affair.\<close>
fun run_verb ::
  "local_memory \<Rightarrow> ('s, 'b) local_services \<Rightarrow> verb \<Rightarrow> ('s, 'b) local_state \<Rightarrow> ('s, 'b) local_state" where
  "run_verb lm sv (Add_Verb content user session) st = snd (local_add lm sv content user session st)"
| "run_verb lm sv (Consolidate_Verb user session limit) st = snd (local_consolidate lm sv user session limit st)"
| "run_verb lm sv (Get_Verb mid user session) st = snd (local_get lm sv mid user session st)"

definition run_verbs ::
  "local_memory \<Rightarrow> ('s, 'b) local_services \<Rightarrow> verb list \<Rightarrow> ('s, 'b) local_state \<Rightarrow> ('s, 'b) local_state" where
  "run_verbs lm sv verbs st = fold (run_verb lm sv) verbs st"

text \<open>The texts of one add, and of all adds, by namespace; the namespaces that were consolidated.\<close>
definition content_texts :: "add_content \<Rightarrow> string set" where
  "content_texts content = {t. \<exists>ms m. normalize_messages content = Inr ms \<and> m \<in> set ms \<and> message_text m = Inr t}"

definition added_texts :: "local_memory \<Rightarrow> verb list \<Rightarrow> (namespace \<times> string) set" where
  "added_texts lm verbs = {(ns, t). \<exists>content user session. Add_Verb content user session \<in> set verbs
     \<and> local_ns lm user session = Inr ns \<and> t \<in> content_texts content}"

definition consolidated :: "local_memory \<Rightarrow> verb list \<Rightarrow> namespace set" where
  "consolidated lm verbs = {ns. \<exists>user session limit. Consolidate_Verb user session limit \<in> set verbs
     \<and> local_ns lm user session = Inr ns}"

section \<open>Invariants of a container\<close>

definition own_item :: "(namespace \<times> string) set \<Rightarrow> memory_item \<Rightarrow> bool" where
  "own_item A m = (well_formed_item m \<and> (mi_namespace m, mi_content m) \<in> A)"

lemma own_item_promoted: "own_item A m \<Longrightarrow> own_item A (promoted_copy m v model now)"
  by (simp add: own_item_def promoted_copy_def well_formed_item_def)

lemma own_item_minted:
  assumes "valid_ns (ia_namespace a)" "(ia_namespace a, ia_text a) \<in> A" "\<And>x. sha x \<noteq> []"
  shows "own_item A (minted_item sha a t i)"
  using assms
  by (simp add: own_item_def well_formed_item_def minted_item_def Let_def post_init_provenance)
    (simp add: post_init_def Let_def compute_content_hash_def default_item_def)

text \<open>What the parts that are not code here are trusted for.\<close>
definition parts_ok :: "('m, 'j, 'c) container_parts \<Rightarrow> bool" where
  "parts_ok c = (sorted_list_pkg (ct_sorted c) \<and> falkor_ok (ct_falkor c) \<and> (\<forall>x. ct_sha256 c x \<noteq> []))"

definition graph_inv :: "'j falkor \<Rightarrow> namespace set \<Rightarrow> 'j falkor_state \<Rightarrow> bool" where
  "graph_inv cfg C g = (\<exists>F. ltm_rel cfg g F \<and> fst ` dom F \<subseteq> C)"

definition stm_own :: "(namespace \<times> string) set \<Rightarrow> stm_store \<Rightarrow> bool" where
  "stm_own A s = (stm_inv s \<and> (\<forall>ns m. stm_holds ns s m \<longrightarrow> own_item A m))"

lemma graph_inv_distill:
  assumes "graph_inv cfg C (dw_ltm w)" "ltm.wired cfg p" "valid_ns ns" "ns \<in> C" "\<forall>m\<in>set window. mi_namespace m = ns"
    "distill_inner p ns window w = (r, w')"
  shows "graph_inv cfg C (dw_ltm w')"
proof -
  obtain F where F: "ltm_rel cfg (dw_ltm w) F" "fst ` dom F \<subseteq> C" using assms(1) by (auto simp: graph_inv_def)
  have "\<exists>F'. ltm_rel cfg (dw_ltm w') F' \<and> grows ns F F'"
    using ltm.evolves_distill [OF assms(2,3,5), unfolded ltm.evolves_def, rule_format, OF F(1) assms(6)] by (rule conjunct1)
  then obtain F' where F': "ltm_rel cfg (dw_ltm w') F'" "grows ns F F'" by (elim exE conjE)
  have "ns' \<in> C" if "F' (ns', i) = Some f" for ns' i f
  proof (cases "ns' = ns")
    case False
    then have "F (ns', i) = Some f" using that F'(2) by (simp add: grows_def)
    then have "(ns', i) \<in> dom F" by blast
    then show ?thesis using F(2) by (metis fst_conv image_subset_iff)
  qed (use assms(4) in simp)
  then have "fst ` dom F' \<subseteq> C" by auto
  then show ?thesis using F'(1) by (auto simp: graph_inv_def)
qed

lemma graph_recall_hits:
  assumes "graph_inv cfg C g" "valid_ns ns" "fst (graph_recall cfg ns None None k caller g) = Inr fl" "x \<in> set fl"
  shows "mi_namespace (sc_item x) = ns \<and> ns \<in> C \<and> sc_channel x = LTM_GRAPH"
proof -
  obtain F where F: "ltm_rel cfg g F" "fst ` dom F \<subseteq> C" using assms(1) by (auto simp: graph_inv_def)
  obtain fl' ys where "graph_recall cfg ns None None k caller g = (Inr fl', tick g)" and fl': "map sc_item fl' = take k ys"
    and ys: "set ys \<subseteq> {ft_item f | i f. F (ns, i) = Some f \<and> live (now_of cfg g) f
         \<and> matches None (str_or_empty (mi_subject (ft_item f))) \<and> matches None (str_or_empty (mi_predicate (ft_item f)))}"
    using graph_recall_spec [OF F(1) assms(2), of None None k caller] by blast
  then have "map sc_item fl = take k ys" using assms(3) by simp
  moreover have "sc_item x \<in> set (map sc_item fl)" using assms(4) by simp
  ultimately have "sc_item x \<in> set ys" using in_set_takeD [of "sc_item x" k ys] by simp
  then obtain i f where "F (ns, i) = Some f" "sc_item x = ft_item f" using ys by blast
  moreover have "facts_ok F" using F(1) by (simp add: ltm_rel_def)
  moreover have "sc_channel x = LTM_GRAPH"
    using assms(3,4) by (auto simp: graph_recall_def rbind_Inr_iff graph_scored_def)
  ultimately show ?thesis using F(2) by (force simp: facts_ok_def fact_ok_def)
qed

lemma stm_ownI:
  assumes "stm_own A s" "stm_inv t" "\<And>ns m. stm_holds ns t m \<Longrightarrow> stm_holds ns s m \<or> own_item A m"
  shows "stm_own A t"
  using assms unfolding stm_own_def by blast

section \<open>A container over any vector store\<close>

context vector_store
begin

definition mtm_wired :: "('s, 'j, 'c) container_parts \<Rightarrow> bool" where
  "mtm_wired c = (ct_mtm_upsert c = upsert \<and> ct_mtm_invalidate c = inval
     \<and> ct_mtm_semantic c = (\<lambda>s ns q limit caller. semantic s ns q (nat limit) caller))"

definition view_own :: "(namespace \<times> string) set \<Rightarrow> 's \<Rightarrow> bool" where
  "view_own A s = (\<forall>k m. view s k = Some m \<longrightarrow> (mi_namespace m, mi_content m) \<in> A)"

lemma view_ownD: "view_own A s \<Longrightarrow> view s k = Some m \<Longrightarrow> (mi_namespace m, mi_content m) \<in> A"
  unfolding view_own_def by blast

definition container_inv ::
  "('s, 'j, 'c) container_parts \<Rightarrow> (namespace \<times> string) set \<Rightarrow> namespace set \<Rightarrow> ('s, 'j, 'c) local_stores \<Rightarrow> bool" where
  "container_inv c A C s = (stm_own A (ls_stm s) \<and> inv (ls_mtm s)
     \<and> view_own A (ls_mtm s) \<and> graph_inv (ct_falkor c) C (ls_ltm s))"

lemma local_put_safe:
  assumes "parts_ok c" "own_item A m"
  shows "safe (container_inv c A C) (local_stm_put c m) (\<lambda>_. True)"
proof (rule safeI)
  fix s r s' assume K: "container_inv c A C s" and put: "local_stm_put c m s = (r, s')"
  have sl: "sorted_list_pkg (ct_sorted c)" using assms(1) by (simp add: parts_ok_def)
  have s: "stm_inv (ls_stm s)" using K by (simp add: container_inv_def stm_own_def)
  have "\<exists>x. stm_put (ct_sorted c) (ct_stm c) (ct_now c s) m (ls_stm s) = Some x"
  proof (cases "0 \<le> stm_max_items (ct_stm c)")
    case True
    then show ?thesis by (simp add: stm_put_eq [OF sl s] Let_def)
  next
    case False
    then show ?thesis
      using shrink_negative [OF sl inserted_inv [OF partition_of_inv [OF s]]] by (simp add: stm_put_shrink [OF sl s])
  qed
  then obtain x where x: "stm_put (ct_sorted c) (ct_stm c) (ct_now c s) m (ls_stm s) = Some x" by blast
  show "container_inv c A C s' \<and> (\<forall>a. r = Inr a \<longrightarrow> True)"
  proof (cases x)
    case (Inl e)
    then show ?thesis using put x K by (simp add: local_stm_put_def)
  next
    case (Inr t)
    have "stm_own A t"
    proof (rule stm_ownI)
      show "stm_own A (ls_stm s)" using K by (simp add: container_inv_def)
      show "stm_inv t" using stm_put_inv [OF sl s] x Inr by blast
      show "stm_holds ns (ls_stm s) y \<or> own_item A y" if "stm_holds ns t y" for ns y
        using stm_holds_put [OF sl s x [unfolded Inr] that] assms(2) by blast
    qed
    then show ?thesis using put x K Inr by (auto simp: local_stm_put_def container_inv_def)
  qed
qed

lemma local_get_safe:
  assumes "parts_ok c"
  shows "safe (container_inv c A C) (local_stm_get c ns i) (\<lambda>r. \<forall>m. r = Some m \<longrightarrow> own_item A m)"
proof (rule safeI)
  fix s r s' assume K: "container_inv c A C s" and get: "local_stm_get c ns i s = (r, s')"
  have sl: "sorted_list_pkg (ct_sorted c)" using assms(1) by (simp add: parts_ok_def)
  obtain found t where g: "stm_get (ct_sorted c) (ct_now c s) ns i (ls_stm s) = (found, t)" by fastforce
  have s: "stm_own A (ls_stm s)" "stm_inv (ls_stm s)" using K by (simp_all add: container_inv_def stm_own_def)
  have "stm_own A t"
    using stm_get_inv [OF sl s(2), of "ct_now c s" ns i] stm_holds_get [OF sl s(2), of _ "ct_now c s" ns i] g
    by (intro stm_ownI [OF s(1)]) simp_all
  moreover have "own_item A m" if "found = Some m" for m
    using stm_get_holds [of "ct_sorted c" "ct_now c s" ns i "ls_stm s" m] g that s(1) by (auto simp: stm_own_def)
  ultimately show "container_inv c A C s' \<and> (\<forall>a. r = Inr a \<longrightarrow> (\<forall>m. a = Some m \<longrightarrow> own_item A m))"
    using get g K by (auto simp: local_stm_get_def container_inv_def)
qed

lemma local_recent_safe:
  assumes "parts_ok c" "valid_ns ns"
  shows "safe (container_inv c A C) (local_stm_recent c ns limit) (\<lambda>hits. \<forall>x\<in>set hits. own_item A (sc_item x) \<and> mi_namespace (sc_item x) = ns)"
proof (rule safeI)
  fix s r s' assume K: "container_inv c A C s" and recent: "local_stm_recent c ns limit s = (r, s')"
  have sl: "sorted_list_pkg (ct_sorted c)" using assms(1) by (simp add: parts_ok_def)
  obtain t where g: "stm_recent (ct_sorted c) (ct_now c s) ns limit (ls_stm s) = (r, t)" "s' = s\<lparr>ls_stm := t\<rparr>"
    using recent by (auto simp: local_stm_recent_def split: prod.splits)
  have s: "stm_own A (ls_stm s)" "stm_inv (ls_stm s)" using K by (simp_all add: container_inv_def stm_own_def)
  have "stm_own A t"
    using stm_recent_inv [OF sl s(2), of "ct_now c s" ns limit] stm_holds_recent [OF sl s(2), of _ "ct_now c s" ns limit] g
    by (intro stm_ownI [OF s(1)]) simp_all
  moreover have "own_item A (sc_item x) \<and> mi_namespace (sc_item x) = ns" if "r = Inr hits" "x \<in> set hits" for hits x
  proof -
    have own: "own_item A (sc_item x)"
      using stm_recent_holds [OF sl s(2), of "ct_now c s" ns limit hits x] g that s(1) by (auto simp: stm_own_def)
    moreover have "to_prefix (mi_namespace (sc_item x)) = to_prefix ns"
      using stm_recent_own [OF sl s(2), of "ct_now c s" ns limit hits] g that by simp
    ultimately show ?thesis
      using to_prefix_inj assms(2) by (auto simp: own_item_def well_formed_item_def)
  qed
  ultimately show "container_inv c A C s' \<and> (\<forall>hits. r = Inr hits \<longrightarrow> (\<forall>x\<in>set hits. own_item A (sc_item x) \<and> mi_namespace (sc_item x) = ns))"
    using g(2) K by (auto simp: container_inv_def)
qed

lemma local_upsert_safe:
  assumes "mtm_wired c" "\<And>m. own_item A m \<Longrightarrow> fits m" "own_item A m"
  shows "safe (container_inv c A C) (ip_mtm_upsert (local_ingest c) m) (\<lambda>_. True)"
proof (rule safeI)
  fix s r s' assume K: "container_inv c A C s" and up: "ip_mtm_upsert (local_ingest c) m s = (r, s')"
  obtain t where t: "upsert m (ls_mtm s) = (r, t)" "s' = s\<lparr>ls_mtm := t\<rparr>"
    using up assms(1) by (auto simp: local_ingest_def mtm_wired_def split: prod.splits)
  have i: "inv (ls_mtm s)" using K by (simp add: container_inv_def)
  have "inv t" by (rule upsert_inv [OF i assms(2) [OF assms(3)] t(1)])
  moreover have "view_own A t"
  proof -
    have old: "view_own A (ls_mtm s)" using K by (simp add: container_inv_def)
    have "(mi_namespace x, mi_content x) \<in> A" if x: "view t k = Some x" for k x
      using view_upsert [OF i assms(2) [OF assms(3)] t(1) x] view_ownD [OF old, of k x] assms(3) readback_same [of m]
      by (auto simp: own_item_def)
    then show ?thesis by (simp add: view_own_def)
  qed
  ultimately show "container_inv c A C s' \<and> (\<forall>a. r = Inr a \<longrightarrow> True)" using K t(2) by (simp add: container_inv_def)
qed

lemma local_ports_safe:
  assumes "parts_ok c" "mtm_wired c" "\<And>m. own_item A m \<Longrightarrow> fits m"
  shows "ports_safe (container_inv c A C) (own_item A) (local_ingest c)"
proof -
  have p: "ip_stm_put (local_ingest c) = local_stm_put c" "ip_stm_get (local_ingest c) = local_stm_get c"
    "ip_now (local_ingest c) = (\<lambda>s. (Inr (ct_now c s), s))" "ip_new_id (local_ingest c) = (\<lambda>s. (Inr (ct_new_id c s), s))"
    "ip_embed (local_ingest c) = (\<lambda>ts s. (ct_embed c ts, s))" by (simp_all add: local_ingest_def)
  show ?thesis
    unfolding ports_safe_def p
    using local_put_safe [OF assms(1)] local_get_safe [OF assms(1)] local_upsert_safe [OF assms(2,3)] own_item_promoted
    by (intro conjI allI impI safe_pair) blast+
qed

lemma local_distill_safe:
  assumes "mtm_wired c" "valid_ns ns" "ns \<in> C" "\<forall>m\<in>set window. mi_namespace m = ns"
  shows "safe (container_inv c A C) (local_distill c ns window) (\<lambda>_. True)"
proof (rule safeI)
  fix s r s' assume K: "container_inv c A C s" and run: "local_distill c ns window s = (r, s')"
  let ?w = "\<lparr>dw_ltm = ls_ltm s, dw_mtm = ls_mtm s, dw_bus = (), dw_clock = ls_env s\<rparr>"
  obtain w' where w': "distill_inner (local_distill_ports c) ns window ?w = (r, w')"
    "s' = s\<lparr>ls_ltm := dw_ltm w', ls_mtm := dw_mtm w', ls_env := dw_clock w'\<rparr>"
    using run by (auto simp: local_distill_def split: prod.splits)
  let ?K = "\<lambda>t. inv t \<and> view_own A t"
  have keep: "safe ?K (inval ns l w t why) (\<lambda>_. True)" for ns l w t why
  proof (rule safeI)
    fix t1 x t2 assume t1: "inv t1 \<and> view_own A t1" and iv: "inval ns l w t why t1 = (x, t2)"
    have "inv t2" using inval_inv [OF _ iv] t1 by blast
    moreover have "view_own A t2" unfolding view_own_def using inval_others [OF _ iv] view_ownD t1 by blast
    ultimately show "(inv t2 \<and> view_own A t2) \<and> (\<forall>a. x = Inr a \<longrightarrow> True)" by blast
  qed
  have "safe (\<lambda>w. ?K (dw_mtm w)) (distill_inner (local_distill_ports c) ns window) (\<lambda>_. True)"
    using assms(1) keep by (intro distill_mtm_safe [where K = ?K]) (simp add: local_distill_ports_def mtm_wired_def)
  moreover have "?K (dw_mtm ?w)" using K by (simp add: container_inv_def)
  ultimately have "?K (dw_mtm w')" using w'(1) unfolding safe_def by blast
  moreover have "ltm.wired (ct_falkor c) (local_distill_ports c)"
    by (simp add: ltm.wired_def local_distill_ports_def)
  then have "graph_inv (ct_falkor c) C (dw_ltm w')"
    using graph_inv_distill [OF _ _ assms(2-4) w'(1)] K by (simp add: container_inv_def)
  ultimately show "container_inv c A C s' \<and> (\<forall>a. r = Inr a \<longrightarrow> True)" using K w'(2) by (simp add: container_inv_def)
qed

end

lemma safe_on_local: "safe K f P \<Longrightarrow> safe (\<lambda>st. K (lo_stores st)) (on_local f) P"
  by (fastforce simp: safe_def on_local_def on_stores_def lo_stores_def split: prod.splits)

lemma safe_local_remember:
  assumes "\<And>cid. keeps_K K (remember_inner (sv_ingest sv) a cid) (\<lambda>_. True)"
  shows "safe (\<lambda>st. K (lo_stores st)) (local_remember sv a) (\<lambda>_. True)"
proof (rule safeI)
  fix st r st' assume K: "K (lo_stores st)" and run: "local_remember sv a st = (r, st')"
  obtain x w' where x: "remember_inner (sv_ingest sv) a (activity_id_for (ip_sha256 (sv_ingest sv)) a) (lo_world st) = (x, w')"
    by fastforce
  then have "K (w_stores w')" using safeD [OF assms _ x] K by (simp add: lo_stores_def)
  moreover have "lo_world st' = w'"
    using run x by (auto simp: local_remember_def remember_def split: sum.splits)
  ultimately show "K (lo_stores st') \<and> (\<forall>a. r = Inr a \<longrightarrow> True)" by (simp add: lo_stores_def)
qed

lemma container_simps [simp]:
  "sv_ingest (container_services c) = local_ingest c" "sv_stm_recent (container_services c) = local_stm_recent c"
  "sv_distill (container_services c) = local_distill c"
  "sv_new_offset (container_services c) = (\<lambda>s. (Inr (ct_new_offset c s), s))"
  by (simp_all add: container_services_def)

lemma local_ns_valid: "local_ns lm user session = Inr ns \<Longrightarrow> valid_ns ns \<and> ns_visibility ns = PRIVATE"
  by (auto simp: local_ns_def mk_namespace_Inr)

context vector_store
begin

lemma add_messages_safe:
  assumes "parts_ok c" "mtm_wired c" "\<And>m. own_item A m \<Longrightarrow> fits m" "valid_ns ns"
    "\<forall>m\<in>set ms. \<forall>t. message_text m = Inr t \<longrightarrow> (ns, t) \<in> A"
  shows "safe (\<lambda>st. container_inv c A C (lo_stores st)) (add_messages (container_services c) ns latest ms) (\<lambda>_. True)"
  using assms(5)
proof (induction ms arbitrary: latest)
  case Nil
  show ?case unfolding add_messages.simps by (rule safe_ret) simp
next
  case (Cons m ms)
  have rem: "safe (\<lambda>st. container_inv c A C (lo_stores st)) (local_remember (container_services c) (local_activity ns offset t)) (\<lambda>_. True)"
    if "message_text m = Inr t" for offset t
  proof (rule safe_local_remember)
    have "activity_ok (own_item A) (local_ingest c) (local_activity ns offset t)"
      using assms(1,4) Cons.prems that
      by (auto simp: activity_ok_def local_activity_def local_ingest_def parts_ok_def intro!: own_item_minted)
    then show "keeps_K (container_inv c A C) (remember_inner (sv_ingest (container_services c)) (local_activity ns offset t) cid) (\<lambda>_. True)" for cid
      using remember_safe [OF local_ports_safe [OF assms(1-3)] own_item_promoted] by simp
  qed
  have step: "safe (\<lambda>st. container_inv c A C (lo_stores st)) (\<lambda>st. (message_text m, st)) (\<lambda>t. message_text m = Inr t)"
    by (simp add: safe_def)
  show ?case
    unfolding add_messages.simps container_simps
    by (intro safe_then [OF safe_on_local] safe_pair TrueI safe_seq [OF step] safe_then [OF rem] Cons.IH) (use Cons.prems in auto)
qed

lemma verb_safe:
  assumes "parts_ok c" "mtm_wired c" "\<And>m. own_item (added_texts lm verbs) m \<Longrightarrow> fits m" "v \<in> set verbs"
    "container_inv c (added_texts lm verbs) (consolidated lm verbs) (lo_stores st)"
  shows "container_inv c (added_texts lm verbs) (consolidated lm verbs) (lo_stores (run_verb lm (container_services c) v st))"
proof -
  let ?A = "added_texts lm verbs" and ?C = "consolidated lm verbs"
  let ?K = "\<lambda>st. container_inv c ?A ?C (lo_stores st)"
  have use: "?K (snd (m st))" if "safe ?K m (\<lambda>_. True)" for m :: "_ \<Rightarrow> 'x or_raise \<times> _"
    using safeD [OF that assms(5) surjective_pairing] by blast
  have ns: "safe ?K (\<lambda>st. (local_ns lm user session, st)) (\<lambda>ns. local_ns lm user session = Inr ns)" for user session
    by (simp add: safe_def)
  show ?thesis
  proof (cases v)
    case (Add_Verb content user session)
    have texts: "(ns, t) \<in> ?A" if "local_ns lm user session = Inr ns" "normalize_messages content = Inr ms" "m \<in> set ms"
      "message_text m = Inr t" for ns ms m t
      using that assms(4) unfolding Add_Verb added_texts_def content_texts_def by blast
    have norm: "safe ?K (\<lambda>st. (normalize_messages content, st)) (\<lambda>ms. normalize_messages content = Inr ms)"
      by (simp add: safe_def)
    have "safe ?K (local_add lm (container_services c) content user session) (\<lambda>_. True)"
      unfolding local_add_def
    proof (rule safe_seq [OF ns], rule safe_seq [OF norm], rule safe_then)
      fix ns ms assume "local_ns lm user session = Inr ns" "normalize_messages content = Inr ms"
      then show "safe ?K (add_messages (container_services c) ns None ms) (\<lambda>_. True)"
        by (intro add_messages_safe assms(1-3)) (use local_ns_valid texts in blast)+
    qed (auto intro!: safe_intros split: option.split)
    then show ?thesis using Add_Verb use by simp
  next
    case (Consolidate_Verb user session limit)
    have "safe ?K (local_consolidate lm (container_services c) user session limit) (\<lambda>_. True)"
      unfolding local_consolidate_def container_simps
    proof (rule safe_seq [OF ns])
      fix ns' assume n: "local_ns lm user session = Inr ns'"
      then have valid: "valid_ns ns'" "ns' \<in> ?C"
        using local_ns_valid assms(4) Consolidate_Verb by (auto simp: consolidated_def)
      show "safe ?K (seq (on_local (local_stm_recent c ns' limit)) (\<lambda>hits. seq (on_local (local_distill c ns' (map sc_item hits)))
          (\<lambda>report. ret \<lparr>cn_facts_extracted = dr_facts_extracted report, cn_added = report_added report,
            cn_superseded = report_superseded report\<rparr>))) (\<lambda>_. True)"
        by (rule safe_seq [OF safe_on_local [OF local_recent_safe [OF assms(1) valid(1)]]])
          (auto intro!: safe_then safe_on_local local_distill_safe [OF assms(2) valid] safe_ret)
    qed
    then show ?thesis using Consolidate_Verb use by simp
  next
    case (Get_Verb mid user session)
    have "safe ?K (local_get lm (container_services c) mid user session) (\<lambda>_. True)"
      unfolding local_get_def
      by (rule safe_then [OF safe_weaken [OF ns]], simp,
          rule safe_then [OF safe_on_local [OF safe_weaken]])
        (auto intro!: safe_Pair local_get_safe [OF assms(1)] simp: local_ingest_def)
    then show ?thesis using Get_Verb use by simp
  qed
qed

lemma verbs_safe:
  assumes "parts_ok c" "mtm_wired c" "\<And>m. own_item (added_texts lm verbs) m \<Longrightarrow> fits m" "set vs \<subseteq> set verbs"
    "container_inv c (added_texts lm verbs) (consolidated lm verbs) (lo_stores st)"
  shows "container_inv c (added_texts lm verbs) (consolidated lm verbs) (lo_stores (run_verbs lm (container_services c) vs st))"
  using assms(4,5)
proof (induction vs arbitrary: st)
  case Nil
  then show ?case by (simp add: run_verbs_def)
next
  case (Cons v vs)
  then show ?case
    using verb_safe [OF assms(1-3), where v = v and st = st] by (simp add: run_verbs_def)
qed

end

section \<open>What recall shows\<close>

lemma merge_floor_set: "set (merge_floor flr views limit) \<subseteq> set flr \<union> set views"
  by (auto simp: merge_floor_def Let_def dest!: in_set_takeD)

text \<open>The shared arm of the container is empty: what comes back is from the private ranking.\<close>
lemma container_recall_private:
  assumes "sv_recall (container_services c) scope q s = Inr r"
  obtains vec priv shared where
    "rank (ct_sched c) (local_repos c s) default_recall_settings (ct_now c s) (rq_namespace q) vec (rq_limit q)
       (rq_channels q) (for_scope scope (rq_namespace q)) = Inr priv"
    "fst (federate default_recall_settings (ct_now c s) scope q priv shared) = Inr r"
    "rr_items shared = []" "rr_degraded shared = None" "embed_one (ct_embed c) (rq_text q) = Inr vec"
proof -
  have "fst (recall (local_recall_deps c s) (ct_now c s) scope q) = Inr r"
    using assms by (simp add: container_services_def)
  then show ?thesis
  proof (cases rule: recall_Inr)
    case (1 shared_ns vec priv)
    let ?shared = "\<lparr>rr_namespace = shared_ns, rr_items = [], rr_channels_run = \<lparr>ch_stm = False, ch_mtm = False, ch_ltm = False\<rparr>,
        rr_degraded = None, rr_generated_at = ct_now c s\<rparr>"
    have "rd_shared_recall (local_recall_deps c s) (for_namespace shared_ns q) caller = Inr ?shared" for caller
      by (simp add: local_recall_deps_def null_shared_recall_def for_namespace_def)
    then have "fst (federate default_recall_settings (ct_now c s) scope q priv ?shared) = Inr r"
      using 1(5) by (simp add: local_recall_deps_def)
    then show ?thesis using that [of vec priv ?shared] 1(3,4) by (simp add: local_recall_deps_def)
  qed
qed

lemma local_recall_Inr:
  assumes "local_recall lm sv q user session tier limit s = Inr result"
  obtains ns r where "local_ns lm user session = Inr ns" "q \<noteq> []" "1 \<le> limit"
    "sv_recall sv (local_scope lm user session) (ranked_query ns q tier limit) s = Inr r" "result = to_list_view r"
  using assms by (auto simp: local_recall_def local_query_def rbind_Inr_iff split: sum.splits if_splits)

context vector_store
begin

lemma ranked_own:
  assumes c: "parts_ok c" "mtm_wired c" and admits: "admits caller" and K: "container_inv c A C s" and ns: "valid_ns ns"
    and rank: "rank sched (local_repos c s) st now ns vec limit channels caller = Inr r" and v: "v \<in> set (rr_items r)"
  shows "rv_namespace v = ns \<and> ((ns, rv_content v) \<in> A \<or> rv_channel v = ''ltm'' \<and> ns \<in> C)"
  using rank
proof (rule rank_Inr)
  fix flr mtm ltm deg pairs
  assume flr: "(if ch_stm channels then tr_stm_recent (local_repos c s) ns (rs_recency_floor_limit st) else Inr []) = Inr flr"
    and mtm: "(if ch_mtm channels then tr_mtm_semantic (local_repos c s) ns vec (rs_channel_pool_size st) caller else Inr []) = Inr mtm"
    and ltm: "(if ch_ltm channels then ltm_channel (local_repos c s) ns (rs_channel_pool_size st) caller else Inr ([], False)) = Inr (ltm, deg)"
    and pairs: "fuse sc_id [rs_weight_mtm st, rs_weight_ltm st] (rs_rrf_k st) [mtm, ltm] = Inr pairs"
    and items: "rr_items r = merge_floor (map (to_view ''stm'') flr) (map (\<lambda>(s, _). to_view (channel_label s) s) pairs) limit"
  have stm: "mi_namespace (sc_item x) = ns \<and> (ns, mi_content (sc_item x)) \<in> A" if "x \<in> set flr" for x
  proof -
    have "fst (local_stm_recent c ns (rs_recency_floor_limit st) s) = Inr flr"
      using flr that by (auto simp: local_repos_def local_stm_recent_def split: if_splits prod.splits)
    then obtain s' where "local_stm_recent c ns (rs_recency_floor_limit st) s = (Inr flr, s')" by (metis prod.collapse)
    from safeD [OF local_recent_safe [OF c(1) ns] K this] that show ?thesis by (auto simp: own_item_def)
  qed
  have dense: "mi_namespace (sc_item x) = ns \<and> (ns, mi_content (sc_item x)) \<in> A" if x: "x \<in> set mtm" for x
  proof -
    have "semantic (ls_mtm s) ns vec (nat (rs_channel_pool_size st)) caller = Inr mtm"
      using mtm x c(2) by (auto simp: local_repos_def mtm_wired_def split: if_splits)
    then have "view (ls_mtm s) (key ns (sc_id x)) = Some (sc_item x)" "mi_namespace (sc_item x) = ns"
      using search_sound [OF _ ns admits] K x by (auto simp: container_inv_def good_hit_def)
    moreover have "view_own A (ls_mtm s)" using K by (simp add: container_inv_def)
    ultimately show ?thesis using view_ownD [of A "ls_mtm s" "key ns (sc_id x)" "sc_item x"] by simp
  qed
  have graph: "mi_namespace (sc_item x) = ns \<and> ns \<in> C \<and> sc_channel x = LTM_GRAPH" if x: "x \<in> set ltm" for x
  proof -
    have "fst (graph_recall (ct_falkor c) ns None None (nat (rs_channel_pool_size st)) caller (ls_ltm s)) = Inr ltm"
      using ltm x by (auto simp: local_repos_def ltm_channel_def split: if_splits sum.splits)
    moreover have "graph_inv (ct_falkor c) C (ls_ltm s)" using K by (simp add: container_inv_def)
    ultimately show ?thesis using graph_recall_hits [OF _ ns _ x] by blast
  qed
  have fused: "rv_namespace v = ns \<and> ((ns, rv_content v) \<in> A \<or> rv_channel v = ''ltm'' \<and> ns \<in> C)"
    if "(x, score) \<in> set pairs" "v = to_view (channel_label x) x" for x score
  proof -
    have "x \<in> set mtm \<union> set ltm" using fuse_two [OF pairs] that(1) by force
    then show ?thesis
    proof
      assume "x \<in> set mtm"
      from dense [OF this] show ?thesis by (simp add: that(2) to_view_def Let_def)
    next
      assume "x \<in> set ltm"
      from graph [OF this] show ?thesis by (simp add: that(2) to_view_def Let_def channel_label_def)
    qed
  qed
  have "v \<in> set (map (to_view ''stm'') flr) \<union> set (map (\<lambda>(s, _). to_view (channel_label s) s) pairs)"
    using v unfolding items by (rule subsetD [OF merge_floor_set])
  then consider x where "x \<in> set flr" "v = to_view ''stm'' x"
    | x score where "(x, score) \<in> set pairs" "v = to_view (channel_label x) x" by (auto simp: split_beta)
  then show ?thesis
  proof cases
    case (1 x)
    from stm [OF 1(1)] show ?thesis by (simp add: 1(2) to_view_def Let_def)
  next
    case (2 x score)
    then show ?thesis by (rule fused)
  qed
qed

lemma local_recall_own:
  assumes c: "parts_ok c" "mtm_wired c" "admits None" and K: "container_inv c A C s"
    and run: "local_recall lm (container_services c) q user session tier limit s = Inr result" and v: "v \<in> set (lv_items result)"
  shows "\<exists>ns. local_ns lm user session = Inr ns \<and> ((ns, rec_content v) \<in> A \<or> rec_channel v = ''ltm'' \<and> ns \<in> C)"
  using run
proof (rule local_recall_Inr)
  fix ns r assume ns: "local_ns lm user session = Inr ns" and result: "result = to_list_view r"
    and recall: "sv_recall (container_services c) (local_scope lm user session) (ranked_query ns q tier limit) s = Inr r"
  obtain u where u: "u \<in> set (rr_items r)" "v = to_record_view u" using v result by (auto simp: to_list_view_def)
  have caller: "for_scope (local_scope lm user session) ns = None"
    using local_ns_valid [OF ns] by (simp add: for_scope_def)
  from recall show ?thesis
  proof (rule container_recall_private, unfold ranked_query_fields caller)
    fix vec priv shared
    assume rank: "rank (ct_sched c) (local_repos c s) default_recall_settings (ct_now c s) ns vec limit (channels_for_tier tier) None = Inr priv"
      and fed: "fst (federate default_recall_settings (ct_now c s) (local_scope lm user session) (ranked_query ns q tier limit)
       priv shared) = Inr r" and shared: "rr_items shared = []"
    have "u \<in> set (rr_items priv)" using federate_narrow [OF fed] shared u(1) by auto
    from ranked_own [OF c K _ rank this] local_ns_valid [OF ns] u(2) ns show ?thesis
      by (auto simp: to_record_view_def)
  qed
qed

end

text \<open>Containers over the default vector backend of StorageSettings, and over the embedded one.\<close>
definition qdrant_container ::
  "codec \<Rightarrow> string engine \<Rightarrow> nat \<Rightarrow> (qdrant_state, 'j, 'c) container_parts \<Rightarrow> (qdrant_state, 'j, 'c) container_parts" where
  "qdrant_container cd e dims c = c\<lparr>ct_mtm_upsert := qdrant_upsert cd e dims,
     ct_mtm_semantic := (\<lambda>s ns q limit caller. qdrant_semantic cd e dims s ns q (nat limit) caller),
     ct_mtm_invalidate := qdrant_invalidate cd dims\<rparr>"

definition faiss_container ::
  "codec \<Rightarrow> nat engine \<Rightarrow> faiss_config \<Rightarrow> (faiss_state, 'j, 'c) container_parts \<Rightarrow> (faiss_state, 'j, 'c) container_parts" where
  "faiss_container cd e fc c = c\<lparr>ct_mtm_upsert := faiss_upsert cd e fc,
     ct_mtm_semantic := (\<lambda>s ns q limit caller. fst (faiss_semantic cd e fc ns q (nat limit) caller s)),
     ct_mtm_invalidate := faiss_invalidate cd fc\<rparr>"

definition new_stores :: "'m \<Rightarrow> 'c \<Rightarrow> ('m, 'j, 'c) local_stores" where
  "new_stores vectors clock = \<lparr>ls_stm = [], ls_mtm = vectors, ls_ltm = empty_falkor, ls_env = clock\<rparr>"

lemma container_wired:
  "parts_ok c \<Longrightarrow> parts_ok (qdrant_container cd e dims c)" "qdrant.mtm_wired cd e dims (qdrant_container cd e dims c)"
  "parts_ok c' \<Longrightarrow> parts_ok (faiss_container cd e' fc c')" "faiss.mtm_wired cd e' fc (faiss_container cd e' fc c')"
  by (simp_all add: parts_ok_def qdrant_container_def faiss_container_def qdrant.mtm_wired_def faiss.mtm_wired_def)

lemma new_stores_own:
  assumes "parts_ok c" shows "stm_own A []" "graph_inv (ct_falkor c) C empty_falkor"
  using assms empty_falkor_rel [of "ct_falkor c"]
  by (force simp: stm_own_def empty_store_inv stm_holds_def partition_of_def dict_default_def empty_partition_def
      graph_inv_def parts_ok_def)+

lemma new_stores_inv:
  assumes "codec_ok cd" "parts_ok c"
  shows "engine_ok e \<Longrightarrow> qdrant.container_inv cd e c A C (new_stores no_qdrant clock)"
proof -
  have "qdrant.view_own cd A no_qdrant" unfolding qdrant.view_own_def using no_store(2) by simp
  then show "engine_ok e \<Longrightarrow> qdrant.container_inv cd e c A C (new_stores no_qdrant clock)"
    using no_store(1) [OF assms(1)] new_stores_own [OF assms(2)] by (simp add: qdrant.container_inv_def new_stores_def)
qed

lemma new_faiss_stores_inv:
  assumes "codec_ok cd" "parts_ok c"
  shows "engine_ok e \<Longrightarrow> faiss.container_inv cd e fc c A C (new_stores no_faiss clock)"
proof -
  have "faiss.view_own cd fc A no_faiss" unfolding faiss.view_own_def using no_store(8) by simp
  then show "engine_ok e \<Longrightarrow> faiss.container_inv cd e fc c A C (new_stores no_faiss clock)"
    using no_store(7) [OF assms(1)] new_stores_own [OF assms(2)] by (simp add: faiss.container_inv_def new_stores_def)
qed

text \<open>
  What recall shows after any calls on new stores: text that the same user and session added, or a
  fact of the graph, and that only when that user and session consolidated.
\<close>
definition recall_is_own :: "('m, 'j, 'c) container_parts \<Rightarrow> ('m, 'j, 'c) local_stores \<Rightarrow> bool" where
  "recall_is_own c s0 = (\<forall>lm verbs st q user session tier limit result. lo_stores st = s0 \<longrightarrow>
     local_recall lm (container_services c) q user session tier limit
       (lo_stores (run_verbs lm (container_services c) verbs st)) = Inr result \<longrightarrow>
     (\<forall>v\<in>set (lv_items result). \<exists>ns. local_ns lm user session = Inr ns
       \<and> ((ns, rec_content v) \<in> added_texts lm verbs \<or> rec_channel v = ''ltm'' \<and> ns \<in> consolidated lm verbs)))"

context vector_store
begin

lemma own_from_new:
  assumes "parts_ok c" "mtm_wired c" "\<And>m. well_formed_item m \<Longrightarrow> fits m" "admits None"
    "\<And>A C. container_inv c A C s0"
  shows "recall_is_own c s0"
  unfolding recall_is_own_def
proof (intro allI impI ballI)
  fix lm verbs q user session tier limit result v st
  assume st: "lo_stores st = s0"
    and r: "local_recall lm (container_services c) q user session tier limit
      (lo_stores (run_verbs lm (container_services c) verbs st)) = Inr result" "v \<in> set (lv_items result)"
  have "own_item A m \<Longrightarrow> fits m" for A m using assms(3) by (simp add: own_item_def)
  note run = verbs_safe [OF assms(1,2) this subset_refl]
  have "container_inv c (added_texts lm verbs) (consolidated lm verbs) (lo_stores (run_verbs lm (container_services c) verbs st))"
    by (rule run) (assumption, simp only: st assms(5))
  from local_recall_own [OF assms(1,2,4) this r]
  show "\<exists>ns. local_ns lm user session = Inr ns
     \<and> ((ns, rec_content v) \<in> added_texts lm verbs \<or> rec_channel v = ''ltm'' \<and> ns \<in> consolidated lm verbs)" .
qed

end

section \<open>Properties\<close>


text \<open>No more records than the limit or the recency floor, whichever is larger.\<close>
lemma container_recall_length:
  assumes "sorted_list_pkg (ct_sorted c)" "stm_inv (ls_stm s)" "sv_recall (container_services c) scope q s = Inr r"
  shows "int (length (rr_items r)) \<le> max (rq_limit q) (rs_recency_floor_limit default_recall_settings)"
  using assms(3)
proof (rule container_recall_private)
  fix vec priv shared
  assume rank: "rank (ct_sched c) (local_repos c s) default_recall_settings (ct_now c s) (rq_namespace q) vec (rq_limit q)
       (rq_channels q) (for_scope scope (rq_namespace q)) = Inr priv"
    and fed: "fst (federate default_recall_settings (ct_now c s) scope q priv shared) = Inr r"
    and shared: "rr_items shared = []"
  have "length (rr_items r) = card (rv_memory_id ` set (rr_items r))"
    using federate_narrow [OF fed] distinct_card [of "map rv_memory_id (rr_items r)"] by simp
  also have "\<dots> \<le> card (rv_memory_id ` set (rr_items priv))"
    using federate_narrow [OF fed] shared by (intro card_mono image_mono) auto
  also have "\<dots> \<le> length (rr_items priv)"
    by (metis card_length list.set_map length_map)
  finally have "length (rr_items r) \<le> length (rr_items priv)" .
  moreover have "int (length (rr_items priv)) \<le> max (rq_limit q) (rs_recency_floor_limit default_recall_settings)"
    using rank
  proof (rule rank_Inr)
    fix flr mtm ltm deg pairs
    assume flr: "(if ch_stm (rq_channels q) then tr_stm_recent (local_repos c s) (rq_namespace q)
         (rs_recency_floor_limit default_recall_settings) else Inr []) = Inr flr"
      and items: "rr_items priv = merge_floor (map (to_view ''stm'') flr)
         (map (\<lambda>(s, _). to_view (channel_label s) s) pairs) (rq_limit q)"
    have "length flr = 0 \<or> map sc_id flr = map snd (take (nat (max 0 (rs_recency_floor_limit default_recall_settings)))
        (p_recency (live_part (ct_now c s) (rq_namespace q) (ls_stm s))))"
      using flr stm_recent_spec [OF assms(1,2), of "ct_now c s" "rq_namespace q" "rs_recency_floor_limit default_recall_settings"]
      by (auto simp: local_repos_def split: if_splits)
    then have "length flr \<le> nat (max 0 (rs_recency_floor_limit default_recall_settings))"
      by (metis length_map length_take min.cobounded2 zero_le)
    then show ?thesis
      using merge_floor_facts(3) [of "map (to_view ''stm'') flr" "map (\<lambda>(s, _). to_view (channel_label s) s) pairs" "rq_limit q"]
      unfolding items by (simp add: default_recall_settings_def)
  qed
  ultimately show ?thesis by linarith
qed

lemma render_context_length: "0 \<le> n \<Longrightarrow> int (length (render_context items (Some n))) \<le> n"
  by (auto simp: render_context_def Let_def py_take_def)

text \<open>
  C29. The bounds of an assembled context. When context returns, the query was not empty and the limit
  was positive; the text has at most max_chars characters when a non-negative max_chars is given, and
  without one it is the bullets of all records, joined by newlines; there are at most as many records
  as the limit or the recency floor allows, whichever is larger; and the records are those of recall.
\<close>
theorem context_respects_its_bounds:
  assumes "sorted_list_pkg (ct_sorted c)" "stm_inv (ls_stm s)"
    and "local_context lm (container_services c) q user session limit max_chars s = Inr cv"
  shows "q \<noteq> [] \<and> 1 \<le> limit
    \<and> (case max_chars of None \<Rightarrow> cv_text cv = join_with (CHR 0x0A) (map bullet (cv_items cv))
       | Some n \<Rightarrow> n < 0 \<or> int (length (cv_text cv)) \<le> n)
    \<and> int (length (cv_items cv)) \<le> max limit (rs_recency_floor_limit default_recall_settings)
    \<and> (\<exists>result. local_recall lm (container_services c) q user session None limit s = Inr result
        \<and> lv_items result = cv_items cv \<and> lv_degraded result = cv_degraded cv)"
proof -
  obtain result where r: "local_recall lm (container_services c) q user session None limit s = Inr result"
    "cv = \<lparr>cv_text = render_context (lv_items result) max_chars, cv_items = lv_items result, cv_degraded = lv_degraded result\<rparr>"
    using assms(3) by (auto simp: local_context_def split: sum.splits)
  have size: "case max_chars of None \<Rightarrow> cv_text cv = join_with (CHR 0x0A) (map bullet (cv_items cv))
      | Some n \<Rightarrow> n < 0 \<or> int (length (cv_text cv)) \<le> n"
  proof (cases max_chars)
    case None
    then show ?thesis using r(2) by (simp add: render_context_def)
  next
    case (Some n)
    then show ?thesis using r(2) render_context_length [of n "lv_items result"] by (cases "n < 0") simp_all
  qed
  from r(1) show ?thesis
  proof (rule local_recall_Inr)
    fix ns x assume "q \<noteq> []" "1 \<le> limit" and x: "sv_recall (container_services c) (local_scope lm user session)
      (ranked_query ns q None limit) s = Inr x" "result = to_list_view x"
    then show ?thesis
      using container_recall_length [OF assms(1,2) x(1)] r size by (auto simp: to_list_view_def split: option.split)
  qed
qed

section \<open>Witnesses\<close>

definition demo_parts :: "('m, memory_item, 'c) container_parts" where
  "demo_parts = \<lparr>ct_sorted = plain_sorted_list, ct_stm = demo_cfg, ct_falkor = demo_falkor, ct_now = (\<lambda>s. 10),
     ct_new_id = (\<lambda>s. replicate (length (ls_stm s) + 1) (CHR ''m'')), ct_new_offset = (\<lambda>s. replicate (length (ls_stm s) + 1) (CHR ''o'')),
     ct_tick = (\<lambda>k. (Inr 10, k)), ct_fact_id = (\<lambda>k. (Inr ''f'', k)), ct_mtm_upsert = (\<lambda>m s. (Inr (), s)),
     ct_mtm_semantic = (\<lambda>s ns q limit caller. Inr []), ct_mtm_invalidate = (\<lambda>ns l w t why s. (Inr (), s)),
     ct_embed = (\<lambda>ts. Inr (map (\<lambda>t. [1, 0]) ts)), ct_model_name = ''mini'', ct_sha256 = (\<lambda>x. CHR ''#'' # x),
     ct_str = (\<lambda>v. []), ct_sched = (\<lambda>es. es), ct_llm = None, ct_loads = (\<lambda>x. None),
     ct_complete = (\<lambda>st p. Inl RuntimeError), ct_generate = (\<lambda>p q s. (Inl RuntimeError, s))\<rparr>"

definition demo_local_memory :: local_memory where
  "demo_local_memory = \<lparr>lm_org = ''org'', lm_workspace = ''ws''\<rparr>"

definition demo_local :: "('m, memory_item, unit) local_stores \<Rightarrow> (('m, memory_item, unit) local_stores, unit) local_state" where
  "demo_local s = \<lparr>lo_world = \<lparr>w_ledger = [], w_stores = s, w_bus = ()\<rparr>, lo_obs = \<lparr>ob_errors = 0, ob_latencies = 0, ob_audit = []\<rparr>\<rparr>"

text \<open>Two users add a record each; the first reads.\<close>
definition demo_after_adds :: "(qdrant_state, memory_item, unit) local_stores" where
  "demo_after_adds = lo_stores (run_verbs demo_local_memory (container_services (qdrant_container demo_codec demo_engine 2 demo_parts))
     [Add_Verb (Text ''tea'') ''ann'' None, Add_Verb (Text ''oil'') ''bob'' None] (demo_local (new_stores no_qdrant ())))"

lemma demo_shown:
  "(case local_context demo_local_memory (container_services (qdrant_container demo_codec demo_engine 2 demo_parts)) ''q'' ''ann'' None 5 (Some 4)
     demo_after_adds of Inl e \<Rightarrow> None | Inr cv \<Rightarrow> Some (cv_text cv, map rec_content (cv_items cv))) = Some (''- te'', [''tea''])"
  by code_simp

lemma demo_parts_ok: "parts_ok demo_parts"
  by (simp add: parts_ok_def demo_parts_def plain_sorted_list_pkg)

lemma demo_after_adds_inv: "stm_inv (ls_stm demo_after_adds)"
proof -
  let ?c = "qdrant_container demo_codec demo_engine 2 (demo_parts :: (qdrant_state, memory_item, unit) container_parts)"
  let ?verbs = "[Add_Verb (Text ''tea'') ''ann'' None, Add_Verb (Text ''oil'') ''bob'' None]"
  have wf: "own_item A m \<Longrightarrow> well_formed_item m" for A m by (simp add: own_item_def)
  have start: "lo_stores (demo_local (new_stores no_qdrant ())) = new_stores no_qdrant ()"
    by (simp add: lo_stores_def demo_local_def)
  have "qdrant.container_inv demo_codec demo_engine ?c (added_texts demo_local_memory ?verbs) (consolidated demo_local_memory ?verbs)
      (lo_stores (run_verbs demo_local_memory (container_services ?c) ?verbs (demo_local (new_stores no_qdrant ()))))"
    by (rule qdrant.verbs_safe [OF container_wired(1) [OF demo_parts_ok] container_wired(2) _ subset_refl])
      (erule wf, simp only: start new_stores_inv [OF demo_codec_ok container_wired(1) [OF demo_parts_ok] demo_engine_ok])
  then show ?thesis
    unfolding qdrant.container_inv_def stm_own_def demo_after_adds_def by blast
qed


theorem context_respects_its_bounds_witness:
  "\<exists>cv. local_context demo_local_memory (container_services (qdrant_container demo_codec demo_engine 2 demo_parts)) ''q'' ''ann'' None 5 (Some 4)
     demo_after_adds = Inr cv \<and> length (cv_text cv) = 4 \<and> int (length (cv_items cv)) \<le> max 5 (rs_recency_floor_limit default_recall_settings)"
proof -
  let ?c = "qdrant_container demo_codec demo_engine 2 (demo_parts :: (qdrant_state, memory_item, unit) container_parts)"
  obtain cv where cv: "local_context demo_local_memory (container_services ?c) ''q'' ''ann'' None 5 (Some 4) demo_after_adds = Inr cv"
    "cv_text cv = ''- te''" using demo_shown by (auto split: sum.splits)
  have "parts_ok ?c" by (rule container_wired(1) [OF demo_parts_ok])
  then have "sorted_list_pkg (ct_sorted ?c)" by (simp add: parts_ok_def)
  from context_respects_its_bounds [OF this demo_after_adds_inv cv(1)] cv show ?thesis by simp
qed

end
