(* ===== verification/Model_Catalog.thy ===== *)
theory Model_Catalog
  imports Extract
begin

text \<open>
  The model catalog (mu_engine/providers: catalog.py, settings.py, task_map.py, local_priority.py,
  registry.py): tasks and the model group each resolves to, the providers and deployments that serve a
  group, their validation at composition, and the flat model list handed to the routing package.
  A secret resolver is the parameter resolve; the routing itself is that of the package.
\<close>

section \<open>Catalog\<close>

datatype (plugins only: code size) model_task =
    Task_ANSWER | Task_ADJUDICATE | Task_HARD_EXTRACT | Task_ROUTINE_EXTRACT | Task_SUMMARIZE
  | Task_CLASSIFY | Task_RERANK | Task_EMBED

datatype provider_kind = REMOTE | LOCAL_HTTP | LOCAL_INPROC

datatype model_kind = Kind_LLM | Kind_EMBED | Kind_RERANK

record provider_record =
  pr_key :: string
  pr_kind :: provider_kind
  pr_litellm_provider :: string
  pr_api_base :: "string option"
  pr_credential_ref :: "string option"
  pr_is_local :: bool

datatype model_param = Par_Str string | Par_Int int | Par_Extra json_value

record model_deployment =
  md_group :: string
  md_provider_key :: string
  md_model_id :: string
  md_kind :: model_kind
  md_priority_order :: int
  md_max_input_tokens :: "int option"
  md_weight :: "int option"
  md_extra_params :: "(string, model_param) dict"

text \<open>ModelSettings\<close>
record model_settings =
  ms_provider :: string
  ms_answer :: string
  ms_adjudicate :: string
  ms_hard_extract :: string
  ms_routine_extract :: string
  ms_summarize :: string
  ms_classify :: string
  ms_rerank :: string
  ms_embed_backend :: string
  ms_embed :: string
  ms_override :: "string option"
  ms_max_output_tokens :: int
  ms_temperature :: rat

definition default_models :: model_settings where
  "default_models = \<lparr>ms_provider = ''azure'', ms_answer = ''gpt-5-chat'', ms_adjudicate = ''gpt-5-chat'',
     ms_hard_extract = ''gpt-5-chat'', ms_routine_extract = ''gpt-4o'', ms_summarize = ''gpt-4o'',
     ms_classify = ''gpt-4.1-mini'', ms_rerank = ''gpt-4.1-mini'', ms_embed_backend = ''minilm_local'',
     ms_embed = ''text-embedding-3-large'', ms_override = None, ms_max_output_tokens = 4096,
     ms_temperature = 1 / 5\<rparr>"

section \<open>Tasks to groups\<close>

text \<open>TaskClassMapper._table\<close>
definition task_table :: "model_settings \<Rightarrow> (model_task, string) dict" where
  "task_table m = [(Task_ANSWER, ms_answer m), (Task_ADJUDICATE, ms_adjudicate m),
     (Task_HARD_EXTRACT, ms_hard_extract m), (Task_ROUTINE_EXTRACT, ms_routine_extract m),
     (Task_SUMMARIZE, ms_summarize m), (Task_CLASSIFY, ms_classify m), (Task_RERANK, ms_rerank m),
     (Task_EMBED, ms_embed m)]"

text \<open>A string that counts as true.\<close>
definition given :: "string option \<Rightarrow> bool" where
  "given s = (s \<noteq> None \<and> s \<noteq> Some [])"

definition group_for_default :: "model_task \<Rightarrow> model_settings \<Rightarrow> string or_raise" where
  "group_for_default dflt m = (let g = dict_get (task_table m) dflt in if given g then Inr (the g) else Inl ValueError)"

definition group_for :: "model_task \<Rightarrow> model_settings \<Rightarrow> model_task \<Rightarrow> string option \<Rightarrow> string or_raise" where
  "group_for dflt m task override =
     (if given override then Inr (the override)
      else if given (ms_override m) then Inr (the (ms_override m))
      else let g = dict_get (task_table m) task in if given g then Inr (the g) else group_for_default dflt m)"

section \<open>Local priority\<close>

record local_policy =
  lp_local_tasks :: "model_task list"
  lp_enabled :: bool

definition default_policy :: local_policy where
  "default_policy = \<lparr>lp_local_tasks = [Task_EMBED, Task_RERANK, Task_CLASSIFY, Task_ROUTINE_EXTRACT, Task_SUMMARIZE],
     lp_enabled = True\<rparr>"

definition local_order :: int where "local_order = 1"

definition remote_order :: int where "remote_order = 2"

definition prefers_local :: "local_policy \<Rightarrow> model_task \<Rightarrow> bool" where
  "prefers_local p task = (lp_enabled p \<and> task \<in> set (lp_local_tasks p))"

definition policy_order :: "local_policy \<Rightarrow> bool \<Rightarrow> model_task \<Rightarrow> int" where
  "policy_order p local task = (if local \<and> prefers_local p task then local_order else remote_order)"

section \<open>The registry\<close>

record model_registry =
  mr_providers :: "(string, provider_record) dict"
  mr_deployments :: "model_deployment list"
  mr_policy :: local_policy
  mr_task_groups :: "(model_task, string) dict"

text \<open>{p.key: p for p in providers}: a later record of a key takes the place of an earlier one.\<close>
definition by_key :: "provider_record list \<Rightarrow> (string, provider_record) dict" where
  "by_key ps = fold (\<lambda>p. dict_put (pr_key p) p) ps []"

definition group_tasks :: "model_registry \<Rightarrow> string \<Rightarrow> model_task list" where
  "group_tasks r g = map fst (filter (\<lambda>(_, g'). g' = g) (mr_task_groups r))"

definition group_deployments :: "model_registry \<Rightarrow> string \<Rightarrow> model_deployment list" where
  "group_deployments r g = filter (\<lambda>d. md_group d = g) (mr_deployments r)"

definition validate_registry :: "model_registry \<Rightarrow> unit or_raise" where
  "validate_registry r =
     (if length (mr_providers r) \<noteq> card (set (map (pr_key \<circ> snd) (mr_providers r))) then Inl RegistryError
      else if \<exists>d\<in>set (mr_deployments r). md_provider_key d \<notin> fst ` set (mr_providers r) then Inl RegistryError
      else if \<exists>(t, g)\<in>set (mr_task_groups r). t \<noteq> Task_EMBED \<and> group_deployments r g = [] then Inl RegistryError
      else Inr ())"

definition mk_model_registry ::
  "provider_record list \<Rightarrow> model_deployment list \<Rightarrow> local_policy \<Rightarrow> (model_task, string) dict \<Rightarrow> model_registry or_raise" where
  "mk_model_registry providers deployments policy task_groups =
     (let r = \<lparr>mr_providers = by_key providers, mr_deployments = deployments, mr_policy = policy, mr_task_groups = task_groups\<rparr>
      in rbind (validate_registry r) (\<lambda>_. Inr r))"

text \<open>self._providers[key]\<close>
definition provider_of :: "model_registry \<Rightarrow> model_deployment \<Rightarrow> provider_record or_raise" where
  "provider_of r d = (case dict_get (mr_providers r) (md_provider_key d) of None \<Rightarrow> Inl KeyError | Some p \<Rightarrow> Inr p)"

text \<open>any(...), which stops at the first true element.\<close>
fun any_local :: "provider_record or_raise list \<Rightarrow> bool or_raise" where
  "any_local [] = Inr False"
| "any_local (r # rs) = rbind r (\<lambda>p. if pr_is_local p then Inr True else any_local rs)"

definition is_local_group :: "model_registry \<Rightarrow> string \<Rightarrow> bool or_raise" where
  "is_local_group r g = any_local (map (provider_of r) (group_deployments r g))"

definition order_for :: "model_registry \<Rightarrow> model_deployment \<Rightarrow> int or_raise" where
  "order_for r d = rbind (provider_of r d) (\<lambda>p.
     let tasks = group_tasks r (md_group d)
     in Inr (if tasks = [] then remote_order
        else Min (set (map (policy_order (mr_policy r) (pr_is_local p)) tasks))))"

text \<open>One row of the model list.\<close>
record model_row =
  mo_name :: string
  mo_params :: "(string, model_param) dict"

definition opt_param :: "string \<Rightarrow> model_param option \<Rightarrow> (string, model_param) dict \<Rightarrow> (string, model_param) dict" where
  "opt_param k v d = (case v of None \<Rightarrow> d | Some x \<Rightarrow> dict_put k x d)"

definition dict_merge :: "('k, 'v) dict \<Rightarrow> ('k, 'v) dict \<Rightarrow> ('k, 'v) dict" where
  "dict_merge d e = fold (\<lambda>(k, v). dict_put k v) e d"

definition resolve_ref :: "(string \<Rightarrow> string or_raise) option \<Rightarrow> string \<Rightarrow> string or_raise" where
  "resolve_ref resolver ref = (case resolver of None \<Rightarrow> Inl RegistryError | Some f \<Rightarrow> f ref)"

definition base_params :: "model_deployment \<Rightarrow> provider_record \<Rightarrow> int \<Rightarrow> string option \<Rightarrow> (string, model_param) dict" where
  "base_params d p ord key =
     opt_param ''weight'' (map_option Par_Int (md_weight d))
     (opt_param ''api_key'' (map_option Par_Str key)
     (opt_param ''api_base'' (map_option Par_Str (pr_api_base p))
       [(''model'', Par_Str (md_model_id d)), (''order'', Par_Int ord)]))"

definition provider_key_of :: "(string \<Rightarrow> string or_raise) option \<Rightarrow> provider_record \<Rightarrow> string option or_raise" where
  "provider_key_of resolver p = (case pr_credential_ref p of None \<Rightarrow> Inr None
     | Some ref \<Rightarrow> rbind (resolve_ref resolver ref) (\<lambda>k. Inr (Some k)))"

definition compile_row ::
  "(string \<Rightarrow> string or_raise) option \<Rightarrow> model_registry \<Rightarrow> model_deployment \<Rightarrow> model_row or_raise" where
  "compile_row resolver r d =
     rbind (provider_of r d) (\<lambda>p. rbind (order_for r d) (\<lambda>ord. rbind (provider_key_of resolver p) (\<lambda>key.
       Inr \<lparr>mo_name = md_group d, mo_params = dict_merge (base_params d p ord key) (md_extra_params d)\<rparr>)))"

definition compile_model_list ::
  "(string \<Rightarrow> string or_raise) option \<Rightarrow> model_registry \<Rightarrow> model_row list or_raise" where
  "compile_model_list resolver r = rmap (compile_row resolver r) (mr_deployments r)"

definition registry_max_input :: "model_registry \<Rightarrow> string \<Rightarrow> int option" where
  "registry_max_input r g =
     (let declared = List.map_filter md_max_input_tokens (group_deployments r g)
      in if declared = [] then None else Some (Max (set declared)))"

definition custom_provider_keys :: "model_registry \<Rightarrow> string set" where
  "custom_provider_keys r = pr_litellm_provider ` set (filter (\<lambda>p. pr_kind p = LOCAL_INPROC) (map snd (mr_providers r)))"

section \<open>Lemmas\<close>

lemma given_iff: "given s \<longleftrightarrow> (\<exists>x. s = Some x \<and> x \<noteq> [])"
  by (cases s) (auto simp: given_def)

lemma group_for_cases:
  "group_for dflt m task override = Inr g \<longleftrightarrow> g \<noteq> [] \<and>
     (override = Some g \<or> \<not> given override \<and> (ms_override m = Some g \<or> \<not> given (ms_override m)
       \<and> (dict_get (task_table m) task = Some g \<or> \<not> given (dict_get (task_table m) task) \<and> dict_get (task_table m) dflt = Some g)))"
  by (auto simp: group_for_def group_for_default_def given_iff Let_def split: if_splits)

lemma task_table_get: "\<exists>g. dict_get (task_table m) t = Some g"
  by (cases t) (simp_all add: task_table_def)

lemma by_key_keys: "distinct (map fst (by_key ps)) \<and> (\<forall>(k, p)\<in>set (by_key ps). pr_key p = k)"
proof -
  have "distinct (map fst (fold (\<lambda>p. dict_put (pr_key p) p) ps d)) \<and> (\<forall>(k, p)\<in>set (fold (\<lambda>p. dict_put (pr_key p) p) ps d). pr_key p = k)"
    if "distinct (map fst d) \<and> (\<forall>(k, p)\<in>set d. pr_key p = k)" for d
    using that
  proof (induction ps arbitrary: d)
    case (Cons p ps)
    have "\<forall>(k, q)\<in>set (dict_put (pr_key p) p d). pr_key q = k"
      using Cons.prems by (auto dest!: dict_put_set)
    then show ?case using Cons.IH [of "dict_put (pr_key p) p d"] Cons.prems by (simp add: distinct_update)
  qed simp
  from this [of "[]"] show ?thesis by (simp add: by_key_def)
qed

text \<open>The test for duplicate provider keys never fires: the dictionary has already merged them.\<close>
lemma duplicate_providers_unnoticed:
  assumes "mr_providers r = by_key ps" shows "length (mr_providers r) = card (set (map (pr_key \<circ> snd) (mr_providers r)))"
proof -
  have "map (pr_key \<circ> snd) (by_key ps) = map fst (by_key ps)"
    using by_key_keys [of ps] by (intro map_cong) auto
  then show ?thesis using by_key_keys [of ps] distinct_card [of "map fst (by_key ps)"] assms by simp
qed

lemma mk_model_registry_Inr:
  "mk_model_registry providers deployments policy task_groups = Inr r \<longleftrightarrow>
     r = \<lparr>mr_providers = by_key providers, mr_deployments = deployments, mr_policy = policy, mr_task_groups = task_groups\<rparr>
     \<and> (\<forall>d\<in>set deployments. md_provider_key d \<in> fst ` set (by_key providers))
     \<and> (\<forall>(t, g)\<in>set task_groups. t \<noteq> Task_EMBED \<longrightarrow> (\<exists>d\<in>set deployments. md_group d = g))"
  (is "_ \<longleftrightarrow> r = ?r \<and> ?P \<and> ?T")
proof -
  have no_dup: "(length (mr_providers ?r) \<noteq> card (set (map (pr_key \<circ> snd) (mr_providers ?r)))) \<longleftrightarrow> False"
    using duplicate_providers_unnoticed [of ?r providers] by simp
  have known: "(\<exists>d\<in>set (mr_deployments ?r). md_provider_key d \<notin> fst ` set (mr_providers ?r)) \<longleftrightarrow> \<not> ?P" by auto
  have served: "(\<exists>(t, g)\<in>set (mr_task_groups ?r). t \<noteq> Task_EMBED \<and> group_deployments ?r g = []) \<longleftrightarrow> \<not> ?T"
    by (force simp: group_deployments_def filter_empty_conv)
  have "validate_registry ?r = Inr () \<longleftrightarrow> ?P \<and> ?T"
    unfolding validate_registry_def known served no_dup if_False by (cases ?P; cases ?T) simp_all
  moreover have "rbind v (\<lambda>_. Inr x) = Inr r \<longleftrightarrow> r = x \<and> v = Inr ()" for v :: "unit or_raise" and x
    by (cases v) auto
  ultimately show ?thesis unfolding mk_model_registry_def Let_def by (simp only:)
qed

lemma policy_order_range: "policy_order p local t = 1 \<or> policy_order p local t = 2"
  by (simp add: policy_order_def local_order_def remote_order_def)

text \<open>Tier one is for a local provider of a group that a local-capable task refers to.\<close>
lemma order_for_eq:
  assumes "provider_of r d = Inr p"
  shows "order_for r d = Inr (if pr_is_local p \<and> (\<exists>t. (t, md_group d) \<in> set (mr_task_groups r) \<and> prefers_local (mr_policy r) t) then 1 else 2)"
proof -
  let ?o = "policy_order (mr_policy r) (pr_is_local p)" and ?ts = "group_tasks r (md_group d)"
  have ts: "set ?ts = {t. (t, md_group d) \<in> set (mr_task_groups r)}" by (force simp: group_tasks_def)
  show ?thesis
  proof (cases "\<exists>t\<in>set ?ts. ?o t = 1")
    case True
    have least: "1 \<le> ?o t" for t using policy_order_range [of "mr_policy r" "pr_is_local p" t] by auto
    have "1 \<in> ?o ` set ?ts" using True by (metis imageI)
    then have "Min (?o ` set ?ts) = 1" using least by (intro Min_eqI) auto
    moreover have "?ts \<noteq> []" using True by auto
    ultimately show ?thesis using True ts assms
      by (auto simp: order_for_def Let_def policy_order_def local_order_def remote_order_def split: if_splits)
  next
    case False
    then have all: "?o t = 2" if "t \<in> set ?ts" for t using that policy_order_range by metis
    then have "?o ` set ?ts = (\<lambda>_. 2) ` set ?ts" by (rule image_cong [OF refl])
    then have "?ts \<noteq> [] \<Longrightarrow> ?o ` set ?ts = {2}" by (simp add: image_constant_conv)
    then have two: "order_for r d = Inr 2" using assms by (auto simp: order_for_def Let_def remote_order_def)
    have "(pr_is_local p \<and> (\<exists>t. (t, md_group d) \<in> set (mr_task_groups r) \<and> prefers_local (mr_policy r) t)) \<longleftrightarrow> False"
      using False ts by (auto simp: policy_order_def local_order_def)
    then show ?thesis unfolding two by (simp only: if_False)
  qed
qed

lemma dict_merge_get: "dict_get (dict_merge d e) k = (case dict_get (rev e) k of None \<Rightarrow> dict_get d k | Some v \<Rightarrow> Some v)"
proof -
  have "dict_get (fold (\<lambda>(k, v). dict_put k v) e d) k = (case dict_get (rev e) k of None \<Rightarrow> dict_get d k | Some v \<Rightarrow> Some v)"
    by (induction e arbitrary: d) (auto simp: map_add_def split: option.splits)
  then show ?thesis by (simp add: dict_merge_def)
qed

lemma opt_param_get: "dict_get (opt_param k v d) k' = (if k' = k \<and> v \<noteq> None then v else dict_get d k')"
  by (cases v) (auto simp: opt_param_def)

lemma base_params_get:
  "dict_get (base_params d p ord key) ''model'' = Some (Par_Str (md_model_id d))"
  "dict_get (base_params d p ord key) ''order'' = Some (Par_Int ord)"
  "dict_get (base_params d p ord key) ''api_key'' = map_option Par_Str key"
  by (simp_all add: base_params_def opt_param_get)

lemma compile_row_Inr:
  assumes "compile_row resolver r d = Inr row"
  obtains p ord key where "provider_of r d = Inr p" "order_for r d = Inr ord" "provider_key_of resolver p = Inr key"
    "mo_name row = md_group d" "mo_params row = dict_merge (base_params d p ord key) (md_extra_params d)"
  using assms by (auto simp: compile_row_def rbind_Inr_iff)

section \<open>Properties\<close>

lemma merge_keeps: "k \<notin> fst ` set (md_extra_params d) \<Longrightarrow> dict_get (dict_merge b (md_extra_params d)) k = dict_get b k"
proof -
  assume "k \<notin> fst ` set (md_extra_params d)"
  then have "dict_get (rev (md_extra_params d)) k = None" by (simp add: map_of_eq_None_iff)
  then show ?thesis by (simp add: dict_merge_get)
qed

text \<open>What a row says of its deployment: a parameter of extra_params takes the place of the row's own.\<close>
definition row_promise ::
  "(string \<Rightarrow> string or_raise) option \<Rightarrow> local_policy \<Rightarrow> (model_task, string) dict \<Rightarrow> provider_record \<Rightarrow> model_deployment
   \<Rightarrow> model_row \<Rightarrow> bool" where
  "row_promise resolver policy task_groups p d row =
     (let param = dict_get (mo_params row); extra = fst ` set (md_extra_params d)
      in (''model'' \<notin> extra \<longrightarrow> param ''model'' = Some (Par_Str (md_model_id d)))
       \<and> (''order'' \<notin> extra \<longrightarrow> param ''order'' = Some (Par_Int
           (if pr_is_local p \<and> (\<exists>t. (t, md_group d) \<in> set task_groups \<and> prefers_local policy t) then 1 else 2)))
       \<and> (''api_key'' \<notin> extra \<longrightarrow> (case pr_credential_ref p of None \<Rightarrow> param ''api_key'' = None
           | Some ref \<Rightarrow> \<exists>key. resolve_ref resolver ref = Inr key \<and> param ''api_key'' = Some (Par_Str key))))"

lemma row_promiseI:
  assumes "provider_key_of resolver p = Inr key"
    and "ord = (if pr_is_local p \<and> (\<exists>t. (t, md_group d) \<in> set task_groups \<and> prefers_local policy t) then 1 else 2)"
    and "mo_params row = dict_merge (base_params d p ord key) (md_extra_params d)"
  shows "row_promise resolver policy task_groups p d row"
proof -
  have get: "dict_get (mo_params row) k = dict_get (base_params d p ord key) k" if "k \<notin> fst ` set (md_extra_params d)" for k
    using that assms(3) by (simp add: merge_keeps)
  have ord: "dict_get (mo_params row) ''order'' = Some (Par_Int (if pr_is_local p \<and> (\<exists>t. (t, md_group d) \<in> set task_groups \<and> prefers_local policy t) then 1 else 2))"
    if "''order'' \<notin> fst ` set (md_extra_params d)"
    unfolding get [OF that] base_params_get assms(2) by (rule refl)
  have key: "case pr_credential_ref p of None \<Rightarrow> dict_get (mo_params row) ''api_key'' = None
      | Some ref \<Rightarrow> \<exists>k. resolve_ref resolver ref = Inr k \<and> dict_get (mo_params row) ''api_key'' = Some (Par_Str k)"
    if "''api_key'' \<notin> fst ` set (md_extra_params d)"
    unfolding get [OF that] base_params_get
    using assms(1) by (auto simp: provider_key_of_def rbind_Inr_iff split: option.splits)
  show ?thesis
    unfolding row_promise_def Let_def using get [of "''model''"] ord key by (simp add: base_params_get)
qed

text \<open>
  C20. What composing the model catalog promises. When the registry of the task table is accepted and
  its model list compiled, then the list has one row per deployment, in order and under its group;
  every task that has its own group and is not served by the embedder has a row; each row names the
  deployment's model, carries the tier 1 exactly when a local provider serves a group that some
  local-capable task refers to (2 otherwise), and has an api key only if its provider names a
  credential, the resolved one: unless extra_params sets that very parameter.
\<close>
theorem compiled_catalog_serves_every_task:
  assumes "mk_model_registry providers deployments policy (task_table m) = Inr r"
    and "compile_model_list resolver r = Inr rows"
  shows "map mo_name rows = map md_group deployments
    \<and> (\<forall>task g. task \<noteq> Task_EMBED \<longrightarrow> \<not> given (ms_override m) \<longrightarrow> group_for Task_ROUTINE_EXTRACT m task None = Inr g
         \<longrightarrow> g \<in> mo_name ` set rows)
    \<and> (\<forall>i<length rows. \<exists>p. dict_get (by_key providers) (md_provider_key (deployments ! i)) = Some p
         \<and> row_promise resolver policy (task_table m) p (deployments ! i) (rows ! i))"
proof -
  have r: "r = \<lparr>mr_providers = by_key providers, mr_deployments = deployments, mr_policy = policy, mr_task_groups = task_table m\<rparr>"
    and served: "\<forall>(t, g)\<in>set (task_table m). t \<noteq> Task_EMBED \<longrightarrow> (\<exists>d\<in>set deployments. md_group d = g)"
    using assms(1) by (simp_all add: mk_model_registry_Inr)
  have rows: "list_all2 (\<lambda>d row. compile_row resolver r d = Inr row) deployments rows"
    using assms(2) r by (simp add: compile_model_list_def rmap_Inr_iff)
  then have names: "map mo_name rows = map md_group deployments"
    by (induction rule: list_all2_induct) (auto elim: compile_row_Inr)
  have "g \<in> mo_name ` set rows" if "task \<noteq> Task_EMBED" "\<not> given (ms_override m)" "group_for Task_ROUTINE_EXTRACT m task None = Inr g" for task g
  proof -
    have "dict_get (task_table m) task = Some g \<or> dict_get (task_table m) Task_ROUTINE_EXTRACT = Some g"
      using that(2,3) by (auto simp: group_for_cases given_def)
    then obtain t where t: "(t, g) \<in> set (task_table m)" "t \<noteq> Task_EMBED"
    proof
      assume "dict_get (task_table m) task = Some g"
      then show ?thesis using \<open>task \<noteq> Task_EMBED\<close> by (intro that [of task] map_of_SomeD)
    next
      assume "dict_get (task_table m) Task_ROUTINE_EXTRACT = Some g"
      then show ?thesis by (intro that [of Task_ROUTINE_EXTRACT] map_of_SomeD) simp_all
    qed
    from bspec [OF served t(1)] t(2) obtain d where "d \<in> set deployments" "md_group d = g" by auto
    then have "g \<in> set (map mo_name rows)" unfolding names by force
    then show ?thesis by simp
  qed
  moreover have "\<exists>p. dict_get (by_key providers) (md_provider_key (deployments ! i)) = Some p
      \<and> row_promise resolver policy (task_table m) p (deployments ! i) (rows ! i)" if "i < length rows" for i
  proof -
    let ?d = "deployments ! i"
    have "compile_row resolver r ?d = Inr (rows ! i)" using rows that by (simp add: list_all2_conv_all_nth)
    then obtain p ord key where row: "provider_of r ?d = Inr p" "order_for r ?d = Inr ord" "provider_key_of resolver p = Inr key"
      "mo_params (rows ! i) = dict_merge (base_params ?d p ord key) (md_extra_params ?d)" by (rule compile_row_Inr)
    have "dict_get (by_key providers) (md_provider_key ?d) = Some p"
      using row(1) r by (simp add: provider_of_def split: option.splits)
    have "ord = (if pr_is_local p \<and> (\<exists>t. (t, md_group ?d) \<in> set (task_table m) \<and> prefers_local policy t) then 1 else 2)"
      using order_for_eq [OF row(1)] row(2) r by simp
    from row_promiseI [OF row(3) this row(4)] \<open>dict_get (by_key providers) (md_provider_key ?d) = Some p\<close>
    show ?thesis by blast
  qed
  ultimately show ?thesis using names by blast
qed

definition demo_provider :: provider_record where
  "demo_provider = \<lparr>pr_key = ''p'', pr_kind = LOCAL_HTTP, pr_litellm_provider = ''openai'', pr_api_base = Some ''http'',
     pr_credential_ref = None, pr_is_local = True\<rparr>"

definition demo_deployment :: model_deployment where
  "demo_deployment = \<lparr>md_group = ''g'', md_provider_key = ''p'', md_model_id = ''openai/m'', md_kind = Kind_LLM,
     md_priority_order = 2, md_max_input_tokens = Some 4096, md_weight = None, md_extra_params = [(''api_key'', Par_Str ''k'')]\<rparr>"

definition demo_models :: model_settings where
  "demo_models = default_models\<lparr>ms_answer := ''g'', ms_adjudicate := ''g'', ms_hard_extract := ''g'',
     ms_routine_extract := ''g'', ms_summarize := ''g'', ms_classify := ''g'', ms_rerank := ''g''\<rparr>"

definition demo_registry :: model_registry where
  "demo_registry = \<lparr>mr_providers = [(''p'', demo_provider)], mr_deployments = [demo_deployment], mr_policy = default_policy,
     mr_task_groups = task_table demo_models\<rparr>"

lemma demo_registry_ok: "mk_model_registry [demo_provider] [demo_deployment] default_policy (task_table demo_models) = Inr demo_registry"
  by (simp add: mk_model_registry_Inr demo_registry_def by_key_def demo_provider_def demo_deployment_def task_table_def demo_models_def)

theorem compiled_catalog_serves_every_task_witness:
  "\<exists>rows. compile_model_list None demo_registry = Inr rows \<and> map mo_name rows = [''g'']
     \<and> dict_get (mo_params (rows ! 0)) ''order'' = Some (Par_Int 1)"
proof -
  have "\<exists>rows. compile_model_list None demo_registry = Inr rows"
    by (simp add: compile_model_list_def compile_row_def demo_registry_def provider_of_def demo_deployment_def demo_provider_def
        order_for_def provider_key_of_def Let_def)
  then obtain rows where rows: "compile_model_list None demo_registry = Inr rows" by blast
  note promise = compiled_catalog_serves_every_task [OF demo_registry_ok rows]
  then have names: "map mo_name rows = [''g'']" by (simp add: demo_deployment_def)
  then have "0 < length rows" by (cases rows) simp_all
  then have "\<exists>p. dict_get (by_key [demo_provider]) (md_provider_key ([demo_deployment] ! 0)) = Some p
    \<and> row_promise None default_policy (task_table demo_models) p ([demo_deployment] ! 0) (rows ! 0)"
    by (rule mp [OF spec [OF conjunct2 [OF conjunct2 [OF promise]], of 0]])
  then obtain p where p: "dict_get (by_key [demo_provider]) (md_provider_key demo_deployment) = Some p"
    "row_promise None default_policy (task_table demo_models) p demo_deployment (rows ! 0)" unfolding nth_Cons_0 by blast
  then have "p = demo_provider" by (simp add: by_key_def demo_provider_def demo_deployment_def)
  then have "pr_is_local p" by (simp add: demo_provider_def)
  moreover have "\<exists>t. (t, md_group demo_deployment) \<in> set (task_table demo_models) \<and> prefers_local default_policy t"
    by (rule exI [of _ Task_CLASSIFY]) (simp add: task_table_def demo_models_def demo_deployment_def prefers_local_def default_policy_def)
  ultimately have "dict_get (mo_params (rows ! 0)) ''order'' = Some (Par_Int 1)"
    using p(2) by (simp add: row_promise_def Let_def demo_deployment_def)
  with rows names show ?thesis by (intro exI [of _ rows] conjI)
qed

end
