(* ===== verification/Model_Router.thy ===== *)
theory Model_Router
  imports Model_Catalog Mappers
begin

text \<open>
  The model router (mu_engine/providers: _contracts.py, chunking.py, model_router.py, embedding.py):
  completion, streaming, reranking, the map and reduce of long inputs, and the composition of the
  layer. The routing package (its router, token codec and context table), the loading of weights and
  the secret resolver are parameters. Spans and metrics are left out.
\<close>

section \<open>Messages and answers\<close>

datatype message_role = Role_SYSTEM | Role_USER | Role_ASSISTANT | Role_TOOL

fun role_value :: "message_role \<Rightarrow> string" where
  "role_value Role_SYSTEM = ''system''"
| "role_value Role_USER = ''user''"
| "role_value Role_ASSISTANT = ''assistant''"
| "role_value Role_TOOL = ''tool''"

record chat_message =
  cm_role :: message_role
  cm_content :: string

record token_usage =
  tu_prompt :: int
  tu_completion :: int
  tu_total :: int

record completion =
  co_text :: string
  co_group :: string
  co_model_id :: string
  co_usage :: token_usage
  co_finish :: "string option"

record stream_chunk =
  ck_delta :: string
  ck_index :: nat
  ck_done :: bool

record rerank_hit =
  rh_index :: int
  rh_score :: rat

datatype model_degrade_reason = Model_Group_Unavailable | Model_Local_Fell_Back | Model_Surface_Down

record model_degraded =
  de_component :: string
  de_mode :: string
  de_reason :: model_degrade_reason
  de_detail :: "string option"

section \<open>What the routing package answers\<close>

text \<open>A choice holds the content of its message and its finish reason; absent attributes are None.\<close>
record llm_response =
  re_choices :: "(string option \<times> string option) list"
  re_prompt_tokens :: "int option"
  re_completion_tokens :: "int option"
  re_total_tokens :: "int option"
  re_hidden_model_id :: "string option"
  re_model :: "string option"

record call_args =
  ca_max_tokens :: int
  ca_temperature :: rat
  ca_response_format :: "string option"

type_synonym wire = "(string \<times> string) list"

text \<open>A streamed part: its choices, the delta of a choice, the content of a delta.\<close>
type_synonym stream_part = "string option option list"

record 'w model_ports =
  mp_complete :: "string \<Rightarrow> wire \<Rightarrow> call_args \<Rightarrow> ('w, llm_response) eff"
  mp_stream :: "string \<Rightarrow> wire \<Rightarrow> call_args \<Rightarrow> ('w, stream_part or_raise list) eff"
  mp_rerank :: "string \<Rightarrow> string \<Rightarrow> string list \<Rightarrow> int option \<Rightarrow> ('w, (int \<times> rat option) list option) eff"
  mp_max_tokens :: "string \<Rightarrow> int option or_raise"
  mp_count :: "wire \<Rightarrow> int"
  mp_encode :: "string \<Rightarrow> nat list or_raise"
  mp_decode :: "nat list \<Rightarrow> string or_raise"
  mp_class_name :: "exc_class \<Rightarrow> string"

text \<open>The facade: its ports and what it was composed with.\<close>
record 'w model_router =
  ro_ports :: "'w model_ports"
  ro_models :: model_settings
  ro_registry :: model_registry
  ro_headroom :: int
  ro_embed :: "string list \<Rightarrow> rat list list or_raise"
  ro_default_window :: int

text \<open>The network behind the package, and the degraded-mode events emitted so far.\<close>
record 'w router_world =
  rw_net :: 'w
  rw_degraded :: "model_degraded list"

definition on_net :: "('w, 'a) eff \<Rightarrow> ('w router_world, 'a) eff" where
  "on_net f w = (case f (rw_net w) of (r, n) \<Rightarrow> (r, w\<lparr>rw_net := n\<rparr>))"

definition emit_degraded :: "model_degraded \<Rightarrow> ('w router_world, unit) eff" where
  "emit_degraded e w = (Inr (), w\<lparr>rw_degraded := rw_degraded w @ [e]\<rparr>)"

text \<open>try: m except Exception as e: h e\<close>
definition catching :: "('w, 'a) eff \<Rightarrow> (exc_class \<Rightarrow> ('w, 'a) eff) \<Rightarrow> ('w, 'a) eff" where
  "catching m h w = (case m w of
       (Inl e, w') \<Rightarrow> if isinstance_of e PyException then h e w' else (Inl e, w')
     | (Inr a, w') \<Rightarrow> (Inr a, w'))"

section \<open>Chunking\<close>

definition as_wire :: "chat_message list \<Rightarrow> wire" where
  "as_wire ms = map (\<lambda>m. (role_value (cm_role m), cm_content m)) ms"

definition needs_chunking :: "'w model_ports \<Rightarrow> int \<Rightarrow> chat_message list \<Rightarrow> int \<Rightarrow> bool" where
  "needs_chunking p headroom ms max_input = (mp_count p (as_wire ms) > max_input - headroom)"

text \<open>[xs[i : i + n] for i in range(0, len(xs), n)]\<close>
function slices :: "nat \<Rightarrow> 'a list \<Rightarrow> 'a list list" where
  "slices n xs = (if n = 0 \<or> xs = [] then [] else take n xs # slices n (drop n xs))"
  by pat_completeness auto
termination by (relation "measure (\<lambda>(n, xs). length xs)") auto

declare slices.simps [simp del]

text \<open>The word split that takes the place of a token codec that raises.\<close>
definition word_windows :: "nat \<Rightarrow> string \<Rightarrow> string list" where
  "word_windows budget t = (let ws = map unwords (slices (max 1 (budget * 3 div 4)) (words t))
     in if ws = [] then [[]] else ws)"

definition window_texts :: "'w model_ports \<Rightarrow> string \<Rightarrow> nat \<Rightarrow> string list" where
  "window_texts p t budget =
     (case rbind (mp_encode p t) (\<lambda>ids. rmap (mp_decode p) (slices budget ids)) of
        Inr ws \<Rightarrow> ws
      | Inl _ \<Rightarrow> word_windows budget t)"

definition reduce_instruction :: string where
  "reduce_instruction = ''The following are partial results produced from consecutive windows of a single long input. Combine them into one coherent result that satisfies the original request.''"

text \<open>The index of the last user message, else of the last message; None when there is no message.\<close>
fun last_index :: "('a \<Rightarrow> bool) \<Rightarrow> 'a list \<Rightarrow> nat option" where
  "last_index P [] = None"
| "last_index P (x # xs) = (case last_index P xs of Some i \<Rightarrow> Some (Suc i) | None \<Rightarrow> if P x then Some 0 else None)"

definition long_index :: "chat_message list \<Rightarrow> nat option" where
  "long_index ms = (if ms = [] then None
     else case last_index (\<lambda>m. cm_role m = Role_USER) ms of Some i \<Rightarrow> Some i | None \<Rightarrow> Some (length ms - 1))"

definition combine_partials :: "string list \<Rightarrow> string" where
  "combine_partials ps = (let rows = map (\<lambda>(i, p). ''[window '' @ show_nat (i + 1) @ '']'' @ [CHR 0x0A] @ p) (enumerate 0 ps)
     in concat (map (\<lambda>(i, row). if i = 0 then row else [CHR 0x0A, CHR 0x0A] @ row) (enumerate 0 rows)))"

definition map_reduce ::
  "'w model_ports \<Rightarrow> int \<Rightarrow> chat_message list \<Rightarrow> int \<Rightarrow> (chat_message list \<Rightarrow> ('v, string) eff)
   \<Rightarrow> (chat_message list \<Rightarrow> ('v, string) eff) \<Rightarrow> ('v, string) eff" where
  "map_reduce p headroom ms max_input map_call reduce_call = (case long_index ms of
       None \<Rightarrow> raise_exc IndexError
     | Some i \<Rightarrow>
         let windows = window_texts p (cm_content (ms ! i)) (nat (max 1 (max_input - headroom)))
         in seq (map_eff (\<lambda>w. map_call (take i ms @ [\<lparr>cm_role = Role_USER, cm_content = w\<rparr>])) windows) (\<lambda>partials.
              reduce_call [\<lparr>cm_role = Role_SYSTEM, cm_content = reduce_instruction\<rparr>,
                \<lparr>cm_role = Role_USER, cm_content = combine_partials partials\<rparr>]))"

section \<open>Completion\<close>

text \<open>int(getattr(usage, name, 0) or 0)\<close>
definition count_or_zero :: "int option \<Rightarrow> int" where
  "count_or_zero n = (case n of None \<Rightarrow> 0 | Some k \<Rightarrow> k)"

definition parse_response :: "llm_response \<Rightarrow> string \<Rightarrow> completion or_raise" where
  "parse_response resp grp = (case re_choices resp of
       [] \<Rightarrow> Inl IndexError
     | (content, finish) # _ \<Rightarrow> Inr \<lparr>co_text = str_or_empty content, co_group = grp,
         co_model_id = (if given (re_hidden_model_id resp) then the (re_hidden_model_id resp)
           else case re_model resp of None \<Rightarrow> grp | Some m \<Rightarrow> m),
         co_usage = \<lparr>tu_prompt = count_or_zero (re_prompt_tokens resp), tu_completion = count_or_zero (re_completion_tokens resp),
           tu_total = count_or_zero (re_total_tokens resp)\<rparr>,
         co_finish = finish\<rparr>)"

definition group_unavailable :: "'w model_ports \<Rightarrow> string \<Rightarrow> exc_class \<Rightarrow> model_degraded" where
  "group_unavailable p grp e = \<lparr>de_component = ''model:'' @ grp, de_mode = ''model_unavailable'',
     de_reason = Model_Group_Unavailable, de_detail = Some (''group='' @ grp @ '' cause='' @ mp_class_name p e)\<rparr>"

definition unavailable :: "'w model_ports \<Rightarrow> string \<Rightarrow> exc_class \<Rightarrow> ('w router_world, 'a) eff" where
  "unavailable p grp e = seq (emit_degraded (group_unavailable p grp e)) (\<lambda>_. raise_exc ModelGroupUnavailableError)"

definition one_shot ::
  "'w model_ports \<Rightarrow> chat_message list \<Rightarrow> string \<Rightarrow> call_args \<Rightarrow> ('w router_world, completion) eff" where
  "one_shot p ms grp args =
     seq (catching (on_net (mp_complete p grp (as_wire ms) args)) (unavailable p grp))
       (\<lambda>resp. lift_result (parse_response resp grp))"

definition router_max_input :: "'w model_router \<Rightarrow> string \<Rightarrow> int" where
  "router_max_input ro grp = (case registry_max_input (ro_registry ro) grp of
       Some n \<Rightarrow> n
     | None \<Rightarrow> (case mp_max_tokens (ro_ports ro) grp of
           Inr (Some n) \<Rightarrow> if n \<noteq> 0 then n else ro_default_window ro
         | _ \<Rightarrow> ro_default_window ro))"

definition chunked_complete ::
  "'w model_router \<Rightarrow> chat_message list \<Rightarrow> string \<Rightarrow> call_args \<Rightarrow> ('w router_world, string) eff" where
  "chunked_complete ro ms grp args =
     (let plain = args\<lparr>ca_response_format := None\<rparr>
      in seq (lift_result (group_for Task_ROUTINE_EXTRACT (ro_models ro) Task_SUMMARIZE None)) (\<lambda>reduce_group.
           map_reduce (ro_ports ro) (ro_headroom ro) ms (router_max_input ro grp)
             (\<lambda>window. seq (one_shot (ro_ports ro) window grp plain) (\<lambda>c. ret (co_text c)))
             (\<lambda>msgs. seq (one_shot (ro_ports ro) msgs reduce_group plain) (\<lambda>c. ret (co_text c)))))"

definition no_usage :: token_usage where
  "no_usage = \<lparr>tu_prompt = 0, tu_completion = 0, tu_total = 0\<rparr>"

definition router_complete ::
  "'w model_router \<Rightarrow> chat_message list \<Rightarrow> string \<Rightarrow> call_args \<Rightarrow> ('w router_world, completion) eff" where
  "router_complete ro ms grp args =
     (if needs_chunking (ro_ports ro) (ro_headroom ro) ms (router_max_input ro grp)
      then seq (chunked_complete ro ms grp args) (\<lambda>t. ret \<lparr>co_text = t, co_group = grp,
        co_model_id = grp @ '':map_reduce'', co_usage = no_usage, co_finish = None\<rparr>)
      else one_shot (ro_ports ro) ms grp args)"

definition or_setting :: "'a option \<Rightarrow> 'a \<Rightarrow> 'a" where
  "or_setting v d = (case v of None \<Rightarrow> d | Some x \<Rightarrow> x)"

definition task_args :: "'w model_router \<Rightarrow> int option \<Rightarrow> rat option \<Rightarrow> string option \<Rightarrow> call_args" where
  "task_args ro max_tokens temperature fmt = \<lparr>ca_max_tokens = or_setting max_tokens (ms_max_output_tokens (ro_models ro)),
     ca_temperature = or_setting temperature (ms_temperature (ro_models ro)), ca_response_format = fmt\<rparr>"

definition router_generate ::
  "'w model_router \<Rightarrow> model_task \<Rightarrow> chat_message list \<Rightarrow> string option \<Rightarrow> int option \<Rightarrow> rat option \<Rightarrow> string option
   \<Rightarrow> ('w router_world, completion) eff" where
  "router_generate ro task ms override max_tokens temperature fmt =
     seq (lift_result (group_for Task_ROUTINE_EXTRACT (ro_models ro) task override)) (\<lambda>grp.
       router_complete ro ms grp (task_args ro max_tokens temperature fmt))"

section \<open>Streaming and reranking\<close>

definition part_text :: "stream_part \<Rightarrow> string" where
  "part_text part = (case part of Some (Some t) # _ \<Rightarrow> t | _ \<Rightarrow> [])"

text \<open>The chunks a consumer sees, and the exception that ended them, if one did.\<close>
fun iter_chunks :: "nat \<Rightarrow> stream_part or_raise list \<Rightarrow> stream_chunk list \<times> exc_class option" where
  "iter_chunks index [] = ([\<lparr>ck_delta = [], ck_index = index, ck_done = True\<rparr>], None)"
| "iter_chunks index (Inl e # parts) = ([], Some e)"
| "iter_chunks index (Inr part # parts) =
     (let t = part_text part
      in if t = [] then iter_chunks index parts
         else case iter_chunks (index + 1) parts of
                (cs, e) \<Rightarrow> (\<lparr>ck_delta = t, ck_index = index, ck_done = False\<rparr> # cs, e))"

definition router_stream ::
  "'w model_router \<Rightarrow> model_task \<Rightarrow> chat_message list \<Rightarrow> string option \<Rightarrow> int option \<Rightarrow> rat option
   \<Rightarrow> ('w router_world, stream_chunk list \<times> exc_class option) eff" where
  "router_stream ro task ms override max_tokens temperature =
     seq (lift_result (group_for Task_ROUTINE_EXTRACT (ro_models ro) task override)) (\<lambda>grp.
     seq (catching (on_net (mp_stream (ro_ports ro) grp (as_wire ms) (task_args ro max_tokens temperature None)))
            (unavailable (ro_ports ro) grp)) (\<lambda>parts.
       ret (iter_chunks 0 parts)))"

definition rerank_disabled :: "string \<Rightarrow> model_degraded" where
  "rerank_disabled grp = \<lparr>de_component = ''reranker'', de_mode = ''rerank_disabled'',
     de_reason = Model_Surface_Down, de_detail = Some (''group='' @ grp)\<rparr>"

definition router_rerank ::
  "'w model_router \<Rightarrow> string \<Rightarrow> string list \<Rightarrow> int option \<Rightarrow> ('w router_world, rerank_hit list) eff" where
  "router_rerank ro query documents top_n =
     seq (lift_result (group_for Task_ROUTINE_EXTRACT (ro_models ro) Task_RERANK None)) (\<lambda>grp.
     seq (catching (on_net (mp_rerank (ro_ports ro) grp query documents top_n))
            (\<lambda>e. seq (emit_degraded (rerank_disabled grp)) (\<lambda>_. raise_exc ModelGroupUnavailableError))) (\<lambda>results.
       ret (map (\<lambda>(i, score). \<lparr>rh_index = i, rh_score = or_setting score 0\<rparr>) (or_setting results []))))"

definition router_embed :: "'w model_router \<Rightarrow> string list \<Rightarrow> rat list list or_raise" where
  "router_embed ro ts = ro_embed ro ts"

section \<open>The composition of the layer\<close>

record warm_config =
  wc_model_id :: string
  wc_kind :: model_kind
  wc_load_path :: string

record model_catalog =
  mc_providers :: "provider_record list"
  mc_deployments :: "model_deployment list"
  mc_warm_local :: "warm_config list"
  mc_embedders :: "(string, warm_config) dict"
  mc_local_capable :: "model_task list"
  mc_local_priority :: bool
  mc_default_window :: int

definition default_local_catalog :: model_catalog where
  "default_local_catalog = \<lparr>mc_providers = [], mc_deployments = [], mc_warm_local = [],
     mc_embedders = [(''minilm_local'', \<lparr>wc_model_id = ''minilm_local'', wc_kind = Kind_EMBED,
       wc_load_path = ''sentence-transformers/all-MiniLM-L6-v2''\<rparr>)],
     mc_local_capable = lp_local_tasks default_policy, mc_local_priority = True, mc_default_window = 128000\<rparr>"

text \<open>An embedder: its model name and dimension, and the encoder of a batch that is not empty.\<close>
record embedder =
  em_model_name :: string
  em_dimension :: nat
  em_encode :: "string list \<Rightarrow> rat list list or_raise"

definition embedder_embed :: "embedder \<Rightarrow> string list \<Rightarrow> rat list list or_raise" where
  "embedder_embed e ts = (if ts = [] then Inr [] else em_encode e ts)"

text \<open>Loading a configuration gives the dimension of its model and its encoder.\<close>
definition build_embedder ::
  "(warm_config \<Rightarrow> (nat \<times> (string list \<Rightarrow> rat list list or_raise)) or_raise) \<Rightarrow> string \<Rightarrow> model_catalog \<Rightarrow> embedder or_raise" where
  "build_embedder load backend catalog = (case dict_get (mc_embedders catalog) backend of
       None \<Rightarrow> Inl EmbedderConfigError
     | Some cfg \<Rightarrow> if wc_kind cfg \<noteq> Kind_EMBED then Inl EmbedderConfigError
         else rbind (load cfg) (\<lambda>(dims, encode).
           Inr \<lparr>em_model_name = wc_load_path cfg, em_dimension = dims, em_encode = encode\<rparr>))"

text \<open>w.model_id.split("/", 1)[0]\<close>
definition provider_prefix :: "string \<Rightarrow> string" where
  "provider_prefix model_id = takeWhile (\<lambda>c. c \<noteq> CHR ''/'') model_id"

definition build_model_router ::
  "(warm_config \<Rightarrow> (nat \<times> (string list \<Rightarrow> rat list list or_raise)) or_raise) \<Rightarrow> (warm_config \<Rightarrow> unit or_raise)
   \<Rightarrow> (model_row list \<Rightarrow> string list \<Rightarrow> 'w model_ports or_raise) \<Rightarrow> (string \<Rightarrow> string or_raise) option
   \<Rightarrow> model_settings \<Rightarrow> model_catalog \<Rightarrow> 'w model_router or_raise" where
  "build_model_router load warm mk_ports resolver models catalog =
     rbind (rmap (\<lambda>w. rbind (warm w) (\<lambda>_. Inr (provider_prefix (wc_model_id w)))) (mc_warm_local catalog)) (\<lambda>handlers.
     rbind (mk_model_registry (mc_providers catalog) (mc_deployments catalog)
         \<lparr>lp_local_tasks = mc_local_capable catalog, lp_enabled = mc_local_priority catalog\<rparr> (task_table models)) (\<lambda>registry.
     rbind (compile_model_list resolver registry) (\<lambda>rows.
     rbind (build_embedder load (ms_embed_backend models) catalog) (\<lambda>e.
     rbind (mk_ports rows handlers) (\<lambda>ports.
       Inr \<lparr>ro_ports = ports, ro_models = models, ro_registry = registry, ro_headroom = 512,
         ro_embed = embedder_embed e, ro_default_window = mc_default_window catalog\<rparr>)))))"

section \<open>No silent fallback\<close>

text \<open>
  An effect that is honest about the model layer: a result comes without any event, the typed failure
  comes with exactly one event, which names a group, and every other exception with none.
\<close>
definition honest :: "'w model_ports \<Rightarrow> ('w router_world, 'a) eff \<Rightarrow> bool" where
  "honest p m = (\<forall>w r w'. m w = (r, w') \<longrightarrow>
     (\<exists>es. rw_degraded w' = rw_degraded w @ es
       \<and> (if r = Inl ModelGroupUnavailableError then \<exists>g e. es = [group_unavailable p g e] else es = [])))"

named_theorems honest_intros "effects that are honest, by their shape"

lemma honest_ret [honest_intros]: "honest p (ret a)" "honest p (lift_result (Inr a))"
  by (auto simp: honest_def lift_result_def)

lemma honest_result [honest_intros]: "r \<noteq> Inl ModelGroupUnavailableError \<Longrightarrow> honest p (lift_result r)"
  by (auto simp: honest_def lift_result_def)

lemma honest_raise [honest_intros]: "e \<noteq> ModelGroupUnavailableError \<Longrightarrow> honest p (raise_exc e)"
  by (auto simp: honest_def raise_exc_def)

lemma honest_seq [honest_intros]:
  assumes "honest p m" "\<And>a. honest p (f a)" shows "honest p (seq m f)"
  unfolding honest_def
proof (intro allI impI)
  fix w r w' assume run: "seq m f w = (r, w')"
  obtain x u where x: "m w = (x, u)" by fastforce
  obtain es where es: "rw_degraded u = rw_degraded w @ es"
    "if x = Inl ModelGroupUnavailableError then \<exists>g e. es = [group_unavailable p g e] else es = []"
    using assms(1) x unfolding honest_def by blast
  show "\<exists>es. rw_degraded w' = rw_degraded w @ es
       \<and> (if r = Inl ModelGroupUnavailableError then \<exists>g e. es = [group_unavailable p g e] else es = [])"
  proof (cases x)
    case (Inl e)
    then have "u = w'" "r = Inl e" using run x by (simp_all add: seq_def)
    then show ?thesis using es Inl by (intro exI [of _ es]) simp
  next
    case (Inr a)
    then have "f a u = (r, w')" "rw_degraded u = rw_degraded w" using run x es by (simp_all add: seq_def)
    then show ?thesis using assms(2) [of a] unfolding honest_def by metis
  qed
qed

lemma honest_map_eff [honest_intros]: "(\<And>x. honest p (f x)) \<Longrightarrow> honest p (map_eff f xs)"
  by (induction xs) (auto intro!: honest_intros)

lemma honest_call [honest_intros]: "honest p (catching (on_net f) (unavailable p g))"
  unfolding honest_def
proof (intro allI impI)
  fix w r w' assume run: "catching (on_net f) (unavailable p g) w = (r, w')"
  obtain x n where x: "f (rw_net w) = (x, n)" by fastforce
  then have net: "on_net f w = (x, w\<lparr>rw_net := n\<rparr>)" by (simp add: on_net_def)
  have "\<not> isinstance_of e PyException \<Longrightarrow> e \<noteq> ModelGroupUnavailableError" for e
    by (cases e) (simp_all add: isinstance_of_def mro_def numeral_eq_Suc)
  then show "\<exists>es. rw_degraded w' = rw_degraded w @ es
       \<and> (if r = Inl ModelGroupUnavailableError then \<exists>g e. es = [group_unavailable p g e] else es = [])"
    using run by (cases x) (auto simp: catching_def net unavailable_def emit_degraded_def seq_def raise_exc_def split: if_splits, blast)
qed

lemma group_for_error: "group_for dflt m task override = Inl e \<Longrightarrow> e = ValueError"
  by (auto simp: group_for_def group_for_default_def Let_def split: if_splits)

lemma honest_group [honest_intros]: "honest p (lift_result (group_for dflt m task override))"
  by (rule honest_result) (auto dest: group_for_error)

lemma honest_one_shot [honest_intros]: "honest p (one_shot p ms g args)"
proof -
  have "parse_response resp g \<noteq> Inl ModelGroupUnavailableError" for resp
    by (simp add: parse_response_def split: list.split prod.split)
  then show ?thesis unfolding one_shot_def by (intro honest_intros)
qed

lemma honest_map_reduce [honest_intros]:
  "(\<And>ms. honest p (f ms)) \<Longrightarrow> (\<And>ms. honest p (h ms)) \<Longrightarrow> honest p (map_reduce q headroom ms max_input f h)"
  unfolding map_reduce_def Let_def by (auto intro!: honest_intros split: option.split)

lemma honest_complete [honest_intros]: "honest (ro_ports ro) (router_complete ro ms g args)"
  unfolding router_complete_def chunked_complete_def Let_def
  by (simp, intro conjI impI honest_intros)

lemma honest_generate: "honest (ro_ports ro) (router_generate ro task ms override max_tokens temperature fmt)"
  unfolding router_generate_def by (intro honest_intros)

lemma honest_stream: "honest (ro_ports ro) (router_stream ro task ms override max_tokens temperature)"
  unfolding router_stream_def by (intro honest_intros)

text \<open>A text was answered for a group: a call of that group returned a response that parses to it.\<close>
definition answered :: "'w model_ports \<Rightarrow> string \<Rightarrow> completion \<Rightarrow> bool" where
  "answered p g c = (\<exists>msgs args net resp net'. mp_complete p g msgs args net = (Inr resp, net') \<and> parse_response resp g = Inr c)"

lemma parsed_group: "parse_response resp g = Inr c \<Longrightarrow> co_group c = g"
  by (cases "re_choices resp") (auto simp: parse_response_def split: prod.splits)

lemma one_shot_answered: "one_shot p ms g args w = (Inr c, w') \<Longrightarrow> answered p g c"
  by (auto simp: one_shot_def seq_def catching_def on_net_def unavailable_def emit_degraded_def raise_exc_def lift_result_def answered_def
      split: prod.splits sum.splits if_splits) metis+

lemma seq_InrD: "seq m f w = (Inr b, w') \<Longrightarrow> \<exists>a u. m w = (Inr a, u) \<and> f a u = (Inr b, w')"
  by (auto simp: seq_def split: prod.splits sum.splits)

lemma chunked_answered:
  assumes "chunked_complete ro ms g args w = (Inr t, w')"
  shows "\<exists>rg c. group_for Task_ROUTINE_EXTRACT (ro_models ro) Task_SUMMARIZE None = Inr rg \<and> answered (ro_ports ro) rg c \<and> co_text c = t"
proof -
  let ?plain = "args\<lparr>ca_response_format := None\<rparr>"
  obtain rg u where rg: "group_for Task_ROUTINE_EXTRACT (ro_models ro) Task_SUMMARIZE None = Inr rg"
    and run: "map_reduce (ro_ports ro) (ro_headroom ro) ms (router_max_input ro g)
         (\<lambda>window. seq (one_shot (ro_ports ro) window g ?plain) (\<lambda>c. ret (co_text c)))
         (\<lambda>msgs. seq (one_shot (ro_ports ro) msgs rg ?plain) (\<lambda>c. ret (co_text c))) u = (Inr t, w')"
    using seq_InrD [OF assms [unfolded chunked_complete_def Let_def]] by (auto simp: lift_result_def)
  have "\<exists>ps v. seq (one_shot (ro_ports ro) ps rg ?plain) (\<lambda>c. ret (co_text c)) v = (Inr t, w')"
  proof (cases "long_index ms")
    case None
    then show ?thesis using run by (simp add: map_reduce_def raise_exc_def)
  next
    case (Some i)
    show ?thesis using seq_InrD [OF run [unfolded map_reduce_def Some option.case Let_def]] by blast
  qed
  then obtain ps v where "seq (one_shot (ro_ports ro) ps rg ?plain) (\<lambda>c. ret (co_text c)) v = (Inr t, w')" by blast
  then obtain c v' where "one_shot (ro_ports ro) ps rg ?plain v = (Inr c, v')" "co_text c = t"
    by (auto dest!: seq_InrD)
  then show ?thesis using rg one_shot_answered by blast
qed

section \<open>Windows\<close>

lemma slices_facts:
  assumes "0 < n"
  shows "concat (slices n xs) = xs \<and> (\<forall>w\<in>set (slices n xs). w \<noteq> [] \<and> length w \<le> n)
    \<and> length (slices n xs) = (length xs + n - 1) div n"
proof (induction "length xs" arbitrary: xs rule: less_induct)
  case less
  show ?case
  proof (cases "xs = []")
    case True
    then show ?thesis using assms by (simp add: slices.simps [of n "[]"])
  next
    case False
    then have "length (drop n xs) < length xs" using assms by simp
    note IH = less [OF this]
    have s: "slices n xs = take n xs # slices n (drop n xs)" using False assms by (simp add: slices.simps [of n xs])
    have "Suc ((length xs - n + n - 1) div n) = (length xs + n - 1) div n"
    proof (cases "n \<le> length xs")
      case True
      then have "length xs + n - 1 = (length xs - n + n - 1) + n" using assms by linarith
      then show ?thesis using assms by (metis Suc_eq_plus1 div_add_self2 less_numeral_extra(3))
    next
      case False
      then have "(length xs + n - 1) div n = 1" using \<open>xs \<noteq> []\<close>
        by (intro div_nat_eqI) (cases xs, auto)
      then show ?thesis using False assms by simp
    qed
    then show ?thesis using IH False assms unfolding s by auto
  qed
qed

lemma words_unwords:
  "\<forall>w\<in>set ws. w \<noteq> [] \<and> (\<forall>c\<in>set w. \<not> is_space c) \<Longrightarrow> words (unwords ws) = ws"
proof (induction ws)
  case Nil
  show ?case by (simp add: unwords_def words.simps)
next
  case (Cons w ws)
  have sp: "is_space (CHR '' '')" by (simp add: is_space_def char_range_def)
  have w: "w \<noteq> []" "\<forall>c\<in>set w. \<not> is_space c" using Cons.prems by auto
  have drop: "dropWhile is_space (w @ rest) = w @ rest" for rest using w by (cases w) auto
  show ?case
  proof (cases ws)
    case Nil
    have d: "dropWhile is_space w = w" "dropWhile (\<lambda>c. \<not> is_space c) w = []" "takeWhile (\<lambda>c. \<not> is_space c) w = w"
      using w drop [of "[]"] by auto
    have "words w = w # words []" by (subst words.simps) (simp add: Let_def d w(1))
    then show ?thesis using Nil by (simp add: unwords_def words.simps [of "[]"])
  next
    case (Cons v vs)
    have u: "unwords (w # ws) = w @ CHR '' '' # unwords ws" using Cons by (simp add: unwords_def)
    have "words (w @ CHR '' '' # unwords ws) = w # words (CHR '' '' # unwords ws)"
      using w drop by (subst words.simps) (simp add: Let_def sp)
    moreover have "words (CHR '' '' # unwords ws) = words (unwords ws)"
      using sp by (subst words.simps, subst (2) words.simps) simp
    ultimately show ?thesis using Cons.IH Cons.prems u by simp
  qed
qed

lemma words_plain: "w \<in> set (words t) \<Longrightarrow> w \<noteq> [] \<and> (\<forall>c\<in>set w. \<not> is_space c)"
proof (induction t rule: words.induct)
  case (1 s)
  let ?u = "dropWhile is_space s"
  have u: "?u \<noteq> []"
  proof
    assume "?u = []"
    then have "words s = []" by (subst words.simps) simp
    then show False using 1(2) by simp
  qed
  then have "\<not> is_space (hd ?u)" by (rule hd_dropWhile)
  then have first: "takeWhile (\<lambda>c. \<not> is_space c) ?u \<noteq> []" using u by (cases ?u) auto
  have "words s = takeWhile (\<lambda>c. \<not> is_space c) ?u # words (dropWhile (\<lambda>c. \<not> is_space c) ?u)"
    by (subst words.simps) (simp only: Let_def u if_False)
  then have "w = takeWhile (\<lambda>c. \<not> is_space c) ?u \<or> w \<in> set (words (dropWhile (\<lambda>c. \<not> is_space c) ?u))"
    using 1(2) by simp
  then show ?case
  proof
    assume "w = takeWhile (\<lambda>c. \<not> is_space c) ?u"
    then show ?thesis using first set_takeWhileD by fast
  next
    assume "w \<in> set (words (dropWhile (\<lambda>c. \<not> is_space c) ?u))"
    then show ?thesis using 1(1) [OF refl u] by blast
  qed
qed

lemma words_slice: "ws \<in> set (slices n (words t)) \<Longrightarrow> 0 < n \<Longrightarrow> words (unwords ws) = ws"
proof (rule words_unwords, rule ballI)
  fix w assume ws: "ws \<in> set (slices n (words t))" "0 < n" and "w \<in> set ws"
  then have "w \<in> set (concat (slices n (words t)))" by auto
  then have "w \<in> set (words t)" using slices_facts [of n "words t"] ws(2) by simp
  then show "w \<noteq> [] \<and> (\<forall>c\<in>set w. \<not> is_space c)" by (rule words_plain)
qed

text \<open>What the chunks of a stream that ends normally say.\<close>
lemma iter_chunks_text:
  "iter_chunks i (map Inr parts) = (cs, e) \<Longrightarrow>
     e = None \<and> cs \<noteq> [] \<and> concat (map ck_delta cs) = concat (map part_text parts)
     \<and> map ck_index cs = [i..<i + length cs] \<and> ck_done (last cs) \<and> ck_delta (last cs) = []
     \<and> (\<forall>c\<in>set (butlast cs). \<not> ck_done c \<and> ck_delta c \<noteq> [])"
proof (induction parts arbitrary: i cs)
  case (Cons part parts)
  show ?case
  proof (cases "part_text part = []")
    case True
    then show ?thesis using Cons by simp
  next
    case False
    obtain ds where ds: "iter_chunks (i + 1) (map Inr parts) = (ds, e)"
      "cs = \<lparr>ck_delta = part_text part, ck_index = i, ck_done = False\<rparr> # ds"
      using Cons.prems False by (auto simp: Let_def split: prod.splits)
    from Cons.IH [OF ds(1)] have IH: "e = None" "ds \<noteq> []" "concat (map ck_delta ds) = concat (map part_text parts)"
      "map ck_index ds = [i + 1..<i + 1 + length ds]" "ck_done (last ds)" "ck_delta (last ds) = []"
      "\<forall>c\<in>set (butlast ds). \<not> ck_done c \<and> ck_delta c \<noteq> []" by simp_all
    have "map ck_index cs = [i..<i + length cs]" unfolding ds(2) using IH(4) by (simp add: upt_conv_Cons del: upt_Suc)
    then show ?thesis using IH False unfolding ds(2) by simp
  qed
qed auto

text \<open>A prefix of a failing stream is passed on, then its exception: it is not the typed failure.\<close>
lemma stream_failure_escapes:
  "iter_chunks 0 [Inr [Some (Some ''a'')], Inl TimeoutError] = ([\<lparr>ck_delta = ''a'', ck_index = 0, ck_done = False\<rparr>], Some TimeoutError)"
  by (simp add: part_text_def)

text \<open>What follows the last user message is in no window.\<close>
lemma last_index_append: "\<forall>x\<in>set ys. \<not> P x \<Longrightarrow> last_index P (xs @ ys) = last_index P xs"
proof -
  assume "\<forall>x\<in>set ys. \<not> P x"
  then have "last_index P ys = None" by (induction ys) auto
  then show ?thesis by (induction xs) (auto split: option.split)
qed

lemma last_index_bound: "last_index P xs = Some i \<Longrightarrow> i < length xs \<and> P (xs ! i)"
  by (induction xs arbitrary: i) (auto split: option.splits if_splits)

lemma trailing_messages_are_dropped:
  assumes "\<exists>m\<in>set ms. cm_role m = Role_USER" "\<forall>m\<in>set rest. cm_role m \<noteq> Role_USER"
  shows "map_reduce p headroom (ms @ rest) max_input f h = map_reduce p headroom ms max_input f h"
proof -
  have "last_index P xs = None \<Longrightarrow> \<forall>x\<in>set xs. \<not> P x" for P and xs :: "chat_message list"
    by (induction xs) (auto split: option.splits if_splits)
  then have "last_index (\<lambda>m. cm_role m = Role_USER) ms \<noteq> None" using assms(1) by blast
  then obtain i where i: "last_index (\<lambda>m. cm_role m = Role_USER) ms = Some i" by blast
  have "long_index (ms @ rest) = Some i" "long_index ms = Some i" "i < length ms"
    using i last_index_append [OF assms(2), of ms] last_index_bound [OF i] assms(1) by (auto simp: long_index_def)
  then show ?thesis by (simp add: map_reduce_def nth_append)
qed

section \<open>Properties\<close>



text \<open>
  The chunks of a stream. When every part of a stream arrives, the consumer sees no exception; the
  deltas spell out the texts of the parts, the chunks are numbered from zero without a gap, and exactly
  the last one is marked done and empty.
\<close>
theorem stream_spells_out_the_answer:
  "case iter_chunks 0 (map Inr parts) of (chunks, failure) \<Rightarrow>
     failure = None \<and> concat (map ck_delta chunks) = concat (map part_text parts)
     \<and> map ck_index chunks = [0..<length chunks]
     \<and> (\<exists>body fin. chunks = body @ [fin] \<and> ck_done fin \<and> ck_delta fin = [] \<and> (\<forall>c\<in>set body. \<not> ck_done c \<and> ck_delta c \<noteq> []))"
proof (cases "iter_chunks 0 (map Inr parts)")
  case (Pair chunks failure)
  from iter_chunks_text [OF this] have facts: "failure = None" "chunks \<noteq> []" "concat (map ck_delta chunks) = concat (map part_text parts)"
    "map ck_index chunks = [0..<length chunks]" "ck_done (last chunks)" "ck_delta (last chunks) = []"
    "\<forall>c\<in>set (butlast chunks). \<not> ck_done c \<and> ck_delta c \<noteq> []" by simp_all
  have "chunks = butlast chunks @ [last chunks]" using facts(2) by simp
  then show ?thesis using facts unfolding Pair prod.case by metis
qed

section \<open>Witnesses\<close>

text \<open>A package whose deployments are all down, and whose codec knows one token per character.\<close>
definition demo_model_ports :: "unit model_ports" where
  "demo_model_ports = \<lparr>mp_complete = (\<lambda>g ms args. raise_exc TimeoutError), mp_stream = (\<lambda>g ms args. raise_exc TimeoutError),
     mp_rerank = (\<lambda>g q ds n. raise_exc TimeoutError), mp_max_tokens = (\<lambda>g. Inr None), mp_count = (\<lambda>ms. int (length ms)),
     mp_encode = (\<lambda>t. Inr (map of_char t)), mp_decode = (\<lambda>ids. Inr (map char_of ids)), mp_class_name = (\<lambda>e. ''E'')\<rparr>"

definition demo_model_router :: "unit model_router" where
  "demo_model_router = \<lparr>ro_ports = demo_model_ports, ro_models = demo_models, ro_registry = demo_registry, ro_headroom = 512,
     ro_embed = (\<lambda>ts. Inr []), ro_default_window = 128000\<rparr>"



theorem stream_spells_out_the_answer_witness:
  "concat (map ck_delta (fst (iter_chunks 0 (map Inr [[Some (Some ''a'')], [], [Some (Some ''b'')]])))) = ''ab''"
  using stream_spells_out_the_answer [of "[[Some (Some ''a'')], [], [Some (Some ''b'')]]"]
  by (simp add: part_text_def split_beta)

end
