(* ===== verification/Stm_Caches.thy ===== *)
theory Stm_Caches
  imports Stm_Store Mappers
begin

text \<open>
  The short-term tier on an external cache (storage/adapters: redis_stm.py, which valkey_stm.py
  inherits unchanged, and memcached_stm.py). The servers are not code of the repository: a client is
  a record of the calls the adapters make, and redis_documented and memcached_documented state what the
  servers document of them, over what is stored under each key. Time to live and the server's clock
  count seconds; a record's created_at counts microseconds. The retry decorator around each call is
  the tenacity package.

  The lemmas show that a Redis floor is the live last writes of its namespace, and that concurrent
  writers of the Memcached recency list are serialised by its compare-and-swap.
\<close>

section \<open>Redis\<close>

datatype redis_value = RStr payload | RZset "(string, int) dict"

type_synonym redis_db = "string \<Rightarrow> (redis_value \<times> int option) option"

datatype redis_cmd = SET string payload int | ZADD string int string | EXPIRE string int
  | DEL string | ZREM string string

definition key_live :: "int \<Rightarrow> string \<Rightarrow> redis_db \<Rightarrow> redis_value option" where
  "key_live now k db = (case db k of None \<Rightarrow> None | Some (v, ex) \<Rightarrow> if is_expired ex now then None else Some v)"

definition zset_at :: "int \<Rightarrow> string \<Rightarrow> redis_db \<Rightarrow> (string, int) dict" where
  "zset_at now k db = (case key_live now k db of Some (RZset d) \<Rightarrow> d | _ \<Rightarrow> [])"

definition expiry_at :: "int \<Rightarrow> string \<Rightarrow> redis_db \<Rightarrow> int option" where
  "expiry_at now k db = (case db k of None \<Rightarrow> None | Some (v, ex) \<Rightarrow> if is_expired ex now then None else ex)"

text \<open>What the commands the adapter sends are documented to do to the keyspace: SET replaces the key
  and its expiry, ZADD keeps the expiry of a live key, EXPIRE sets it, ZREM of the last member
  removes the key.\<close>
fun redis_apply :: "int \<Rightarrow> redis_cmd \<Rightarrow> redis_db \<Rightarrow> redis_db" where
  "redis_apply now (SET k v ttl) db = db(k \<mapsto> (RStr v, Some (now + ttl)))"
| "redis_apply now (ZADD k s i) db = db(k \<mapsto> (RZset (dict_put i s (zset_at now k db)), expiry_at now k db))"
| "redis_apply now (EXPIRE k ttl) db = (case key_live now k db of None \<Rightarrow> db | Some v \<Rightarrow> db(k \<mapsto> (v, Some (now + ttl))))"
| "redis_apply now (DEL k) db = db(k := None)"
| "redis_apply now (ZREM k i) db = (case db k of Some (RZset d, ex) \<Rightarrow>
     (let d' = dict_pop i d in db(k := (if d' = [] then None else Some (RZset d', ex)))) | _ \<Rightarrow> db)"

text \<open>Members by descending score, ties by descending member.\<close>
definition zset_newest :: "(string, int) dict \<Rightarrow> string list" where
  "zset_newest d = map fst (rev (sort_key (\<lambda>(i, s). (s, i)) d))"

text \<open>GET, ZREVRANGE key start stop, and a transaction (a single command is one of length one).\<close>
record 'w redis_client =
  rc_get :: "int \<Rightarrow> string \<Rightarrow> 'w \<Rightarrow> payload option"
  rc_zrevrange :: "int \<Rightarrow> string \<Rightarrow> int \<Rightarrow> int \<Rightarrow> 'w \<Rightarrow> string list"
  rc_exec :: "int \<Rightarrow> redis_cmd list \<Rightarrow> 'w \<Rightarrow> 'w"

text \<open>A SET or EXPIRE with a time that is not positive is refused by the server, and a ZADD on a
  string; nothing is said of those.\<close>
definition cmd_documented :: "redis_db \<Rightarrow> redis_cmd \<Rightarrow> bool" where
  "cmd_documented db c = (case c of SET _ _ ttl \<Rightarrow> 0 < ttl | EXPIRE _ ttl \<Rightarrow> 0 < ttl
     | ZADD k _ _ \<Rightarrow> (case db k of Some (RStr _, _) \<Rightarrow> False | _ \<Rightarrow> True) | _ \<Rightarrow> True)"

fun cmds_documented :: "int \<Rightarrow> redis_cmd list \<Rightarrow> redis_db \<Rightarrow> bool" where
  "cmds_documented now [] db = True"
| "cmds_documented now (c # cs) db = (cmd_documented db c \<and> cmds_documented now cs (redis_apply now c db))"

definition redis_documented :: "'w redis_client \<Rightarrow> ('w \<Rightarrow> redis_db) \<Rightarrow> bool" where
  "redis_documented rc view = (\<forall>now w.
     (\<forall>k. rc_get rc now k w = (case key_live now k (view w) of Some (RStr v) \<Rightarrow> Some v | _ \<Rightarrow> None)) \<and>
     (\<forall>k stop. 0 \<le> stop \<longrightarrow> rc_zrevrange rc now k 0 stop w = take (nat stop + 1) (zset_newest (zset_at now k (view w)))) \<and>
     (\<forall>cs. cmds_documented now cs (view w) \<longrightarrow> view (rc_exec rc now cs w) = fold (redis_apply now) cs (view w)))"

definition model_redis :: "redis_db redis_client" where
  "model_redis = \<lparr>rc_get = (\<lambda>now k db. case key_live now k db of Some (RStr v) \<Rightarrow> Some v | _ \<Rightarrow> None),
     rc_zrevrange = (\<lambda>now k start stop db. take (nat stop + 1) (zset_newest (zset_at now k db))),
     rc_exec = (\<lambda>now. fold (redis_apply now))\<rparr>"

lemma model_redis_documented: "redis_documented model_redis (\<lambda>db. db)"
  by (simp add: redis_documented_def model_redis_def)

definition put_transaction :: "redis_record \<Rightarrow> memory_item \<Rightarrow> redis_cmd list" where
  "put_transaction row item =
     (let recency = recency_key (mi_namespace item)
      in [SET (rd_key row) (rd_blob row) (rd_ttl_s row), ZADD recency (mi_created_at item) (mi_id item)]
         @ (if rd_ttl_s row \<noteq> 0 then [EXPIRE recency (rd_ttl_s row)] else []))"

definition redis_put :: "codec \<Rightarrow> 'w redis_client \<Rightarrow> int \<Rightarrow> int \<Rightarrow> memory_item \<Rightarrow> 'w \<Rightarrow> 'w" where
  "redis_put cd rc default_ttl now item w = rc_exec rc now (put_transaction (redis_to_store cd default_ttl item) item) w"

text \<open>The record read back is built with no ttl, which from_store does not read.\<close>
definition redis_get ::
  "codec \<Rightarrow> 'w redis_client \<Rightarrow> int \<Rightarrow> namespace \<Rightarrow> string \<Rightarrow> 'w \<Rightarrow> memory_item option or_raise" where
  "redis_get cd rc now ns mid w =
     (let key = memory_key ns mid
      in case rc_get rc now key w of
           None \<Rightarrow> Inr None
         | Some blob \<Rightarrow> rbind (redis_from_store cd \<lparr>rd_key = key, rd_ttl_s = 0, rd_blob = blob\<rparr>) (\<lambda>m. Inr (Some m)))"

text \<open>The loop over the members read: one whose row is gone is removed from the index.\<close>
fun redis_floor ::
  "codec \<Rightarrow> 'w redis_client \<Rightarrow> int \<Rightarrow> namespace \<Rightarrow> nat \<Rightarrow> string list \<Rightarrow> ('w, scored list) eff" where
  "redis_floor cd rc now ns place [] w = (Inr [], w)"
| "redis_floor cd rc now ns place (mid # ids) w = (case redis_get cd rc now ns mid w of
       Inl e \<Rightarrow> (Inl e, w)
     | Inr None \<Rightarrow> redis_floor cd rc now ns (Suc place) ids (rc_exec rc now [ZREM (recency_key ns) mid] w)
     | Inr (Some item) \<Rightarrow> (case redis_floor cd rc now ns (Suc place) ids w of
           (r, w') \<Rightarrow> (rbind r (\<lambda>out. Inr (\<lparr>sc_item = item, sc_score = 1, sc_channel = STM_FLOOR,
             sc_rank = Some place, sc_is_floor = True\<rparr> # out)), w')))"

definition redis_recent ::
  "codec \<Rightarrow> 'w redis_client \<Rightarrow> int \<Rightarrow> namespace \<Rightarrow> int \<Rightarrow> ('w, scored list) eff" where
  "redis_recent cd rc now ns limit w =
     redis_floor cd rc now ns 0 (rc_zrevrange rc now (recency_key ns) 0 (max 0 (limit - 1)) w) w"

definition redis_evict :: "'w redis_client \<Rightarrow> int \<Rightarrow> namespace \<Rightarrow> string \<Rightarrow> 'w \<Rightarrow> 'w" where
  "redis_evict rc now ns mid w = rc_exec rc now [DEL (memory_key ns mid), ZREM (recency_key ns) mid] w"

section \<open>What Redis serves\<close>

datatype stm_call = CPut memory_item | CRecent namespace int | CEvict namespace string

definition call_ok :: "stm_call \<Rightarrow> bool" where
  "call_ok c = (case c of CPut m \<Rightarrow> well_formed_item m | CRecent ns _ \<Rightarrow> valid_ns ns | CEvict ns _ \<Rightarrow> valid_ns ns)"

definition redis_call :: "codec \<Rightarrow> 'w redis_client \<Rightarrow> int \<Rightarrow> int \<times> stm_call \<Rightarrow> 'w \<Rightarrow> 'w" where
  "redis_call cd rc ttl tc w = (case tc of
       (now, CPut m) \<Rightarrow> redis_put cd rc ttl now m w
     | (now, CRecent ns l) \<Rightarrow> snd (redis_recent cd rc now ns l w)
     | (now, CEvict ns i) \<Rightarrow> redis_evict rc now ns i w)"

text \<open>The specification: the last write of each id of each namespace, with its expiry.\<close>
type_synonym last_writes = "namespace \<times> string \<Rightarrow> (memory_item \<times> int) option"

definition spec_call :: "int \<Rightarrow> int \<times> stm_call \<Rightarrow> last_writes \<Rightarrow> last_writes" where
  "spec_call ttl tc f = (case tc of
       (now, CPut m) \<Rightarrow> f((mi_namespace m, mi_id m) \<mapsto> (m, now + ttl))
     | (now, CRecent ns l) \<Rightarrow> f
     | (now, CEvict ns i) \<Rightarrow> f((ns, i) := None))"

definition live_write :: "int \<Rightarrow> last_writes \<Rightarrow> namespace \<times> string \<Rightarrow> memory_item option" where
  "live_write now f key = (case f key of None \<Rightarrow> None | Some (m, e) \<Rightarrow> if e \<le> now then None else Some m)"

text \<open>The ids ever written to a namespace.\<close>
definition ids_put :: "namespace \<Rightarrow> (int \<times> stm_call) list \<Rightarrow> string set" where
  "ids_put ns calls = {mi_id m | m t. (t, CPut m) \<in> set calls \<and> mi_namespace m = ns}"

text \<open>The keyspace holds the last writes, and a row that is live at T is in a live index that
  outlives it, under its creation time.\<close>
definition row_of :: "codec \<Rightarrow> memory_item \<times> int \<Rightarrow> redis_value \<times> int option" where
  "row_of cd me = (RStr (to_dict cd (fst me)), Some (snd me))"

definition index_ok :: "namespace \<Rightarrow> (namespace \<times> string) set \<Rightarrow> redis_db \<Rightarrow> bool" where
  "index_ok ns P db = (case db (recency_key ns) of None \<Rightarrow> True
     | Some (v, ex) \<Rightarrow> \<exists>d e. v = RZset d \<and> ex = Some e \<and> distinct (map fst d) \<and> (\<forall>i\<in>fst ` set d. (ns, i) \<in> P))"

definition indexed :: "namespace \<Rightarrow> string \<Rightarrow> int \<Rightarrow> int \<Rightarrow> redis_db \<Rightarrow> bool" where
  "indexed ns i created e db = (\<exists>d e'. db (recency_key ns) = Some (RZset d, Some e') \<and> e \<le> e' \<and> dict_get d i = Some created)"

definition redis_rel :: "codec \<Rightarrow> int \<Rightarrow> int \<Rightarrow> (namespace \<times> string) set \<Rightarrow> last_writes \<Rightarrow> redis_db \<Rightarrow> bool" where
  "redis_rel cd ttl T P f db =
     ((\<forall>ns i. valid_ns ns \<longrightarrow> db (memory_key ns i) = map_option (row_of cd) (f (ns, i))) \<and>
      (\<forall>ns i m e. f (ns, i) = Some (m, e) \<longrightarrow>
         mi_namespace m = ns \<and> mi_id m = i \<and> well_formed_item m \<and> e \<le> T + ttl \<and>
         (T < e \<longrightarrow> indexed ns i (mi_created_at m) e db)) \<and>
      (\<forall>ns. valid_ns ns \<longrightarrow> index_ok ns P db))"

lemma well_formed_valid [simp]: "well_formed_item m \<Longrightarrow> valid_ns (mi_namespace m)"
  by (simp add: well_formed_item_def)

lemma redis_rel_later: "redis_rel cd ttl T P f db \<Longrightarrow> T \<le> T' \<Longrightarrow> redis_rel cd ttl T' P f db"
  unfolding redis_rel_def by (fastforce intro: order_trans)

lemma redis_rel_row: "redis_rel cd ttl T P f db \<Longrightarrow> valid_ns ns \<Longrightarrow> db (memory_key ns i) = map_option (row_of cd) (f (ns, i))"
  by (simp add: redis_rel_def)

lemma redis_rel_write: "redis_rel cd ttl T P f db \<Longrightarrow> f (ns, i) = Some (m, e) \<Longrightarrow>
    mi_namespace m = ns \<and> mi_id m = i \<and> well_formed_item m \<and> e \<le> T + ttl \<and>
    (T < e \<longrightarrow> indexed ns i (mi_created_at m) e db)"
  unfolding redis_rel_def by blast

lemma redis_rel_index: "redis_rel cd ttl T P f db \<Longrightarrow> valid_ns ns \<Longrightarrow> index_ok ns P db"
  by (simp add: redis_rel_def)

lemma redis_rel_mono: "redis_rel cd ttl T P f db \<Longrightarrow> P \<subseteq> Q \<Longrightarrow> redis_rel cd ttl T Q f db"
  unfolding redis_rel_def index_ok_def by (fastforce split: option.splits)

lemma key_simps [simp]:
  "valid_ns a \<Longrightarrow> valid_ns b \<Longrightarrow> memory_key a i = memory_key b j \<longleftrightarrow> a = b \<and> i = j"
  "valid_ns a \<Longrightarrow> valid_ns b \<Longrightarrow> recency_key a = recency_key b \<longleftrightarrow> a = b"
  "valid_ns a \<Longrightarrow> valid_ns b \<Longrightarrow> memory_key a i \<noteq> recency_key b"
  "valid_ns a \<Longrightarrow> valid_ns b \<Longrightarrow> recency_key b \<noteq> memory_key a i"
  using memory_key_inj recency_key_inj memory_key_not_recency_key by metis+

text \<open>Only the keys of one namespace are touched by a call on it.\<close>
lemma redis_rel_local:
  assumes rel: "redis_rel cd ttl T P f db" and ns: "valid_ns ns"
    and other: "\<And>b. valid_ns b \<Longrightarrow> b \<noteq> ns \<Longrightarrow> db' (recency_key b) = db (recency_key b) \<and> (\<forall>i. db' (memory_key b i) = db (memory_key b i))"
    and f_other: "\<And>b i. b \<noteq> ns \<Longrightarrow> f' (b, i) = f (b, i)"
    and rows: "\<And>i. db' (memory_key ns i) = map_option (row_of cd) (f' (ns, i))"
    and writes: "\<And>i m e. f' (ns, i) = Some (m, e) \<Longrightarrow>
       mi_namespace m = ns \<and> mi_id m = i \<and> well_formed_item m \<and> e \<le> T + ttl \<and> (T < e \<longrightarrow> indexed ns i (mi_created_at m) e db')"
    and index: "index_ok ns P db'"
  shows "redis_rel cd ttl T P f' db'"
  unfolding redis_rel_def
proof (intro conjI allI impI)
  fix b i assume b: "valid_ns b"
  show "db' (memory_key b i) = map_option (row_of cd) (f' (b, i))"
    using rows other [OF b] f_other redis_rel_row [OF rel b] by (cases "b = ns") auto
next
  fix b assume b: "valid_ns b"
  show "index_ok b P db'"
    using index other [OF b] redis_rel_index [OF rel b] by (cases "b = ns") (auto simp: index_ok_def)
next
  fix b i m e assume f': "f' (b, i) = Some (m, e)"
  have "mi_namespace m = b \<and> mi_id m = i \<and> well_formed_item m \<and> e \<le> T + ttl \<and> (T < e \<longrightarrow> indexed b i (mi_created_at m) e db')"
  proof (cases "b = ns")
    case False
    then have w: "mi_namespace m = b \<and> mi_id m = i \<and> well_formed_item m \<and> e \<le> T + ttl \<and> (T < e \<longrightarrow> indexed b i (mi_created_at m) e db)"
      using redis_rel_write [OF rel] f_other f' by metis
    then have "db' (recency_key b) = db (recency_key b)"
      using other False by auto
    then show ?thesis using w by (simp add: indexed_def)
  qed (use writes f' in blast)
  then show "mi_namespace m = b" "mi_id m = i" "well_formed_item m" "e \<le> T + ttl" "T < e \<Longrightarrow> indexed b i (mi_created_at m) e db'"
    by auto
qed

lemma key_live_not_expired: "key_live now k (db(k \<mapsto> (v, expiry_at now k db0))) = Some v"
  by (auto simp: key_live_def expiry_at_def is_expired_def split: option.split)

lemma redis_put_db:
  assumes "well_formed_item m" "ttl \<noteq> 0"
  shows "fold (redis_apply now) (put_transaction (redis_to_store cd ttl m) m) db
     = db(memory_key (mi_namespace m) (mi_id m) \<mapsto> (RStr (to_dict cd m), Some (now + ttl)),
          recency_key (mi_namespace m) \<mapsto>
            (RZset (dict_put (mi_id m) (mi_created_at m) (zset_at now (recency_key (mi_namespace m)) db)), Some (now + ttl)))"
proof -
  let ?r = "recency_key (mi_namespace m)"
  let ?db = "db(memory_key (mi_namespace m) (mi_id m) \<mapsto> (RStr (to_dict cd m), Some (now + ttl)))"
  have same: "zset_at now ?r ?db = zset_at now ?r db"
    using assms by (simp add: zset_at_def key_live_def)
  show ?thesis
    using assms(2) by (simp add: put_transaction_def redis_to_store_def Let_def key_live_not_expired same)
qed

lemma index_ok_zset:
  assumes "index_ok ns P db"
  shows "distinct (map fst (zset_at now (recency_key ns) db)) \<and> (\<forall>i\<in>fst ` set (zset_at now (recency_key ns) db). (ns, i) \<in> P)"
  using assms by (auto simp: index_ok_def zset_at_def key_live_def split: option.splits)

lemma indexed_zset:
  assumes "indexed ns i c e db" "now < e"
  shows "dict_get (zset_at now (recency_key ns) db) i = Some c"
  using assms by (auto simp: indexed_def zset_at_def key_live_def is_expired_def)

lemma redis_rel_put:
  assumes rel: "redis_rel cd ttl now P f db" and m: "well_formed_item m" and ttl: "0 < ttl"
  shows "redis_rel cd ttl now (insert (mi_namespace m, mi_id m) P) (spec_call ttl (now, CPut m) f)
    (fold (redis_apply now) (put_transaction (redis_to_store cd ttl m) m) db)" (is "redis_rel cd ttl now ?P ?f ?db")
proof -
  let ?ns = "mi_namespace m"
  let ?d = "dict_put (mi_id m) (mi_created_at m) (zset_at now (recency_key ?ns) db)"
  have ns: "valid_ns ?ns" using m by simp
  have db': "?db = db(memory_key ?ns (mi_id m) \<mapsto> (RStr (to_dict cd m), Some (now + ttl)),
      recency_key ?ns \<mapsto> (RZset ?d, Some (now + ttl)))"
    using redis_put_db [OF m] ttl by simp
  have f': "?f = f((?ns, mi_id m) \<mapsto> (m, now + ttl))"
    by (simp add: spec_call_def)
  have z: "distinct (map fst (zset_at now (recency_key ?ns) db))"
    "\<forall>i\<in>fst ` set (zset_at now (recency_key ?ns) db). (?ns, i) \<in> P"
    using index_ok_zset [OF redis_rel_index [OF rel ns]] by auto
  show ?thesis
  proof (rule redis_rel_local [OF redis_rel_mono [OF rel] ns])
    show "P \<subseteq> ?P" by auto
    show "?db (recency_key b) = db (recency_key b) \<and> (\<forall>i. ?db (memory_key b i) = db (memory_key b i))"
      if "valid_ns b" "b \<noteq> ?ns" for b
      using that ns unfolding db' by auto
    show "?f (b, i) = f (b, i)" if "b \<noteq> ?ns" for b i
      using that unfolding f' by simp
    show "?db (memory_key ?ns i) = map_option (row_of cd) (?f (?ns, i))" for i
      using ns redis_rel_row [OF rel ns] unfolding db' f' by (simp add: row_of_def)
    show "index_ok ?ns ?P ?db"
      using z unfolding db' by (auto simp: index_ok_def distinct_update dest!: dict_put_set)
    show "mi_namespace x = ?ns \<and> mi_id x = i \<and> well_formed_item x \<and> e \<le> now + ttl \<and>
        (now < e \<longrightarrow> indexed ?ns i (mi_created_at x) e ?db)" if x: "?f (?ns, i) = Some (x, e)" for i x e
    proof (cases "i = mi_id m")
      case True
      then have "x = m" "e = now + ttl" using x unfolding f' by auto
      then show ?thesis using True m unfolding db' by (simp add: indexed_def)
    next
      case False
      then have w: "mi_namespace x = ?ns \<and> mi_id x = i \<and> well_formed_item x \<and> e \<le> now + ttl"
        and i: "now < e \<Longrightarrow> indexed ?ns i (mi_created_at x) e db"
        using x redis_rel_write [OF rel, of ?ns i x e] unfolding f' by auto
      moreover have "now < e \<Longrightarrow> indexed ?ns i (mi_created_at x) e ?db"
        using w False indexed_zset [OF i] unfolding db' by (simp add: indexed_def)
      ultimately show ?thesis by blast
    qed
  qed
qed

text \<open>Removing a member whose write is gone, or already over, from the index.\<close>
lemma redis_rel_remove:
  assumes rel: "redis_rel cd ttl now P f db" and ns: "valid_ns ns"
    and gone: "f' (ns, i) = None \<or> f' (ns, i) = f (ns, i) \<and> live_write now f (ns, i) = None"
    and same: "\<And>b j. (b, j) \<noteq> (ns, i) \<Longrightarrow> f' (b, j) = f (b, j)"
    and row: "db1 = db(memory_key ns i := map_option (row_of cd) (f' (ns, i)))"
  shows "redis_rel cd ttl now P f' (redis_apply now (ZREM (recency_key ns) i) db1)" (is "redis_rel cd ttl now P f' ?db")
proof -
  have rec1: "db1 (recency_key ns) = db (recency_key ns)"
    using ns by (simp add: row)
  have away: "?db k = db1 k" if "k \<noteq> recency_key ns" for k
    using that by (auto simp: Let_def split: option.split redis_value.split)
  have ix: "index_ok ns P db" by (rule redis_rel_index [OF rel ns])
  have keep: "indexed ns j c e ?db" if "indexed ns j c e db" "j \<noteq> i" for j c e
  proof -
    obtain d e' where d: "db (recency_key ns) = Some (RZset d, Some e')" "e \<le> e'" "dict_get d j = Some c"
      using \<open>indexed ns j c e db\<close> by (auto simp: indexed_def)
    then have "dict_get (dict_pop i d) j = Some c" using that by simp
    moreover have "dict_pop i d \<noteq> []"
      using calculation by (metis map_of.simps(1) option.distinct(1))
    ultimately show ?thesis using d rec1 by (simp add: indexed_def Let_def)
  qed
  show ?thesis
  proof (rule redis_rel_local [OF rel ns])
    show "?db (recency_key b) = db (recency_key b) \<and> (\<forall>j. ?db (memory_key b j) = db (memory_key b j))"
      if "valid_ns b" "b \<noteq> ns" for b
      using that ns by (simp add: away del: redis_apply.simps) (simp add: row)
    show "f' (b, j) = f (b, j)" if "b \<noteq> ns" for b j
      using same that by simp
    show "?db (memory_key ns j) = map_option (row_of cd) (f' (ns, j))" for j
      using ns same redis_rel_row [OF rel ns] by (simp add: away del: redis_apply.simps) (simp add: row)
    show "index_ok ns P ?db"
    proof (cases "db (recency_key ns)")
      case None
      then show ?thesis using rec1 by (simp add: index_ok_def)
    next
      case (Some ve)
      then obtain d e where d: "db (recency_key ns) = Some (RZset d, Some e)" "distinct (map fst d)" "\<forall>j\<in>fst ` set d. (ns, j) \<in> P"
        using ix by (auto simp: index_ok_def)
      have "distinct (map fst (dict_pop i d))" "\<forall>j\<in>fst ` set (dict_pop i d). (ns, j) \<in> P"
        using d(2,3) by (simp add: distinct_delete, auto simp: AList.delete_eq)
      then show ?thesis using d(1) rec1 by (simp add: index_ok_def Let_def)
    qed
    show "mi_namespace x = ns \<and> mi_id x = j \<and> well_formed_item x \<and> e \<le> now + ttl \<and>
        (now < e \<longrightarrow> indexed ns j (mi_created_at x) e ?db)" if x: "f' (ns, j) = Some (x, e)" for j x e
    proof (cases "j = i")
      case True
      then have "f (ns, i) = Some (x, e)"
        using x gone by auto
      moreover from this have "e \<le> now"
        using x gone True by (simp add: live_write_def split: if_splits)
      ultimately show ?thesis using redis_rel_write [OF rel, of ns i x e] True by simp
    next
      case False
      then show ?thesis using x same keep redis_rel_write [OF rel, of ns j x e] by simp
    qed
  qed
qed

lemma redis_get_live:
  assumes "redis_documented rc view" "codec_ok cd" "redis_rel cd ttl T P f (view w)" "valid_ns ns"
  shows "redis_get cd rc now ns i w = Inr (live_write now f (ns, i))"
proof -
  have get: "rc_get rc now (memory_key ns i) w = (case key_live now (memory_key ns i) (view w) of Some (RStr v) \<Rightarrow> Some v | _ \<Rightarrow> None)"
    using assms(1) by (simp add: redis_documented_def)
  have row: "view w (memory_key ns i) = map_option (row_of cd) (f (ns, i))"
    by (rule redis_rel_row [OF assms(3,4)])
  show ?thesis
  proof (cases "f (ns, i)")
    case None
    then show ?thesis by (simp add: redis_get_def get row key_live_def live_write_def)
  next
    case (Some me)
    then have wf: "well_formed_item (fst me)"
      using redis_rel_write [OF assms(3), of ns i "fst me" "snd me"] by simp
    have "from_dict cd (to_dict cd (fst me)) = Inr (fst me)"
      by (rule carries_reads [OF dump_carries assms(2) wf])
    then show ?thesis
      using Some by (simp add: redis_get_def get row key_live_def live_write_def row_of_def is_expired_def
          redis_from_store_def split: prod.split)
  qed
qed

lemma redis_exec_view:
  "redis_documented rc view \<Longrightarrow> cmds_documented now cs (view w) \<Longrightarrow> view (rc_exec rc now cs w) = fold (redis_apply now) cs (view w)"
  by (simp add: redis_documented_def)

text \<open>The loop returns the live writes of the ids it is given, in that order.\<close>
lemma redis_floor_spec:
  assumes "redis_documented rc view" "codec_ok cd" "valid_ns ns"
    and "redis_rel cd ttl now P f (view w)"
  shows "\<exists>fl w'. redis_floor cd rc now ns r ids w = (Inr fl, w') \<and> redis_rel cd ttl now P f (view w')
    \<and> map sc_item fl = List.map_filter (\<lambda>i. live_write now f (ns, i)) ids
    \<and> (\<forall>x\<in>set fl. sc_is_floor x \<and> sc_channel x = STM_FLOOR)"
  using assms(4)
proof (induction ids arbitrary: r w)
  case (Cons i ids)
  note get = redis_get_live [OF assms(1,2) Cons.prems assms(3), of now i]
  show ?case
  proof (cases "live_write now f (ns, i)")
    case None
    let ?w = "rc_exec rc now [ZREM (recency_key ns) i] w"
    have "view ?w = redis_apply now (ZREM (recency_key ns) i) (view w)"
      using redis_exec_view [OF assms(1), of now "[ZREM (recency_key ns) i]" w] by (simp add: cmd_documented_def)
    moreover have "redis_rel cd ttl now P f (redis_apply now (ZREM (recency_key ns) i) (view w))"
      using None redis_rel_row [OF Cons.prems assms(3), of i]
      by (intro redis_rel_remove [OF Cons.prems assms(3)]) (auto simp: fun_upd_idem)
    ultimately show ?thesis
      using Cons.IH [of ?w "Suc r"] None by (simp add: get List.map_filter_simps)
  next
    case (Some m)
    obtain fl w' where "redis_floor cd rc now ns (Suc r) ids w = (Inr fl, w')" "redis_rel cd ttl now P f (view w')"
      "map sc_item fl = List.map_filter (\<lambda>i. live_write now f (ns, i)) ids"
      "\<forall>x\<in>set fl. sc_is_floor x \<and> sc_channel x = STM_FLOOR"
      using Cons.IH [OF Cons.prems] by blast
    then show ?thesis using Some by (simp add: get List.map_filter_simps)
  qed
qed (simp add: List.map_filter_simps)

lemma redis_call_rel:
  assumes "redis_documented rc view" "codec_ok cd" "0 < ttl" "call_ok c"
    and rel: "redis_rel cd ttl now P f (view w)"
  shows "redis_rel cd ttl now (P \<union> {(mi_namespace m, mi_id m) | m. c = CPut m}) (spec_call ttl (now, c) f)
    (view (redis_call cd rc ttl (now, c) w))"
proof (cases c)
  case (CPut m)
  have m: "well_formed_item m" using assms(4) CPut by (simp add: call_ok_def)
  have "(case view w (recency_key (mi_namespace m)) of Some (RStr v, ex) \<Rightarrow> False | _ \<Rightarrow> True)"
    using redis_rel_index [OF rel, of "mi_namespace m"] m by (auto simp: index_ok_def split: option.split redis_value.split)
  then have "cmds_documented now (put_transaction (redis_to_store cd ttl m) m) (view w)"
    using m assms(3) by (simp add: put_transaction_def redis_to_store_def Let_def cmd_documented_def)
  from redis_exec_view [OF assms(1) this] redis_rel_put [OF rel m assms(3)] show ?thesis
    using CPut by (simp add: redis_call_def redis_put_def)
next
  case (CRecent ns l)
  then have "valid_ns ns" using assms(4) by (simp add: call_ok_def)
  from redis_floor_spec [OF assms(1,2) this rel]
  obtain fl w' where "redis_floor cd rc now ns 0 (rc_zrevrange rc now (recency_key ns) 0 (max 0 (l - 1)) w) w = (Inr fl, w')"
    and "redis_rel cd ttl now P f (view w')"
    by blast
  then show ?thesis by (simp add: CRecent redis_call_def redis_recent_def spec_call_def)
next
  case (CEvict ns i)
  then have ns: "valid_ns ns" using assms(4) by (simp add: call_ok_def)
  have "redis_rel cd ttl now P (f((ns, i) := None)) (redis_apply now (ZREM (recency_key ns) i) ((view w)(memory_key ns i := None)))"
    by (rule redis_rel_remove [OF rel ns]) auto
  moreover have "view (redis_evict rc now ns i w) = redis_apply now (ZREM (recency_key ns) i) ((view w)(memory_key ns i := None))"
    using redis_exec_view [OF assms(1), of now "[DEL (memory_key ns i), ZREM (recency_key ns) i]" w]
    by (simp add: redis_evict_def cmd_documented_def)
  ultimately show ?thesis using CEvict by (simp add: redis_call_def spec_call_def)
qed

lemma redis_run_rel:
  assumes "redis_documented rc view" "codec_ok cd" "0 < ttl" "view w0 = (\<lambda>_. None)"
    and "sorted (map fst calls)" "\<forall>(t, c)\<in>set calls. call_ok c \<and> t \<le> now"
  shows "redis_rel cd ttl now {(ns, i). i \<in> ids_put ns calls} (fold (spec_call ttl) calls (\<lambda>_. None))
    (view (fold (redis_call cd rc ttl) calls w0))"
  using assms(5,6)
proof (induction calls arbitrary: now rule: rev_induct)
  case Nil
  then show ?case by (simp add: redis_rel_def index_ok_def assms(4))
next
  case (snoc tc calls)
  obtain t c where tc: "tc = (t, c)" by fastforce
  have sorted: "sorted (map fst calls)" and before: "\<forall>(u, c)\<in>set calls. call_ok c \<and> u \<le> t" and c: "call_ok c" "t \<le> now"
    using snoc.prems unfolding tc by (auto simp: sorted_append)
  let ?P = "{(ns, i). i \<in> ids_put ns calls}" and ?Q = "{(ns, i). i \<in> ids_put ns (calls @ [(t, c)])}"
  have "redis_rel cd ttl t (?P \<union> {(mi_namespace m, mi_id m) | m. c = CPut m})
      (spec_call ttl (t, c) (fold (spec_call ttl) calls (\<lambda>_. None)))
      (view (redis_call cd rc ttl (t, c) (fold (redis_call cd rc ttl) calls w0)))"
    by (rule redis_call_rel [OF assms(1-3) c(1) snoc.IH [OF sorted before]])
  moreover have "?P \<union> {(mi_namespace m, mi_id m) | m. c = CPut m} \<subseteq> ?Q"
    by (auto simp: ids_put_def)
  ultimately show ?case
    unfolding tc fold_append o_apply fold_simps by (rule redis_rel_later [OF redis_rel_mono c(2)])
qed

lemma live_members:
  "(\<forall>(i, s)\<in>set L. \<forall>m. look i = Some m \<longrightarrow> mi_id m = i \<and> mi_created_at m = s) \<Longrightarrow>
   map (\<lambda>m. (mi_id m, mi_created_at m)) (List.map_filter look (map fst L)) = filter (\<lambda>(i, s). look i \<noteq> None) L"
  by (induction L) (auto simp: List.map_filter_simps split: option.split)

lemma redis_recent_spec:
  assumes "redis_documented rc view" "codec_ok cd" "redis_rel cd ttl now P f (view w)" "valid_ns ns"
  shows "\<exists>fl L. fst (redis_recent cd rc now ns limit w) = Inr fl
    \<and> L = take (nat (max 0 (limit - 1)) + 1) (rev (sort_key (\<lambda>(i, s). (s, i)) (zset_at now (recency_key ns) (view w))))
    \<and> map sc_item fl = List.map_filter (\<lambda>i. live_write now f (ns, i)) (map fst L)
    \<and> map (\<lambda>x. (sc_id x, mi_created_at (sc_item x))) fl = filter (\<lambda>(i, s). live_write now f (ns, i) \<noteq> None) L
    \<and> (\<forall>x\<in>set fl. sc_is_floor x \<and> sc_channel x = STM_FLOOR)"
proof -
  let ?d = "zset_at now (recency_key ns) (view w)"
  let ?L = "take (nat (max 0 (limit - 1)) + 1) (rev (sort_key (\<lambda>(i, s). (s, i)) ?d))"
  have "rc_zrevrange rc now (recency_key ns) 0 (max 0 (limit - 1)) w = map fst ?L"
    using assms(1) by (simp add: redis_documented_def zset_newest_def take_map)
  then obtain fl where fl: "fst (redis_recent cd rc now ns limit w) = Inr fl"
    "map sc_item fl = List.map_filter (\<lambda>i. live_write now f (ns, i)) (map fst ?L)"
    "\<forall>x\<in>set fl. sc_is_floor x \<and> sc_channel x = STM_FLOOR"
    using redis_floor_spec [OF assms(1,2,4,3), of 0 "map fst ?L"] by (auto simp: redis_recent_def)
  have "mi_id m = i \<and> mi_created_at m = s" if mem: "(i, s) \<in> set ?L" and live: "live_write now f (ns, i) = Some m" for i s m
  proof -
    obtain e where f: "f (ns, i) = Some (m, e)" "now < e"
      using live by (auto simp: live_write_def split: option.splits if_splits)
    have id: "mi_id m = i" and ix: "indexed ns i (mi_created_at m) e (view w)"
      using redis_rel_write [OF assms(3) f(1)] f(2) by auto
    have "(i, s) \<in> set ?d" using in_set_takeD [OF mem] by simp
    then have "dict_get ?d i = Some s"
      using index_ok_zset [OF redis_rel_index [OF assms(3,4)], of now] by (intro map_of_is_SomeI) auto
    then show ?thesis using id indexed_zset [OF ix f(2)] by simp
  qed
  then have "\<forall>(i, s)\<in>set ?L. \<forall>m. live_write now f (ns, i) = Some m \<longrightarrow> mi_id m = i \<and> mi_created_at m = s"
    by blast
  note live_members [OF this]
  moreover have "map (\<lambda>x. (sc_id x, mi_created_at (sc_item x))) fl = map (\<lambda>m. (mi_id m, mi_created_at m)) (map sc_item fl)"
    by simp
  ultimately show ?thesis using fl by (intro exI [of _ fl] exI [of _ ?L]) (simp del: map_map)
qed

lemma newest_sorted: "sorted_wrt (\<lambda>x y. snd y \<le> snd x) (rev (sort_key (\<lambda>(i, s). (s, i)) (d :: (string \<times> int) list)))"
proof -
  have "sorted (map (\<lambda>(i, s). (s, i)) (sort_key (\<lambda>(i, s). (s, i)) d))" by simp
  then have "sorted_wrt (\<lambda>x y. (snd x, fst x) \<le> (snd y, fst y)) (sort_key (\<lambda>(i, s). (s, i)) d)"
    by (simp add: sorted_wrt_map case_prod_unfold)
  then show ?thesis
    unfolding sorted_wrt_rev by (rule sorted_wrt_mono_rel [rotated]) (auto simp: less_eq_prod_def)
qed

lemma redis_floor_facts:
  assumes "redis_documented rc view" "codec_ok cd" "redis_rel cd ttl now P f (view w)" "valid_ns ns"
    and "fst (redis_recent cd rc now ns limit w) = Inr fl"
  shows "distinct (map sc_id fl)
    \<and> sorted_wrt (\<lambda>x y. mi_created_at (sc_item y) \<le> mi_created_at (sc_item x)) fl
    \<and> (\<forall>x\<in>set fl. live_write now f (ns, sc_id x) = Some (sc_item x) \<and> sc_is_floor x \<and> sc_channel x = STM_FLOOR)
    \<and> int (length fl) \<le> max 1 limit"
proof (intro conjI)
  let ?d = "zset_at now (recency_key ns) (view w)" and ?live = "\<lambda>j. live_write now f (ns, j)"
  obtain L where L: "L = take (nat (max 0 (limit - 1)) + 1) (rev (sort_key (\<lambda>(i, s). (s, i)) ?d))"
    and items: "map sc_item fl = List.map_filter ?live (map fst L)"
    and keys: "map (\<lambda>x. (sc_id x, mi_created_at (sc_item x))) fl = filter (\<lambda>(i, s). ?live i \<noteq> None) L"
    and flags: "\<forall>x\<in>set fl. sc_is_floor x \<and> sc_channel x = STM_FLOOR"
    using redis_recent_spec [OF assms(1-4), of limit] assms(5) by auto
  have "distinct (map fst L)"
    using index_ok_zset [OF redis_rel_index [OF assms(3,4)], of now]
    by (simp add: L take_map [symmetric] rev_map [symmetric] distinct_map)
  moreover have ids: "map sc_id fl = map fst (filter (\<lambda>(i, s). ?live i \<noteq> None) L)"
    using arg_cong [OF keys, of "map fst"] by (simp add: o_def)
  ultimately show "distinct (map sc_id fl)"
    by (simp add: distinct_map_filter)
  have "sorted_wrt (\<lambda>x y. snd y \<le> snd x) (map (\<lambda>x. (sc_id x, mi_created_at (sc_item x))) fl)"
    unfolding keys L by (intro sorted_wrt_filter sorted_wrt_take newest_sorted)
  then show "sorted_wrt (\<lambda>x y. mi_created_at (sc_item y) \<le> mi_created_at (sc_item x)) fl"
    by (simp add: sorted_wrt_map)
  have "?live (sc_id x) = Some (sc_item x)" if "x \<in> set fl" for x
  proof -
    have "sc_item x \<in> set (List.map_filter ?live (map fst L))"
      using that items by (metis image_eqI list.set_map)
    then obtain j where j: "?live j = Some (sc_item x)" by (auto simp: List.map_filter_def)
    then obtain e where "f (ns, j) = Some (sc_item x, e)"
      by (auto simp: live_write_def split: option.splits if_splits)
    from redis_rel_write [OF assms(3) this] j show ?thesis by simp
  qed
  then show "\<forall>x\<in>set fl. ?live (sc_id x) = Some (sc_item x) \<and> sc_is_floor x \<and> sc_channel x = STM_FLOOR"
    using flags by blast
  have "length fl \<le> length L"
    using arg_cong [OF keys, of length] length_filter_le [of "\<lambda>(i, s). ?live i \<noteq> None" L] by simp
  moreover have "length L \<le> nat (max 0 (limit - 1)) + 1" by (simp add: L)
  ultimately have "length fl \<le> nat (max 0 (limit - 1)) + 1" by (rule order_trans)
  then show "int (length fl) \<le> max 1 limit"
    by (simp add: max_def split: if_splits)
qed

text \<open>A limit that covers the index brings out every live record.\<close>
lemma redis_floor_complete:
  assumes "redis_documented rc view" "codec_ok cd" "redis_rel cd ttl now P f (view w)" "valid_ns ns"
    and "fst (redis_recent cd rc now ns limit w) = Inr fl"
    and "int (length (zset_at now (recency_key ns) (view w))) \<le> limit" and "live_write now f (ns, j) \<noteq> None"
  shows "\<exists>x\<in>set fl. sc_id x = j"
proof -
  let ?d = "zset_at now (recency_key ns) (view w)"
  obtain m e where f: "f (ns, j) = Some (m, e)" "now < e"
    using assms(7) by (auto simp: live_write_def split: option.splits if_splits)
  then have "indexed ns j (mi_created_at m) e (view w)" using redis_rel_write [OF assms(3) f(1)] by simp
  then have "(j, mi_created_at m) \<in> set ?d" by (rule map_of_SomeD [OF indexed_zset [OF _ f(2)]])
  moreover have "take (nat (max 0 (limit - 1)) + 1) (rev (sort_key (\<lambda>(i, s). (s, i)) ?d)) = rev (sort_key (\<lambda>(i, s). (s, i)) ?d)"
    using assms(6) by simp
  ultimately have "(j, mi_created_at m) \<in> set (map (\<lambda>x. (sc_id x, mi_created_at (sc_item x))) fl)"
    using redis_recent_spec [OF assms(1-4), of limit] assms(5,7) by auto
  then show ?thesis by auto
qed

lemma index_size:
  assumes "redis_rel cd ttl T {(ns, i). i \<in> ids_put ns calls} f db" "valid_ns ns"
  shows "length (zset_at now (recency_key ns) db) \<le> card (ids_put ns calls)"
proof -
  let ?d = "zset_at now (recency_key ns) db"
  have d: "distinct (map fst ?d)" "\<forall>j\<in>fst ` set ?d. j \<in> ids_put ns calls"
    using index_ok_zset [OF redis_rel_index [OF assms], of now] by auto
  have "ids_put ns calls \<subseteq> (\<lambda>(t, c). case c of CPut m \<Rightarrow> mi_id m | _ \<Rightarrow> []) ` set calls"
    by (force simp: ids_put_def)
  then have "finite (ids_put ns calls)" by (rule finite_subset) simp
  then have "card (fst ` set ?d) \<le> card (ids_put ns calls)" using d(2) by (intro card_mono) auto
  then show ?thesis using d(1) by (metis distinct_card length_map list.set_map)
qed


definition demo_calls :: "(int \<times> stm_call) list" where
  "demo_calls = [(1, CPut demo_record), (2, CRecent (mi_namespace demo_record) 5)]"


section \<open>Memcached\<close>

datatype mc_value = MRow payload | MRecency "(string \<times> int) list"

text \<open>Each item with the unique number of its last write and its expiry, and the next number.\<close>
record mc_state =
  mcs_items :: "string \<Rightarrow> (mc_value \<times> nat \<times> int option) option"
  mcs_unique :: nat

text \<open>An exptime of zero never expires; above thirty days it is an absolute time.\<close>
definition mc_expiry :: "int \<Rightarrow> int \<Rightarrow> int option" where
  "mc_expiry now exptime = (if exptime = 0 then None else if 60 * 60 * 24 * 30 < exptime then Some exptime
     else Some (now + exptime))"

definition mc_live :: "int \<Rightarrow> string \<Rightarrow> mc_state \<Rightarrow> (mc_value \<times> nat) option" where
  "mc_live now k st = (case mcs_items st k of None \<Rightarrow> None
     | Some (v, u, ex) \<Rightarrow> if is_expired ex now then None else Some (v, u))"

definition mc_stored :: "int \<Rightarrow> string \<Rightarrow> mc_value \<Rightarrow> int \<Rightarrow> mc_state \<Rightarrow> mc_state" where
  "mc_stored now k v exptime st = \<lparr>mcs_items = (mcs_items st)(k \<mapsto> (v, mcs_unique st, mc_expiry now exptime)),
     mcs_unique = Suc (mcs_unique st)\<rparr>"

record 'w mc_client =
  mc_gets :: "int \<Rightarrow> string \<Rightarrow> 'w \<Rightarrow> (mc_value \<times> nat) option"
  mc_set :: "int \<Rightarrow> string \<Rightarrow> mc_value \<Rightarrow> int \<Rightarrow> 'w \<Rightarrow> 'w"
  mc_add :: "int \<Rightarrow> string \<Rightarrow> mc_value \<Rightarrow> int \<Rightarrow> 'w \<Rightarrow> bool \<times> 'w"
  mc_cas :: "int \<Rightarrow> string \<Rightarrow> mc_value \<Rightarrow> nat \<Rightarrow> int \<Rightarrow> 'w \<Rightarrow> bool \<times> 'w"
  mc_delete :: "int \<Rightarrow> string \<Rightarrow> 'w \<Rightarrow> 'w"

text \<open>add stores when the key is absent, cas when the item still has the number it was read with.\<close>
definition mc_documented :: "'w mc_client \<Rightarrow> ('w \<Rightarrow> mc_state) \<Rightarrow> bool" where
  "mc_documented mc view = (\<forall>now k w.
     mc_gets mc now k w = mc_live now k (view w) \<and>
     view (mc_delete mc now k w) = (view w)\<lparr>mcs_items := (mcs_items (view w))(k := None)\<rparr> \<and>
     (\<forall>v exptime. view (mc_set mc now k v exptime w) = mc_stored now k v exptime (view w)) \<and>
     (\<forall>v exptime. let (ok, w') = mc_add mc now k v exptime w
        in ok = (mc_live now k (view w) = None) \<and> view w' = (if ok then mc_stored now k v exptime (view w) else view w)) \<and>
     (\<forall>v u exptime. let (ok, w') = mc_cas mc now k v u exptime w
        in ok = (\<exists>x. mc_live now k (view w) = Some (x, u)) \<and>
           view w' = (if ok then mc_stored now k v exptime (view w) else view w)))"

definition model_memcached :: "mc_state mc_client" where
  "model_memcached = \<lparr>mc_gets = mc_live, mc_set = mc_stored,
     mc_add = (\<lambda>now k v exptime st. if mc_live now k st = None then (True, mc_stored now k v exptime st) else (False, st)),
     mc_cas = (\<lambda>now k v u exptime st. if map_option snd (mc_live now k st) = Some u
        then (True, mc_stored now k v exptime st) else (False, st)),
     mc_delete = (\<lambda>now k st. st\<lparr>mcs_items := (mcs_items st)(k := None)\<rparr>)\<rparr>"

lemma model_memcached_documented: "mc_documented model_memcached (\<lambda>st. st)"
  by (auto simp: mc_documented_def model_memcached_def)

record mc_config =
  mcc_recency_cap :: int
  mcc_cas_max_attempts :: int
  mcc_default_ttl_s :: int

text \<open>_read_recency; a value that is not such a list does not unpack.\<close>
definition read_recency :: "'w mc_client \<Rightarrow> int \<Rightarrow> string \<Rightarrow> 'w \<Rightarrow> ((string \<times> int) list \<times> nat option) or_raise" where
  "read_recency mc now key w = (case mc_gets mc now key w of
       None \<Rightarrow> Inr ([], None)
     | Some (MRecency entries, cas_token) \<Rightarrow> Inr (entries, Some cas_token)
     | Some (MRow _, _) \<Rightarrow> Inl ValueError)"

definition recency_edit :: "mc_config \<Rightarrow> string \<Rightarrow> int option \<Rightarrow> (string \<times> int) list \<Rightarrow> (string \<times> int) list" where
  "recency_edit cfg mid ts entries = py_take (mcc_recency_cap cfg)
     (sort_desc snd (filter (\<lambda>(i, t). i \<noteq> mid) entries @ (case ts of None \<Rightarrow> [] | Some t \<Rightarrow> [(mid, t)])))"

definition write_recency ::
  "mc_config \<Rightarrow> 'w mc_client \<Rightarrow> int \<Rightarrow> string \<Rightarrow> (string \<times> int) list \<Rightarrow> nat option \<Rightarrow> 'w \<Rightarrow> bool \<times> 'w" where
  "write_recency cfg mc now key new cas_token w = (case cas_token of
       None \<Rightarrow> mc_add mc now key (MRecency new) (mcc_default_ttl_s cfg) w
     | Some u \<Rightarrow> mc_cas mc now key (MRecency new) u (mcc_default_ttl_s cfg) w)"

text \<open>The compare-and-swap loop, with the attempts that are left.\<close>
fun cas_loop ::
  "mc_config \<Rightarrow> 'w mc_client \<Rightarrow> int \<Rightarrow> string \<Rightarrow> string \<Rightarrow> int option \<Rightarrow> nat \<Rightarrow> ('w, unit) eff" where
  "cas_loop cfg mc now key mid ts 0 w = (Inl Storage_TierRepositoryUnavailable, w)"
| "cas_loop cfg mc now key mid ts (Suc n) w = (case read_recency mc now key w of
       Inl e \<Rightarrow> (Inl e, w)
     | Inr (entries, cas_token) \<Rightarrow> (case write_recency cfg mc now key (recency_edit cfg mid ts entries) cas_token w of
           (True, w') \<Rightarrow> (Inr (), w')
         | (False, w') \<Rightarrow> cas_loop cfg mc now key mid ts n w'))"

definition update_recency ::
  "mc_config \<Rightarrow> 'w mc_client \<Rightarrow> int \<Rightarrow> namespace \<Rightarrow> string \<Rightarrow> int option \<Rightarrow> ('w, unit) eff" where
  "update_recency cfg mc now ns mid ts =
     cas_loop cfg mc now (recency_key ns) mid ts (nat (mcc_cas_max_attempts cfg))"

definition mc_put :: "codec \<Rightarrow> mc_config \<Rightarrow> 'w mc_client \<Rightarrow> int \<Rightarrow> memory_item \<Rightarrow> ('w, unit) eff" where
  "mc_put cd cfg mc now item w =
     (let row = redis_to_store cd (mcc_default_ttl_s cfg) item
      in update_recency cfg mc now (mi_namespace item) (mi_id item) (Some (mi_created_at item))
           (mc_set mc now (rd_key row) (MRow (rd_blob row)) (rd_ttl_s row) w))"

definition mc_get ::
  "codec \<Rightarrow> 'w mc_client \<Rightarrow> int \<Rightarrow> namespace \<Rightarrow> string \<Rightarrow> 'w \<Rightarrow> memory_item option or_raise" where
  "mc_get cd mc now ns mid w =
     (let key = memory_key ns mid
      in case mc_gets mc now key w of
           None \<Rightarrow> Inr None
         | Some (MRow blob, _) \<Rightarrow> rbind (redis_from_store cd \<lparr>rd_key = key, rd_ttl_s = 0, rd_blob = blob\<rparr>) (\<lambda>m. Inr (Some m))
         | Some (MRecency _, _) \<Rightarrow> Inl ValueError)"

fun mc_floor ::
  "codec \<Rightarrow> mc_config \<Rightarrow> 'w mc_client \<Rightarrow> int \<Rightarrow> namespace \<Rightarrow> nat \<Rightarrow> (string \<times> int) list \<Rightarrow> ('w, scored list) eff" where
  "mc_floor cd cfg mc now ns place [] w = (Inr [], w)"
| "mc_floor cd cfg mc now ns place ((mid, _) # entries) w = (case mc_get cd mc now ns mid w of
       Inl e \<Rightarrow> (Inl e, w)
     | Inr None \<Rightarrow> (case update_recency cfg mc now ns mid None w of
           (Inl e, w') \<Rightarrow> (Inl e, w')
         | (Inr _, w') \<Rightarrow> mc_floor cd cfg mc now ns (Suc place) entries w')
     | Inr (Some item) \<Rightarrow> (case mc_floor cd cfg mc now ns (Suc place) entries w of
           (r, w') \<Rightarrow> (rbind r (\<lambda>out. Inr (\<lparr>sc_item = item, sc_score = 1, sc_channel = STM_FLOOR,
             sc_rank = Some place, sc_is_floor = True\<rparr> # out)), w')))"

definition mc_recent ::
  "codec \<Rightarrow> mc_config \<Rightarrow> 'w mc_client \<Rightarrow> int \<Rightarrow> namespace \<Rightarrow> int \<Rightarrow> ('w, scored list) eff" where
  "mc_recent cd cfg mc now ns limit w = (case read_recency mc now (recency_key ns) w of
       Inl e \<Rightarrow> (Inl e, w)
     | Inr (entries, _) \<Rightarrow> mc_floor cd cfg mc now ns 0 (take (nat (max 0 limit)) entries) w)"

definition mc_evict :: "mc_config \<Rightarrow> 'w mc_client \<Rightarrow> int \<Rightarrow> namespace \<Rightarrow> string \<Rightarrow> ('w, unit) eff" where
  "mc_evict cfg mc now ns mid w = update_recency cfg mc now ns mid None (mc_delete mc now (memory_key ns mid) w)"

section \<open>Concurrent writers of one recency list\<close>

text \<open>
  Each await of the loop is a point where another writer may run, so a writer stands before its read,
  with the attempts left, or before its write, with what it will write and the number it read.
\<close>
datatype writer = Reading nat | Writing nat "(string \<times> int) list" "nat option" | Written | Failed exc_class

definition writer_step ::
  "mc_config \<Rightarrow> 'w mc_client \<Rightarrow> int \<Rightarrow> string \<Rightarrow> string \<times> int option \<Rightarrow> writer \<Rightarrow> 'w \<Rightarrow> writer \<times> 'w" where
  "writer_step cfg mc now key edit s w = (case s of
       Reading 0 \<Rightarrow> (Failed Storage_TierRepositoryUnavailable, w)
     | Reading (Suc n) \<Rightarrow> (case read_recency mc now key w of
           Inl e \<Rightarrow> (Failed e, w)
         | Inr (entries, cas_token) \<Rightarrow> (Writing n (recency_edit cfg (fst edit) (snd edit) entries) cas_token, w))
     | Writing n new cas_token \<Rightarrow> (case write_recency cfg mc now key new cas_token w of
           (True, w') \<Rightarrow> (Written, w')
         | (False, w') \<Rightarrow> (Reading n, w'))
     | Written \<Rightarrow> (s, w)
     | Failed e \<Rightarrow> (s, w))"

text \<open>The loop is one writer stepped to its end.\<close>
fun step_alone ::
  "mc_config \<Rightarrow> 'w mc_client \<Rightarrow> int \<Rightarrow> string \<Rightarrow> string \<times> int option \<Rightarrow> nat \<Rightarrow> writer \<times> 'w \<Rightarrow> writer \<times> 'w" where
  "step_alone cfg mc now key edit 0 sw = sw"
| "step_alone cfg mc now key edit (Suc k) sw = step_alone cfg mc now key edit k (writer_step cfg mc now key edit (fst sw) (snd sw))"

definition writer_of :: "unit or_raise \<Rightarrow> writer" where
  "writer_of r = (case r of Inl e \<Rightarrow> Failed e | Inr _ \<Rightarrow> Written)"

lemma step_alone_done [simp]:
  "step_alone cfg mc now key edit k (Written, w) = (Written, w)"
  "step_alone cfg mc now key edit k (Failed e, w) = (Failed e, w)"
  by (induction k) (simp_all add: writer_step_def)

lemma cas_loop_steps:
  "step_alone cfg mc now key (mid, ts) (2 * n + 1) (Reading n, w) =
   (case cas_loop cfg mc now key mid ts n w of (r, w') \<Rightarrow> (writer_of r, w'))"
proof (induction n arbitrary: w)
  case (Suc n)
  have split: "step_alone cfg mc now key (mid, ts) (2 * Suc n + 1) sw = step_alone cfg mc now key (mid, ts) (2 * n + 1)
      (case writer_step cfg mc now key (mid, ts) (fst sw) (snd sw) of sw' \<Rightarrow>
         writer_step cfg mc now key (mid, ts) (fst sw') (snd sw'))" for sw
    by simp
  show ?case
    unfolding split
    by (cases "read_recency mc now key w")
      (use Suc.IH in \<open>auto simp: writer_step_def writer_of_def simp del: step_alone.simps split: prod.split bool.split\<close>)
qed (simp add: writer_step_def writer_of_def)

definition run_writers ::
  "mc_config \<Rightarrow> 'w mc_client \<Rightarrow> int \<Rightarrow> string \<Rightarrow> (string \<times> int option) list \<Rightarrow> nat list \<Rightarrow> writer list \<times> 'w \<Rightarrow> writer list \<times> 'w" where
  "run_writers cfg mc now key edits schedule sw = fold (\<lambda>i (ws, w).
     let (s, w') = writer_step cfg mc now key (edits ! i) (ws ! i) w in (ws[i := s], w')) schedule sw"

definition start_writers :: "mc_config \<Rightarrow> (string \<times> int option) list \<Rightarrow> writer list" where
  "start_writers cfg edits = replicate (length edits) (Reading (nat (mcc_cas_max_attempts cfg)))"

text \<open>The edits of the writers in a given order, on the list as it was.\<close>
definition apply_edits ::
  "mc_config \<Rightarrow> (string \<times> int option) list \<Rightarrow> nat list \<Rightarrow> (string \<times> int) list \<Rightarrow> (string \<times> int) list" where
  "apply_edits cfg edits order entries = fold (\<lambda>i. recency_edit cfg (fst (edits ! i)) (snd (edits ! i))) order entries"

definition finished :: "writer \<Rightarrow> bool" where
  "finished s = (case s of Written \<Rightarrow> True | Failed _ \<Rightarrow> True | _ \<Rightarrow> False)"

text \<open>What every writer knows: a number that is no longer current stays so, and each failed attempt
  is another writer's success.\<close>
definition writer_ok ::
  "mc_config \<Rightarrow> nat \<Rightarrow> nat \<Rightarrow> nat \<Rightarrow> (string \<times> int) list \<Rightarrow> nat option \<Rightarrow> string \<times> int option \<Rightarrow> writer \<Rightarrow> bool" where
  "writer_ok cfg A fresh commits entries tok edit s = (case s of
       Reading n \<Rightarrow> A \<le> n + commits
     | Writing n new t \<Rightarrow> (\<forall>u. t = Some u \<longrightarrow> u < fresh) \<and>
         (if t = tok then new = recency_edit cfg (fst edit) (snd edit) entries \<and> A \<le> Suc n + commits
          else A \<le> n + commits)
     | Written \<Rightarrow> True
     | Failed e \<Rightarrow> e = Storage_TierRepositoryUnavailable \<and> A \<le> commits)"

definition writers_inv where
  "writers_inv cfg mc now key edits E0 view ws w order \<longleftrightarrow>
     length ws = length edits \<and> distinct order \<and> set order = {i. i < length edits \<and> ws ! i = Written} \<and>
     (\<exists>tok. read_recency mc now key w = Inr (apply_edits cfg edits order E0, tok) \<and>
        (\<forall>u. tok = Some u \<longrightarrow> u < mcs_unique (view w)) \<and>
        (\<forall>i<length edits. writer_ok cfg (nat (mcc_cas_max_attempts cfg)) (mcs_unique (view w)) (length order)
           (apply_edits cfg edits order E0) tok (edits ! i) (ws ! i)))"

lemma mc_add_law:
  assumes "mc_documented mc view" "mc_add mc now k v exptime w = (ok, w')"
  shows "ok = (mc_live now k (view w) = None) \<and> view w' = (if ok then mc_stored now k v exptime (view w) else view w)"
proof -
  have "let (ok, w') = mc_add mc now k v exptime w
     in ok = (mc_live now k (view w) = None) \<and> view w' = (if ok then mc_stored now k v exptime (view w) else view w)"
    using assms(1) unfolding mc_documented_def by blast
  then show ?thesis unfolding assms(2) Let_def prod.case .
qed

lemma mc_cas_law:
  assumes "mc_documented mc view" "mc_cas mc now k v u exptime w = (ok, w')"
  shows "ok = (\<exists>x. mc_live now k (view w) = Some (x, u)) \<and> view w' = (if ok then mc_stored now k v exptime (view w) else view w)"
proof -
  have "let (ok, w') = mc_cas mc now k v u exptime w
     in ok = (\<exists>x. mc_live now k (view w) = Some (x, u)) \<and> view w' = (if ok then mc_stored now k v exptime (view w) else view w)"
    using assms(1) unfolding mc_documented_def by blast
  then show ?thesis unfolding assms(2) Let_def prod.case .
qed

lemma write_recency_law:
  assumes "mc_documented mc view" "\<not> is_expired (mc_expiry now (mcc_default_ttl_s cfg)) now"
    and "read_recency mc now key w = Inr (entries, tok)" "\<forall>u. tok = Some u \<longrightarrow> u < mcs_unique (view w)"
    and "\<forall>u. t = Some u \<longrightarrow> u < mcs_unique (view w)"
  shows "\<exists>w'. write_recency cfg mc now key new t w = (t = tok, w') \<and>
    (if t = tok then read_recency mc now key w' = Inr (new, Some (mcs_unique (view w))) \<and> mcs_unique (view w') = Suc (mcs_unique (view w))
     else read_recency mc now key w' = Inr (entries, tok) \<and> mcs_unique (view w') = mcs_unique (view w))"
proof -
  have gets: "mc_gets mc now k v = mc_live now k (view v)" for k v
    using assms(1) by (simp add: mc_documented_def)
  have same: "read_recency mc now key v = read_recency mc now key w" if "view v = view w" for v
    using that by (simp add: read_recency_def gets)
  have stored: "read_recency mc now key v = Inr (new, Some (mcs_unique (view w)))"
    "mcs_unique (view v) = Suc (mcs_unique (view w))"
    if "view v = mc_stored now key (MRecency new) (mcc_default_ttl_s cfg) (view w)" for v
    using that assms(2) by (simp_all add: read_recency_def gets mc_live_def mc_stored_def)
  have tok: "tok = map_option snd (mc_live now key (view w))"
    using assms(3) by (auto simp: read_recency_def gets split: option.splits mc_value.splits)
  show ?thesis
  proof (cases t)
    case None
    obtain ok w' where add: "mc_add mc now key (MRecency new) (mcc_default_ttl_s cfg) w = (ok, w')" by fastforce
    have "ok = (t = tok)" "view w' = (if ok then mc_stored now key (MRecency new) (mcc_default_ttl_s cfg) (view w) else view w)"
      using mc_add_law [OF assms(1) add] None tok by auto
    then show ?thesis
      using add None same [of w'] stored [of w'] assms(3) by (auto simp: write_recency_def)
  next
    case (Some u)
    obtain ok w' where cas: "mc_cas mc now key (MRecency new) u (mcc_default_ttl_s cfg) w = (ok, w')" by fastforce
    have "ok = (t = tok)" "view w' = (if ok then mc_stored now key (MRecency new) (mcc_default_ttl_s cfg) (view w) else view w)"
      using mc_cas_law [OF assms(1) cas] Some tok by (cases "mc_live now key (view w)"; auto)+
    then show ?thesis
      using cas Some same [of w'] stored [of w'] assms(3) by (auto simp: write_recency_def)
  qed
qed

text \<open>A step that commits nothing.\<close>
lemma writers_inv_same:
  assumes inv: "writers_inv cfg mc now key edits E0 view ws w order" and i: "i < length edits"
    and s: "ws ! i \<noteq> Written" "s \<noteq> Written"
    and w: "read_recency mc now key w' = read_recency mc now key w" "mcs_unique (view w') = mcs_unique (view w)"
    and ok: "\<And>tok. read_recency mc now key w = Inr (apply_edits cfg edits order E0, tok) \<Longrightarrow>
       \<forall>u. tok = Some u \<longrightarrow> u < mcs_unique (view w) \<Longrightarrow>
       writer_ok cfg (nat (mcc_cas_max_attempts cfg)) (mcs_unique (view w)) (length order)
           (apply_edits cfg edits order E0) tok (edits ! i) s"
  shows "writers_inv cfg mc now key edits E0 view (ws[i := s]) w' order"
proof -
  have "{j. j < length edits \<and> ws[i := s] ! j = Written} = {j. j < length edits \<and> ws ! j = Written}"
    using inv i s by (auto simp: writers_inv_def nth_list_update)
  then show ?thesis
    using inv i w ok unfolding writers_inv_def by (auto simp: nth_list_update)
qed

lemma writer_ok_after_commit:
  assumes "writer_ok cfg A fresh commits entries tok edit s" "\<forall>u. tok = Some u \<longrightarrow> u < fresh"
  shows "writer_ok cfg A (Suc fresh) (Suc commits) entries' (Some fresh) edit s"
  using assms by (auto simp: writer_ok_def less_Suc_eq split: writer.splits if_splits)

lemma writers_inv_step:
  assumes doc: "mc_documented mc view" "\<not> is_expired (mc_expiry now (mcc_default_ttl_s cfg)) now"
    and inv: "writers_inv cfg mc now key edits E0 view ws w order" and i: "i < length edits"
    and step: "writer_step cfg mc now key (edits ! i) (ws ! i) w = (s', w')"
  shows "\<exists>order'. writers_inv cfg mc now key edits E0 view (ws[i := s']) w' order'"
proof -
  let ?A = "nat (mcc_cas_max_attempts cfg)" and ?E = "apply_edits cfg edits order E0"
  obtain tok where read: "read_recency mc now key w = Inr (?E, tok)"
    and tok: "\<forall>u. tok = Some u \<longrightarrow> u < mcs_unique (view w)"
    and oks: "\<forall>j<length edits. writer_ok cfg ?A (mcs_unique (view w)) (length order) ?E tok (edits ! j) (ws ! j)"
    using inv by (auto simp: writers_inv_def)
  have ok: "writer_ok cfg ?A (mcs_unique (view w)) (length order) ?E tok (edits ! i) (ws ! i)"
    using oks i by blast
  note same = writers_inv_same [OF inv i]
  show ?thesis
  proof (cases "ws ! i")
    case (Reading n)
    show ?thesis
    proof (cases n)
      case 0
      then have "s' = Failed Storage_TierRepositoryUnavailable" "w' = w"
        using step Reading by (simp_all add: writer_step_def)
      then show ?thesis
        using ok Reading 0 by (intro exI [of _ order] same) (simp_all add: writer_ok_def)
    next
      case (Suc m)
      then have "s' = Writing m (recency_edit cfg (fst (edits ! i)) (snd (edits ! i)) ?E) tok" "w' = w"
        using step Reading read by (simp_all add: writer_step_def)
      then show ?thesis
        using ok Reading Suc read tok by (intro exI [of _ order] same) (simp_all add: writer_ok_def)
    qed
  next
    case (Writing n new t)
    have t: "\<forall>u. t = Some u \<longrightarrow> u < mcs_unique (view w)" using ok Writing by (simp add: writer_ok_def)
    obtain v where v: "write_recency cfg mc now key new t w = (t = tok, v)"
      and vv: "if t = tok then read_recency mc now key v = Inr (new, Some (mcs_unique (view w))) \<and> mcs_unique (view v) = Suc (mcs_unique (view w))
       else read_recency mc now key v = Inr (?E, tok) \<and> mcs_unique (view v) = mcs_unique (view w)"
      using write_recency_law [OF doc read tok t] by blast
    show ?thesis
    proof (cases "t = tok")
      case False
      then have "s' = Reading n" "w' = v" using step Writing v by (simp_all add: writer_step_def)
      then show ?thesis
        using ok Writing False vv read by (intro exI [of _ order] same) (simp_all add: writer_ok_def)
    next
      case True
      then have s': "s' = Written" "w' = v" using step Writing v by (simp_all add: writer_step_def)
      have new: "apply_edits cfg edits (order @ [i]) E0 = new"
        using ok Writing True by (simp add: writer_ok_def apply_edits_def)
      have "i \<notin> set order" using inv Writing by (auto simp: writers_inv_def)
      moreover have "{j. j < length edits \<and> ws[i := Written] ! j = Written} = insert i (set order)"
        using inv i by (auto simp: writers_inv_def nth_list_update)
      moreover have "writer_ok cfg ?A (Suc (mcs_unique (view w))) (Suc (length order)) new (Some (mcs_unique (view w))) (edits ! j) (ws[i := Written] ! j)"
        if j: "j < length edits" for j
      proof (cases "j = i")
        case True
        then show ?thesis using i inv by (simp add: writers_inv_def writer_ok_def)
      next
        case False
        have "writer_ok cfg ?A (mcs_unique (view w)) (length order) ?E tok (edits ! j) (ws ! j)" using oks j by blast
        from writer_ok_after_commit [OF this tok] False show ?thesis by simp
      qed
      ultimately show ?thesis
        using vv True inv new unfolding s' by (intro exI [of _ "order @ [i]"]) (simp add: writers_inv_def)
    qed
  next
    case Written
    then have "s' = ws ! i" "w' = w" using step by (simp_all add: writer_step_def)
    then show ?thesis using inv by (intro exI [of _ order]) simp
  next
    case (Failed e)
    then have "s' = ws ! i" "w' = w" using step by (simp_all add: writer_step_def)
    then show ?thesis using inv by (intro exI [of _ order]) simp
  qed
qed

lemma writers_run_inv:
  assumes "mc_documented mc view" "\<not> is_expired (mc_expiry now (mcc_default_ttl_s cfg)) now"
    and "writers_inv cfg mc now key edits E0 view ws w order" "\<forall>i\<in>set schedule. i < length edits"
    and "run_writers cfg mc now key edits schedule (ws, w) = (ws', w')"
  shows "\<exists>order'. writers_inv cfg mc now key edits E0 view ws' w' order'"
  using assms(3-5)
proof (induction schedule arbitrary: ws w order)
  case (Cons i schedule)
  obtain s v where step: "writer_step cfg mc now key (edits ! i) (ws ! i) w = (s, v)" by fastforce
  then obtain order' where "writers_inv cfg mc now key edits E0 view (ws[i := s]) v order'"
    using writers_inv_step [OF assms(1,2) Cons.prems(1) _ step] Cons.prems(2) by auto
  then show ?case
    using Cons.IH [of "ws[i := s]" v order'] Cons.prems step by (simp add: run_writers_def)
qed (auto simp: run_writers_def)

lemma start_writers_inv:
  assumes "read_recency mc now key w0 = Inr (E0, tok)" "\<forall>u. tok = Some u \<longrightarrow> u < mcs_unique (view w0)"
  shows "writers_inv cfg mc now key edits E0 view (start_writers cfg edits) w0 []"
  using assms by (auto simp: writers_inv_def start_writers_def apply_edits_def writer_ok_def)

text \<open>A writer is done after two steps for each attempt and one more.\<close>
fun steps_left :: "writer \<Rightarrow> nat" where
  "steps_left (Reading n) = 2 * n + 1"
| "steps_left (Writing n new t) = 2 * n + 2"
| "steps_left Written = 0"
| "steps_left (Failed e) = 0"

lemma writer_step_left: "steps_left (fst (writer_step cfg mc now key edit s w)) \<le> steps_left s - 1"
  by (auto simp: writer_step_def split: writer.split nat.split sum.split prod.split bool.split)

lemma run_writers_left:
  assumes "i < length ws"
  shows "steps_left (fst (run_writers cfg mc now key edits schedule (ws, w)) ! i) \<le> steps_left (ws ! i) - count_list schedule i"
  using assms
proof (induction schedule arbitrary: ws w)
  case (Cons j schedule)
  obtain s v where step: "writer_step cfg mc now key (edits ! j) (ws ! j) w = (s, v)" by fastforce
  have "steps_left s \<le> steps_left (ws ! j) - 1" using writer_step_left step by (metis fst_conv)
  then have "steps_left (ws[j := s] ! i) \<le> steps_left (ws ! i) - (if j = i then 1 else 0)"
    using Cons.prems by (auto simp: nth_list_update)
  moreover have "steps_left (fst (run_writers cfg mc now key edits schedule (ws[j := s], v)) ! i)
      \<le> steps_left (ws[j := s] ! i) - count_list schedule i"
    using Cons.IH Cons.prems by simp
  ultimately show ?case using step by (auto simp: run_writers_def split: if_splits)
qed (simp add: run_writers_def)

lemma finished_iff: "finished s \<longleftrightarrow> steps_left s = 0"
  by (cases s) (auto simp: finished_def)

text \<open>
  C12. The recency list of Memcached loses no update. Whatever the interleaving of any number of writers of
  one list, the list always is the one that results from the edits of exactly the writers that have
  succeeded, made one after another in some order. A writer is done after at most two steps for
  each attempt and one more. It fails only with the typed outage, and only when as many other writers as it
  has attempts have succeeded; so with no more writers than attempts, none ever fails.
\<close>
theorem memcached_writers_are_serialised:
  assumes "mc_documented mc view" and "\<not> is_expired (mc_expiry now (mcc_default_ttl_s cfg)) now"
    and "read_recency mc now key w0 = Inr (E0, tok)" and "\<forall>u. tok = Some u \<longrightarrow> u < mcs_unique (view w0)"
    and "\<forall>i\<in>set schedule. i < length edits"
    and "run_writers cfg mc now key edits schedule (start_writers cfg edits, w0) = (ws, w)"
  shows "(\<exists>order tok. distinct order \<and> set order = {i. i < length edits \<and> ws ! i = Written}
      \<and> read_recency mc now key w = Inr (apply_edits cfg edits order E0, tok)
      \<and> (\<forall>i<length edits. \<forall>e. ws ! i = Failed e \<longrightarrow>
           e = Storage_TierRepositoryUnavailable \<and> nat (mcc_cas_max_attempts cfg) \<le> length order))
    \<and> (\<forall>i<length edits. 2 * nat (mcc_cas_max_attempts cfg) + 1 \<le> count_list schedule i \<longrightarrow> finished (ws ! i))
    \<and> (int (length edits) \<le> mcc_cas_max_attempts cfg \<longrightarrow> (\<forall>i<length edits. \<forall>e. ws ! i \<noteq> Failed e))"
proof (intro conjI)
  obtain order where inv: "writers_inv cfg mc now key edits E0 view ws w order"
    using writers_run_inv [OF assms(1,2) start_writers_inv [where view = view, OF assms(3,4)] assms(5,6)] by blast
  obtain tok' where read: "read_recency mc now key w = Inr (apply_edits cfg edits order E0, tok')"
    and ok: "\<forall>i<length edits. writer_ok cfg (nat (mcc_cas_max_attempts cfg)) (mcs_unique (view w)) (length order)
        (apply_edits cfg edits order E0) tok' (edits ! i) (ws ! i)"
    using inv unfolding writers_inv_def by blast
  have order: "distinct order" "set order = {i. i < length edits \<and> ws ! i = Written}"
    using inv unfolding writers_inv_def by simp_all
  have failed: "e = Storage_TierRepositoryUnavailable \<and> nat (mcc_cas_max_attempts cfg) \<le> length order"
    if "i < length edits" "ws ! i = Failed e" for i e
    using ok [rule_format, OF that(1)] that(2) by (simp add: writer_ok_def)
  then show "\<exists>order tok. distinct order \<and> set order = {i. i < length edits \<and> ws ! i = Written}
      \<and> read_recency mc now key w = Inr (apply_edits cfg edits order E0, tok)
      \<and> (\<forall>i<length edits. \<forall>e. ws ! i = Failed e \<longrightarrow>
           e = Storage_TierRepositoryUnavailable \<and> nat (mcc_cas_max_attempts cfg) \<le> length order)"
    using order read by (intro exI [of _ order] exI [of _ tok'] conjI allI impI) simp_all
  show "\<forall>i<length edits. 2 * nat (mcc_cas_max_attempts cfg) + 1 \<le> count_list schedule i \<longrightarrow> finished (ws ! i)"
  proof (intro allI impI)
    fix i assume i: "i < length edits" "2 * nat (mcc_cas_max_attempts cfg) + 1 \<le> count_list schedule i"
    then have "steps_left (start_writers cfg edits ! i) = 2 * nat (mcc_cas_max_attempts cfg) + 1" "i < length (start_writers cfg edits)"
      by (simp_all add: start_writers_def)
    then show "finished (ws ! i)"
      using run_writers_left [of i "start_writers cfg edits" cfg mc now key edits schedule w0] i(2)
      unfolding finished_iff assms(6) fst_conv by linarith
  qed
  show "int (length edits) \<le> mcc_cas_max_attempts cfg \<longrightarrow> (\<forall>i<length edits. \<forall>e. ws ! i \<noteq> Failed e)"
  proof (intro impI allI notI)
    fix i e
    assume few: "int (length edits) \<le> mcc_cas_max_attempts cfg" and i: "i < length edits" "ws ! i = Failed e"
    have "set order \<subseteq> {0..<length edits} - {i}"
    proof
      fix j assume "j \<in> set order"
      then have "j < length edits" "ws ! j = Written" unfolding order(2) by simp_all
      then show "j \<in> {0..<length edits} - {i}" using i(2) by (cases "j = i") simp_all
    qed
    then have "card (set order) \<le> card ({0..<length edits} - {i})" by (rule card_mono [rotated]) simp
    then have "card (set order) \<le> length edits - 1" using i(1) by simp
    moreover have "card (set order) = length order" using order(1) by (rule distinct_card)
    ultimately show False using failed [OF i] few i(1) by linarith
  qed
qed

definition demo_mc_config :: mc_config where
  "demo_mc_config = \<lparr>mcc_recency_cap = 500, mcc_cas_max_attempts = 5, mcc_default_ttl_s = 3600\<rparr>"

definition demo_edits :: "(string \<times> int option) list" where
  "demo_edits = [(''a'', Some 1), (''b'', Some 2)]"

text \<open>Both writers read the empty list, one writes first, the other fails its first attempt.\<close>
definition demo_schedule :: "nat list" where
  "demo_schedule = [0, 1, 0, 1, 1, 1] @ replicate 11 0 @ replicate 11 1"

theorem memcached_writers_are_serialised_witness:
  "\<exists>ws w. run_writers demo_mc_config model_memcached 0 ''k'' demo_edits demo_schedule
     (start_writers demo_mc_config demo_edits, \<lparr>mcs_items = (\<lambda>_. None), mcs_unique = 0\<rparr>) = (ws, w)
     \<and> finished (ws ! 0) \<and> finished (ws ! 1) \<and> (\<forall>e. ws ! 1 \<noteq> Failed e)"
proof -
  let ?w0 = "\<lparr>mcs_items = (\<lambda>_. None), mcs_unique = 0\<rparr>"
  obtain ws w where run: "run_writers demo_mc_config model_memcached 0 ''k'' demo_edits demo_schedule (start_writers demo_mc_config demo_edits, ?w0) = (ws, w)"
    by fastforce
  have read: "read_recency model_memcached 0 ''k'' ?w0 = Inr ([], None)"
    by (simp add: read_recency_def model_memcached_def mc_live_def)
  have live: "\<not> is_expired (mc_expiry 0 (mcc_default_ttl_s demo_mc_config)) 0"
    by (simp add: demo_mc_config_def mc_expiry_def is_expired_def)
  have dom: "\<forall>i\<in>set demo_schedule. i < length demo_edits"
    by (auto simp: demo_schedule_def demo_edits_def)
  have counts: "count_list demo_schedule 0 = 13" "count_list demo_schedule 1 = 15"
    by (simp_all add: demo_schedule_def numeral_eq_Suc)
  have sizes: "length demo_edits = 2" "nat (mcc_cas_max_attempts demo_mc_config) = 5" "mcc_cas_max_attempts demo_mc_config = 5"
    by (simp_all add: demo_edits_def demo_mc_config_def)
  note result = memcached_writers_are_serialised [OF model_memcached_documented live read _ dom run, unfolded sizes]
  have "finished (ws ! 0) \<and> finished (ws ! 1)" "\<forall>e. ws ! 1 \<noteq> Failed e"
    using result counts by auto
  then show ?thesis using run by blast
qed

end
