(* ===== verification/Control_Plane.thy ===== *)
theory Control_Plane
  imports Mappers Pipeline
begin

text \<open>
  The relational control plane (storage/adapters/relational_control.py): the content-free mirror of a
  memory record and the audit rows, on the three SQL dialects. A database is the rows of the two tables;
  each statement is the function on them that its SQL denotes. Which of two clashing rows MySQL updates,
  and the order of a listing, are parameters. The columns are those of the mapper theory; the constraints
  are those of the schema theory: memory_id is the primary key and ux_prov_chash is unique.

  The lemmas give the one upsert all dialects agree on, and where they part.
\<close>

datatype dialect = Postgresql | Sqlite | Mysql | Other_dialect

record audit_row =
  ad_id :: int
  ad_ts :: int
  ad_org_id :: string
  ad_workspace_id :: string
  ad_actor_id :: string
  ad_action :: string
  ad_target_id :: "string option"
  ad_success :: bool
  ad_payload :: payload

record control_db =
  cdb_provenance :: "provenance_row list"
  cdb_audit :: "audit_row list"

text \<open>The columns of ux_prov_chash.\<close>
definition conflict_key :: "provenance_row \<Rightarrow> string \<times> string \<times> string" where
  "conflict_key r = (pv_org_id r, pv_workspace_id r, pv_content_hash r)"

text \<open>SET of every column of the mapper's row that is not in the conflict key.\<close>
definition overwrite :: "provenance_row \<Rightarrow> provenance_row \<Rightarrow> provenance_row" where
  "overwrite new old = new\<lparr>pv_memory_id := pv_memory_id old, pv_org_id := pv_org_id old,
     pv_workspace_id := pv_workspace_id old, pv_content_hash := pv_content_hash old\<rparr>"

definition update_rows ::
  "(provenance_row \<Rightarrow> bool) \<Rightarrow> provenance_row \<Rightarrow> provenance_row list \<Rightarrow> provenance_row list" where
  "update_rows which new rows = map (\<lambda>r. if which r then overwrite new r else r) rows"

text \<open>INSERT ... ON CONFLICT (org_id, workspace_id, content_hash) DO UPDATE: a clash on the primary key
  alone is not covered and raises.\<close>
definition on_conflict_update :: "provenance_row \<Rightarrow> provenance_row list \<Rightarrow> provenance_row list or_raise" where
  "on_conflict_update row rows =
     (if \<exists>r\<in>set rows. conflict_key r = conflict_key row
      then Inr (update_rows (\<lambda>r. conflict_key r = conflict_key row) row rows)
      else if \<exists>r\<in>set rows. pv_memory_id r = pv_memory_id row then Inl PyException
      else Inr (rows @ [row]))"

text \<open>INSERT ... ON DUPLICATE KEY UPDATE: a clash on any unique key updates one of the clashing rows.\<close>
definition on_duplicate_key_update ::
  "(provenance_row list \<Rightarrow> provenance_row) \<Rightarrow> provenance_row \<Rightarrow> provenance_row list \<Rightarrow> provenance_row list" where
  "on_duplicate_key_update which_row row rows =
     (let clash = filter (\<lambda>r. conflict_key r = conflict_key row \<or> pv_memory_id r = pv_memory_id row) rows
      in if clash = [] then rows @ [row]
         else update_rows (\<lambda>r. pv_memory_id r = pv_memory_id (which_row clash)) row rows)"

definition sync_provenance ::
  "dialect \<Rightarrow> (provenance_row list \<Rightarrow> provenance_row) \<Rightarrow> int \<Rightarrow> memory_item \<Rightarrow> (control_db, string) eff" where
  "sync_provenance dl which_row now item db =
     (let row = relational_to_store now item; rows = cdb_provenance db;
          result = (case dl of
              Postgresql \<Rightarrow> on_conflict_update row rows
            | Sqlite \<Rightarrow> on_conflict_update row rows
            | Mysql \<Rightarrow> Inr (on_duplicate_key_update which_row row rows)
            | Other_dialect \<Rightarrow> Inl RuntimeError)
      in case result of
           Inl e \<Rightarrow> (Inl e, db)
         | Inr rows' \<Rightarrow> (Inr (mi_id item), db\<lparr>cdb_provenance := rows'\<rparr>))"

definition get_provenance :: "string \<Rightarrow> string \<Rightarrow> control_db \<Rightarrow> provenance_row option" where
  "get_provenance workspace mid db =
     find (\<lambda>r. pv_workspace_id r = workspace \<and> pv_memory_id r = mid) (cdb_provenance db)"

definition list_by_namespace ::
  "(provenance_row list \<Rightarrow> provenance_row list) \<Rightarrow> string \<Rightarrow> nat \<Rightarrow> control_db \<Rightarrow> provenance_row list" where
  "list_by_namespace scan prefix limit db =
     take limit (scan (filter (\<lambda>r. pv_namespace_prefix r = prefix) (cdb_provenance db)))"

text \<open>The key of an audit row is the next of the autoincrement sequence.\<close>
definition append_audit ::
  "int \<Rightarrow> string \<Rightarrow> string \<Rightarrow> string \<Rightarrow> string \<Rightarrow> string option \<Rightarrow> bool \<Rightarrow> payload option \<Rightarrow> control_db \<Rightarrow> control_db" where
  "append_audit now org workspace actor action target success payload db =
     db\<lparr>cdb_audit := cdb_audit db @ [\<lparr>ad_id = int (length (cdb_audit db)) + 1, ad_ts = now, ad_org_id = org,
       ad_workspace_id = workspace, ad_actor_id = actor, ad_action = action, ad_target_id = target,
       ad_success = success, ad_payload = (case payload of None \<Rightarrow> [] | Some d \<Rightarrow> d)\<rparr>]\<rparr>"

section \<open>The constraints\<close>

definition control_inv :: "control_db \<Rightarrow> bool" where
  "control_inv db = (distinct (map pv_memory_id (cdb_provenance db)) \<and> distinct (map conflict_key (cdb_provenance db)))"

lemma overwrite_key [simp]:
  "pv_memory_id (overwrite new old) = pv_memory_id old" "conflict_key (overwrite new old) = conflict_key old"
  by (simp_all add: overwrite_def conflict_key_def)

lemma conflict_key_update [simp]:
  "conflict_key (r\<lparr>pv_memory_id := i\<rparr>) = conflict_key r" "conflict_key (r\<lparr>pv_synced_at := t\<rparr>) = conflict_key r"
  by (simp_all add: conflict_key_def)

lemma overwrite_other [simp]:
  "pv_namespace_prefix (overwrite new old) = pv_namespace_prefix new"
  "pv_owner_id (overwrite new old) = pv_owner_id new"
  "overwrite new (overwrite newer old) = overwrite new old"
  by (simp_all add: overwrite_def)

lemma update_rows_keys [simp]:
  "map pv_memory_id (update_rows which new rows) = map pv_memory_id rows"
  "map conflict_key (update_rows which new rows) = map conflict_key rows"
  by (simp_all add: update_rows_def o_def if_distrib [of pv_memory_id] if_distrib [of conflict_key] cong: map_cong)

lemma keys_elem_eq:
  "distinct (map f rows) \<Longrightarrow> r \<in> set rows \<Longrightarrow> s \<in> set rows \<Longrightarrow> f r = f s \<Longrightarrow> r = s"
  by (auto simp: distinct_map inj_on_def)

lemma same_keys: "pv_memory_id (relational_to_store now m) = mi_id m"
  "conflict_key (relational_to_store now m) = (ns_org (mi_namespace m), mi_workspace_id m, mi_content_hash m)"
  by (simp_all add: relational_to_store_def conflict_key_def)

text \<open>The item's id is not known with another content hash or tenant.\<close>
definition id_is_stable :: "memory_item \<Rightarrow> control_db \<Rightarrow> bool" where
  "id_is_stable m db = (\<forall>r\<in>set (cdb_provenance db). pv_memory_id r = mi_id m \<longrightarrow>
     conflict_key r = (ns_org (mi_namespace m), mi_workspace_id m, mi_content_hash m))"

text \<open>What MySQL may which_row: one of the clashing rows.\<close>
definition chooses :: "(provenance_row list \<Rightarrow> provenance_row) \<Rightarrow> bool" where
  "chooses which_row = (\<forall>rs. rs \<noteq> [] \<longrightarrow> which_row rs \<in> set rs)"

text \<open>The upsert every dialect makes for an id that is stable.\<close>
definition upserted :: "provenance_row \<Rightarrow> provenance_row list \<Rightarrow> provenance_row list" where
  "upserted row rows = (if conflict_key row \<in> set (map conflict_key rows)
     then update_rows (\<lambda>r. conflict_key r = conflict_key row) row rows else rows @ [row])"

lemma on_conflict_upserts:
  assumes "id_is_stable m db"
  shows "on_conflict_update (relational_to_store now m) (cdb_provenance db) = Inr (upserted (relational_to_store now m) (cdb_provenance db))"
proof -
  let ?row = "relational_to_store now m"
  have "\<exists>r\<in>set (cdb_provenance db). conflict_key r = conflict_key ?row"
    if "\<exists>r\<in>set (cdb_provenance db). pv_memory_id r = pv_memory_id ?row"
    using assms that by (auto simp: id_is_stable_def same_keys)
  moreover have "conflict_key ?row \<in> set (map conflict_key (cdb_provenance db)) \<longleftrightarrow> (\<exists>r\<in>set (cdb_provenance db). conflict_key r = conflict_key ?row)"
    by (auto simp: image_iff) metis+
  ultimately show ?thesis unfolding on_conflict_update_def upserted_def by simp
qed

lemma on_duplicate_upserts:
  assumes "id_is_stable m db" "control_inv db" "chooses which_row"
  shows "on_duplicate_key_update which_row (relational_to_store now m) (cdb_provenance db) = upserted (relational_to_store now m) (cdb_provenance db)"
proof -
  let ?row = "relational_to_store now m" and ?rows = "cdb_provenance db"
  let ?clash = "filter (\<lambda>r. conflict_key r = conflict_key ?row \<or> pv_memory_id r = pv_memory_id ?row) ?rows"
  have clash: "?clash = filter (\<lambda>r. conflict_key r = conflict_key ?row) ?rows"
    using assms(1) by (intro filter_cong) (auto simp: id_is_stable_def same_keys)
  show ?thesis
  proof (cases "?clash = []")
    case True
    then have "conflict_key ?row \<notin> set (map conflict_key ?rows)"
      unfolding clash by (auto simp: filter_empty_conv)
    then show ?thesis using True by (simp add: on_duplicate_key_update_def upserted_def)
  next
    case False
    then have "which_row ?clash \<in> set ?clash"
      using assms(3) unfolding chooses_def by blast
    then obtain w where w: "which_row ?clash = w" "w \<in> set ?rows" "conflict_key w = conflict_key ?row"
      unfolding clash set_filter by blast
    have dist: "distinct (map pv_memory_id ?rows)" "distinct (map conflict_key ?rows)"
      using assms(2) unfolding control_inv_def by blast+
    have same: "pv_memory_id r = pv_memory_id w \<longleftrightarrow> conflict_key r = conflict_key ?row" if "r \<in> set ?rows" for r
      using keys_elem_eq [OF dist(1) that w(2)] keys_elem_eq [OF dist(2) that w(2)] unfolding w(3) using w(3) by blast
    have upd: "update_rows (\<lambda>r. pv_memory_id r = pv_memory_id (which_row ?clash)) ?row ?rows
        = update_rows (\<lambda>r. conflict_key r = conflict_key ?row) ?row ?rows"
      unfolding update_rows_def w(1) by (intro map_cong refl) (simp only: same)
    have mem: "conflict_key ?row \<in> set (map conflict_key ?rows)" using w(2,3) by (metis image_eqI list.set_map)
    show ?thesis
      unfolding on_duplicate_key_update_def upserted_def Let_def if_not_P [OF False] if_P [OF mem] by (rule upd)
  qed
qed

lemma sync_upserts:
  assumes "id_is_stable m db" "control_inv db" "chooses which_row" "dl \<noteq> Other_dialect"
  shows "sync_provenance dl which_row now m db = (Inr (mi_id m), db\<lparr>cdb_provenance := upserted (relational_to_store now m) (cdb_provenance db)\<rparr>)"
  using on_conflict_upserts [OF assms(1)] on_duplicate_upserts [OF assms(1-3)] assms(4)
  by (cases dl) (simp_all add: sync_provenance_def Let_def)

lemma upserted_inv [inv_intros]:
  assumes "id_is_stable m db" "control_inv db"
  shows "control_inv (db\<lparr>cdb_provenance := upserted (relational_to_store now m) (cdb_provenance db)\<rparr>)"
proof (cases "conflict_key (relational_to_store now m) \<in> set (map conflict_key (cdb_provenance db))")
  case False
  then have "mi_id m \<notin> pv_memory_id ` set (cdb_provenance db)"
    using assms(1) by (force simp: id_is_stable_def same_keys)
  then show ?thesis using False assms(2) by (simp add: control_inv_def upserted_def same_keys)
qed (use assms(2) in \<open>simp add: control_inv_def upserted_def\<close>)

section \<open>Properties\<close>

lemma filter_unique_key:
  "distinct (map f xs) \<Longrightarrow> x \<in> set xs \<Longrightarrow> filter (\<lambda>y. f y = f x) xs = [x]"
proof (induction xs)
  case (Cons a xs)
  then show ?case by (cases "a = x") (auto simp: filter_empty_conv image_iff)
qed simp

lemma upserted_others:
  "filter (\<lambda>r. conflict_key r \<noteq> conflict_key row) (upserted row rows) = filter (\<lambda>r. conflict_key r \<noteq> conflict_key row) rows"
proof -
  have "filter (\<lambda>r. conflict_key r \<noteq> conflict_key row) (update_rows (\<lambda>r. conflict_key r = conflict_key row) row rows)
      = filter (\<lambda>r. conflict_key r \<noteq> conflict_key row) rows"
    unfolding update_rows_def by (induction rows) auto
  then show ?thesis by (simp add: upserted_def)
qed

lemma upserted_row:
  assumes "distinct (map conflict_key rows)"
  shows "\<exists>i. filter (\<lambda>r. conflict_key r = conflict_key row) (upserted row rows) = [row\<lparr>pv_memory_id := i\<rparr>]"
proof (cases "conflict_key row \<in> set (map conflict_key rows)")
  case False
  then have "filter (\<lambda>r. conflict_key r = conflict_key row) rows = []"
    by (auto simp: filter_empty_conv image_iff)
  then show ?thesis using False by (intro exI [of _ "pv_memory_id row"]) (simp add: upserted_def)
next
  case True
  then obtain old where old: "old \<in> set rows" "conflict_key old = conflict_key row" by auto
  have "overwrite row old = row\<lparr>pv_memory_id := pv_memory_id old\<rparr>"
    using old(2) by (cases row) (simp add: overwrite_def conflict_key_def)
  moreover have "overwrite row old \<in> set (upserted row rows)"
    using True old by (force simp: upserted_def update_rows_def)
  moreover have "distinct (map conflict_key (upserted row rows))"
    using True assms by (simp add: upserted_def)
  ultimately show ?thesis
    using filter_unique_key [of conflict_key "upserted row rows" "overwrite row old"] old(2)
    by (intro exI [of _ "pv_memory_id old"]) simp
qed

lemma upserted_again:
  assumes "filter (\<lambda>r. conflict_key r = conflict_key row) rows = [row\<lparr>pv_memory_id := i\<rparr>]"
  shows "upserted (row\<lparr>pv_synced_at := later\<rparr>) rows
    = map (\<lambda>r. if conflict_key r = conflict_key row then r\<lparr>pv_synced_at := later\<rparr> else r) rows"
proof -
  have only: "r = row\<lparr>pv_memory_id := i\<rparr>" if "r \<in> set rows" "conflict_key r = conflict_key row" for r
  proof -
    have "r \<in> set (filter (\<lambda>r. conflict_key r = conflict_key row) rows)" using that by simp
    then show ?thesis unfolding assms by simp
  qed
  have "row\<lparr>pv_memory_id := i\<rparr> \<in> set (filter (\<lambda>r. conflict_key r = conflict_key row) rows)"
    unfolding assms by simp
  then have mem: "conflict_key row \<in> set (map conflict_key rows)"
    by (metis (mono_tags, lifting) conflict_key_update(1) filter_is_subset image_eqI list.set_map subsetD)
  have "overwrite (row\<lparr>pv_synced_at := later\<rparr>) (row\<lparr>pv_memory_id := i\<rparr>) = row\<lparr>pv_memory_id := i, pv_synced_at := later\<rparr>"
    by (cases row) (simp add: overwrite_def)
  then show ?thesis
    unfolding upserted_def update_rows_def conflict_key_update if_P [OF mem]
    by (intro map_cong refl) (auto dest: only)
qed


lemma update_rows_mem:
  "x \<in> set (update_rows which new rows) \<longleftrightarrow> (\<exists>r\<in>set rows. x = (if which r then overwrite new r else r))"
  by (auto simp: update_rows_def)

lemma find_by_id:
  assumes "distinct (map pv_memory_id rows)" "x \<in> set rows"
  shows "find (\<lambda>r. pv_workspace_id r = pv_workspace_id x \<and> pv_memory_id r = pv_memory_id x) rows = Some x"
  using assms
proof (induction rows)
  case (Cons a rows)
  then show ?case by (cases "a = x") (auto simp: image_iff)
qed simp

text \<open>
  C26. The mirror of a copy is lost. When two records of one workspace have the same content hash, which
  ignores who wrote them, synchronising the second returns its id, but no row has that id: the row of the
  first keeps its key and from then on names the namespace and the owner of the second, so a listing of
  the first namespace no longer has it.
\<close>
theorem provenance_of_a_copy_is_lost:
  assumes "control_inv db" and "id_is_stable m db" and "chooses which_row" and "dl \<noteq> Other_dialect"
    and "r \<in> set (cdb_provenance db)" and "conflict_key r = (ns_org (mi_namespace m), mi_workspace_id m, mi_content_hash m)"
    and "pv_memory_id r \<noteq> mi_id m" and "\<And>rs. mset (scan rs) = mset rs"
  shows "\<exists>db'. sync_provenance dl which_row now m db = (Inr (mi_id m), db')
    \<and> get_provenance workspace (mi_id m) db' = None
    \<and> get_provenance (pv_workspace_id r) (pv_memory_id r) db' = Some ((relational_to_store now m)\<lparr>pv_memory_id := pv_memory_id r\<rparr>)
    \<and> (pv_namespace_prefix r \<noteq> to_prefix (mi_namespace m) \<longrightarrow>
         (\<forall>x\<in>set (list_by_namespace scan (pv_namespace_prefix r) limit db'). pv_memory_id x \<noteq> pv_memory_id r))"
proof -
  let ?row = "relational_to_store now m"
  let ?rows = "update_rows (\<lambda>r. conflict_key r = conflict_key ?row) ?row (cdb_provenance db)"
  let ?db = "db\<lparr>cdb_provenance := ?rows\<rparr>" and ?new = "?row\<lparr>pv_memory_id := pv_memory_id r\<rparr>"
  have key: "conflict_key r = conflict_key ?row" using assms(6) by (simp add: same_keys)
  have dist: "distinct (map pv_memory_id (cdb_provenance db))" "distinct (map conflict_key (cdb_provenance db))"
    using assms(1) by (simp_all add: control_inv_def)
  have "conflict_key ?row \<in> set (map conflict_key (cdb_provenance db))"
    using assms(5) key by (metis image_eqI list.set_map)
  then have sync: "sync_provenance dl which_row now m db = (Inr (mi_id m), ?db)"
    using sync_upserts [OF assms(2,1,3,4), of now] unfolding upserted_def by (simp only: if_True)
  have "pv_memory_id x \<noteq> mi_id m" if x: "x \<in> set (cdb_provenance db)" for x
  proof
    assume id: "pv_memory_id x = mi_id m"
    then have "conflict_key x = conflict_key r" using assms(2) x unfolding id_is_stable_def assms(6) by blast
    then have "x = r" by (rule keys_elem_eq [OF dist(2) x assms(5)])
    then show False using id assms(7) by simp
  qed
  then have none: "get_provenance workspace (mi_id m) ?db = None"
    by (auto simp: get_provenance_def find_None_iff update_rows_mem)
  have over: "overwrite ?row r = ?new"
    using key by (cases r) (simp add: overwrite_def conflict_key_def relational_to_store_def)
  have new: "?new \<in> set ?rows"
    using assms(5) key over by (auto simp: update_rows_mem intro!: bexI [of _ r])
  have ids: "distinct (map pv_memory_id ?rows)" using dist(1) by simp
  have ws: "pv_workspace_id ?new = pv_workspace_id r" using key by (simp add: conflict_key_def)
  have found: "get_provenance (pv_workspace_id r) (pv_memory_id r) ?db = Some ?new"
    using find_by_id [OF ids new] ws by (simp add: get_provenance_def)
  have "pv_memory_id x \<noteq> pv_memory_id r"
    if x: "x \<in> set (list_by_namespace scan (pv_namespace_prefix r) limit ?db)" "pv_namespace_prefix r \<noteq> to_prefix (mi_namespace m)" for x
  proof
    assume id: "pv_memory_id x = pv_memory_id r"
    have "x \<in> set (filter (\<lambda>y. pv_namespace_prefix y = pv_namespace_prefix r) ?rows)"
      using in_set_takeD [OF x(1) [unfolded list_by_namespace_def]] mset_eq_setD [OF assms(8)] by simp
    then have "x \<in> set ?rows" "pv_namespace_prefix x = pv_namespace_prefix r" by simp_all
    moreover from this have "x = ?new" by (intro keys_elem_eq [OF ids _ new]) (simp_all add: id)
    ultimately show False using x(2) by (simp add: relational_to_store_def)
  qed
  then show ?thesis using sync none found by (intro exI [of _ ?db]) simp
qed

text \<open>An id known under another hash: the first two dialects raise, MySQL returns the id and keeps the
  old hash under the new columns.\<close>
lemma unstable_id_parts_the_dialects:
  assumes "control_inv db" "chooses which_row" "r \<in> set (cdb_provenance db)" "pv_memory_id r = mi_id m"
    and "\<forall>x\<in>set (cdb_provenance db). conflict_key x \<noteq> (ns_org (mi_namespace m), mi_workspace_id m, mi_content_hash m)"
  shows "sync_provenance Postgresql which_row now m db = (Inl PyException, db)
    \<and> sync_provenance Sqlite which_row now m db = (Inl PyException, db)
    \<and> (\<exists>db'. sync_provenance Mysql which_row now m db = (Inr (mi_id m), db')
         \<and> overwrite (relational_to_store now m) r \<in> set (cdb_provenance db'))"
proof -
  let ?row = "relational_to_store now m"
  let ?clash = "filter (\<lambda>x. conflict_key x = conflict_key ?row \<or> pv_memory_id x = pv_memory_id ?row) (cdb_provenance db)"
  have conf: "on_conflict_update ?row (cdb_provenance db) = Inl PyException"
    using assms(3-5) by (auto simp: on_conflict_update_def same_keys)
  have "r \<in> set ?clash" using assms(3,4) by (simp add: same_keys)
  then have ne: "?clash \<noteq> []" by (metis list.set(1) empty_iff)
  have only: "x = r" if "x \<in> set ?clash" for x
  proof -
    have "x \<in> set (cdb_provenance db)" "pv_memory_id x = pv_memory_id r"
      using that assms(4,5) by (auto simp: same_keys)
    moreover have "distinct (map pv_memory_id (cdb_provenance db))" using assms(1) by (simp add: control_inv_def)
    ultimately show ?thesis using keys_elem_eq assms(3) by metis
  qed
  have w: "which_row ?clash = r"
    by (rule only) (use assms(2) ne in \<open>unfold chooses_def, blast\<close>)
  have "on_duplicate_key_update which_row ?row (cdb_provenance db) = update_rows (\<lambda>x. pv_memory_id x = pv_memory_id r) ?row (cdb_provenance db)"
    unfolding on_duplicate_key_update_def Let_def if_not_P [OF ne] w by (rule refl)
  moreover have "overwrite ?row r \<in> set (update_rows (\<lambda>x. pv_memory_id x = pv_memory_id r) ?row (cdb_provenance db))"
    using assms(3) by (auto simp: update_rows_mem intro!: bexI [of _ r])
  ultimately show ?thesis using conf by (simp add: sync_provenance_def)
qed

section \<open>Witnesses\<close>

definition empty_control :: control_db where
  "empty_control = \<lparr>cdb_provenance = [], cdb_audit = []\<rparr>"

definition demo_copy :: memory_item where
  "demo_copy = demo_record\<lparr>mi_id := ''m2'', mi_owner_id := ''v''\<rparr>"

lemma chooses_hd: "chooses hd"
  by (simp add: chooses_def)


theorem provenance_of_a_copy_is_lost_witness:
  "\<exists>db'. sync_provenance Sqlite hd 2 demo_copy (empty_control\<lparr>cdb_provenance := [relational_to_store 1 demo_record]\<rparr>) = (Inr ''m2'', db')
    \<and> get_provenance ''w'' ''m2'' db' = None"
proof -
  let ?db = "empty_control\<lparr>cdb_provenance := [relational_to_store 1 demo_record]\<rparr>"
  have facts: "control_inv ?db" "id_is_stable demo_copy ?db" "relational_to_store 1 demo_record \<in> set (cdb_provenance ?db)"
    "conflict_key (relational_to_store 1 demo_record) = (ns_org (mi_namespace demo_copy), mi_workspace_id demo_copy, mi_content_hash demo_copy)"
    "pv_memory_id (relational_to_store 1 demo_record) \<noteq> mi_id demo_copy" "mi_id demo_copy = ''m2''"
    by (simp_all add: control_inv_def id_is_stable_def same_keys demo_copy_def demo_record_def default_item_def)
  obtain db' where "sync_provenance Sqlite hd 2 demo_copy ?db = (Inr (mi_id demo_copy), db')" "get_provenance ''w'' (mi_id demo_copy) db' = None"
    using provenance_of_a_copy_is_lost [OF facts(1,2) chooses_hd _ facts(3,4,5), where dl = Sqlite and scan = "\<lambda>rs. rs" and now = 2 and workspace = "''w''" and limit = 0]
    by auto
  then show ?thesis unfolding facts(6) by (intro exI conjI)
qed

end
