(* ===== verification/Wiring.thy ===== *)
theory Wiring
  imports Model_Router
begin

text \<open>
  How the embedded container comes to its stores: the settings tree (mu_contracts/config/settings.py),
  the store registry and its factories (storage/registry.py, storage/factories.py), and the resolution,
  construction and teardown of LocalContainer (mu-local: config.py, composition.py). The environment from
  which pydantic reads the settings, the vendor clients and the parsing of numbers are parameters; the
  clients that were opened are the state.
\<close>

section \<open>Settings\<close>

datatype runtime_mode = Mode_LOCAL | Mode_SHARED

record server_settings =
  sv_host :: string
  sv_port :: int
  sv_user :: string
  sv_password :: string
  sv_database :: string
  sv_timeout :: rat

record pgvector_settings = server_settings +
  sv_hnsw :: bool
  sv_pool_min_size :: int
  sv_pool_max_size :: int

record cache_settings =
  ca_host :: string
  ca_port :: int
  ca_db :: int
  ca_timeout :: rat

record memory_kv_settings =
  mk_max_items :: int
  mk_default_ttl :: int

record memcached_settings =
  mm_host :: string
  mm_port :: int
  mm_recency_cap :: int
  mm_default_ttl :: int
  mm_cas_max_attempts :: int
  mm_timeout :: rat

record qdrant_settings =
  qd_host :: string
  qd_http_port :: int
  qd_grpc_port :: int
  qd_prefer_grpc :: bool
  qd_timeout :: rat

record falkor_settings =
  fk_host :: string
  fk_port :: int
  fk_graph_name :: string
  fk_shortlist_size :: int
  fk_similarity_threshold :: rat
  fk_timeout :: rat

record chroma_settings =
  ch_path :: string
  ch_timeout :: rat
  ch_min_widen :: int

record settings =
  st_mode :: runtime_mode
  st_postgres :: server_settings
  st_mysql :: server_settings
  st_cache :: cache_settings
  st_valkey :: cache_settings
  st_kv_memory :: memory_kv_settings
  st_memcached :: memcached_settings
  st_vector :: qdrant_settings
  st_graph :: falkor_settings
  st_pgvector :: pgvector_settings
  st_chroma :: chroma_settings
  st_faiss_path :: "string option"

definition show_int :: "int \<Rightarrow> string" where
  "show_int i = (if i < 0 then CHR ''-'' # show_nat (nat (- i)) else show_nat (nat i))"

definition dsn_of :: "string \<Rightarrow> server_settings \<Rightarrow> string" where
  "dsn_of scheme s = scheme @ ''://'' @ sv_user s @ '':'' @ sv_password s @ ''@'' @ sv_host s @ '':''
     @ show_int (sv_port s) @ ''/'' @ sv_database s"

definition postgres_dsn :: "server_settings \<Rightarrow> string" where
  "postgres_dsn s = dsn_of ''postgresql+asyncpg'' s"

definition mysql_dsn :: "server_settings \<Rightarrow> string" where
  "mysql_dsn s = dsn_of ''mysql+asyncmy'' s"

definition pgvector_dsn :: "pgvector_settings \<Rightarrow> string" where
  "pgvector_dsn s = dsn_of ''postgresql'' (server_settings.truncate s)"

definition cache_url :: "cache_settings \<Rightarrow> string" where
  "cache_url s = ''redis://'' @ ca_host s @ '':'' @ show_int (ca_port s) @ ''/'' @ show_int (ca_db s)"

definition qdrant_url :: "qdrant_settings \<Rightarrow> string" where
  "qdrant_url s = ''http://'' @ qd_host s @ '':'' @ show_int (qd_http_port s)"

definition falkor_url :: "falkor_settings \<Rightarrow> string" where
  "falkor_url s = ''redis://'' @ fk_host s @ '':'' @ show_int (fk_port s)"

definition default_server :: "int \<Rightarrow> rat \<Rightarrow> server_settings" where
  "default_server port timeout = \<lparr>sv_host = ''localhost'', sv_port = port, sv_user = ''mu'', sv_password = ''mu'',
     sv_database = ''mu'', sv_timeout = timeout\<rparr>"

definition default_cache :: cache_settings where
  "default_cache = \<lparr>ca_host = ''localhost'', ca_port = 6379, ca_db = 0, ca_timeout = 5\<rparr>"

text \<open>Settings() in an environment that sets nothing.\<close>
definition default_settings :: settings where
  "default_settings = \<lparr>st_mode = Mode_LOCAL, st_postgres = default_server 5432 15, st_mysql = default_server 3306 15,
     st_cache = default_cache, st_valkey = default_cache,
     st_kv_memory = \<lparr>mk_max_items = 10000, mk_default_ttl = 3600\<rparr>,
     st_memcached = \<lparr>mm_host = ''localhost'', mm_port = 11211, mm_recency_cap = 500, mm_default_ttl = 3600,
       mm_cas_max_attempts = 5, mm_timeout = 5\<rparr>,
     st_vector = \<lparr>qd_host = ''localhost'', qd_http_port = 6333, qd_grpc_port = 6334, qd_prefer_grpc = False, qd_timeout = 10\<rparr>,
     st_graph = \<lparr>fk_host = ''localhost'', fk_port = 6379, fk_graph_name = ''mu'', fk_shortlist_size = 5,
       fk_similarity_threshold = 84 / 100, fk_timeout = 10\<rparr>,
     st_pgvector = server_settings.extend (default_server 5432 10)
       (pgvector_settings.fields True 1 5),
     st_chroma = \<lparr>ch_path = ''./.mu_data/chroma'', ch_timeout = 10, ch_min_widen = 50\<rparr>,
     st_faiss_path = Some ''./.mu_data/faiss''\<rparr>"

section \<open>The store registry\<close>

text \<open>role -> backend -> factory\<close>
type_synonym 'f store_registry = "(string, (string, 'f) dict) dict"

text \<open>setdefault(role, {})[backend] = factory: a second registration replaces the first.\<close>
definition register_provider :: "string \<Rightarrow> string \<Rightarrow> 'f \<Rightarrow> 'f store_registry \<Rightarrow> 'f store_registry" where
  "register_provider role backend factory reg =
     dict_put role (dict_put backend factory (dict_default [] reg role)) reg"

definition registered_factory :: "'f store_registry \<Rightarrow> string \<Rightarrow> string \<Rightarrow> 'f or_raise" where
  "registered_factory reg role backend = (case dict_get reg role of
       None \<Rightarrow> Inl Storage_UnknownBackend
     | Some role_map \<Rightarrow> (case dict_get role_map backend of
           None \<Rightarrow> Inl Storage_UnknownBackend
         | Some f \<Rightarrow> Inr f))"

definition known_backends :: "'f store_registry \<Rightarrow> string \<Rightarrow> string set" where
  "known_backends reg role = fst ` set (dict_default [] reg role)"

definition mandatory_roles :: "string list" where
  "mandatory_roles = [''relational'', ''vector'', ''graph'']"

definition assert_mandatory_roles :: "(string, string) dict \<Rightarrow> visibility \<Rightarrow> unit or_raise" where
  "assert_mandatory_roles bound plane =
     (if \<exists>role\<in>set mandatory_roles. dict_get bound role \<in> {None, Some []} then Inl Storage_MandatoryBackendMissing
      else if the (dict_get bound ''graph'') \<in> {''none'', ''sqlfold'', ''pgvector-fold''} then Inl Storage_InvalidBackend
      else if plane = SHARED \<and> the (dict_get bound ''vector'') \<in> {''faiss'', ''numpy''} then Inl Storage_VectorNotFilterable
      else Inr ())"

section \<open>Factories\<close>

text \<open>The values a configuration holds.\<close>
datatype cfg_value = CStr string | CInt int | CFloat rat | CBool bool | CNone

type_synonym cfg = "(string, cfg_value) dict"

text \<open>The clients of the vendor packages that a factory opens.\<close>
datatype client =
    Redis_client cfg_value
  | Memcached_client cfg_value int
  | Qdrant_client cfg_value cfg_value
  | Falkor_client cfg_value cfg_value
  | Sql_engine cfg_value

text \<open>The adapters with what their constructors are given; pgvector, Chroma and FAISS open their
  engine on first use.\<close>
datatype adapter =
    Redis_stm client cfg_value
  | Valkey_stm client cfg_value
  | Memory_stm int cfg_value
  | Memcached_stm client int int int rat
  | Qdrant_mtm client cfg_value cfg_value
  | Pgvector_mtm string cfg_value bool int int rat
  | Chroma_mtm string cfg_value rat int
  | Faiss_mtm "string option" cfg_value
  | Falkor_ltm client cfg_value cfg_value cfg_value
  | Relational_control client "cfg_value option"

text \<open>The settings, whether the package opens a client, and int(str), float(str) and str(float).\<close>
record wiring =
  w_settings :: settings
  w_connect :: "client \<Rightarrow> unit or_raise"
  w_parse_int :: "string \<Rightarrow> int or_raise"
  w_parse_float :: "string \<Rightarrow> rat or_raise"
  w_show_float :: "rat \<Rightarrow> string"

definition truthy :: "cfg_value \<Rightarrow> bool" where
  "truthy v = (case v of CStr s \<Rightarrow> s \<noteq> [] | CInt i \<Rightarrow> i \<noteq> 0 | CFloat r \<Rightarrow> r \<noteq> 0 | CBool b \<Rightarrow> b | CNone \<Rightarrow> False)"

definition py_int :: "wiring \<Rightarrow> cfg_value \<Rightarrow> int or_raise" where
  "py_int w v = (case v of CStr s \<Rightarrow> w_parse_int w s | CInt i \<Rightarrow> Inr i
     | CFloat r \<Rightarrow> Inr (if r < 0 then \<lceil>r\<rceil> else \<lfloor>r\<rfloor>) | CBool b \<Rightarrow> Inr (if b then 1 else 0) | CNone \<Rightarrow> Inl TypeError)"

definition py_float :: "wiring \<Rightarrow> cfg_value \<Rightarrow> rat or_raise" where
  "py_float w v = (case v of CStr s \<Rightarrow> w_parse_float w s | CInt i \<Rightarrow> Inr (of_int i) | CFloat r \<Rightarrow> Inr r
     | CBool b \<Rightarrow> Inr (if b then 1 else 0) | CNone \<Rightarrow> Inl TypeError)"

definition py_str :: "wiring \<Rightarrow> cfg_value \<Rightarrow> string" where
  "py_str w v = (case v of CStr s \<Rightarrow> s | CInt i \<Rightarrow> show_int i | CFloat r \<Rightarrow> w_show_float w r
     | CBool b \<Rightarrow> (if b then ''True'' else ''False'') | CNone \<Rightarrow> ''None'')"

text \<open>cfg[key], cfg.get(key, default), cfg.get(key) or default\<close>
definition required :: "cfg \<Rightarrow> string \<Rightarrow> cfg_value or_raise" where
  "required c k = (case dict_get c k of None \<Rightarrow> Inl KeyError | Some v \<Rightarrow> Inr v)"

definition get_or :: "cfg \<Rightarrow> string \<Rightarrow> cfg_value \<Rightarrow> cfg_value" where
  "get_or c k v = dict_default v c k"

definition given_or :: "cfg \<Rightarrow> string \<Rightarrow> cfg_value \<Rightarrow> cfg_value" where
  "given_or c k v = (if truthy (get_or c k CNone) then get_or c k CNone else v)"

type_synonym 'a opens = "(client list, 'a) eff"

definition open_client :: "wiring \<Rightarrow> client \<Rightarrow> client opens" where
  "open_client w c opened = (case w_connect w c of Inl e \<Rightarrow> (Inl e, opened) | Inr _ \<Rightarrow> (Inr c, opened @ [c]))"

definition build_postgres :: "wiring \<Rightarrow> cfg \<Rightarrow> adapter opens" where
  "build_postgres w c =
     seq (lift_result (required c ''dsn'')) (\<lambda>dsn.
     seq (open_client w (Sql_engine dsn)) (\<lambda>engine.
       ret (Relational_control engine (Some (get_or c ''store_io_timeout_s'' (CFloat (sv_timeout (st_postgres (w_settings w)))))))))"

definition build_sqlite :: "wiring \<Rightarrow> cfg \<Rightarrow> adapter opens" where
  "build_sqlite w c =
     seq (open_client w (Sql_engine (get_or c ''dsn'' (CStr ''sqlite+aiosqlite:///:memory:'')))) (\<lambda>engine.
       ret (Relational_control engine (dict_get c ''store_io_timeout_s'')))"

definition build_mysql :: "wiring \<Rightarrow> cfg \<Rightarrow> adapter opens" where
  "build_mysql w c =
     seq (open_client w (Sql_engine (given_or c ''dsn'' (CStr (mysql_dsn (st_mysql (w_settings w))))))) (\<lambda>engine.
       ret (Relational_control engine (Some (get_or c ''store_io_timeout_s'' (CFloat (sv_timeout (st_mysql (w_settings w))))))))"

text \<open>The vector factories take dim as a keyword of its own.\<close>
definition with_dim :: "cfg \<Rightarrow> (cfg_value \<Rightarrow> cfg \<Rightarrow> adapter opens) \<Rightarrow> adapter opens" where
  "with_dim c f = (case dict_get c ''dim'' of None \<Rightarrow> raise_exc TypeError | Some d \<Rightarrow> f d (dict_pop ''dim'' c))"

definition build_qdrant :: "wiring \<Rightarrow> cfg \<Rightarrow> adapter opens" where
  "build_qdrant w c0 = with_dim c0 (\<lambda>d c.
     seq (lift_result (required c ''url'')) (\<lambda>url.
     seq (open_client w (Qdrant_client url (get_or c ''prefer_grpc'' (CBool False)))) (\<lambda>client.
       ret (Qdrant_mtm client d (get_or c ''store_io_timeout_s'' (CFloat (qd_timeout (st_vector (w_settings w)))))))))"

definition build_falkordb :: "wiring \<Rightarrow> cfg \<Rightarrow> adapter opens" where
  "build_falkordb w c =
     seq (lift_result (required c ''host'')) (\<lambda>host.
     seq (lift_result (required c ''port'')) (\<lambda>port.
     seq (open_client w (Falkor_client host port)) (\<lambda>db.
       let g = st_graph (w_settings w)
       in ret (Falkor_ltm db (get_or c ''shortlist_size'' (CInt (fk_shortlist_size g)))
            (get_or c ''similarity_threshold'' (CFloat (fk_similarity_threshold g)))
            (get_or c ''store_io_timeout_s'' (CFloat (fk_timeout g)))))))"

definition build_redis :: "wiring \<Rightarrow> cfg \<Rightarrow> adapter opens" where
  "build_redis w c =
     seq (lift_result (required c ''url'')) (\<lambda>url.
     seq (open_client w (Redis_client url)) (\<lambda>client.
       ret (Redis_stm client (get_or c ''store_io_timeout_s'' (CFloat (ca_timeout (st_cache (w_settings w))))))))"

definition build_valkey :: "wiring \<Rightarrow> cfg \<Rightarrow> adapter opens" where
  "build_valkey w c =
     seq (open_client w (Redis_client (given_or c ''url'' (CStr (cache_url (st_valkey (w_settings w))))))) (\<lambda>client.
       ret (Valkey_stm client (get_or c ''store_io_timeout_s'' (CFloat (ca_timeout (st_valkey (w_settings w)))))))"

definition build_memory_kv :: "wiring \<Rightarrow> cfg \<Rightarrow> adapter opens" where
  "build_memory_kv w c =
     (let m = st_kv_memory (w_settings w)
      in seq (lift_result (py_int w (get_or c ''max_items_per_namespace'' (CInt (mk_max_items m))))) (\<lambda>cap.
           ret (Memory_stm cap (get_or c ''default_ttl_s'' (CInt (mk_default_ttl m))))))"

definition build_memcached :: "wiring \<Rightarrow> cfg \<Rightarrow> adapter opens" where
  "build_memcached w c =
     (let m = st_memcached (w_settings w)
      in seq (lift_result (py_int w (get_or c ''port'' (CInt (mm_port m))))) (\<lambda>port.
         seq (open_client w (Memcached_client (get_or c ''host'' (CStr (mm_host m))) port)) (\<lambda>client.
         seq (lift_result (py_int w (get_or c ''recency_cap'' (CInt (mm_recency_cap m))))) (\<lambda>cap.
         seq (lift_result (py_int w (get_or c ''cas_max_attempts'' (CInt (mm_cas_max_attempts m))))) (\<lambda>attempts.
         seq (lift_result (py_int w (get_or c ''default_ttl_s'' (CInt (mm_default_ttl m))))) (\<lambda>ttl.
         seq (lift_result (py_float w (get_or c ''store_io_timeout_s'' (CFloat (mm_timeout m))))) (\<lambda>timeout.
           ret (Memcached_stm client cap attempts ttl timeout))))))))"

definition build_pgvector :: "wiring \<Rightarrow> cfg \<Rightarrow> adapter opens" where
  "build_pgvector w c0 = with_dim c0 (\<lambda>d c.
     let p = st_pgvector (w_settings w)
     in seq (lift_result (py_int w (get_or c ''min_size'' (CInt (sv_pool_min_size p))))) (\<lambda>min_size.
        seq (lift_result (py_int w (get_or c ''max_size'' (CInt (sv_pool_max_size p))))) (\<lambda>max_size.
        seq (lift_result (py_float w (get_or c ''store_io_timeout_s'' (CFloat (sv_timeout p))))) (\<lambda>timeout.
          ret (Pgvector_mtm (py_str w (given_or c ''dsn'' (CStr (pgvector_dsn p)))) d
            (truthy (get_or c ''hnsw'' (CBool (sv_hnsw p)))) min_size max_size timeout)))))"

definition build_chroma :: "wiring \<Rightarrow> cfg \<Rightarrow> adapter opens" where
  "build_chroma w c0 = with_dim c0 (\<lambda>d c.
     let ch = st_chroma (w_settings w)
     in seq (lift_result (py_float w (get_or c ''store_io_timeout_s'' (CFloat (ch_timeout ch))))) (\<lambda>timeout.
        seq (lift_result (py_int w (get_or c ''min_widen'' (CInt (ch_min_widen ch))))) (\<lambda>min_widen.
          ret (Chroma_mtm (py_str w (given_or c ''path'' (CStr (ch_path ch)))) d timeout min_widen))))"

definition build_faiss :: "wiring \<Rightarrow> cfg \<Rightarrow> adapter opens" where
  "build_faiss w c0 = with_dim c0 (\<lambda>d c.
     let path = (case dict_get c ''path'' of Some v \<Rightarrow> v
        | None \<Rightarrow> (case st_faiss_path (w_settings w) of None \<Rightarrow> CNone | Some p \<Rightarrow> CStr p))
     in ret (Faiss_mtm (if truthy path then Some (py_str w path) else None) d))"

type_synonym factory = "wiring \<Rightarrow> cfg \<Rightarrow> adapter opens"

text \<open>STORE_REGISTRY after the import of the module.\<close>
definition store_registry :: "factory store_registry" where
  "store_registry = fold (\<lambda>(role, backend, factory). register_provider role backend factory)
     [(''relational'', ''postgres'', build_postgres), (''relational'', ''sqlite'', build_sqlite),
      (''relational'', ''mysql'', build_mysql), (''vector'', ''qdrant'', build_qdrant),
      (''graph'', ''falkordb'', build_falkordb), (''kv'', ''redis'', build_redis),
      (''kv'', ''valkey'', build_valkey), (''kv'', ''memory'', build_memory_kv),
      (''kv'', ''memcached'', build_memcached), (''vector'', ''pgvector'', build_pgvector),
      (''vector'', ''chroma'', build_chroma), (''vector'', ''faiss'', build_faiss)] []"

text \<open>build(role, backend, **cfg)\<close>
definition store_build :: "wiring \<Rightarrow> string \<Rightarrow> string \<Rightarrow> cfg \<Rightarrow> adapter opens" where
  "store_build w role backend c = seq (lift_result (registered_factory store_registry role backend)) (\<lambda>f. f w c)"

section \<open>The container\<close>

record backend_choice =
  bc_backend :: string
  bc_config :: cfg

record model_profile =
  pf_provider :: string
  pf_base_url :: string
  pf_model :: string
  pf_api_key :: string
  pf_max_tokens :: int
  pf_temperature :: rat
  pf_provider_key :: string
  pf_model_group :: string

record storage_settings =
  ss_relational :: backend_choice
  ss_kv :: backend_choice
  ss_vector :: backend_choice
  ss_graph :: backend_choice
  ss_embedding :: backend_choice
  ss_llm :: "model_profile option"

definition plain_choice :: "string \<Rightarrow> backend_choice" where
  "plain_choice backend = \<lparr>bc_backend = backend, bc_config = []\<rparr>"

text \<open>StorageSettings()\<close>
definition default_storage :: storage_settings where
  "default_storage = \<lparr>ss_relational = plain_choice ''sqlite'', ss_kv = plain_choice ''redis'',
     ss_vector = plain_choice ''qdrant'', ss_graph = plain_choice ''falkordb'',
     ss_embedding = plain_choice ''minilm_local'', ss_llm = None\<rparr>"

definition supported_backends :: "(string \<times> string list) list" where
  "supported_backends = [(''kv'', [''redis'', ''valkey'', ''memory'', ''memcached'']),
     (''vector'', [''qdrant'', ''pgvector'', ''chroma'', ''faiss'']), (''graph'', [''falkordb'']),
     (''relational'', [''sqlite'', ''postgres'', ''mysql'']), (''embedding'', [''minilm_local''])]"

definition chosen_backends :: "storage_settings \<Rightarrow> (string \<times> string) list" where
  "chosen_backends ss = [(''kv'', bc_backend (ss_kv ss)), (''vector'', bc_backend (ss_vector ss)),
     (''graph'', bc_backend (ss_graph ss)), (''relational'', bc_backend (ss_relational ss)),
     (''embedding'', bc_backend (ss_embedding ss))]"

definition assert_supported :: "storage_settings \<Rightarrow> unit or_raise" where
  "assert_supported ss = (if \<exists>(role, backend)\<in>set (chosen_backends ss). backend \<notin> set (dict_default [] supported_backends role)
     then Inl BackendUnavailableError else Inr ())"

definition kv_cfg :: "wiring \<Rightarrow> backend_choice \<Rightarrow> cfg" where
  "kv_cfg w ch = (if bc_backend ch = ''redis''
     then [(''url'', CStr (py_str w (given_or (bc_config ch) ''url'' (CStr (cache_url (st_cache (w_settings w)))))))]
     else bc_config ch)"

definition vector_cfg :: "wiring \<Rightarrow> backend_choice \<Rightarrow> cfg" where
  "vector_cfg w ch = (if bc_backend ch = ''qdrant''
     then [(''url'', CStr (py_str w (given_or (bc_config ch) ''url'' (CStr (qdrant_url (st_vector (w_settings w)))))))]
     else bc_config ch)"

definition falkor_endpoint :: "wiring \<Rightarrow> backend_choice \<Rightarrow> (string \<times> int) or_raise" where
  "falkor_endpoint w ch =
     (let g = st_graph (w_settings w)
      in rbind (py_int w (given_or (bc_config ch) ''port'' (CInt (fk_port g)))) (\<lambda>port.
           Inr (py_str w (given_or (bc_config ch) ''host'' (CStr (fk_host g))), port)))"

definition graph_cfg :: "wiring \<Rightarrow> backend_choice \<Rightarrow> cfg or_raise" where
  "graph_cfg w ch = rbind (falkor_endpoint w ch) (\<lambda>(host, port). Inr [(''host'', CStr host), (''port'', CInt port)])"

definition relational_cfg :: "wiring \<Rightarrow> backend_choice \<Rightarrow> cfg" where
  "relational_cfg w ch = (case dict_get (bc_config ch) ''dsn'' of
       Some v \<Rightarrow> [(''dsn'', CStr (py_str w v))]
     | None \<Rightarrow> if bc_backend ch = ''postgres'' then [(''dsn'', CStr (postgres_dsn (st_postgres (w_settings w))))]
              else if bc_backend ch = ''mysql'' then [(''dsn'', CStr (mysql_dsn (st_mysql (w_settings w))))]
              else [])"

text \<open>build(role, backend, dim=.., **cfg): a configured dim is a second value for the keyword.\<close>
definition vector_build :: "wiring \<Rightarrow> string \<Rightarrow> nat \<Rightarrow> cfg \<Rightarrow> adapter opens" where
  "vector_build w backend dims c = (if dict_get c ''dim'' \<noteq> None then raise_exc TypeError
     else store_build w ''vector'' backend (dict_put ''dim'' (CInt (int dims)) c))"

text \<open>What an adapter gives the container to close: the pgvector adapter closes itself, the others
  through their client, and the embedded ones not at all.\<close>
datatype closer = Close_client client | Close_adapter adapter

definition resolve_closer :: "adapter \<Rightarrow> closer option" where
  "resolve_closer a = (case a of
       Redis_stm c _ \<Rightarrow> Some (Close_client c)
     | Valkey_stm c _ \<Rightarrow> Some (Close_client c)
     | Memcached_stm c _ _ _ _ \<Rightarrow> Some (Close_client c)
     | Memory_stm _ _ \<Rightarrow> None
     | Qdrant_mtm c _ _ \<Rightarrow> Some (Close_client c)
     | Pgvector_mtm _ _ _ _ _ _ \<Rightarrow> Some (Close_adapter a)
     | Chroma_mtm _ _ _ _ \<Rightarrow> None
     | Faiss_mtm _ _ \<Rightarrow> None
     | Falkor_ltm c _ _ _ \<Rightarrow> Some (Close_client c)
     | Relational_control c _ \<Rightarrow> Some (Close_client c))"

definition register_closer :: "adapter \<Rightarrow> closer list \<Rightarrow> closer list" where
  "register_closer a closers = closers @ (case resolve_closer a of None \<Rightarrow> [] | Some c \<Rightarrow> [c])"

record 'w local_container =
  lc_embedder :: embedder
  lc_stm :: adapter
  lc_mtm :: adapter
  lc_ltm :: adapter
  lc_control :: adapter
  lc_llm :: "'w model_router option"
  lc_closers :: "closer list"

text \<open>_build_llm_catalog: one deployment on one local provider, and every task routed to its group.\<close>
definition llm_provider :: "model_profile \<Rightarrow> provider_record" where
  "llm_provider p = \<lparr>pr_key = pf_provider_key p, pr_kind = LOCAL_HTTP, pr_litellm_provider = pf_provider p,
     pr_api_base = Some (pf_base_url p), pr_credential_ref = None, pr_is_local = True\<rparr>"

definition llm_deployment :: "model_profile \<Rightarrow> model_deployment" where
  "llm_deployment p = \<lparr>md_group = pf_model_group p, md_provider_key = pf_provider_key p,
     md_model_id = pf_provider p @ ''/'' @ pf_model p, md_kind = Kind_LLM, md_priority_order = 2,
     md_max_input_tokens = None, md_weight = None, md_extra_params = [(''api_key'', Par_Str (pf_api_key p))]\<rparr>"

definition llm_catalog :: "model_profile \<Rightarrow> model_catalog" where
  "llm_catalog p = default_local_catalog\<lparr>mc_providers := [llm_provider p], mc_deployments := [llm_deployment p]\<rparr>"

definition llm_models :: "model_profile \<Rightarrow> model_settings" where
  "llm_models p = default_models\<lparr>ms_provider := pf_provider_key p, ms_answer := pf_model_group p,
     ms_adjudicate := pf_model_group p, ms_hard_extract := pf_model_group p, ms_routine_extract := pf_model_group p,
     ms_summarize := pf_model_group p, ms_classify := pf_model_group p, ms_rerank := pf_model_group p,
     ms_max_output_tokens := pf_max_tokens p, ms_temperature := pf_temperature p\<rparr>"

text \<open>What the model layer is composed from: loading an embedder, warming a model, the routing package.\<close>
record 'w model_layer =
  ml_load :: "warm_config \<Rightarrow> (nat \<times> (string list \<Rightarrow> rat list list or_raise)) or_raise"
  ml_warm :: "warm_config \<Rightarrow> unit or_raise"
  ml_ports :: "model_row list \<Rightarrow> string list \<Rightarrow> 'w model_ports or_raise"

definition build_llm_router :: "'w model_layer \<Rightarrow> model_profile \<Rightarrow> 'w model_router or_raise" where
  "build_llm_router ml p = build_model_router (ml_load ml) (ml_warm ml) (ml_ports ml) None (llm_models p) (llm_catalog p)"

text \<open>LocalContainer.__init__, steps 0 to 6.\<close>
definition build_container :: "wiring \<Rightarrow> 'w model_layer \<Rightarrow> storage_settings \<Rightarrow> 'w local_container opens" where
  "build_container w ml ss =
     seq (lift_result (assert_mandatory_roles [(''relational'', bc_backend (ss_relational ss)),
         (''vector'', bc_backend (ss_vector ss)), (''graph'', bc_backend (ss_graph ss))] PRIVATE)) (\<lambda>_.
     seq (lift_result (assert_supported ss)) (\<lambda>_.
     seq (lift_result (build_embedder (ml_load ml) (bc_backend (ss_embedding ss)) default_local_catalog)) (\<lambda>e.
     seq (store_build w ''kv'' (bc_backend (ss_kv ss)) (kv_cfg w (ss_kv ss))) (\<lambda>stm.
     seq (vector_build w (bc_backend (ss_vector ss)) (em_dimension e) (vector_cfg w (ss_vector ss))) (\<lambda>mtm.
     seq (lift_result (graph_cfg w (ss_graph ss))) (\<lambda>gc.
     seq (store_build w ''graph'' (bc_backend (ss_graph ss)) gc) (\<lambda>ltm.
     seq (store_build w ''relational'' (bc_backend (ss_relational ss)) (relational_cfg w (ss_relational ss))) (\<lambda>control.
     seq (lift_result (case ss_llm ss of None \<Rightarrow> Inr None | Some p \<Rightarrow> rbind (build_llm_router ml p) (\<lambda>r. Inr (Some r)))) (\<lambda>llm.
       ret \<lparr>lc_embedder = e, lc_stm = stm, lc_mtm = mtm, lc_ltm = ltm, lc_control = control, lc_llm = llm,
         lc_closers = register_closer control (register_closer ltm (register_closer mtm (register_closer stm [])))\<rparr>)))))))))"

text \<open>close: last registered first, an Exception of one is suppressed; the list is cleared at the end.\<close>
fun close_each :: "(closer \<Rightarrow> ('w, unit) eff) \<Rightarrow> closer list \<Rightarrow> ('w, unit) eff" where
  "close_each close [] w = (Inr (), w)"
| "close_each close (k # ks) w = (case close k w of
       (Inr _, w') \<Rightarrow> close_each close ks w'
     | (Inl e, w') \<Rightarrow> if isinstance_of e PyException then close_each close ks w' else (Inl e, w'))"

definition container_close ::
  "(closer \<Rightarrow> ('w, unit) eff) \<Rightarrow> 'm local_container \<Rightarrow> 'w \<Rightarrow> unit or_raise \<times> 'm local_container \<times> 'w" where
  "container_close close c w = (case close_each close (rev (lc_closers c)) w of
       (Inl e, w') \<Rightarrow> (Inl e, c, w')
     | (Inr _, w') \<Rightarrow> (Inr (), c\<lparr>lc_closers := []\<rparr>, w'))"

section \<open>Lemmas\<close>

definition client_of :: "adapter \<Rightarrow> client option" where
  "client_of a = (case a of
       Redis_stm c _ \<Rightarrow> Some c | Valkey_stm c _ \<Rightarrow> Some c | Memcached_stm c _ _ _ _ \<Rightarrow> Some c
     | Qdrant_mtm c _ _ \<Rightarrow> Some c | Falkor_ltm c _ _ _ \<Rightarrow> Some c | Relational_control c _ \<Rightarrow> Some c | _ \<Rightarrow> None)"

definition clients :: "adapter list \<Rightarrow> client list" where
  "clients as = List.map_filter client_of as"

definition closed_clients :: "closer list \<Rightarrow> client list" where
  "closed_clients ks = List.map_filter (\<lambda>k. case k of Close_client c \<Rightarrow> Some c | _ \<Rightarrow> None) ks"

lemma clients_simps [simp]: "clients [] = []" "clients (a # as) = (case client_of a of None \<Rightarrow> [] | Some c \<Rightarrow> [c]) @ clients as"
  by (simp_all add: clients_def List.map_filter_simps split: option.split)

lemma closed_register [simp]:
  "closed_clients [] = []"
  "closed_clients (register_closer a ks) = closed_clients ks @ (case client_of a of None \<Rightarrow> [] | Some c \<Rightarrow> [c])"
  by (cases a; simp add: closed_clients_def register_closer_def resolve_closer_def client_of_def List.map_filter_def)+

text \<open>A factory opens exactly the client its adapter holds.\<close>
definition opens_its_client :: "adapter opens \<Rightarrow> bool" where
  "opens_its_client m = (\<forall>o1 a o2. m o1 = (Inr a, o2) \<longrightarrow> o2 = o1 @ clients [a])"

lemma open_client_Inr: "open_client w c o1 = (Inr d, o2) \<longleftrightarrow> d = c \<and> o2 = o1 @ [c] \<and> (\<exists>u. w_connect w c = Inr u)"
  by (auto simp: open_client_def split: sum.splits)

lemma factories_open_their_client:
  "opens_its_client (build_postgres w c)" "opens_its_client (build_sqlite w c)" "opens_its_client (build_mysql w c)"
  "opens_its_client (build_qdrant w c)" "opens_its_client (build_falkordb w c)" "opens_its_client (build_redis w c)"
  "opens_its_client (build_valkey w c)" "opens_its_client (build_memory_kv w c)" "opens_its_client (build_memcached w c)"
  "opens_its_client (build_pgvector w c)" "opens_its_client (build_chroma w c)" "opens_its_client (build_faiss w c)"
  unfolding opens_its_client_def build_postgres_def build_sqlite_def build_mysql_def build_qdrant_def
    build_falkordb_def build_redis_def build_valkey_def build_memory_kv_def build_memcached_def
    build_pgvector_def build_chroma_def build_faiss_def with_dim_def Let_def
  by (auto simp: seq_Inr_iff open_client_Inr lift_result_def client_of_def split: option.splits)

lemma registered_cases:
  assumes "registered_factory store_registry role backend = Inr f"
  shows "f \<in> {build_postgres, build_sqlite, build_mysql, build_qdrant, build_falkordb, build_redis, build_valkey,
    build_memory_kv, build_memcached, build_pgvector, build_chroma, build_faiss}"
  using assms
  by (simp add: registered_factory_def store_registry_def register_provider_def dict_default_def split: if_splits)

lemma store_build_opens: "opens_its_client (store_build w role backend c)"
proof -
  have "opens_its_client (f w c)" if "registered_factory store_registry role backend = Inr f" for f
    using registered_cases [OF that] factories_open_their_client by (elim insertE emptyE) simp_all
  then show ?thesis
    by (auto simp: opens_its_client_def store_build_def seq_Inr_iff lift_result_def)
qed

lemma vector_build_opens: "opens_its_client (vector_build w backend dims c)"
  using store_build_opens by (auto simp: vector_build_def opens_its_client_def)

text \<open>The facts of a container that came up: its adapters in order, what they opened, what will close.\<close>
lemma build_container_clients:
  assumes "build_container w ml ss opened = (Inr c, opened')"
  shows "opened' = opened @ clients [lc_stm c, lc_mtm c, lc_ltm c, lc_control c]
    \<and> closed_clients (lc_closers c) = clients [lc_stm c, lc_mtm c, lc_ltm c, lc_control c]"
proof -
  obtain e stm o1 mtm o2 gc ltm o3 control llm where
    stm: "store_build w ''kv'' (bc_backend (ss_kv ss)) (kv_cfg w (ss_kv ss)) opened = (Inr stm, o1)" and
    mtm: "vector_build w (bc_backend (ss_vector ss)) (em_dimension e) (vector_cfg w (ss_vector ss)) o1 = (Inr mtm, o2)" and
    ltm: "store_build w ''graph'' (bc_backend (ss_graph ss)) gc o2 = (Inr ltm, o3)" and
    control: "store_build w ''relational'' (bc_backend (ss_relational ss)) (relational_cfg w (ss_relational ss)) o3 = (Inr control, opened')" and
    c: "c = \<lparr>lc_embedder = e, lc_stm = stm, lc_mtm = mtm, lc_ltm = ltm, lc_control = control, lc_llm = llm,
         lc_closers = register_closer control (register_closer ltm (register_closer mtm (register_closer stm [])))\<rparr>"
    using assms unfolding build_container_def seq_Inr_iff by (auto simp: lift_result_def)
  have "o1 = opened @ clients [stm]" "o2 = o1 @ clients [mtm]" "o3 = o2 @ clients [ltm]" "opened' = o3 @ clients [control]"
    using stm mtm ltm control store_build_opens vector_build_opens unfolding opens_its_client_def by blast+
  then show ?thesis unfolding c by simp
qed

lemma close_each_ordinary:
  assumes "\<And>k w e. fst (close k w) = Inl e \<Longrightarrow> isinstance_of e PyException"
  shows "close_each close ks w = (Inr (), fold (\<lambda>k w. snd (close k w)) ks w)"
proof (induction ks arbitrary: w)
  case (Cons k ks)
  then show ?case
    using assms [of k w] by (cases "close k w"; cases "fst (close k w)") auto
qed simp

section \<open>Properties\<close>

text \<open>
  C14. A container leaks no client. Whatever was configured, when the container came up, the clients it
  opened are exactly those its four adapters hold, in the order short-term, mid-term, long-term, control;
  close then makes one close call per registered closer, last registered first, goes on past every
  ordinary exception, reaches exactly those clients, never raises one of them and leaves nothing to close,
  so that a second close does nothing.
\<close>
theorem container_closes_what_it_opened:
  assumes "build_container w ml ss [] = (Inr c, opened)"
    and "\<And>k u e. fst (close k u) = Inl e \<Longrightarrow> isinstance_of e PyException"
  shows "opened = clients [lc_stm c, lc_mtm c, lc_ltm c, lc_control c]
    \<and> container_close close c u = (Inr (), c\<lparr>lc_closers := []\<rparr>, fold (\<lambda>k u. snd (close k u)) (rev (lc_closers c)) u)
    \<and> closed_clients (rev (lc_closers c)) = rev opened
    \<and> container_close close (c\<lparr>lc_closers := []\<rparr>) v = (Inr (), c\<lparr>lc_closers := []\<rparr>, v)"
proof -
  have "closed_clients (rev ks) = rev (closed_clients ks)" for ks
    by (simp add: closed_clients_def List.map_filter_def rev_map rev_filter)
  moreover have "close_each close ks v = (Inr (), fold (\<lambda>k w. snd (close k w)) ks v)" for ks v
    by (rule close_each_ordinary) (rule assms(2))
  ultimately show ?thesis
    using build_container_clients [OF assms(1)] by (simp add: container_close_def)
qed

text \<open>The numeric knobs of a configuration read as numbers.\<close>
definition numeric_keys :: "string list" where
  "numeric_keys = [''max_items_per_namespace'', ''port'', ''recency_cap'', ''cas_max_attempts'', ''default_ttl_s'',
     ''min_size'', ''max_size'', ''min_widen'']"

definition numbers_ok :: "wiring \<Rightarrow> cfg \<Rightarrow> bool" where
  "numbers_ok w c = ((\<forall>k\<in>set numeric_keys. \<forall>v. dict_get c k = Some v \<longrightarrow> (\<exists>i. py_int w v = Inr i))
     \<and> (\<forall>v. dict_get c ''store_io_timeout_s'' = Some v \<longrightarrow> (\<exists>r. py_float w v = Inr r)))"

lemma numbers_int:
  assumes "numbers_ok w c" "k \<in> set numeric_keys"
  shows "\<exists>i. py_int w (get_or c k (CInt d)) = Inr i"
proof (cases "dict_get c k")
  case (Some v)
  then have "\<exists>i. py_int w v = Inr i" using assms unfolding numbers_ok_def by blast
  then show ?thesis using Some by (simp add: get_or_def dict_default_def)
qed (simp add: get_or_def dict_default_def py_int_def)

lemma numbers_float: "numbers_ok w c \<Longrightarrow> \<exists>r. py_float w (get_or c ''store_io_timeout_s'' (CFloat d)) = Inr r"
  by (cases "dict_get c ''store_io_timeout_s''") (simp_all add: get_or_def dict_default_def py_float_def numbers_ok_def)

definition backend_name :: "adapter \<Rightarrow> string" where
  "backend_name a = (case a of Redis_stm _ _ \<Rightarrow> ''redis'' | Valkey_stm _ _ \<Rightarrow> ''valkey'' | Memory_stm _ _ \<Rightarrow> ''memory''
     | Memcached_stm _ _ _ _ _ \<Rightarrow> ''memcached'' | Qdrant_mtm _ _ _ \<Rightarrow> ''qdrant'' | Pgvector_mtm _ _ _ _ _ _ \<Rightarrow> ''pgvector''
     | Chroma_mtm _ _ _ _ \<Rightarrow> ''chroma'' | Faiss_mtm _ _ \<Rightarrow> ''faiss'' | Falkor_ltm _ _ _ _ \<Rightarrow> ''falkordb''
     | Relational_control _ _ \<Rightarrow> ''relational'')"

definition vector_dim :: "adapter \<Rightarrow> cfg_value option" where
  "vector_dim a = (case a of Qdrant_mtm _ d _ \<Rightarrow> Some d | Pgvector_mtm _ d _ _ _ _ \<Rightarrow> Some d | Chroma_mtm _ d _ _ \<Rightarrow> Some d
     | Faiss_mtm _ d \<Rightarrow> Some d | _ \<Rightarrow> None)"

lemma kv_builds:
  assumes conn: "\<And>k. w_connect w k = Inr ()" and nums: "numbers_ok w (bc_config ch)"
    and b: "bc_backend ch \<in> {''redis'', ''valkey'', ''memory'', ''memcached''}"
  shows "\<exists>a o2. store_build w ''kv'' (bc_backend ch) (kv_cfg w ch) o1 = (Inr a, o2) \<and> backend_name a = bc_backend ch"
proof -
  have opn: "open_client w k o' = (Inr k, o' @ [k])" for k o' using conn by (simp add: open_client_def)
  have keys: "''max_items_per_namespace'' \<in> set numeric_keys" "''port'' \<in> set numeric_keys" "''recency_cap'' \<in> set numeric_keys"
    "''cas_max_attempts'' \<in> set numeric_keys" "''default_ttl_s'' \<in> set numeric_keys"
    by (simp_all add: numeric_keys_def)
  note int = keys [THEN numbers_int [OF nums]]
  obtain i1 i2 i3 i4 i5 r where
    "py_int w (get_or (bc_config ch) ''max_items_per_namespace'' (CInt (mk_max_items (st_kv_memory (w_settings w))))) = Inr i1"
    "py_int w (get_or (bc_config ch) ''port'' (CInt (mm_port (st_memcached (w_settings w))))) = Inr i2"
    "py_int w (get_or (bc_config ch) ''recency_cap'' (CInt (mm_recency_cap (st_memcached (w_settings w))))) = Inr i3"
    "py_int w (get_or (bc_config ch) ''cas_max_attempts'' (CInt (mm_cas_max_attempts (st_memcached (w_settings w))))) = Inr i4"
    "py_int w (get_or (bc_config ch) ''default_ttl_s'' (CInt (mm_default_ttl (st_memcached (w_settings w))))) = Inr i5"
    "py_float w (get_or (bc_config ch) ''store_io_timeout_s'' (CFloat (mm_timeout (st_memcached (w_settings w))))) = Inr r"
    using int numbers_float [OF nums] by meson
  note nums' = this
  from b consider "bc_backend ch = ''redis''" | "bc_backend ch = ''valkey''" | "bc_backend ch = ''memory''" | "bc_backend ch = ''memcached''"
    by blast
  then show ?thesis
    by cases (simp_all add: store_build_def registered_factory_def store_registry_def register_provider_def dict_default_def
        lift_result_def seq_def kv_cfg_def build_redis_def build_valkey_def build_memory_kv_def build_memcached_def
        required_def opn nums' backend_name_def Let_def)
qed

lemma vector_builds:
  assumes conn: "\<And>k. w_connect w k = Inr ()" and nums: "numbers_ok w (bc_config ch)" and dim: "dict_get (bc_config ch) ''dim'' = None"
    and b: "bc_backend ch \<in> {''qdrant'', ''pgvector'', ''chroma'', ''faiss''}"
  shows "\<exists>a o2. vector_build w (bc_backend ch) dims (vector_cfg w ch) o1 = (Inr a, o2) \<and> backend_name a = bc_backend ch
    \<and> vector_dim a = Some (CInt (int dims))"
proof -
  have opn: "open_client w k o' = (Inr k, o' @ [k])" for k o' using conn by (simp add: open_client_def)
  let ?c = "dict_pop ''dim'' (dict_put ''dim'' (CInt (int dims)) (bc_config ch))"
  have "numbers_ok w ?c" using nums by (simp add: numbers_ok_def)
  have keys: "''min_size'' \<in> set numeric_keys" "''max_size'' \<in> set numeric_keys" "''min_widen'' \<in> set numeric_keys"
    by (simp_all add: numeric_keys_def)
  note int = keys [THEN numbers_int [OF \<open>numbers_ok w ?c\<close>]] and fl = numbers_float [OF \<open>numbers_ok w ?c\<close>]
  obtain i1 i2 i3 r1 r2 where
    "py_int w (get_or ?c ''min_size'' (CInt (sv_pool_min_size (st_pgvector (w_settings w))))) = Inr i1"
    "py_int w (get_or ?c ''max_size'' (CInt (sv_pool_max_size (st_pgvector (w_settings w))))) = Inr i2"
    "py_int w (get_or ?c ''min_widen'' (CInt (ch_min_widen (st_chroma (w_settings w))))) = Inr i3"
    "py_float w (get_or ?c ''store_io_timeout_s'' (CFloat (sv_timeout (st_pgvector (w_settings w))))) = Inr r1"
    "py_float w (get_or ?c ''store_io_timeout_s'' (CFloat (ch_timeout (st_chroma (w_settings w))))) = Inr r2"
    using int fl by meson
  note nums' = this
  from b consider "bc_backend ch = ''qdrant''" | "bc_backend ch = ''pgvector''" | "bc_backend ch = ''chroma''" | "bc_backend ch = ''faiss''"
    by blast
  then show ?thesis
    by cases (simp_all add: vector_build_def store_build_def registered_factory_def store_registry_def register_provider_def dict_default_def
        lift_result_def seq_def vector_cfg_def build_qdrant_def build_pgvector_def build_chroma_def build_faiss_def with_dim_def
        dim required_def opn nums' backend_name_def vector_dim_def Let_def)
qed

lemma graph_builds:
  assumes conn: "\<And>k. w_connect w k = Inr ()" and nums: "numbers_ok w (bc_config ch)" and b: "bc_backend ch = ''falkordb''"
  shows "\<exists>gc a o2. graph_cfg w ch = Inr gc \<and> store_build w ''graph'' (bc_backend ch) gc o1 = (Inr a, o2) \<and> backend_name a = ''falkordb''"
proof -
  have opn: "open_client w k o' = (Inr k, o' @ [k])" for k o' using conn by (simp add: open_client_def)
  have port: "''port'' \<in> set numeric_keys" by (simp add: numeric_keys_def)
  have "\<exists>i. py_int w (given_or (bc_config ch) ''port'' (CInt (fk_port (st_graph (w_settings w))))) = Inr i"
  proof (cases "truthy (get_or (bc_config ch) ''port'' CNone)")
    case True
    then obtain v where "dict_get (bc_config ch) ''port'' = Some v"
      by (auto simp: get_or_def dict_default_def truthy_def split: option.splits)
    then show ?thesis using True numbers_int [OF nums port] by (simp add: given_or_def get_or_def dict_default_def)
  qed (simp add: given_or_def py_int_def)
  then show ?thesis using b
    by (auto simp: graph_cfg_def falkor_endpoint_def Let_def store_build_def registered_factory_def store_registry_def
        register_provider_def dict_default_def lift_result_def seq_def build_falkordb_def required_def opn backend_name_def)
qed

lemma relational_builds:
  assumes conn: "\<And>k. w_connect w k = Inr ()" and b: "bc_backend ch \<in> {''sqlite'', ''postgres'', ''mysql''}"
  shows "\<exists>a o2. store_build w ''relational'' (bc_backend ch) (relational_cfg w ch) o1 = (Inr a, o2)"
proof -
  have opn: "open_client w k o' = (Inr k, o' @ [k])" for k o' using conn by (simp add: open_client_def)
  from b consider "bc_backend ch = ''sqlite''" | "bc_backend ch = ''postgres''" | "bc_backend ch = ''mysql''" by blast
  then show ?thesis
    by cases (simp_all add: store_build_def registered_factory_def store_registry_def register_provider_def dict_default_def
        lift_result_def seq_def relational_cfg_def build_sqlite_def build_postgres_def build_mysql_def required_def opn split: option.split)
qed

lemma supported_Inr:
  "assert_supported ss = Inr () \<longleftrightarrow> bc_backend (ss_kv ss) \<in> {''redis'', ''valkey'', ''memory'', ''memcached''}
     \<and> bc_backend (ss_vector ss) \<in> {''qdrant'', ''pgvector'', ''chroma'', ''faiss''} \<and> bc_backend (ss_graph ss) = ''falkordb''
     \<and> bc_backend (ss_relational ss) \<in> {''sqlite'', ''postgres'', ''mysql''} \<and> bc_backend (ss_embedding ss) = ''minilm_local''"
  by (simp add: assert_supported_def chosen_backends_def supported_backends_def dict_default_def)


text \<open>
  A configured model serves every task. For every profile with a group name, the catalog built from it
  passes the validation of the registry; every task but embedding resolves to that group; the group
  compiles to exactly one row, which names the provider's model, its base url and its key, in the local
  tier; and so the router comes up whenever the routing package takes that row and the embedder loads.
\<close>
theorem llm_profile_serves_every_task:
  assumes "pf_model_group p \<noteq> []"
  shows "\<exists>r row. mk_model_registry (mc_providers (llm_catalog p)) (mc_deployments (llm_catalog p))
        \<lparr>lp_local_tasks = mc_local_capable (llm_catalog p), lp_enabled = mc_local_priority (llm_catalog p)\<rparr> (task_table (llm_models p)) = Inr r
    \<and> compile_model_list None r = Inr [row] \<and> mo_name row = pf_model_group p
    \<and> dict_get (mo_params row) ''model'' = Some (Par_Str (pf_provider p @ ''/'' @ pf_model p))
    \<and> dict_get (mo_params row) ''api_base'' = Some (Par_Str (pf_base_url p))
    \<and> dict_get (mo_params row) ''api_key'' = Some (Par_Str (pf_api_key p))
    \<and> dict_get (mo_params row) ''order'' = Some (Par_Int 1)
    \<and> (\<forall>dflt task. task \<noteq> Task_EMBED \<longrightarrow> group_for dflt (llm_models p) task None = Inr (pf_model_group p))
    \<and> (\<forall>ml ports. ml_ports ml [row] [] = Inr ports \<and> (\<forall>cfg. \<exists>dims encode. ml_load ml cfg = Inr (dims, encode))
         \<longrightarrow> (\<exists>router. build_llm_router ml p = Inr router))"
proof -
  let ?policy = "\<lparr>lp_local_tasks = mc_local_capable (llm_catalog p), lp_enabled = mc_local_priority (llm_catalog p)\<rparr>"
  let ?r = "\<lparr>mr_providers = by_key [llm_provider p], mr_deployments = [llm_deployment p], mr_policy = ?policy,
     mr_task_groups = task_table (llm_models p)\<rparr>"
  let ?row = "\<lparr>mo_name = pf_model_group p, mo_params = dict_merge (base_params (llm_deployment p) (llm_provider p) 1 None)
     [(''api_key'', Par_Str (pf_api_key p))]\<rparr>"
  have cat: "mc_providers (llm_catalog p) = [llm_provider p]" "mc_deployments (llm_catalog p) = [llm_deployment p]"
    by (simp_all add: llm_catalog_def)
  have reg: "mk_model_registry (mc_providers (llm_catalog p)) (mc_deployments (llm_catalog p)) ?policy (task_table (llm_models p)) = Inr ?r"
    unfolding cat mk_model_registry_Inr
    by (simp add: by_key_def llm_provider_def llm_deployment_def task_table_def llm_models_def)
  have prov: "provider_of ?r (llm_deployment p) = Inr (llm_provider p)"
    by (simp add: provider_of_def by_key_def llm_provider_def llm_deployment_def)
  have "(Task_RERANK, md_group (llm_deployment p)) \<in> set (mr_task_groups ?r) \<and> prefers_local (mr_policy ?r) Task_RERANK"
    by (simp add: llm_deployment_def task_table_def llm_models_def prefers_local_def llm_catalog_def default_local_catalog_def default_policy_def)
  then have ord: "order_for ?r (llm_deployment p) = Inr 1"
    unfolding order_for_eq [OF prov] by (auto simp: llm_provider_def)
  have row: "compile_row None ?r (llm_deployment p) = Inr ?row"
    unfolding compile_row_def prov ord by (simp add: provider_key_of_def llm_provider_def llm_deployment_def)
  then have comp: "compile_model_list None ?r = Inr [?row]"
    by (simp add: compile_model_list_def)
  have groups: "group_for dflt (llm_models p) task None = Inr (pf_model_group p)" if "task \<noteq> Task_EMBED" for dflt task
    using that assms by (cases task) (simp_all add: group_for_def given_def task_table_def llm_models_def default_models_def Let_def)
  have router: "\<exists>router. build_llm_router ml p = Inr router"
    if "ml_ports ml [?row] [] = Inr ports" "\<And>cfg. \<exists>dims encode. ml_load ml cfg = Inr (dims, encode)" for ml ports
  proof -
    have "\<exists>e. build_embedder (ml_load ml) (ms_embed_backend (llm_models p)) (llm_catalog p) = Inr e"
      using that(2) [of "\<lparr>wc_model_id = ''minilm_local'', wc_kind = Kind_EMBED, wc_load_path = ''sentence-transformers/all-MiniLM-L6-v2''\<rparr>"]
      by (auto simp: build_embedder_def llm_catalog_def default_local_catalog_def llm_models_def default_models_def)
    moreover have "mc_warm_local (llm_catalog p) = []" by (simp add: llm_catalog_def default_local_catalog_def)
    ultimately show ?thesis
      using that(1) unfolding build_llm_router_def build_model_router_def reg by (auto simp: comp)
  qed
  have params: "dict_get (mo_params ?row) ''model'' = Some (Par_Str (pf_provider p @ ''/'' @ pf_model p))"
    "dict_get (mo_params ?row) ''api_base'' = Some (Par_Str (pf_base_url p))"
    "dict_get (mo_params ?row) ''api_key'' = Some (Par_Str (pf_api_key p))"
    "dict_get (mo_params ?row) ''order'' = Some (Par_Int 1)"
    by (simp_all add: dict_merge_get base_params_def opt_param_get llm_deployment_def llm_provider_def)
  show ?thesis
  proof (intro exI [of _ ?r] exI [of _ ?row] conjI)
    show "\<forall>dflt task. task \<noteq> Task_EMBED \<longrightarrow> group_for dflt (llm_models p) task None = Inr (pf_model_group p)"
      using groups by blast
    show "\<forall>ml ports. ml_ports ml [?row] [] = Inr ports \<and> (\<forall>cfg. \<exists>dims encode. ml_load ml cfg = Inr (dims, encode))
         \<longrightarrow> (\<exists>router. build_llm_router ml p = Inr router)"
      using router by blast
  qed (rule reg comp params | simp)+
qed

section \<open>Witnesses\<close>

definition demo_wiring :: wiring where
  "demo_wiring = \<lparr>w_settings = default_settings, w_connect = (\<lambda>_. Inr ()), w_parse_int = (\<lambda>_. Inl ValueError),
     w_parse_float = (\<lambda>_. Inl ValueError), w_show_float = (\<lambda>_. ''0.0'')\<rparr>"

definition demo_layer :: "unit model_layer" where
  "demo_layer = \<lparr>ml_load = (\<lambda>_. Inr (384, \<lambda>_. Inr [])), ml_warm = (\<lambda>_. Inr ()), ml_ports = (\<lambda>_ _. Inl PyException)\<rparr>"

definition demo_profile :: model_profile where
  "demo_profile = \<lparr>pf_provider = ''openai'', pf_base_url = ''http://h/v1'', pf_model = ''q'', pf_api_key = ''k'',
     pf_max_tokens = 512, pf_temperature = 0, pf_provider_key = ''mu_local_llm'', pf_model_group = ''mu-local-llm''\<rparr>"


definition demo_close :: "closer \<Rightarrow> (nat, unit) eff" where
  "demo_close k n = (Inl ConnectionError, Suc n)"

lemma demo_container_up: "\<exists>c opened. build_container demo_wiring demo_layer default_storage [] = (Inr c, opened)"
  by (simp add: build_container_def seq_def lift_result_def demo_wiring_def demo_layer_def default_storage_def plain_choice_def
      assert_mandatory_roles_def mandatory_roles_def assert_supported_def chosen_backends_def supported_backends_def dict_default_def
      build_embedder_def default_local_catalog_def store_build_def registered_factory_def store_registry_def register_provider_def
      build_redis_def kv_cfg_def required_def open_client_def vector_build_def vector_cfg_def build_qdrant_def with_dim_def
      graph_cfg_def falkor_endpoint_def py_int_def given_or_def get_or_def truthy_def build_falkordb_def Let_def
      relational_cfg_def build_sqlite_def)

theorem container_closes_what_it_opened_witness:
  "\<exists>c opened :: client list. build_container demo_wiring demo_layer default_storage [] = (Inr c, opened)
    \<and> fst (container_close demo_close c 0) = Inr () \<and> closed_clients (rev (lc_closers c)) = rev opened"
proof -
  obtain c opened where c: "build_container demo_wiring demo_layer default_storage [] = (Inr c, opened)"
    using demo_container_up by blast
  have "isinstance_of e PyException" if "fst (demo_close k u) = Inl e" for k u e
    using that by (simp add: demo_close_def isinstance_of_def mro_def numeral_eq_Suc)
  from container_closes_what_it_opened [OF c, where close = demo_close and u = 0 and v = 0, OF this] c show ?thesis by auto
qed

theorem llm_profile_serves_every_task_witness:
  "\<exists>r row. mk_model_registry (mc_providers (llm_catalog demo_profile)) (mc_deployments (llm_catalog demo_profile))
        \<lparr>lp_local_tasks = mc_local_capable (llm_catalog demo_profile), lp_enabled = mc_local_priority (llm_catalog demo_profile)\<rparr>
        (task_table (llm_models demo_profile)) = Inr r
    \<and> compile_model_list None r = Inr [row] \<and> mo_name row = ''mu-local-llm''"
proof -
  have g: "pf_model_group demo_profile \<noteq> []" "pf_model_group demo_profile = ''mu-local-llm''" by (simp_all add: demo_profile_def)
  show ?thesis using llm_profile_serves_every_task [OF g(1)] unfolding g(2) by blast
qed

end
