(* ===== verification/Warm_Models.thy ===== *)
theory Warm_Models
  imports Model_Router
begin

text \<open>
  Models kept warm in the process (mu_engine/providers/warm_local.py): the singleton per model id, whose
  construction is __new__ with double-checked locking followed by __init__, run by any number of threads,
  and the calls on an instance. One step is one part that no other thread can come between: the check
  without the lock, the locked block, the test of _initialized, and each assignment of __init__ around
  the load. Loading, tokenizers and the encoders are the packages' and are parameters.

  The lemmas show that a model id never has two instances; the properties, that construction in turn loads
  once, and what two threads that come up together can do to an instance that is already in use.
\<close>

text \<open>The attributes of an instance: config, _model (None, or the configuration whose weights it
  holds) and whether _initialized is set.\<close>
record instance_state =
  is_config :: "warm_config option"
  is_model :: "warm_config option"
  is_initialized :: bool

record warm_state =
  wr_instances :: "(string, nat) dict"
  wr_objects :: "instance_state list"
  wr_loads :: "string list"

definition no_warm :: warm_state where
  "no_warm = \<lparr>wr_instances = [], wr_objects = [], wr_loads = []\<rparr>"

definition config_key :: "warm_config \<Rightarrow> string" where
  "config_key cfg = wc_model_id cfg"

text \<open>Where a constructing thread stands; the number is the instance it holds.\<close>
datatype warm_thread = Calling | At_lock | Entering nat | Assigning nat | Loading nat | Marking nat
  | Ready nat | Raised exc_class

definition update_instance :: "nat \<Rightarrow> (instance_state \<Rightarrow> instance_state) \<Rightarrow> warm_state \<Rightarrow> warm_state" where
  "update_instance r f s = s\<lparr>wr_objects := (wr_objects s)[r := f (wr_objects s ! r)]\<rparr>"

text \<open>The block under the lock: the second check, else a new instance entered into the table.\<close>
definition new_locked :: "warm_config \<Rightarrow> warm_state \<Rightarrow> nat \<times> warm_state" where
  "new_locked cfg s = (case dict_get (wr_instances s) (config_key cfg) of
       Some r \<Rightarrow> (r, s)
     | None \<Rightarrow> let r = length (wr_objects s)
         in (r, s\<lparr>wr_instances := dict_put (config_key cfg) r (wr_instances s),
                 wr_objects := wr_objects s @ [\<lparr>is_config = None, is_model = None, is_initialized = False\<rparr>]\<rparr>))"

text \<open>One step of WarmLocalSingleton(cfg); load is the package's loading of a configuration.\<close>
fun warm_step :: "(warm_config \<Rightarrow> unit or_raise) \<Rightarrow> warm_config \<Rightarrow> warm_thread \<Rightarrow> warm_state \<Rightarrow> warm_thread \<times> warm_state" where
  "warm_step load cfg Calling s = (case dict_get (wr_instances s) (config_key cfg) of
       Some r \<Rightarrow> (Entering r, s) | None \<Rightarrow> (At_lock, s))"
| "warm_step load cfg At_lock s = (case new_locked cfg s of (r, s') \<Rightarrow> (Entering r, s'))"
| "warm_step load cfg (Entering r) s = (if is_initialized (wr_objects s ! r) then (Ready r, s) else (Assigning r, s))"
| "warm_step load cfg (Assigning r) s =
     (Loading r, update_instance r (\<lambda>i. i\<lparr>is_config := Some cfg, is_model := None\<rparr>) s)"
| "warm_step load cfg (Loading r) s = (let s' = s\<lparr>wr_loads := wr_loads s @ [config_key cfg]\<rparr>
     in case load cfg of
          Inl e \<Rightarrow> (Raised e, s')
        | Inr _ \<Rightarrow> (Marking r, update_instance r (\<lambda>i. i\<lparr>is_model := Some cfg\<rparr>) s'))"
| "warm_step load cfg (Marking r) s = (Ready r, update_instance r (\<lambda>i. i\<lparr>is_initialized := True\<rparr>) s)"
| "warm_step load cfg (Ready r) s = (Ready r, s)"
| "warm_step load cfg (Raised e) s = (Raised e, s)"

definition run_warm ::
  "(warm_config \<Rightarrow> unit or_raise) \<Rightarrow> warm_config list \<Rightarrow> nat list \<Rightarrow> warm_thread list \<times> warm_state \<Rightarrow> warm_thread list \<times> warm_state" where
  "run_warm load cfgs schedule ts = fold (\<lambda>i (ts, s).
     case warm_step load (cfgs ! i) (ts ! i) s of (t, s') \<Rightarrow> (ts[i := t], s')) schedule ts"

text \<open>One caller on its own.\<close>
definition construct_warm :: "(warm_config \<Rightarrow> unit or_raise) \<Rightarrow> warm_config \<Rightarrow> warm_state \<Rightarrow> warm_thread \<times> warm_state" where
  "construct_warm load cfg s = ((\<lambda>(t, s). warm_step load cfg t s) ^^ 6) (Calling, s)"

definition clear_all :: "warm_state \<Rightarrow> warm_state" where
  "clear_all s = s\<lparr>wr_instances := []\<rparr>"

definition get_instance_count :: "warm_state \<Rightarrow> nat" where
  "get_instance_count s = length (wr_instances s)"

text \<open>An instance whose config is not assigned yet has no such attribute.\<close>
definition get_instance_info :: "warm_state \<Rightarrow> (string, string) dict or_raise" where
  "get_instance_info s = rmap (\<lambda>(k, r). case is_config (wr_objects s ! r) of
       None \<Rightarrow> Inl PyException | Some cfg \<Rightarrow> Inr (k, wc_load_path cfg)) (wr_instances s)"

section \<open>Calls on an instance\<close>

text \<open>The encoder of the loaded weights, and the dimension its model reports.\<close>
definition warm_embed ::
  "(warm_config \<Rightarrow> string list \<Rightarrow> rat list list) \<Rightarrow> instance_state \<Rightarrow> string list \<Rightarrow> rat list list or_raise" where
  "warm_embed encode i texts = (case is_config i of
       None \<Rightarrow> Inl PyException
     | Some cfg \<Rightarrow> if wc_kind cfg \<noteq> Kind_EMBED then Inl TypeError
         else (case is_model i of None \<Rightarrow> Inl PyException | Some m \<Rightarrow> Inr (encode m texts)))"

definition embedding_dimension :: "(warm_config \<Rightarrow> nat) \<Rightarrow> instance_state \<Rightarrow> nat or_raise" where
  "embedding_dimension dims i = (case is_config i of
       None \<Rightarrow> Inl PyException
     | Some cfg \<Rightarrow> if wc_kind cfg \<noteq> Kind_EMBED then Inl TypeError
         else (case is_model i of None \<Rightarrow> Inl PyException | Some m \<Rightarrow> Inr (dims m)))"

text \<open>The tokenizer and the model of a causal instance: template, encoding, generation, decoding.\<close>
record causal_ports =
  cp_template :: "(string \<times> string) list \<Rightarrow> string"
  cp_tokens :: "string \<Rightarrow> nat list"
  cp_generate :: "nat list \<Rightarrow> nat list"
  cp_detokenize :: "nat list \<Rightarrow> string"

text \<open>Only what the model added after the prompt is decoded.\<close>
definition generate_full :: "causal_ports \<Rightarrow> string \<Rightarrow> string" where
  "generate_full p prompt = (let src = cp_tokens p prompt in cp_detokenize p (drop (length src) (cp_generate p src)))"

definition warm_generate ::
  "(warm_config \<Rightarrow> causal_ports) \<Rightarrow> instance_state \<Rightarrow> (string \<times> string) list \<Rightarrow> string or_raise" where
  "warm_generate ports i messages = (case is_config i of
       None \<Rightarrow> Inl PyException
     | Some cfg \<Rightarrow> if wc_kind cfg \<noteq> Kind_LLM then Inl TypeError
         else (case is_model i of None \<Rightarrow> Inl PyException
            | Some m \<Rightarrow> Inr (generate_full (ports m) (cp_template (ports m) messages))))"

section \<open>One instance per model id\<close>

definition holds :: "warm_thread \<Rightarrow> nat option" where
  "holds t = (case t of Entering r \<Rightarrow> Some r | Assigning r \<Rightarrow> Some r | Loading r \<Rightarrow> Some r | Marking r \<Rightarrow> Some r
     | Ready r \<Rightarrow> Some r | _ \<Rightarrow> None)"

definition warm_inv :: "warm_config list \<Rightarrow> warm_thread list \<Rightarrow> warm_state \<Rightarrow> bool" where
  "warm_inv cfgs ts s = (length ts = length cfgs \<and> distinct (map fst (wr_instances s)) \<and> distinct (map snd (wr_instances s))
     \<and> (\<forall>r\<in>set (map snd (wr_instances s)). r < length (wr_objects s))
     \<and> (\<forall>i<length cfgs. \<forall>r. holds (ts ! i) = Some r \<longrightarrow> dict_get (wr_instances s) (config_key (cfgs ! i)) = Some r))"

lemma update_instance_simps [simp]:
  "wr_instances (update_instance r f s) = wr_instances s" "length (wr_objects (update_instance r f s)) = length (wr_objects s)"
  "wr_loads (update_instance r f s) = wr_loads s"
  by (simp_all add: update_instance_def)

text \<open>A step keeps the table, or enters its own key with a number not used before.\<close>
lemma warm_step_table:
  assumes "warm_step load cfg t s = (t', s')"
  shows "(wr_instances s' = wr_instances s \<and> length (wr_objects s') = length (wr_objects s)
      \<or> dict_get (wr_instances s) (config_key cfg) = None \<and> length (wr_objects s') = Suc (length (wr_objects s))
        \<and> wr_instances s' = dict_put (config_key cfg) (length (wr_objects s)) (wr_instances s))
    \<and> (\<forall>r. holds t' = Some r \<longrightarrow> holds t = Some r \<or> dict_get (wr_instances s') (config_key cfg) = Some r)"
  using assms
  by (cases t) (auto simp: new_locked_def holds_def Let_def split: option.splits if_splits sum.splits)

lemma dict_put_fresh: "dict_get d k = None \<Longrightarrow> dict_put k v d = d @ [(k, v)]"
  by (induction d) (auto split: if_splits)

lemma warm_inv_step:
  assumes inv: "warm_inv cfgs ts s" and i: "i < length cfgs" and step: "warm_step load (cfgs ! i) (ts ! i) s = (t', s')"
  shows "warm_inv cfgs (ts[i := t']) s'"
proof -
  note table = warm_step_table [OF step]
  have old: "holds (ts ! j) = Some r \<Longrightarrow> j < length cfgs \<Longrightarrow> dict_get (wr_instances s) (config_key (cfgs ! j)) = Some r" for j r
    using inv by (simp add: warm_inv_def)
  have keep: "dict_get (wr_instances s) k = Some r \<Longrightarrow> dict_get (wr_instances s') k = Some r" for k r
    using table by auto
  have "dict_get (wr_instances s') (config_key (cfgs ! j)) = Some r" if "j < length cfgs" "holds (ts[i := t'] ! j) = Some r" for j r
  proof (cases "j = i")
    case True
    then have "holds t' = Some r" using that inv by (simp add: warm_inv_def)
    then show ?thesis using table old [OF _ i] keep True by blast
  next
    case False
    then show ?thesis using that old keep by simp
  qed
  moreover have "distinct (map fst (wr_instances s')) \<and> distinct (map snd (wr_instances s'))
      \<and> (\<forall>r\<in>set (map snd (wr_instances s')). r < length (wr_objects s'))"
  proof (cases "wr_instances s' = wr_instances s")
    case True
    then show ?thesis using inv table by (auto simp: warm_inv_def)
  next
    case False
    then have new: "dict_get (wr_instances s) (config_key (cfgs ! i)) = None" "length (wr_objects s') = Suc (length (wr_objects s))"
      "wr_instances s' = wr_instances s @ [(config_key (cfgs ! i), length (wr_objects s))]"
      using table dict_put_fresh by auto
    then have "config_key (cfgs ! i) \<notin> fst ` set (wr_instances s)" by (simp add: map_of_eq_None_iff)
    moreover have "length (wr_objects s) \<notin> snd ` set (wr_instances s)" using inv by (auto simp: warm_inv_def)
    ultimately show ?thesis using inv new by (auto simp: warm_inv_def intro: less_SucI)
  qed
  ultimately show ?thesis using inv by (simp add: warm_inv_def)
qed

lemma run_warm_inv:
  assumes "warm_inv cfgs ts s" "\<forall>i\<in>set schedule. i < length cfgs" "run_warm load cfgs schedule (ts, s) = (ts', s')"
  shows "warm_inv cfgs ts' s'"
  using assms
proof (induction schedule arbitrary: ts s)
  case (Cons i schedule)
  obtain t u where step: "warm_step load (cfgs ! i) (ts ! i) s = (t, u)" by fastforce
  then have "warm_inv cfgs (ts[i := t]) u"
    using warm_inv_step [OF Cons.prems(1) _ step] Cons.prems(2) by simp
  then show ?case
    using Cons.IH [of "ts[i := t]" u] Cons.prems step by (simp add: run_warm_def)
qed (simp add: run_warm_def)

text \<open>
  C24. Double-checked locking gives one instance per model id. For any number of threads constructing any
  configurations, interleaved in any way from an empty table, two threads that are done hold the same
  instance exactly when their model ids are the same, and it is the one the table has for that id.
\<close>
theorem one_warm_instance_per_model_id:
  assumes "run_warm load cfgs schedule (replicate (length cfgs) Calling, no_warm) = (ts, s)"
    and "\<forall>i\<in>set schedule. i < length cfgs" and "i < length cfgs" and "j < length cfgs"
    and "ts ! i = Ready r" and "ts ! j = Ready q"
  shows "(r = q \<longleftrightarrow> wc_model_id (cfgs ! i) = wc_model_id (cfgs ! j))
    \<and> dict_get (wr_instances s) (wc_model_id (cfgs ! i)) = Some r \<and> r < length (wr_objects s)"
proof -
  have "warm_inv cfgs (replicate (length cfgs) Calling) no_warm"
    by (simp add: warm_inv_def no_warm_def holds_def)
  from run_warm_inv [OF this assms(2,1)] have inv: "warm_inv cfgs ts s" .
  then have r: "dict_get (wr_instances s) (config_key (cfgs ! i)) = Some r" and q: "dict_get (wr_instances s) (config_key (cfgs ! j)) = Some q"
    using assms(3-6) by (simp_all add: warm_inv_def holds_def)
  have mem: "(config_key (cfgs ! i), r) \<in> set (wr_instances s)" "(config_key (cfgs ! j), q) \<in> set (wr_instances s)"
    using r q by (simp_all add: map_of_SomeD)
  have "config_key (cfgs ! i) = config_key (cfgs ! j)" if "r = q"
    using mem inv that unfolding warm_inv_def by (metis distinct_map fst_conv inj_on_eq_iff snd_conv)
  moreover have "r < length (wr_objects s)" using mem(1) inv unfolding warm_inv_def by force
  ultimately show ?thesis using r q unfolding config_key_def by auto
qed

section \<open>Construction in turn\<close>

text \<open>Every instance of the table is ready, with the weights of one configuration of its id.\<close>
definition settled :: "warm_state \<Rightarrow> bool" where
  "settled s = (distinct (map snd (wr_instances s)) \<and> (\<forall>(k, r)\<in>set (wr_instances s). r < length (wr_objects s)
     \<and> is_initialized (wr_objects s ! r) \<and> (\<exists>m. is_model (wr_objects s ! r) = Some m \<and> is_config (wr_objects s ! r) = Some m \<and> wc_model_id m = k)))"

lemma settledD:
  assumes "settled s" "dict_get (wr_instances s) k = Some r"
  shows "\<exists>m. is_model (wr_objects s ! r) = Some m \<and> is_config (wr_objects s ! r) = Some m \<and> wc_model_id m = k"
  using assms map_of_SomeD [OF assms(2)] unfolding settled_def by fast

lemma construct_known:
  assumes "settled s" "dict_get (wr_instances s) (wc_model_id cfg) = Some r"
  shows "construct_warm load cfg s = (Ready r, s)"
proof -
  have "is_initialized (wr_objects s ! r)"
    using assms map_of_SomeD [OF assms(2)] by (auto simp: settled_def)
  then show ?thesis using assms(2) by (simp add: construct_warm_def numeral_eq_Suc config_key_def)
qed

lemma construct_new:
  assumes "dict_get (wr_instances s) (wc_model_id cfg) = None" "load cfg = Inr u"
  shows "construct_warm load cfg s = (Ready (length (wr_objects s)),
    \<lparr>wr_instances = wr_instances s @ [(wc_model_id cfg, length (wr_objects s))],
     wr_objects = wr_objects s @ [\<lparr>is_config = Some cfg, is_model = Some cfg, is_initialized = True\<rparr>],
     wr_loads = wr_loads s @ [wc_model_id cfg]\<rparr>)"
  using assms
  by (simp add: construct_warm_def numeral_eq_Suc config_key_def new_locked_def Let_def update_instance_def nth_append dict_put_fresh)

lemma construct_settled:
  assumes "settled s" "load cfg = Inr u" "construct_warm load cfg s = (t, s')"
  shows "settled s' \<and> (\<exists>r. t = Ready r \<and> dict_get (wr_instances s') (wc_model_id cfg) = Some r)
    \<and> (\<forall>k r. dict_get (wr_instances s) k = Some r \<longrightarrow> dict_get (wr_instances s') k = Some r \<and> wr_objects s' ! r = wr_objects s ! r)
    \<and> wr_loads s' = wr_loads s @ (if dict_get (wr_instances s) (wc_model_id cfg) = None then [wc_model_id cfg] else [])"
proof (cases "dict_get (wr_instances s) (wc_model_id cfg)")
  case (Some r)
  then show ?thesis using construct_known [OF assms(1) Some] assms by auto
next
  case None
  then have s': "t = Ready (length (wr_objects s))" "s' = \<lparr>wr_instances = wr_instances s @ [(wc_model_id cfg, length (wr_objects s))],
     wr_objects = wr_objects s @ [\<lparr>is_config = Some cfg, is_model = Some cfg, is_initialized = True\<rparr>],
     wr_loads = wr_loads s @ [wc_model_id cfg]\<rparr>"
    using construct_new [where load = load, OF None assms(2)] assms(3) by simp_all
  have lt: "r < length (wr_objects s)" if "(k, r) \<in> set (wr_instances s)" for k r
    using assms(1) that unfolding settled_def by blast
  have "settled s'"
    using assms(1) lt unfolding settled_def s' by (auto simp: nth_append)
  moreover have "dict_get (wr_instances s') (wc_model_id cfg) = Some (length (wr_objects s))"
    using None by (simp add: s' map_add_def)
  moreover have "dict_get (wr_instances s') k = Some r \<and> wr_objects s' ! r = wr_objects s ! r"
    if "dict_get (wr_instances s) k = Some r" for k r
    using that None lt [OF map_of_SomeD [OF that]] by (auto simp: s' map_add_def nth_append split: option.split)
  ultimately show ?thesis using None s' by simp
qed

definition construct_all :: "(warm_config \<Rightarrow> unit or_raise) \<Rightarrow> warm_config list \<Rightarrow> warm_state \<Rightarrow> warm_state" where
  "construct_all load cfgs s = fold (\<lambda>cfg s. snd (construct_warm load cfg s)) cfgs s"

lemma construct_all_Cons: "construct_all load (cfg # cfgs) s = construct_all load cfgs (snd (construct_warm load cfg s))"
  by (simp add: construct_all_def)

lemma construct_all_settled:
  assumes "settled s" "\<forall>cfg\<in>set cfgs. \<exists>u. load cfg = Inr u"
  shows "settled (construct_all load cfgs s)
    \<and> (\<forall>k r. dict_get (wr_instances s) k = Some r \<longrightarrow>
         dict_get (wr_instances (construct_all load cfgs s)) k = Some r \<and> wr_objects (construct_all load cfgs s) ! r = wr_objects s ! r)
    \<and> wr_loads (construct_all load cfgs s) = wr_loads s @ dedup_on (\<lambda>k. k) (dom (dict_get (wr_instances s))) (map wc_model_id cfgs)
    \<and> dom (dict_get (wr_instances (construct_all load cfgs s))) = dom (dict_get (wr_instances s)) \<union> wc_model_id ` set cfgs"
  using assms
proof (induction cfgs arbitrary: s)
  case (Cons cfg cfgs)
  obtain u where u: "load cfg = Inr u" using Cons.prems(2) by auto
  obtain t s1 where s1: "construct_warm load cfg s = (t, s1)" by fastforce
  obtain r where step: "settled s1" "dict_get (wr_instances s1) (wc_model_id cfg) = Some r"
    "\<And>k r. dict_get (wr_instances s) k = Some r \<Longrightarrow> dict_get (wr_instances s1) k = Some r \<and> wr_objects s1 ! r = wr_objects s ! r"
    "wr_loads s1 = wr_loads s @ (if dict_get (wr_instances s) (wc_model_id cfg) = None then [wc_model_id cfg] else [])"
    using construct_settled [OF Cons.prems(1) u s1] by blast
  have dom1: "dom (dict_get (wr_instances s1)) = insert (wc_model_id cfg) (dom (dict_get (wr_instances s)))"
  proof (cases "dict_get (wr_instances s) (wc_model_id cfg)")
    case None
    then show ?thesis using construct_new [where load = load, OF None u] s1 by (auto simp: map_add_def split: option.splits)
  next
    case (Some q)
    then show ?thesis using construct_known [OF Cons.prems(1) Some] s1 by auto
  qed
  have IH: "settled (construct_all load cfgs s1)"
    "\<And>k r. dict_get (wr_instances s1) k = Some r \<Longrightarrow>
         dict_get (wr_instances (construct_all load cfgs s1)) k = Some r \<and> wr_objects (construct_all load cfgs s1) ! r = wr_objects s1 ! r"
    "wr_loads (construct_all load cfgs s1) = wr_loads s1 @ dedup_on (\<lambda>k. k) (dom (dict_get (wr_instances s1))) (map wc_model_id cfgs)"
    "dom (dict_get (wr_instances (construct_all load cfgs s1))) = dom (dict_get (wr_instances s1)) \<union> wc_model_id ` set cfgs"
    using Cons.IH [OF step(1)] Cons.prems(2) by auto
  have "wr_loads (construct_all load cfgs s1) = wr_loads s @ dedup_on (\<lambda>k. k) (dom (dict_get (wr_instances s))) (map wc_model_id (cfg # cfgs))"
    unfolding IH(3) step(4) dom1 by (auto simp: dom_def insert_absorb)
  moreover have "dict_get (wr_instances (construct_all load cfgs s1)) k = Some q \<and> wr_objects (construct_all load cfgs s1) ! q = wr_objects s ! q"
    if "dict_get (wr_instances s) k = Some q" for k q
    using step(3) [OF that] IH(2) [of k q] by simp
  ultimately show ?case
    using IH(1,4) dom1 unfolding construct_all_Cons s1 snd_conv by (intro conjI allI impI) (simp_all add: Un_commute)
qed (simp add: construct_all_def)

text \<open>
  Constructed one after another, models load once. When every load succeeds, any sequence of
  constructions loads each model id exactly once, at its first mention and in that order; a later
  construction with a known id returns the instance of the first and its weights, whatever else the later
  configuration says.
\<close>
theorem warm_models_load_once_in_turn:
  assumes "\<forall>cfg\<in>set cfgs. load cfg = Inr ()"
  shows "let s = construct_all load cfgs no_warm
    in wr_loads s = dedup_on (\<lambda>k. k) {} (map wc_model_id cfgs)
       \<and> (\<forall>cfg. wc_model_id cfg \<in> wc_model_id ` set cfgs \<longrightarrow>
            (\<exists>r m. construct_warm load cfg s = (Ready r, s) \<and> is_model (wr_objects s ! r) = Some m
               \<and> is_config (wr_objects s ! r) = Some m \<and> wc_model_id m = wc_model_id cfg))"
proof -
  let ?s = "construct_all load cfgs no_warm"
  have "settled no_warm" by (simp add: settled_def no_warm_def)
  moreover have "\<forall>cfg\<in>set cfgs. \<exists>u. load cfg = Inr u" using assms by blast
  ultimately have all: "settled ?s"
    "wr_loads ?s = wr_loads no_warm @ dedup_on (\<lambda>k. k) (dom (dict_get (wr_instances no_warm))) (map wc_model_id cfgs)"
    "dom (dict_get (wr_instances ?s)) = dom (dict_get (wr_instances no_warm)) \<union> wc_model_id ` set cfgs"
    using construct_all_settled by blast+
  have nw: "wr_loads no_warm = []" "dom (dict_get (wr_instances no_warm)) = {}" by (simp_all add: no_warm_def)
  have ready: "settled ?s" by (rule all(1))
  have loads: "wr_loads ?s = dedup_on (\<lambda>k. k) {} (map wc_model_id cfgs)"
    using all(2) unfolding nw append_Nil .
  have dom: "dom (dict_get (wr_instances ?s)) = wc_model_id ` set cfgs"
    using all(3) unfolding nw Un_empty_left .
  have "\<exists>r m. construct_warm load cfg ?s = (Ready r, ?s) \<and> is_model (wr_objects ?s ! r) = Some m
      \<and> is_config (wr_objects ?s ! r) = Some m \<and> wc_model_id m = wc_model_id cfg"
    if known: "wc_model_id cfg \<in> wc_model_id ` set cfgs" for cfg
  proof -
    obtain r where r: "dict_get (wr_instances ?s) (wc_model_id cfg) = Some r"
      using domD [OF known [folded dom]] by (rule exE)
    obtain m where m: "is_model (wr_objects ?s ! r) = Some m" "is_config (wr_objects ?s ! r) = Some m" "wc_model_id m = wc_model_id cfg"
      using settledD [OF ready r] by (rule exE) simp
    show ?thesis by (intro exI conjI) (rule construct_known [OF ready r] m)+
  qed
  then show ?thesis unfolding Let_def using loads by blast
qed

section \<open>Construction at the same time\<close>

text \<open>
  C25. The lock covers the table but not the load. Two threads that construct one model id together may
  both pass the test of _initialized; when the first is done and in use, the second resets the instance and
  loads again, and if that load fails, the first thread's instance is left initialized without weights: every
  embed and generate on it raises from then on, and every later construction of that id hands out the same
  broken instance without loading anything.
\<close>
theorem racing_load_breaks_a_ready_model:
  assumes "wc_model_id a = wc_model_id b" and "load a = Inr ()" and "load b = Inl e"
  shows "let (ts, s) = run_warm load [a, b] [0, 0, 0, 1, 1, 0, 0, 0, 1, 1] ([Calling, Calling], no_warm)
    in ts = [Ready 0, Raised e] \<and> is_initialized (wr_objects s ! 0)
       \<and> (\<forall>encode texts. \<exists>x. warm_embed encode (wr_objects s ! 0) texts = Inl x)
       \<and> (\<forall>ports messages. \<exists>x. warm_generate ports (wr_objects s ! 0) messages = Inl x)
       \<and> (\<forall>cfg. wc_model_id cfg = wc_model_id a \<longrightarrow> construct_warm load cfg s = (Ready 0, s))"
  using assms
  by (simp add: run_warm_def no_warm_def config_key_def new_locked_def Let_def update_instance_def numeral_eq_Suc
      warm_embed_def warm_generate_def construct_warm_def)

section \<open>Witnesses\<close>

definition demo_warm :: "string \<Rightarrow> warm_config" where
  "demo_warm path = \<lparr>wc_model_id = ''m'', wc_kind = Kind_EMBED, wc_load_path = path\<rparr>"

theorem one_warm_instance_per_model_id_witness:
  "\<exists>ts s r. run_warm (\<lambda>_. Inr ()) [demo_warm ''p'', demo_warm ''q''] [0, 1, 0, 1, 0, 1, 0, 1, 0, 1, 0, 1] ([Calling, Calling], no_warm) = (ts, s)
     \<and> ts ! 0 = Ready r \<and> ts ! 1 = Ready r"
proof -
  let ?sched = "[0, 1, 0, 1, 0, 1, 0, 1, 0, 1, 0, 1 :: nat]" and ?cfgs = "[demo_warm ''p'', demo_warm ''q'']"
  obtain ts s where run: "run_warm (\<lambda>_. Inr ()) ?cfgs ?sched ([Calling, Calling], no_warm) = (ts, s)" by fastforce
  have both: "ts ! 0 = Ready 0" "ts ! 1 = Ready 0"
    using run by (auto simp: run_warm_def no_warm_def config_key_def new_locked_def Let_def update_instance_def numeral_eq_Suc demo_warm_def)
  have run': "run_warm (\<lambda>_. Inr ()) ?cfgs ?sched (replicate (length ?cfgs) Calling, no_warm) = (ts, s)"
    using run by (simp add: numeral_eq_Suc)
  have "(0 = (0 :: nat)) = (wc_model_id (?cfgs ! 0) = wc_model_id (?cfgs ! 1))"
    using one_warm_instance_per_model_id [OF run' _ _ _ both] by simp
  then show ?thesis using run both by blast
qed

theorem warm_models_load_once_in_turn_witness:
  "wr_loads (construct_all (\<lambda>_. Inr ()) [demo_warm ''p'', demo_warm ''q''] no_warm) = [''m'']"
proof -
  have d: "dedup_on (\<lambda>k. k) {} (map wc_model_id [demo_warm ''p'', demo_warm ''q'']) = [''m'']" by (simp add: demo_warm_def)
  have "\<forall>cfg\<in>set [demo_warm ''p'', demo_warm ''q'']. (\<lambda>_. Inr ()) cfg = (Inr () :: unit or_raise)" by simp
  from conjunct1 [OF warm_models_load_once_in_turn [OF this, unfolded Let_def]] show ?thesis unfolding d .
qed

theorem racing_load_breaks_a_ready_model_witness:
  "fst (run_warm (\<lambda>c. if wc_load_path c = ''p'' then Inr () else Inl OSError) [demo_warm ''p'', demo_warm ''q'']
     [0, 0, 0, 1, 1, 0, 0, 0, 1, 1] ([Calling, Calling], no_warm)) = [Ready 0, Raised OSError]"
proof -
  have "wc_model_id (demo_warm ''p'') = wc_model_id (demo_warm ''q'')" by (simp add: demo_warm_def)
  from racing_load_breaks_a_ready_model [OF this, of "\<lambda>c. if wc_load_path c = ''p'' then Inr () else Inl OSError" OSError]
  show ?thesis by (auto simp: demo_warm_def split: prod.splits)
qed

end
