(* ===== verification/Durable_Ledger.thy ===== *)
theory Durable_Ledger
  imports Pipeline
begin

text \<open>
  The stage ledger on Redis (pipelines/ledger.py, RedisStageLedger) and the memory write scope
  (platform/application/idempotent_write_scope.py). The client is a record of the two calls the ledger
  makes, and ledger_client_documented says what the server documents of them; a blob is the row list
  whose JSON text is json's, and the printing and reading of datetimes are parameters.

  The lemmas show that the durable ledger answers every sequence of calls as the in-process ledger of
  theory Pipeline does, and what the write scope publishes.
\<close>

section \<open>The ledger\<close>

type_synonym blob = "(string \<times> (string, json) dict) list"

text \<open>GET key and SET key value, the latter with or without NX.\<close>
record 'w ledger_client =
  lg_get :: "string \<Rightarrow> 'w \<Rightarrow> blob option"
  lg_set :: "string \<Rightarrow> blob \<Rightarrow> bool \<Rightarrow> 'w \<Rightarrow> 'w"

definition ledger_client_documented :: "'w ledger_client \<Rightarrow> ('w \<Rightarrow> string \<Rightarrow> blob option) \<Rightarrow> bool" where
  "ledger_client_documented lc view = (\<forall>w k. lg_get lc k w = view w k \<and>
     (\<forall>v nx. view (lg_set lc k v nx w) = (if nx \<and> view w k \<noteq> None then view w else (view w)(k \<mapsto> v))))"

definition model_ledger_client :: "(string \<Rightarrow> blob option) ledger_client" where
  "model_ledger_client = \<lparr>lg_get = (\<lambda>k w. w k),
     lg_set = (\<lambda>k v nx w. if nx \<and> w k \<noteq> None then w else w(k \<mapsto> v))\<rparr>"

lemma model_ledger_client_documented: "ledger_client_documented model_ledger_client (\<lambda>w. w)"
  by (simp add: ledger_client_documented_def model_ledger_client_def)

text \<open>isoformat and fromisoformat of the event fields.\<close>
record iso_codec =
  ic_print :: "int \<Rightarrow> string"
  ic_parse :: "string \<Rightarrow> int or_raise"

definition default_prefix :: string where
  "default_prefix = ''mu:pipeline-ledger''"

definition ledger_key :: "string \<Rightarrow> string \<Rightarrow> string" where
  "ledger_key prefix key = prefix @ '':'' @ key"

definition durable_completed ::
  "iso_codec \<Rightarrow> 'w ledger_client \<Rightarrow> string \<Rightarrow> string \<Rightarrow> 'w \<Rightarrow> domain_event list option or_raise" where
  "durable_completed ic lc prefix key w = (case lg_get lc (ledger_key prefix key) w of
       None \<Rightarrow> Inr None
     | Some raw \<Rightarrow> rbind (decode_events (validate_event (ic_parse ic)) raw) (\<lambda>events. Inr (Some events)))"

definition durable_mark ::
  "iso_codec \<Rightarrow> 'w ledger_client \<Rightarrow> string \<Rightarrow> string \<Rightarrow> domain_event list \<Rightarrow> 'w \<Rightarrow> 'w" where
  "durable_mark ic lc prefix key events w =
     lg_set lc (ledger_key prefix key) (encode_events event_name (event_data (ic_print ic)) events) True w"

section \<open>Refinement of the in-process ledger\<close>

datatype ledger_call = Look string | Mark string "domain_event list"

fun durable_answers ::
  "iso_codec \<Rightarrow> 'w ledger_client \<Rightarrow> string \<Rightarrow> ledger_call list \<Rightarrow> 'w \<Rightarrow> domain_event list option or_raise list" where
  "durable_answers ic lc prefix [] w = []"
| "durable_answers ic lc prefix (Look k # cs) w = durable_completed ic lc prefix k w # durable_answers ic lc prefix cs w"
| "durable_answers ic lc prefix (Mark k es # cs) w = durable_answers ic lc prefix cs (durable_mark ic lc prefix k es w)"

fun memory_answers :: "ledger_call list \<Rightarrow> ledger \<Rightarrow> domain_event list option list" where
  "memory_answers [] l = []"
| "memory_answers (Look k # cs) l = completed_with_events k l # memory_answers cs l"
| "memory_answers (Mark k es # cs) l = memory_answers cs (mark_completed k es l)"

definition call_valid :: "ledger_call \<Rightarrow> bool" where
  "call_valid c = (case c of Look _ \<Rightarrow> True | Mark _ es \<Rightarrow> list_all (\<lambda>e. valid_ns (event_ns e)) es)"

text \<open>The coupling: under the prefix lies the encoding of what the in-process ledger holds.\<close>
definition ledger_rel :: "iso_codec \<Rightarrow> string \<Rightarrow> (string \<Rightarrow> blob option) \<Rightarrow> ledger \<Rightarrow> bool" where
  "ledger_rel ic prefix db l = (\<forall>k. db (ledger_key prefix k)
       = map_option (encode_events event_name (event_data (ic_print ic))) (completed_with_events k l)
     \<and> (\<forall>es. completed_with_events k l = Some es \<longrightarrow> list_all (\<lambda>e. valid_ns (event_ns e)) es))"

lemma ledger_key_inj [simp]: "ledger_key p k = ledger_key p j \<longleftrightarrow> k = j"
  by (simp add: ledger_key_def)

lemma encoded_events_decode:
  assumes "\<forall>t. ic_parse ic (ic_print ic t) = Inr t" "list_all (\<lambda>e. valid_ns (event_ns e)) es"
  shows "decode_events (validate_event (ic_parse ic)) (encode_events event_name (event_data (ic_print ic)) es) = Inr es"
  by (rule codec_roundtrip) (use assms in \<open>auto simp: list_all_iff event_name_known intro: validate_event_data\<close>)

lemma durable_completed_rel:
  assumes "ledger_client_documented lc view" "\<forall>t. ic_parse ic (ic_print ic t) = Inr t" "ledger_rel ic prefix (view w) l"
  shows "durable_completed ic lc prefix k w = Inr (completed_with_events k l)"
proof -
  have "lg_get lc (ledger_key prefix k) w
      = map_option (encode_events event_name (event_data (ic_print ic))) (completed_with_events k l)"
    using assms(1,3) by (simp add: ledger_client_documented_def ledger_rel_def)
  moreover have "list_all (\<lambda>e. valid_ns (event_ns e)) es" if "completed_with_events k l = Some es" for es
    using assms(3) that by (simp add: ledger_rel_def)
  ultimately show ?thesis
    using encoded_events_decode [OF assms(2)]
    by (cases "completed_with_events k l") (simp_all add: durable_completed_def)
qed

lemma durable_mark_rel:
  assumes "ledger_client_documented lc view" "ledger_rel ic prefix (view w) l" "list_all (\<lambda>e. valid_ns (event_ns e)) es"
  shows "ledger_rel ic prefix (view (durable_mark ic lc prefix k es w)) (mark_completed k es l)"
proof (cases "completed_with_events k l")
  case None
  then have "view (durable_mark ic lc prefix k es w)
      = (view w)(ledger_key prefix k \<mapsto> encode_events event_name (event_data (ic_print ic)) es)"
    using assms(1,2) by (simp add: ledger_client_documented_def ledger_rel_def durable_mark_def)
  then show ?thesis
    using assms(2,3) mem_ledger.mark_fresh [OF None] mem_ledger.mark_other [of _ k es l]
    unfolding ledger_rel_def by (metis fun_upd_apply ledger_key_inj option.inject option.simps(9))
next
  case (Some old)
  then have "view (durable_mark ic lc prefix k es w) = view w"
    using assms(1,2) by (simp add: ledger_client_documented_def ledger_rel_def durable_mark_def)
  then show ?thesis
    using assms(2) mem_ledger.mark_kept [OF Some] mem_ledger.mark_other [of _ k es l] Some
    unfolding ledger_rel_def by metis
qed

lemma durable_answers_rel:
  assumes "ledger_client_documented lc view" "\<forall>t. ic_parse ic (ic_print ic t) = Inr t"
  shows "ledger_rel ic prefix (view w) l \<Longrightarrow> list_all call_valid cs
    \<Longrightarrow> durable_answers ic lc prefix cs w = map Inr (memory_answers cs l)"
proof (induction cs arbitrary: w l)
  case (Cons c cs)
  then show ?case
    using durable_completed_rel [OF assms] durable_mark_rel [OF assms(1)]
    by (cases c) (simp_all add: call_valid_def)
qed simp

text \<open>
  C11. The durable ledger refines the in-process one. On a client that keeps what Redis documents, and with
  nothing stored under the prefix, any sequence of look-ups and marks whose events have valid namespaces is
  answered as the in-process ledger answers it: the first mark of a key wins, later marks change nothing,
  a look-up gives back exactly the events of the mark, and none of it raises.
\<close>
theorem durable_ledger_refines_in_process:
  assumes "ledger_client_documented lc view" "\<forall>t. ic_parse ic (ic_print ic t) = Inr t"
    and "\<forall>k. view w (ledger_key prefix k) = None" "list_all call_valid calls"
  shows "durable_answers ic lc prefix calls w = map Inr (memory_answers calls [])"
  by (rule durable_answers_rel [OF assms(1,2) _ assms(4)])
    (simp add: ledger_rel_def assms(3) completed_with_events_def)

definition demo_iso :: iso_codec where
  "demo_iso = \<lparr>ic_print = (\<lambda>t. if t < 0 then CHR ''-'' # replicate (nat (- t)) (CHR ''i'') else replicate (nat t) (CHR ''i'')),
     ic_parse = (\<lambda>s. Inr (case s of [] \<Rightarrow> 0 | c # cs \<Rightarrow> if c = CHR ''-'' then - int (length cs) else int (length s)))\<rparr>"

definition demo_event :: "string \<Rightarrow> domain_event" where
  "demo_event i = IngestCompleted \<lparr>ns_org = ''o'', ns_workspace = ''w'', ns_user = ''u'', ns_session = ''s'',
     ns_visibility = PRIVATE\<rparr> [i]"

theorem durable_ledger_refines_in_process_witness:
  "durable_answers demo_iso model_ledger_client default_prefix
     [Look ''k'', Mark ''k'' [demo_event ''a''], Mark ''k'' [demo_event ''b''], Look ''k''] (\<lambda>_. None)
   = [Inr None, Inr (Some [demo_event ''a''])]"
proof -
  have "ic_parse demo_iso (ic_print demo_iso t) = Inr t" for t
    by (cases "t < 0"; cases "nat t") (simp_all add: demo_iso_def split: list.split)
  moreover have "list_all call_valid [Look ''k'', Mark ''k'' [demo_event ''a''], Mark ''k'' [demo_event ''b''], Look ''k'']"
    by code_simp
  ultimately have "durable_answers demo_iso model_ledger_client default_prefix
      [Look ''k'', Mark ''k'' [demo_event ''a''], Mark ''k'' [demo_event ''b''], Look ''k''] (\<lambda>_. None)
    = map Inr (memory_answers [Look ''k'', Mark ''k'' [demo_event ''a''], Mark ''k'' [demo_event ''b''], Look ''k''] [])"
    by (intro durable_ledger_refines_in_process [OF model_ledger_client_documented]) simp_all
  then show ?thesis
    by (simp add: completed_with_events_def mark_completed_def dict_setdefault_def)
qed

section \<open>The write scope\<close>

text \<open>MemoryWriteScope: the buffered events, beside the stores its step writes and the bus.\<close>
record 'w write_scope =
  ws_buffer :: "domain_event list"
  ws_world :: 'w

definition scope_add :: "domain_event \<Rightarrow> 'w write_scope \<Rightarrow> 'w write_scope" where
  "scope_add e s = s\<lparr>ws_buffer := ws_buffer s @ [e]\<rparr>"

text \<open>commit: the write, then the buffer is taken, then each event is published.\<close>
definition scope_commit ::
  "('w, unit) eff \<Rightarrow> (domain_event \<Rightarrow> ('w, unit) eff) \<Rightarrow> ('w write_scope, unit) eff" where
  "scope_commit write publish s = (case write (ws_world s) of
       (Inl e, w) \<Rightarrow> (Inl e, s\<lparr>ws_world := w\<rparr>)
     | (Inr _, w) \<Rightarrow> (case for_each publish (ws_buffer s) w of
           (r, w') \<Rightarrow> (r, s\<lparr>ws_buffer := [], ws_world := w'\<rparr>)))"

text \<open>
  A commit whose write raises publishes nothing and keeps the events for the next one. A commit whose
  publication raises has taken the buffer already: a retry writes again and publishes none of the events
  that were still to come.
\<close>
lemma scope_commit_outcomes:
  "write (ws_world s) = (Inl e, w) \<Longrightarrow> scope_commit write publish s = (Inl e, s\<lparr>ws_world := w\<rparr>)"
  "write (ws_world s) = (Inr u, w) \<Longrightarrow> for_each publish (ws_buffer s) w = (Inl e, w')
    \<Longrightarrow> scope_commit write publish s = (Inl e, s\<lparr>ws_buffer := [], ws_world := w'\<rparr>)
      \<and> (write w' = (Inr u', w'') \<longrightarrow> scope_commit write publish (s\<lparr>ws_buffer := [], ws_world := w'\<rparr>)
           = (Inr (), s\<lparr>ws_buffer := [], ws_world := w''\<rparr>))"
  by (simp_all add: scope_commit_def)

end
