(* ===== verification/Contract_Models.thy ===== *)
theory Contract_Models
  imports Memory_Model
begin

text \<open>
  The value objects of mu_contracts/domain/model that carry decisions of their own: governed handles and
  grants (governance.py), conflicts (conflict.py, and storage/domain/conflict.py with the same shape),
  devices and their private deltas (device.py, device_sync.py), sessions (session.py), artifacts
  (artifact.py), the content guard of notifications (notification.py), personas (persona.py) and token
  usage (usage.py). A validator is a function into the value or ValueError; instants are microseconds.

  The lemmas show when access ends, when an artifact may be collected, and which handles the canonical
  string of a reference tells apart.
\<close>

section \<open>Governance\<close>

datatype shareable_type = Sh_MEMORY | Sh_ARTIFACT | Sh_COMPOSED

fun shareable_value :: "shareable_type \<Rightarrow> string" where
  "shareable_value Sh_MEMORY = ''memory''"
| "shareable_value Sh_ARTIFACT = ''artifact''"
| "shareable_value Sh_COMPOSED = ''composed''"

datatype permission = READ | WRITE | DELETE | SHARE

datatype direction = PUBLISH | PULL | SUBSCRIBE

datatype principal_ref_kind = Ref_PRINCIPAL | Ref_ROLE | Ref_SESSION

datatype grant_state = Gr_ACTIVE | Gr_REVOKED | Gr_EXPIRED | Gr_SUPERSEDED

record shareable_ref =
  sr_object_type :: shareable_type
  sr_object_id :: string
  sr_content_hash :: string
  sr_org_id :: string
  sr_workspace_id :: string
  sr_origin_namespace_id :: string

definition shareable_ref_ok :: "shareable_ref \<Rightarrow> bool" where
  "shareable_ref_ok r = (sr_object_id r \<noteq> [] \<and> sr_content_hash r \<noteq> [] \<and> sr_org_id r \<noteq> []
     \<and> sr_workspace_id r \<noteq> [] \<and> sr_origin_namespace_id r \<noteq> [])"

definition stream_id :: "shareable_ref \<Rightarrow> string" where
  "stream_id r = ''prov:'' @ sr_org_id r @ '':'' @ shareable_value (sr_object_type r) @ '':'' @ sr_object_id r"

definition canonical_parts :: "shareable_ref \<Rightarrow> string list" where
  "canonical_parts r = [shareable_value (sr_object_type r), sr_object_id r, sr_content_hash r, sr_org_id r,
     sr_workspace_id r, sr_origin_namespace_id r]"

definition canonical :: "shareable_ref \<Rightarrow> string" where
  "canonical r = join_with (CHR ''|'') (canonical_parts r)"

record principal_ref =
  pn_kind :: principal_ref_kind
  pn_id :: string
  pn_org_id :: string
  pn_workspace_id :: string

record revocation =
  rv_revoked_by :: string
  rv_revoked_at :: int
  rv_reason :: "string option"
  rv_cascade_root :: string

record share_grant =
  gt_id :: string
  gt_object_ref :: shareable_ref
  gt_grantor :: string
  gt_grantee :: principal_ref
  gt_direction :: direction
  gt_permissions :: "permission set"
  gt_policy_id :: string
  gt_packet_id :: "string option"
  gt_parent_grant_id :: "string option"
  gt_depth :: int
  gt_state :: grant_state
  gt_revocation :: "revocation option"
  gt_issued_at :: int
  gt_expires_at :: "int option"
  gt_provenance_id :: string

definition grant_is_terminal :: "share_grant \<Rightarrow> bool" where
  "grant_is_terminal g = (gt_state g \<in> {Gr_REVOKED, Gr_EXPIRED})"

definition grant_is_active :: "share_grant \<Rightarrow> int option \<Rightarrow> bool" where
  "grant_is_active g at_t =
     (if gt_state g \<noteq> Gr_ACTIVE then False
      else case (at_t, gt_expires_at g) of (Some t, Some e) \<Rightarrow> \<not> e \<le> t | _ \<Rightarrow> True)"

definition grant_can :: "share_grant \<Rightarrow> permission \<Rightarrow> int option \<Rightarrow> bool" where
  "grant_can g p at_t = (grant_is_active g at_t \<and> p \<in> gt_permissions g)"

record composed_context =
  cc_id :: string
  cc_org_id :: string
  cc_workspace_id :: string
  cc_namespace_id :: string
  cc_source_memory_ids :: "string list"
  cc_source_artifact_ids :: "string list"
  cc_intent :: string
  cc_body_ref :: string
  cc_content_hash :: string
  cc_provenance_id :: string
  cc_created_at :: int

definition as_ref :: "composed_context \<Rightarrow> shareable_ref" where
  "as_ref c = \<lparr>sr_object_type = Sh_COMPOSED, sr_object_id = cc_id c, sr_content_hash = cc_content_hash c,
     sr_org_id = cc_org_id c, sr_workspace_id = cc_workspace_id c, sr_origin_namespace_id = cc_namespace_id c\<rparr>"

section \<open>Conflicts\<close>

datatype conflict_state = Cf_DETECTED | Cf_AUTO_RESOLVED | Cf_MANUAL_PENDING | Cf_RESOLVED | Cf_DISMISSED | Cf_REOPENED

record conflict_edge_row =
  ce_memory_id :: string
  ce_peer_ids :: "string set"
  ce_conflict_id :: string
  ce_state :: conflict_state
  ce_pin_blocked :: bool

type_synonym conflict_edges = "(string, conflict_edge_row) dict"

definition unresolved_for :: "conflict_edges \<Rightarrow> string \<Rightarrow> bool" where
  "unresolved_for rows mid = (case dict_get rows mid of None \<Rightarrow> False
     | Some row \<Rightarrow> ce_state row \<in> {Cf_DETECTED, Cf_MANUAL_PENDING, Cf_REOPENED})"

definition pin_blocked_for :: "conflict_edges \<Rightarrow> string \<Rightarrow> bool" where
  "pin_blocked_for rows mid = (case dict_get rows mid of None \<Rightarrow> False | Some row \<Rightarrow> ce_pin_blocked row)"

section \<open>Devices\<close>

datatype client_mode = THIN | FULL_LOCAL

datatype privacy_tier = SERVER_READABLE | E2E

datatype hosting_mode = Hosting_LOCAL | HOSTED_SERVER_READABLE | HOSTED_E2E

datatype device_state = Dev_PENDING | Dev_ACTIVE | Dev_REVOKED

text \<open>The fields of DeviceRecord that its two methods read.\<close>
record device =
  dv_client_mode :: client_mode
  dv_privacy_tier :: privacy_tier
  dv_state :: device_state

definition is_syncable :: "device \<Rightarrow> bool" where
  "is_syncable d = (dv_state d = Dev_ACTIVE)"

definition hosting_mode_of :: "device \<Rightarrow> hosting_mode" where
  "hosting_mode_of d =
     (if dv_privacy_tier d = E2E then HOSTED_E2E
      else if dv_client_mode d = FULL_LOCAL then Hosting_LOCAL
      else HOSTED_SERVER_READABLE)"

datatype sync_op = UPSERT | SUPERSEDE | TOMBSTONE | DEMOTE | REINSTATE | PIN | UNPIN

record private_delta =
  pd_seq :: int
  pd_origin_device_id :: string
  pd_op :: sync_op
  pd_memory_id :: string
  pd_content_hash :: string
  pd_tier :: string
  pd_valid_at :: int
  pd_valid_at_inferred :: bool
  pd_lamport :: int
  pd_occurred_at :: int
  pd_provenance_id :: string
  pd_winner_id :: "string option"
  pd_loser_id :: "string option"
  pd_caused_by_seq :: "int option"
  pd_payload_ref :: "string option"
  pd_key_epoch :: int
  pd_ciphertext :: "string option"

definition private_delta_fields_ok :: "private_delta \<Rightarrow> bool" where
  "private_delta_fields_ok d = (0 \<le> pd_seq d \<and> pd_origin_device_id d \<noteq> [] \<and> pd_memory_id d \<noteq> []
     \<and> pd_content_hash d \<noteq> [] \<and> pd_tier d \<noteq> [] \<and> 0 \<le> pd_lamport d \<and> pd_provenance_id d \<noteq> [] \<and> 0 \<le> pd_key_epoch d)"

definition supersede_carries_pair :: "private_delta \<Rightarrow> private_delta or_raise" where
  "supersede_carries_pair d =
     (if pd_op d \<in> {SUPERSEDE, REINSTATE} \<and> (pd_winner_id d = None \<or> pd_loser_id d = None)
      then Inl ValueError else Inr d)"

definition mk_private_delta :: "private_delta \<Rightarrow> private_delta or_raise" where
  "mk_private_delta d = (if private_delta_fields_ok d then supersede_carries_pair d else Inl ValueError)"

section \<open>Sessions, artifacts, notifications, personas, usage\<close>

datatype session_state = Ses_OPEN | Ses_CLOSED

record session_definition =
  sd_state :: session_state
  sd_expires_at :: "int option"

definition session_is_active :: "int \<Rightarrow> session_definition \<Rightarrow> int option \<Rightarrow> bool" where
  "session_is_active clock s at_t =
     (sd_state s = Ses_OPEN \<and> unexpired (sd_expires_at s) (at_or_now at_t clock))"

datatype retention_policy = REFERENCE_COUNTED | PINNED | RECENCY_BOUNDED

record retention =
  rt_policy :: retention_policy
  rt_reference_count :: int
  rt_pinned :: bool
  rt_expires_at :: "int option"

definition is_gc_eligible :: "retention \<Rightarrow> int \<Rightarrow> bool" where
  "is_gc_eligible r at_t =
     (if rt_pinned r \<or> rt_policy r = PINNED then False
      else if rt_reference_count r > 0 then False
      else case (rt_policy r, rt_expires_at r) of
          (RECENCY_BOUNDED, Some e) \<Rightarrow> e \<le> at_t
        | _ \<Rightarrow> rt_policy r = REFERENCE_COUNTED)"

definition forbidden_param_keys :: "string list" where
  "forbidden_param_keys = [''body'', ''text'', ''content'', ''message'', ''prompt'', ''raw'', ''secret'']"

definition content_free_params :: "(string, string) dict \<Rightarrow> (string, string) dict or_raise" where
  "content_free_params params =
     (if list_ex (\<lambda>(k, _). py_lower k \<in> set forbidden_param_keys) params then Inl ValueError else Inr params)"

definition must_be_private :: "namespace \<Rightarrow> namespace or_raise" where
  "must_be_private ns = (if ns_visibility ns \<noteq> PRIVATE then Inl ValueError else Inr ns)"

record usage =
  us_prompt_tokens :: int
  us_completion_tokens :: int
  us_total_tokens :: int
  us_cached_input_tokens :: int
  us_reasoning_tokens :: int

definition to_meter_fields :: "usage \<Rightarrow> (string, int) dict" where
  "to_meter_fields u = [(''tokens_in'', us_prompt_tokens u), (''tokens_out'', us_completion_tokens u),
     (''cached_input_tokens'', us_cached_input_tokens u), (''reasoning_tokens'', us_reasoning_tokens u)]"

section \<open>Lemmas\<close>

lemma canonical_split:
  assumes "\<forall>w\<in>set (canonical_parts r). CHR ''|'' \<notin> set w"
  shows "split_on (CHR ''|'') (canonical r) = canonical_parts r"
  unfolding canonical_def by (rule split_join) (use assms in \<open>auto simp: canonical_parts_def\<close>)

lemma shareable_value_inj [simp]: "shareable_value a = shareable_value b \<longleftrightarrow> a = b"
  by (cases a; cases b) simp_all

lemma canonical_parts_inj: "canonical_parts r = canonical_parts s \<Longrightarrow> r = s"
  by (simp add: canonical_parts_def)

definition demo_ref :: "string \<Rightarrow> string \<Rightarrow> shareable_ref" where
  "demo_ref i h = \<lparr>sr_object_type = Sh_MEMORY, sr_object_id = i, sr_content_hash = h, sr_org_id = ''o'',
     sr_workspace_id = ''w'', sr_origin_namespace_id = ''n''\<rparr>"

text \<open>
  C27. The canonical string of a reference, the input of its digest, names one reference as long as no
  component holds the separator; but nothing keeps the separator out of an id, and then two references to
  different objects and versions, both valid, have the same canonical string, and with it the same digest.
\<close>
theorem canonical_names_one_reference:
  "(\<forall>r s. (\<forall>w\<in>set (canonical_parts r) \<union> set (canonical_parts s). CHR ''|'' \<notin> set w) \<and> canonical r = canonical s \<longrightarrow> r = s)
   \<and> (\<exists>r s. shareable_ref_ok r \<and> shareable_ref_ok s \<and> canonical r = canonical s
        \<and> sr_object_id r \<noteq> sr_object_id s \<and> sr_content_hash r \<noteq> sr_content_hash s)"
proof (intro conjI allI impI)
  fix r s
  assume "(\<forall>w\<in>set (canonical_parts r) \<union> set (canonical_parts s). CHR ''|'' \<notin> set w) \<and> canonical r = canonical s"
  then have "canonical_parts r = canonical_parts s"
    using canonical_split [of r] canonical_split [of s] by simp
  then show "r = s" by (rule canonical_parts_inj)
next
  show "\<exists>r s. shareable_ref_ok r \<and> shareable_ref_ok s \<and> canonical r = canonical s
      \<and> sr_object_id r \<noteq> sr_object_id s \<and> sr_content_hash r \<noteq> sr_content_hash s"
    by (intro exI [of _ "demo_ref ''a|b'' ''c''"] exI [of _ "demo_ref ''a'' ''b|c''"])
      (simp add: shareable_ref_ok_def canonical_def canonical_parts_def demo_ref_def)
qed

theorem canonical_names_one_reference_witness:
  "demo_ref ''a'' ''b'' = demo_ref (hd (split_on (CHR ''|'') ''a|x'')) ''b''"
proof -
  let ?r = "demo_ref ''a'' ''b''" and ?s = "demo_ref (hd (split_on (CHR ''|'') ''a|x'')) ''b''"
  have "(\<forall>w\<in>set (canonical_parts ?r) \<union> set (canonical_parts ?s). CHR ''|'' \<notin> set w) \<and> canonical ?r = canonical ?s"
    by (simp add: canonical_def canonical_parts_def demo_ref_def)
  then show ?thesis using canonical_names_one_reference [THEN conjunct1, rule_format] by blast
qed

text \<open>
  Access under a grant only ever ends: what it allows at an instant it allowed at every earlier one, a
  grant that is not active allows nothing at any instant, and one with an expiry allows nothing from that
  instant on. Asked without an instant, though, the expiry is not read at all: an active grant long past its
  expiry still allows everything it lists, where a membership asked in the same way takes the clock.
\<close>
lemma grant_access_only_ends:
  "grant_can g p (Some t') \<Longrightarrow> t \<le> t' \<Longrightarrow> grant_can g p (Some t)"
  "gt_state g \<noteq> Gr_ACTIVE \<Longrightarrow> \<not> grant_can g p at_t"
  "gt_expires_at g = Some e \<Longrightarrow> e \<le> t \<Longrightarrow> \<not> grant_can g p (Some t)"
  "grant_can g p None \<longleftrightarrow> gt_state g = Gr_ACTIVE \<and> p \<in> gt_permissions g"
  by (auto simp: grant_can_def grant_is_active_def split: option.splits if_splits)

text \<open>A superseded grant is neither active nor terminal.\<close>
lemma superseded_grant_in_between:
  "gt_state g = Gr_SUPERSEDED \<Longrightarrow> \<not> grant_is_active g at_t \<and> \<not> grant_is_terminal g"
  by (simp add: grant_is_active_def grant_is_terminal_def)

text \<open>A pinned or referenced artifact is never collected; one that may be collected stays so, and one that
  is bounded by recency but has no expiry never is.\<close>
lemma gc_eligibility:
  "rt_pinned r \<or> rt_policy r = PINNED \<or> 0 < rt_reference_count r \<Longrightarrow> \<not> is_gc_eligible r t"
  "is_gc_eligible r t \<Longrightarrow> t \<le> t' \<Longrightarrow> is_gc_eligible r t'"
  "rt_policy r = RECENCY_BOUNDED \<Longrightarrow> rt_expires_at r = None \<Longrightarrow> \<not> is_gc_eligible r t"
  by (auto simp: is_gc_eligible_def split: retention_policy.splits option.splits if_splits)

lemma private_delta_pair:
  "mk_private_delta d = Inr e \<Longrightarrow> e = d \<and> (pd_op d \<in> {SUPERSEDE, REINSTATE} \<longrightarrow> pd_winner_id d \<noteq> None \<and> pd_loser_id d \<noteq> None)"
  by (auto simp: mk_private_delta_def supersede_carries_pair_def split: if_splits)

lemma params_carry_no_content:
  "content_free_params params = Inr params' \<Longrightarrow> params' = params \<and> (\<forall>k v. (k, v) \<in> set params \<longrightarrow> py_lower k \<notin> set forbidden_param_keys)"
  by (auto simp: content_free_params_def list_ex_iff split: if_splits)

lemma hosting_mode_bijection:
  "dv_privacy_tier a \<noteq> E2E \<Longrightarrow> dv_privacy_tier b \<noteq> E2E
    \<Longrightarrow> hosting_mode_of a = hosting_mode_of b \<longleftrightarrow> dv_client_mode a = dv_client_mode b"
  by (cases "dv_client_mode a"; cases "dv_client_mode b") (auto simp: hosting_mode_of_def)

end
