(* ===== verification/Spec2Isabelle.thy ===== *)
theory Spec2Isabelle
  imports Errors Namespace_Model Memory_Model Stm_Store Fusion Degradation Recall Pipeline Ingest Ltm_Graph Distill
    Lifecycle Audit_Trail Platform Schema Extract Mappers Vector_Stores Vector_Laws Local_Memory Local_Laws
    Model_Catalog Model_Router Stm_Caches Control_Plane Wiring Warm_Models Durable_Ledger Contract_Models
begin

text \<open>
  A verification of mu-core, a memory engine for agents in three Python packages under src/packages:
  mu-contracts (value objects, events, errors, settings), mu-engine (tiers, pipelines, recall, the platform
  layer and the model layer) and mu-local (the embedded facade). A memory is captured into the short-term
  tier, promoted into the mid-term tier as an embedded vector, distilled into bi-temporal facts of the
  long-term graph, and recalled through all three tiers under the tenancy of the caller. Below,
  each part is given with the theory that models it and what its lemmas show.

  Foundations. Prelude holds the collections of rules, the result type of fallible code, string joins,
  stable sorting and ordered dictionaries. Errors is the exception tree with its envelopes, classifier and
  guard (mu_contracts/domain/errors.py, storage/errors.py, platform/exceptions.py, platform/decorators.py).
  Namespace_Model is tenancy: namespaces and their prefixes, scopes, memberships and the guard
  (domain/model/memory.py, scope.py, platform/tenancy.py); validated namespaces and prefixes correspond one
  to one. Memory_Model is the record of the engine and of the contracts, with its hash and state moves.
  Contract_Models is the value objects with decisions of their own (grants, conflicts, devices, deltas,
  sessions, artifacts, notifications, personas, usage).

  Stores. Stm_Store is the in-process short-term adapter, which refines a bounded list by recency under the
  contract of locale stm_repository (interpretation mem). Stm_Caches is the Redis, Valkey and Memcached
  adapters over clients that keep what the servers document: a Redis floor is the live last writes of its
  namespace; the Memcached writers, stepped from await to await, are serialised by the compare-and-swap.
  Mappers is the wire form and every row mapper, with round trips. Vector_Stores is the four vector
  adapters; Vector_Laws shows that each meets locale vector_store or exact_vector_store (interpretations
  qdrant, pgvector, chroma, faiss), and from it tenancy of searches and that what was written is found.
  Ltm_Graph is the graph adapter, each query as the function its text denotes; it refines the abstract
  bi-temporal map of locale graph_store (interpretation ltm). Control_Plane is the relational mirror and
  the audit rows on three dialects; Schema is the declarative models and the initial migration, which build
  the same database.

  Pipelines. Pipeline is effects, the event codec, the in-process stage ledger (locale stage_ledger,
  interpretation mem_ledger) and the stage gate; Durable_Ledger is the Redis ledger, a refinement of it, and
  the memory write scope. Ingest is the three ingest stages and their service: a replay changes nothing. Extract is
  the deterministic and the model-backed fact extractor; spans and texts of facts point into their source.
  Distill is consolidation, which keeps one live value per fact and deletes nothing; its lemmas use the graph only
  through locale graph_store.

  Recall. Fusion is weighted reciprocal rank fusion (locale fusion_strategy, interpretation rrf) with its
  closed form. Recall is authorization, the three-channel ranker, the shared arm and federation: nothing
  outside the namespaces of the caller is returned. Degradation is the guards of labels, the event
  catalogue, the degrade table and its fan-out.

  Platform. Lifecycle is the boot order and ordered start and stop; Audit_Trail the audit log with its
  background drain as a step relation; Platform the registry, bus, workflow runner, unit of work and
  container.

  Models. Model_Catalog is tasks, groups, local priority and the validated catalog; Model_Router is completion, streaming, map and
  reduce of long inputs, reranking and composition; Warm_Models is the singleton of loaded models, as steps of threads.

  Facade. Local_Memory is every verb of LocalMemory over the services wired as LocalContainer wires them;
  Local_Laws is the invariant of the container and what its user sees. Wiring is the settings tree, the
  store registry and its factories, and the construction and teardown of the container.

  How the code is read. An exception is a member of exc_class in the left of a sum; code with effects is a
  function from the state to a result and the state after it, so that effects before a raise stay. Scores are exact rationals, instants
  are integers in microseconds (cache expiries and server clocks in seconds), strings are ASCII, dictionaries are
  association lists in insertion order. Whatever is not code of the repository is a parameter, with what is
  relied on of it as a named hypothesis and an instance that satisfies it: the servers and their clients,
  sha256 and uuid5, the JSON printer and pydantic's dump and load, the ISO printer and reader, the sorted list package, the nearest-row
  choice of an engine, the embedder, the routing package with its token codec, the scheduling of task groups, clocks and id supplies.

  Bounds. The eviction loop of the short-term store and the worklist of the boot order are partial
  functions with a proof that they return. The chain of base classes is followed for five steps,
  the depth of the tree. The compare-and-swap loop has the attempts the configuration gives it, and a writer with
  n attempts is done after 2 n + 1 of its own steps. The construction of a warm model is run for six steps, the
  length of its longest course. No other definition has fuel.

  Not modelled. Retries, timeouts and locks around single store calls belong to tenacity and asyncio; operations under a lock are
  single steps. Spans, histograms and the objects of telemetry packages are left out. Chroma creates an
  empty collection on a search, which nothing observes. Rows that a full cache evicts, and the expiry of a
  recency list between two steps of a writer, are not represented. Reads through the facade leave out the pruning of expired
  rows. Protocol classes, re-exports, classes of fields only, the adapter objects of the routing package and the
  connection set-up of the migration tool carry no logic to model.
\<close>

end
